(* ===== verification/Prelude.thy ===== *)
theory Prelude
  imports Main "HOL-Library.Char_ord" "HOL-Library.List_Lexorder" "HOL-Library.Sublist"
begin

text \<open>
  Shared vocabulary of the development.

  A Go string is a list of bytes, \<^typ>\<open>string\<close>.  The functions of the Go package
  \<^verbatim>\<open>strings\<close> the sources call are defined here once: \<open>trim_space\<close> is
  \<^verbatim>\<open>strings.TrimSpace\<close> on the UTF-8 encodings of the code points
  \<^verbatim>\<open>unicode.IsSpace\<close> accepts, \<open>to_lower\<close> and \<open>equal_fold\<close> fold the ASCII letters
  (a byte outside ASCII is left as it is), \<open>str_contains\<close>, \<open>split_on\<close> and \<open>join\<close> are
  \<^verbatim>\<open>Contains\<close>, \<^verbatim>\<open>Split\<close> on one byte and \<^verbatim>\<open>Join\<close>, and \<open>itoa\<close> is
  \<^verbatim>\<open>strconv.Itoa\<close>.  Sorting is bytewise, as \<^verbatim>\<open>sort.Strings\<close> is.

  A timestamp field holds an RFC3339 text.  \<open>stamp\<close> keeps what the code can observe of it:
  empty, the text of an instant (in nanoseconds, formatted to the second), or a non-empty text
  that does not parse.
\<close>

named_theorems str_simps \<open>simplification of the string functions\<close>
named_theorems spec_defs \<open>unfolding of the predicates the properties are stated with\<close>

section \<open>Lists updated in place\<close>

text \<open>The loop shape \<open>for i := range xs { if p(xs[i]) { xs[i] = f(xs[i]); return } }\<close>.\<close>

fun map_first :: "('a \<Rightarrow> bool) \<Rightarrow> ('a \<Rightarrow> 'a) \<Rightarrow> 'a list \<Rightarrow> 'a list" where
  "map_first p f [] = []"
| "map_first p f (x # xs) = (if p x then f x # xs else x # map_first p f xs)"

lemma length_map_first [simp]: "length (map_first p f xs) = length xs"
  by (induction xs) auto

lemma map_first_none [simp]: "\<forall>x\<in>set xs. \<not> p x \<Longrightarrow> map_first p f xs = xs"
  by (induction xs) auto

lemma map_map_first:
  "(\<And>x. p x \<Longrightarrow> g (f x) = g x) \<Longrightarrow> map g (map_first p f xs) = map g xs"
  by (induction xs) auto

lemma find_map_first:
  "find p xs = Some x \<Longrightarrow> p (f x) \<Longrightarrow> find p (map_first p f xs) = Some (f x)"
  by (induction xs) (auto split: if_splits)

lemma find_SomeD: "find p xs = Some x \<Longrightarrow> x \<in> set xs \<and> p x"
  by (induction xs) (auto split: if_splits)

lemma find_NoneD: "find p xs = None \<longleftrightarrow> (\<forall>x\<in>set xs. \<not> p x)"
  by (induction xs) auto

lemma set_map_first_subset: "set (map_first p f xs) \<subseteq> set xs \<union> f ` {x \<in> set xs. p x}"
  by (induction xs) auto

lemma map_first_append:
  "map_first p f (xs @ ys) =
     (if \<exists>x\<in>set xs. p x then map_first p f xs @ ys else xs @ map_first p f ys)"
  by (induction xs) auto

text \<open>Keep the last \<open>n\<close> elements: the bound the logs are trimmed to.\<close>

definition last_n :: "nat \<Rightarrow> 'a list \<Rightarrow> 'a list" where
  "last_n n xs = drop (length xs - n) xs"

lemma length_last_n [simp]: "length (last_n n xs) = min n (length xs)"
  by (simp add: last_n_def)

lemma last_n_id [simp]: "length xs \<le> n \<Longrightarrow> last_n n xs = xs"
  by (simp add: last_n_def)

lemma last_n_snoc: "0 < n \<Longrightarrow> last_n n (xs @ [x]) \<noteq> [] \<and> last (last_n n (xs @ [x])) = x"
  by (auto simp: last_n_def last_drop)

lemma set_last_n: "set (last_n n xs) \<subseteq> set xs"
  by (auto simp: last_n_def dest: in_set_dropD)

text \<open>Keep the first occurrence of every element, as the \<open>seen\<close>-set loops of the code do.\<close>

fun dedup_acc :: "'a list \<Rightarrow> 'a list \<Rightarrow> 'a list" where
  "dedup_acc seen [] = []"
| "dedup_acc seen (x # xs) =
     (if x \<in> set seen then dedup_acc seen xs else x # dedup_acc (x # seen) xs)"

definition dedup :: "'a list \<Rightarrow> 'a list" where
  "dedup xs = dedup_acc [] xs"

lemma set_dedup_acc: "set (dedup_acc seen xs) = set xs - set seen"
  by (induction seen xs rule: dedup_acc.induct) auto

lemma distinct_dedup_acc: "distinct (dedup_acc seen xs)"
  by (induction seen xs rule: dedup_acc.induct) (auto simp: set_dedup_acc)

lemma set_dedup [simp]: "set (dedup xs) = set xs"
  by (simp add: dedup_def set_dedup_acc)

lemma distinct_dedup [simp]: "distinct (dedup xs)"
  by (simp add: dedup_def distinct_dedup_acc)

lemma dedup_acc_id: "distinct xs \<Longrightarrow> set xs \<inter> set seen = {} \<Longrightarrow> dedup_acc seen xs = xs"
  by (induction seen xs rule: dedup_acc.induct) auto

lemma dedup_id [simp]: "distinct xs \<Longrightarrow> dedup xs = xs"
  by (simp add: dedup_def dedup_acc_id)

section \<open>Strings\<close>

text \<open>The encodings of the code points \<^verbatim>\<open>unicode.IsSpace\<close> accepts.\<close>

definition ws_units :: "string list" where
  "ws_units =
     [[CHR 0x20], [CHR 0x0A], [CHR 0x09], [CHR 0x0D], [CHR 0x0B], [CHR 0x0C],
      [CHR 0xC2, CHR 0x85], [CHR 0xC2, CHR 0xA0], [CHR 0xE1, CHR 0x9A, CHR 0x80],
      [CHR 0xE2, CHR 0x80, CHR 0x80], [CHR 0xE2, CHR 0x80, CHR 0x81],
      [CHR 0xE2, CHR 0x80, CHR 0x82], [CHR 0xE2, CHR 0x80, CHR 0x83],
      [CHR 0xE2, CHR 0x80, CHR 0x84], [CHR 0xE2, CHR 0x80, CHR 0x85],
      [CHR 0xE2, CHR 0x80, CHR 0x86], [CHR 0xE2, CHR 0x80, CHR 0x87],
      [CHR 0xE2, CHR 0x80, CHR 0x88], [CHR 0xE2, CHR 0x80, CHR 0x89],
      [CHR 0xE2, CHR 0x80, CHR 0x8A], [CHR 0xE2, CHR 0x80, CHR 0xA8],
      [CHR 0xE2, CHR 0x80, CHR 0xA9], [CHR 0xE2, CHR 0x80, CHR 0xAF],
      [CHR 0xE2, CHR 0x81, CHR 0x9F], [CHR 0xE3, CHR 0x80, CHR 0x80]]"

definition head_unit :: "string list \<Rightarrow> string \<Rightarrow> string option" where
  "head_unit us s = find (\<lambda>u. u \<noteq> [] \<and> prefix u s) us"

function strip_units :: "string list \<Rightarrow> string \<Rightarrow> string" where
  "strip_units us s =
     (case head_unit us s of None \<Rightarrow> s | Some u \<Rightarrow> strip_units us (drop (length u) s))"
  by pat_completeness auto
termination
  by (relation "measure (\<lambda>(us, s). length s)")
    (auto simp: head_unit_def prefix_def dest!: find_SomeD)

declare strip_units.simps [simp del]

definition trim_left :: "string \<Rightarrow> string" where
  "trim_left s = strip_units ws_units s"

definition trim_right :: "string \<Rightarrow> string" where
  "trim_right s = rev (strip_units (map rev ws_units) (rev s))"

definition trim_space :: "string \<Rightarrow> string" where
  "trim_space s = trim_right (trim_left s)"

lemma head_unit_Nil [simp]: "head_unit us [] = None"
  by (auto simp: head_unit_def find_NoneD)

lemma strip_units_Nil [simp]: "strip_units us [] = []"
  by (simp add: strip_units.simps)

lemma head_unit_strip: "head_unit us (strip_units us s) = None"
proof (induction us s rule: strip_units.induct)
  case (1 us s)
  then show ?case
    by (subst strip_units.simps) (cases "head_unit us s"; simp)
qed

lemma strip_units_id: "head_unit us s = None \<Longrightarrow> strip_units us s = s"
  by (subst strip_units.simps) simp

lemma strip_units_suffix: "suffix (strip_units us s) s"
proof (induction us s rule: strip_units.induct)
  case (1 us s)
  show ?case
  proof (cases "head_unit us s")
    case None
    then show ?thesis by (simp add: strip_units_id)
  next
    case (Some u)
    then have "suffix (strip_units us (drop (length u) s)) (drop (length u) s)" by (rule 1)
    then show ?thesis
      using Some by (subst strip_units.simps) (simp add: suffix_order.trans [OF _ suffix_drop])
  qed
qed

lemma head_unit_prefix_mono: "head_unit us s = None \<Longrightarrow> prefix r s \<Longrightarrow> head_unit us r = None"
  by (auto simp: head_unit_def find_NoneD dest: prefix_order.trans)

lemma trim_right_prefix: "prefix (trim_right s) s"
  using strip_units_suffix [of "map rev ws_units" "rev s"]
  by (simp add: trim_right_def suffix_to_prefix)

lemma trim_left_head: "head_unit ws_units (trim_left s) = None"
  by (simp add: trim_left_def head_unit_strip)

lemma trim_right_id: "trim_right (trim_right s) = trim_right s"
  by (simp add: trim_right_def strip_units_id head_unit_strip)

lemma trim_space_idem [simp, str_simps]: "trim_space (trim_space s) = trim_space s"
proof -
  have "head_unit ws_units (trim_right (trim_left s)) = None"
    by (rule head_unit_prefix_mono [OF trim_left_head trim_right_prefix])
  then have "trim_left (trim_right (trim_left s)) = trim_right (trim_left s)"
    by (simp add: trim_left_def strip_units_id)
  then show ?thesis by (simp add: trim_space_def trim_right_id)
qed

lemma trim_space_Nil [simp, str_simps]: "trim_space [] = []"
  by (simp add: trim_space_def trim_left_def trim_right_def)

lemma length_trim_space: "length (trim_space s) \<le> length s"
proof -
  have "length (trim_right (trim_left s)) \<le> length (trim_left s)"
    by (rule prefix_length_le [OF trim_right_prefix])
  also have "\<dots> \<le> length s"
    by (simp add: trim_left_def suffix_length_le strip_units_suffix)
  finally show ?thesis by (simp add: trim_space_def)
qed

text \<open>ASCII case folding.\<close>

definition lower_char :: "char \<Rightarrow> char" where
  "lower_char c = (let n = (of_char c :: nat) in if 65 \<le> n \<and> n \<le> 90 then char_of (n + 32) else c)"

definition to_lower :: "string \<Rightarrow> string" where
  "to_lower s = map lower_char s"

definition equal_fold :: "string \<Rightarrow> string \<Rightarrow> bool" where
  "equal_fold a b \<longleftrightarrow> to_lower a = to_lower b"

lemma lower_char_idem [simp]: "lower_char (lower_char c) = lower_char c"
proof -
  have "(of_char (char_of (of_char c + (32::nat)) :: char) :: nat) = of_char c + 32"
    if "(of_char c :: nat) \<le> 90"
    using that by (simp add: of_char_of)
  then show ?thesis by (auto simp: lower_char_def Let_def)
qed

lemma to_lower_idem [simp, str_simps]: "to_lower (to_lower s) = to_lower s"
  by (simp add: to_lower_def)

lemma to_lower_Nil [simp, str_simps]: "to_lower [] = []"
  by (simp add: to_lower_def)

lemma to_lower_eq_Nil [simp, str_simps]: "to_lower s = [] \<longleftrightarrow> s = []"
  by (simp add: to_lower_def)

lemma to_lower_append: "to_lower (a @ b) = to_lower a @ to_lower b"
  by (simp add: to_lower_def)

lemma equal_fold_refl [simp]: "equal_fold a a"
  by (simp add: equal_fold_def)

lemma equal_fold_sym: "equal_fold a b \<longleftrightarrow> equal_fold b a"
  by (auto simp: equal_fold_def)

fun str_contains :: "string \<Rightarrow> string \<Rightarrow> bool" where
  "str_contains [] sub = (sub = [])"
| "str_contains (c # cs) sub = (prefix sub (c # cs) \<or> str_contains cs sub)"

lemma str_contains_sublist: "str_contains s sub \<longleftrightarrow> sublist sub s"
  by (induction s) (auto simp: sublist_Cons_right)

definition trim_prefix :: "string \<Rightarrow> string \<Rightarrow> string" where
  "trim_prefix s p = (if prefix p s then drop (length p) s else s)"

fun split_on :: "char \<Rightarrow> string \<Rightarrow> string list" where
  "split_on d [] = [[]]"
| "split_on d (c # cs) =
     (if c = d then [] # split_on d cs
      else (case split_on d cs of [] \<Rightarrow> [[c]] | w # ws \<Rightarrow> (c # w) # ws))"

fun join :: "string \<Rightarrow> string list \<Rightarrow> string" where
  "join sep [] = []"
| "join sep [s] = s"
| "join sep (s # t # ts) = s @ sep @ join sep (t # ts)"

lemma split_on_not_Nil [simp]: "split_on d s \<noteq> []"
  by (induction s) (auto split: list.splits)

lemma join_split_on: "join [d] (split_on d s) = s"
proof (induction s)
  case Nil
  then show ?case by simp
next
  case (Cons c cs)
  obtain w ws where "split_on d cs = w # ws" by (cases "split_on d cs") auto
  with Cons show ?case by (cases ws) auto
qed

definition replace_char :: "char \<Rightarrow> string \<Rightarrow> string \<Rightarrow> string" where
  "replace_char c r s = concat (map (\<lambda>x. if x = c then r else [x]) s)"

fun nat_digits :: "nat \<Rightarrow> string" where
  "nat_digits n =
     (if n < 10 then [char_of (48 + n)] else nat_digits (n div 10) @ [char_of (48 + n mod 10)])"

declare nat_digits.simps [simp del]

definition itoa :: "int \<Rightarrow> string" where
  "itoa i = (if i < 0 then ''-'' @ nat_digits (nat (- i)) else nat_digits (nat i))"

definition newline :: string where
  "newline = [CHR 0x0A]"

text \<open>\<^verbatim>\<open>strconv.Quote\<close>, the verb \<^verbatim>\<open>%q\<close>, on texts whose bytes outside ASCII are printable
  code points.\<close>

definition hex_digit :: "nat \<Rightarrow> char" where
  "hex_digit n = (if n < 10 then char_of (48 + n) else char_of (87 + n))"

definition quote_char :: "char \<Rightarrow> string" where
  "quote_char c =
     (let n = (of_char c :: nat); bs = CHR 0x5C in
        if n = 0x22 \<or> n = 0x5C then [bs, c]
        else if n = 7 then [bs, CHR ''a''] else if n = 8 then [bs, CHR ''b'']
        else if n = 12 then [bs, CHR ''f''] else if n = 10 then [bs, CHR ''n'']
        else if n = 13 then [bs, CHR ''r''] else if n = 9 then [bs, CHR ''t'']
        else if n = 11 then [bs, CHR ''v'']
        else if n < 32 \<or> n = 127 then [bs, CHR ''x'', hex_digit (n div 16), hex_digit (n mod 16)]
        else [c])"

definition go_quote :: "string \<Rightarrow> string" where
  "go_quote s = [CHR 0x22] @ concat (map quote_char s) @ [CHR 0x22]"

section \<open>Timestamps\<close>

datatype stamp = NoStamp | At int | Junk string

definition nanos_per_second :: int where
  "nanos_per_second = 1000000000"

text \<open>\<^verbatim>\<open>t.UTC().Format(time.RFC3339)\<close>: the fraction of the second is dropped.\<close>

definition rfc3339 :: "int \<Rightarrow> stamp" where
  "rfc3339 t = At (t - t mod nanos_per_second)"

text \<open>\<^verbatim>\<open>time.Parse(time.RFC3339, s)\<close>, None for the error.\<close>

fun parse_stamp :: "stamp \<Rightarrow> int option" where
  "parse_stamp NoStamp = None"
| "parse_stamp (At t) = Some t"
| "parse_stamp (Junk _) = None"

lemma parse_rfc3339 [simp]: "parse_stamp (rfc3339 t) = Some (t - t mod nanos_per_second)"
  by (simp add: rfc3339_def)

lemma rfc3339_le: "parse_stamp (rfc3339 t) = Some u \<Longrightarrow> u \<le> t \<and> t < u + nanos_per_second"
  by (auto simp: nanos_per_second_def algebra_simps)

lemma rfc3339_not_NoStamp [simp]: "rfc3339 t \<noteq> NoStamp"
  by (simp add: rfc3339_def)

end
