(* ===== verification/LifecycleTable.thy ===== *)
theory LifecycleTable
  imports Prelude
begin

text \<open>
  The tables of \<^verbatim>\<open>src/internal/team/broker_lifecycle_transition.go\<close>: the lifecycle states, the
  forward map from a state to the legacy \<open>(pipelineStage, reviewState, status, blocked)\<close> row,
  the display stage, the dispatch gate and the migration map back from a legacy tuple.  The
  lemmas compare the two maps: which states survive the way out and back.
\<close>

section \<open>States\<close>

text \<open>\<open>LsUnset\<close> is the empty string (a task persisted before the field existed), \<open>LsOther\<close> any
  text that is none of the constants.\<close>

datatype lifecycle =
    LsUnset | LsUnknown | LsIntake | LsReady | LsRunning | LsReview | LsDecision | LsBlocked
  | LsQueuedBehindOwner | LsChangesRequested | LsApproved | LsRejected | LsDrafting | LsPlanning
  | LsArchived | LsOther string

fun state_name :: "lifecycle \<Rightarrow> string" where
  "state_name LsUnset = ''''"
| "state_name LsUnknown = ''unknown''"
| "state_name LsIntake = ''intake''"
| "state_name LsReady = ''ready''"
| "state_name LsRunning = ''running''"
| "state_name LsReview = ''review''"
| "state_name LsDecision = ''decision''"
| "state_name LsBlocked = ''blocked''"
| "state_name LsQueuedBehindOwner = ''queued_behind_owner''"
| "state_name LsChangesRequested = ''changes_requested''"
| "state_name LsApproved = ''approved''"
| "state_name LsRejected = ''rejected''"
| "state_name LsDrafting = ''drafting''"
| "state_name LsPlanning = ''planning''"
| "state_name LsArchived = ''archived''"
| "state_name (LsOther s) = s"

definition canonical_states :: "lifecycle list" where
  "canonical_states =
     [LsDrafting, LsIntake, LsReady, LsPlanning, LsRunning, LsReview, LsDecision, LsBlocked,
      LsQueuedBehindOwner, LsChangesRequested, LsApproved, LsRejected, LsArchived]"

definition named_states :: "lifecycle list" where
  "named_states = LsUnset # LsUnknown # canonical_states"

definition state_of_name :: "string \<Rightarrow> lifecycle" where
  "state_of_name s =
     (case find (\<lambda>l. state_name l = s) named_states of Some l \<Rightarrow> l | None \<Rightarrow> LsOther s)"

definition normalize_legacy_state_name :: "string \<Rightarrow> lifecycle" where
  "normalize_legacy_state_name s =
     (if to_lower (trim_space s) = ''merged'' then LsApproved
      else if to_lower (trim_space s) = ''blocked_on_pr_merge'' then LsBlocked
      else state_of_name s)"

definition is_executable :: "lifecycle \<Rightarrow> bool" where
  "is_executable s \<longleftrightarrow> s = LsRunning \<or> s = LsApproved \<or> s = LsPlanning"

definition is_pre_execution :: "lifecycle \<Rightarrow> bool" where
  "is_pre_execution s \<longleftrightarrow>
     s \<in> {LsDrafting, LsIntake, LsReady, LsQueuedBehindOwner, LsPlanning}"

section \<open>The forward map\<close>

record derived_row =
  dr_stage :: string
  dr_review :: string
  dr_status :: string
  dr_blocked :: bool

definition mk_row :: "string \<Rightarrow> string \<Rightarrow> string \<Rightarrow> bool \<Rightarrow> derived_row" where
  "mk_row p r s b = \<lparr> dr_stage = p, dr_review = r, dr_status = s, dr_blocked = b \<rparr>"

fun derived_fields_for :: "lifecycle \<Rightarrow> derived_row option" where
  "derived_fields_for LsDrafting = Some (mk_row ''draft'' ''pending_review'' ''open'' False)"
| "derived_fields_for LsPlanning = Some (mk_row ''plan'' ''pending_review'' ''in_progress'' False)"
| "derived_fields_for LsIntake = Some (mk_row ''triage'' ''pending_review'' ''open'' False)"
| "derived_fields_for LsReady = Some (mk_row ''triage'' ''pending_review'' ''open'' False)"
| "derived_fields_for LsRunning = Some (mk_row ''implement'' ''pending_review'' ''in_progress'' False)"
| "derived_fields_for LsReview = Some (mk_row ''review'' ''ready_for_review'' ''in_progress'' False)"
| "derived_fields_for LsDecision = Some (mk_row ''review'' ''ready_for_review'' ''in_progress'' False)"
| "derived_fields_for LsBlocked = Some (mk_row ''review'' ''ready_for_review'' ''blocked'' True)"
| "derived_fields_for LsQueuedBehindOwner = Some (mk_row ''triage'' ''pending_review'' ''open'' True)"
| "derived_fields_for LsChangesRequested =
     Some (mk_row ''implement'' ''pending_review'' ''in_progress'' False)"
| "derived_fields_for LsApproved = Some (mk_row ''ship'' ''approved'' ''done'' False)"
| "derived_fields_for LsRejected = Some (mk_row ''review'' ''rejected'' ''rejected'' True)"
| "derived_fields_for LsArchived = Some (mk_row ''archived'' ''approved'' ''archived'' False)"
| "derived_fields_for _ = None"

datatype stage =
  StageScheduled | StageBacklog | StageInProgress | StageBlocked | StageNeedsHuman | StageDone
| StageArchive

fun lifecycle_stage_for :: "lifecycle \<Rightarrow> stage" where
  "lifecycle_stage_for LsDrafting = StageBacklog"
| "lifecycle_stage_for LsIntake = StageBacklog"
| "lifecycle_stage_for LsReady = StageBacklog"
| "lifecycle_stage_for LsUnknown = StageBacklog"
| "lifecycle_stage_for LsPlanning = StageInProgress"
| "lifecycle_stage_for LsRunning = StageInProgress"
| "lifecycle_stage_for LsReview = StageInProgress"
| "lifecycle_stage_for LsChangesRequested = StageInProgress"
| "lifecycle_stage_for LsBlocked = StageBlocked"
| "lifecycle_stage_for LsQueuedBehindOwner = StageBlocked"
| "lifecycle_stage_for LsDecision = StageNeedsHuman"
| "lifecycle_stage_for LsApproved = StageDone"
| "lifecycle_stage_for LsArchived = StageArchive"
| "lifecycle_stage_for LsRejected = StageArchive"
| "lifecycle_stage_for _ = StageBacklog"

section \<open>The migration map\<close>

text \<open>The key is \<open>(pipelineStage, reviewState, status, blocked)\<close>.\<close>

type_synonym legacy_key = "string \<times> string \<times> string \<times> bool"

definition lifecycle_migration_map :: "(legacy_key \<times> lifecycle) list" where
  "lifecycle_migration_map =
    [((''draft'', ''pending_review'', ''open'', False), LsDrafting),
     ((''triage'', ''pending_review'', ''open'', False), LsReady),
     ((''implement'', ''pending_review'', ''in_progress'', False), LsRunning),
     ((''review'', ''ready_for_review'', ''in_progress'', False), LsReview),
     ((''review'', ''ready_for_review'', ''blocked'', True), LsBlocked),
     ((''triage'', ''pending_review'', ''open'', True), LsQueuedBehindOwner),
     ((''ship'', ''approved'', ''done'', False), LsApproved),
     ((''review'', ''rejected'', ''rejected'', True), LsRejected),
     ((''plan'', ''pending_review'', ''in_progress'', False), LsPlanning),
     ((''implement'', ''changes_requested'', ''in_progress'', False), LsChangesRequested),
     (('''', '''', ''blocked'', True), LsBlocked),
     (('''', '''', ''blocked'', False), LsBlocked),
     ((''implement'', ''pending_review'', ''blocked'', True), LsBlocked),
     ((''implement'', ''pending_review'', ''blocked'', False), LsBlocked),
     ((''review'', ''ready_for_review'', ''blocked'', False), LsBlocked),
     (('''', '''', ''open'', False), LsReady),
     (('''', '''', ''open'', True), LsQueuedBehindOwner),
     (('''', '''', ''in_progress'', False), LsRunning),
     (('''', '''', ''review'', False), LsReview),
     (('''', '''', ''done'', False), LsApproved),
     (('''', '''', ''completed'', False), LsApproved),
     (('''', '''', ''canceled'', False), LsApproved),
     (('''', '''', ''cancelled'', False), LsApproved),
     (('''', '''', ''archived'', False), LsArchived),
     ((''archived'', ''approved'', ''archived'', False), LsArchived)]"

definition norm_field :: "string \<Rightarrow> string" where
  "norm_field s = to_lower (trim_space s)"

definition derive_from_legacy :: "string \<Rightarrow> string \<Rightarrow> string \<Rightarrow> bool \<Rightarrow> lifecycle" where
  "derive_from_legacy stg rv st blk =
     (case map_of lifecycle_migration_map (norm_field stg, norm_field rv, norm_field st, blk) of
        Some l \<Rightarrow> l
      | None \<Rightarrow> LsUnknown)"

definition is_terminal_status :: "string \<Rightarrow> bool" where
  "is_terminal_status s \<longleftrightarrow>
     norm_field s \<in> {''done'', ''completed'', ''canceled'', ''cancelled'', ''archived''}"

section \<open>Lemmas\<close>

lemma derived_fields_canonical: "derived_fields_for s \<noteq> None \<longleftrightarrow> s \<in> set canonical_states"
  by (cases s) (simp_all add: canonical_states_def)

lemma derived_fields_unset [simp]:
  "derived_fields_for LsUnset = None" "derived_fields_for LsUnknown = None"
  by simp_all

lemma state_name_inj: "s \<in> set named_states \<Longrightarrow> state_of_name (state_name s) = s"
proof -
  have "\<forall>s\<in>set named_states. state_of_name (state_name s) = s" by code_simp
  then show "s \<in> set named_states \<Longrightarrow> state_of_name (state_name s) = s" by blast
qed

lemma state_name_of_name: "state_name (state_of_name s) = s"
  by (auto simp: state_of_name_def split: option.splits dest: find_SomeD)

lemma migration_map_targets: "snd ` set lifecycle_migration_map \<subseteq> set canonical_states"
  by (simp add: lifecycle_migration_map_def canonical_states_def)

lemma derive_in_table:
  "derive_from_legacy p r s b \<in> set canonical_states \<union> {LsUnknown}"
proof (cases "map_of lifecycle_migration_map (norm_field p, norm_field r, norm_field s, b)")
  case (Some l)
  then have "l \<in> snd ` set lifecycle_migration_map" by (force dest: map_of_SomeD)
  then show ?thesis using Some migration_map_targets by (auto simp: derive_from_legacy_def)
qed (simp add: derive_from_legacy_def)

lemma derive_not_unset [simp]: "derive_from_legacy p r s b \<noteq> LsUnset"
  using derive_in_table [of p r s b] by (auto simp: canonical_states_def)

definition derive_row :: "derived_row \<Rightarrow> lifecycle" where
  "derive_row r = derive_from_legacy (dr_stage r) (dr_review r) (dr_status r) (dr_blocked r)"

definition back_state :: "lifecycle \<Rightarrow> lifecycle" where
  "back_state s =
     (if s = LsIntake then LsReady else if s = LsDecision then LsReview
      else if s = LsChangesRequested then LsRunning else s)"

end
