(* ===== verification/Slugs.thy ===== *)
theory Slugs
  imports Prelude
begin

text \<open>
  Slug normalisation of \<^verbatim>\<open>src/internal/team\<close>: \<open>normalize_channel_slug\<close> and
  \<open>normalize_actor_slug\<close> (\<^verbatim>\<open>broker_defaults.go\<close>), the rewriting of the legacy lead slug
  (\<^verbatim>\<open>lead_slug_migration.go\<close>), \<open>truncate_summary\<close> (\<^verbatim>\<open>broker_text.go\<close>) and the slug
  parts of scheduler jobs (\<^verbatim>\<open>broker_scheduler.go\<close>).

  The five regular expressions of the lead-slug migration are \<open>re_scan\<close> with a prefix and a
  suffix condition: scan left to right, at the first position where the prefix group, the
  literal \<open>ceo\<close> and the suffix group match, copy the groups around \<open>cos\<close> and go on after the
  match, as \<^verbatim>\<open>ReplaceAllString\<close> does.
\<close>

section \<open>The legacy lead slug\<close>

definition is_word :: "char \<Rightarrow> bool" where
  "is_word c \<longleftrightarrow>
     (let n = (of_char c :: nat) in
        (48 \<le> n \<and> n \<le> 57) \<or> (65 \<le> n \<and> n \<le> 90) \<or> (97 \<le> n \<and> n \<le> 122)
        \<or> c = CHR ''_'' \<or> c = CHR ''-'')"

definition legacy_lead_slug :: string where
  "legacy_lead_slug = ''ceo''"

definition lead_slug :: string where
  "lead_slug = ''cos''"

text \<open>The groups of the patterns, as lengths: \<open>pre_*\<close> lists the lengths of the first group to
  try, in order, at a position (with a flag for the start of the text), \<open>post_*\<close> gives the
  length of the second group after the literal.\<close>

definition pre_boundary :: "bool \<Rightarrow> string \<Rightarrow> nat list" where
  "pre_boundary start s =
     (if start then [0] else []) @ (case s of [] \<Rightarrow> [] | c # _ \<Rightarrow> if is_word c then [] else [1])"

definition pre_lit :: "string \<Rightarrow> bool \<Rightarrow> string \<Rightarrow> nat list" where
  "pre_lit p start s = (if prefix p s then [length p] else [])"

definition post_boundary :: "string \<Rightarrow> nat option" where
  "post_boundary s = (case s of [] \<Rightarrow> Some 0 | c # _ \<Rightarrow> if is_word c then None else Some 1)"

definition post_lit :: "string \<Rightarrow> string \<Rightarrow> nat option" where
  "post_lit p s = (if prefix p s then Some (length p) else None)"

definition post_colon_or_end :: "string \<Rightarrow> nat option" where
  "post_colon_or_end s =
     (case s of [] \<Rightarrow> Some 0 | c # _ \<Rightarrow> if c = CHR '':'' then Some 1 else None)"

definition re_match ::
  "(bool \<Rightarrow> string \<Rightarrow> nat list) \<Rightarrow> (string \<Rightarrow> nat option) \<Rightarrow> bool \<Rightarrow> string \<Rightarrow> (nat \<times> nat) option" where
  "re_match pre post start s =
     (case find (\<lambda>n. prefix legacy_lead_slug (drop n s) \<and> post (drop (n + 3) s) \<noteq> None)
             (pre start s) of
        None \<Rightarrow> None
      | Some n \<Rightarrow> Some (n, the (post (drop (n + 3) s))))"

function re_scan ::
  "(bool \<Rightarrow> string \<Rightarrow> nat list) \<Rightarrow> (string \<Rightarrow> nat option) \<Rightarrow> bool \<Rightarrow> string \<Rightarrow> string" where
  "re_scan pre post start s =
     (case s of
        [] \<Rightarrow> []
      | c # cs \<Rightarrow>
          (case re_match pre post start s of
             None \<Rightarrow> c # re_scan pre post False cs
           | Some (n, m) \<Rightarrow>
               take n s @ lead_slug @ take m (drop (n + 3) s)
                 @ re_scan pre post False (drop (n + 3 + m) s)))"
  by pat_completeness auto
termination by (relation "measure (\<lambda>(pre, post, start, s). length s)") auto

declare re_scan.simps [simp del]

definition lead_patterns :: "((bool \<Rightarrow> string \<Rightarrow> nat list) \<times> (string \<Rightarrow> nat option)) list" where
  "lead_patterns =
     [(pre_boundary, post_boundary), (pre_boundary, post_lit ''__''),
      (pre_lit ''__'', post_boundary), (pre_lit '':'', post_lit ''--''),
      (pre_lit ''--'', post_colon_or_end)]"

definition migrate_legacy_lead_slug :: "string \<Rightarrow> string" where
  "migrate_legacy_lead_slug s =
     (if \<not> str_contains s legacy_lead_slug then s
      else fold (\<lambda>(pre, post) t. re_scan pre post True (re_scan pre post True t)) lead_patterns s)"

lemma re_scan_not_Nil: "s \<noteq> [] \<Longrightarrow> re_scan pre post start s \<noteq> []"
  by (subst re_scan.simps) (auto simp: lead_slug_def split: list.splits option.splits)

lemma fold_scan_not_Nil:
  "s \<noteq> [] \<Longrightarrow>
     fold (\<lambda>(pre, post) t. re_scan pre post True (re_scan pre post True t)) ps s \<noteq> []"
proof (induction ps arbitrary: s)
  case (Cons p ps)
  show ?case
  proof (cases p)
    case (Pair pre post)
    have "re_scan pre post True (re_scan pre post True s) \<noteq> []"
      by (intro re_scan_not_Nil Cons.prems)
    then show ?thesis using Cons.IH Pair by simp
  qed
qed simp

lemma migrate_legacy_lead_slug_not_Nil: "s \<noteq> [] \<Longrightarrow> migrate_legacy_lead_slug s \<noteq> []"
  by (simp add: migrate_legacy_lead_slug_def fold_scan_not_Nil)

section \<open>Channel and actor slugs\<close>

definition nul :: char where
  "nul = CHR 0x00"

fun squeeze_double :: "string \<Rightarrow> string" where
  "squeeze_double (a # b # cs) =
     (if a = CHR ''_'' \<and> b = CHR ''_'' then nul # squeeze_double cs
      else a # squeeze_double (b # cs))"
| "squeeze_double s = s"

definition dash_under :: "string \<Rightarrow> string" where
  "dash_under s =
     replace_char nul ''__'' (replace_char (CHR ''_'') ''-'' (squeeze_double s))"

definition normalize_channel_slug :: "string \<Rightarrow> string" where
  "normalize_channel_slug slug =
     (let s = dropWhile (\<lambda>c. c = CHR ''#'') (to_lower (trim_space slug));
          t = dash_under (replace_char (CHR '' '') ''-'' s)
      in if t = [] then ''general'' else migrate_legacy_lead_slug t)"

definition normalize_actor_slug :: "string \<Rightarrow> string" where
  "normalize_actor_slug slug =
     (let s = replace_char (CHR ''_'') ''-''
                (replace_char (CHR '' '') ''-'' (to_lower (trim_space slug)))
      in if s = legacy_lead_slug then lead_slug else s)"

definition normalize_slug_part :: "string \<Rightarrow> string" where
  "normalize_slug_part s =
     replace_char (CHR ''_'') ''-'' (replace_char (CHR '' '') ''-'' (to_lower (trim_space s)))"

definition normalize_scheduler_slug :: "string list \<Rightarrow> string" where
  "normalize_scheduler_slug parts =
     join '':'' (filter (\<lambda>p. p \<noteq> []) (map normalize_slug_part parts))"

lemma normalize_channel_slug_not_Nil [simp]: "normalize_channel_slug s \<noteq> []"
  by (simp add: normalize_channel_slug_def Let_def migrate_legacy_lead_slug_not_Nil)

lemma normalize_channel_slug_empty: "normalize_channel_slug [] = ''general''"
  by (simp add: normalize_channel_slug_def dash_under_def replace_char_def Let_def)

section \<open>Text\<close>

text \<open>\<open>[]rune(s)\<close> has one rune for every byte that is not a continuation byte of a valid
  encoding; the texts here are valid UTF-8.\<close>

definition is_cont :: "char \<Rightarrow> bool" where
  "is_cont c \<longleftrightarrow> (let n = (of_char c :: nat) in 128 \<le> n \<and> n < 192)"

fun rune_count :: "string \<Rightarrow> nat" where
  "rune_count [] = 0"
| "rune_count (c # cs) = (if is_cont c then rune_count cs else Suc (rune_count cs))"

fun take_runes :: "nat \<Rightarrow> string \<Rightarrow> string" where
  "take_runes n [] = []"
| "take_runes n (c # cs) =
     (if is_cont c then c # take_runes n cs
      else if n = 0 then [] else c # take_runes (n - 1) cs)"

definition ellipsis :: string where
  "ellipsis = [CHR 0xE2, CHR 0x80, CHR 0xA6]"

definition truncate_summary :: "string \<Rightarrow> nat \<Rightarrow> string" where
  "truncate_summary s mx =
     (let t = trim_space s in
        if rune_count t \<le> mx then t
        else if mx \<le> 1 then ellipsis
        else take_runes (mx - 1) t @ ellipsis)"

lemma rune_count_append [simp]: "rune_count (a @ b) = rune_count a + rune_count b"
  by (induction a) auto

lemma rune_count_take_runes: "rune_count (take_runes n s) \<le> n"
  by (induction n s rule: take_runes.induct) auto

lemma rune_count_ellipsis [simp]: "rune_count ellipsis = 1"
  by (simp add: ellipsis_def is_cont_def)

lemma truncate_summary_bound: "1 \<le> mx \<Longrightarrow> rune_count (truncate_summary s mx) \<le> mx"
  using rune_count_take_runes [of "mx - 1" "trim_space s"]
  by (auto simp: truncate_summary_def Let_def)

text \<open>\<^verbatim>\<open>stringSliceContainsFold\<close>.\<close>

definition contains_fold :: "string list \<Rightarrow> string \<Rightarrow> bool" where
  "contains_fold values want \<longleftrightarrow>
     trim_space want \<noteq> [] \<and>
     (\<exists>v\<in>set values. equal_fold (trim_space v) (trim_space want))"

end
