(* ===== verification/ChannelStore.thy ===== *)
theory ChannelStore
  imports Prelude
begin

text \<open>
  The channel store of \<^verbatim>\<open>src/internal/channel\<close>: channels, memberships and messages, with three
  lookup tables that are kept beside the lists (\<^verbatim>\<open>store.go\<close>, \<^verbatim>\<open>message.go\<close>,
  \<^verbatim>\<open>cursor.go\<close>, \<^verbatim>\<open>migration.go\<close>, \<^verbatim>\<open>slug.go\<close>).

  A pointer into \<open>s.channels\<close> that a table holds is the index of the element.  The fresh UUIDs,
  the clock and the hex digest of SHA-1 are parameters.  The JSON codec is left out: what it
  carries over is the record \<open>store_json\<close>.
\<close>

section \<open>State\<close>

record chan =
  c_id :: string
  c_name :: string
  c_slug :: string
  c_type :: string
  c_created_by :: string
  c_created_at :: stamp
  c_updated_at :: stamp
  c_last_post_at :: stamp
  c_description :: string

record cmember =
  cm_channel :: string
  cm_slug :: string
  cm_role :: string
  cm_last_read :: string
  cm_last_processed :: string
  cm_mentions :: int
  cm_notify :: string
  cm_joined :: stamp

record cmessage =
  cg_id :: string
  cg_from :: string
  cg_channel :: string
  cg_kind :: string
  cg_content :: string
  cg_tagged :: "string list"
  cg_reply_to :: string
  cg_timestamp :: stamp

record store =
  st_channels :: "chan list"
  st_members :: "cmember list"
  st_messages :: "cmessage list"
  st_counter :: int
  st_by_id :: "string \<rightharpoonup> nat"
  st_by_slug :: "string \<rightharpoonup> nat"
  st_member_of :: "string \<Rightarrow> string list"

datatype store_error =
    SlugRequired | SlugExists string | ChannelNotFound string | EmptyMember | SelfDM string
  | GroupDMsDisabled | NotAMember string string

definition type_public :: string where "type_public = ''O''"
definition type_direct :: string where "type_direct = ''D''"
definition type_group :: string where "type_group = ''G''"

definition new_store :: store where
  "new_store =
     \<lparr> st_channels = [], st_members = [], st_messages = [], st_counter = 0,
       st_by_id = Map.empty, st_by_slug = Map.empty, st_member_of = (\<lambda>_. []) \<rparr>"

section \<open>The tables\<close>

fun index_from :: "(chan \<Rightarrow> string) \<Rightarrow> nat \<Rightarrow> chan list \<Rightarrow> (string \<rightharpoonup> nat) \<Rightarrow> (string \<rightharpoonup> nat)" where
  "index_from key i [] m = m"
| "index_from key i (c # cs) m =
     index_from key (Suc i) cs (if key c \<noteq> [] then m(key c \<mapsto> i) else m)"

fun member_table :: "cmember list \<Rightarrow> (string \<Rightarrow> string list) \<Rightarrow> (string \<Rightarrow> string list)" where
  "member_table [] f = f"
| "member_table (m # ms) f = member_table ms (f(cm_slug m := f (cm_slug m) @ [cm_channel m]))"

definition rebuild_indexes :: "store \<Rightarrow> store" where
  "rebuild_indexes s =
     s\<lparr> st_by_id := index_from c_id 0 (st_channels s) Map.empty,
        st_by_slug := index_from c_slug 0 (st_channels s) Map.empty,
        st_member_of := member_table (st_members s) (\<lambda>_. []) \<rparr>"

definition get_id :: "store \<Rightarrow> string \<Rightarrow> chan option" where
  "get_id s i = map_option (\<lambda>k. st_channels s ! k) (st_by_id s i)"

definition get_slug :: "store \<Rightarrow> string \<Rightarrow> chan option" where
  "get_slug s g = map_option (\<lambda>k. st_channels s ! k) (st_by_slug s g)"

section \<open>Slugs\<close>

definition direct_slug :: "string \<Rightarrow> string \<Rightarrow> string" where
  "direct_slug a b = (if b < a then b @ ''__'' @ a else a @ ''__'' @ b)"

definition group_slug :: "(string \<Rightarrow> string) \<Rightarrow> string list \<Rightarrow> string" where
  "group_slug sha1 members = sha1 (concat (sort members))"

definition migrate_dm_slug_string :: "string \<Rightarrow> string" where
  "migrate_dm_slug_string slug =
     (if prefix ''dm-'' slug then direct_slug ''human'' (trim_prefix slug ''dm-'') else slug)"

section \<open>Operations\<close>

definition add_member_locked :: "stamp \<Rightarrow> string \<Rightarrow> string \<Rightarrow> string \<Rightarrow> store \<Rightarrow> store" where
  "add_member_locked ts cid slug notify s =
     s\<lparr> st_members := st_members s @
          [\<lparr> cm_channel = cid, cm_slug = slug, cm_role = [], cm_last_read = [],
             cm_last_processed = [], cm_mentions = 0, cm_notify = notify, cm_joined = ts \<rparr>],
        st_member_of := (st_member_of s)(slug := st_member_of s slug @ [cid]) \<rparr>"

definition create :: "string \<Rightarrow> stamp \<Rightarrow> chan \<Rightarrow> store \<Rightarrow> store_error + chan option \<times> store" where
  "create uuid ts ch s =
     (if c_slug ch = [] then Inl SlugRequired
      else if st_by_slug s (c_slug ch) \<noteq> None then Inl (SlugExists (c_slug ch))
      else let ch1 = ch\<lparr> c_id := uuid, c_created_at := ts, c_updated_at := ts \<rparr>;
               s1 = rebuild_indexes (s\<lparr> st_channels := st_channels s @ [ch1] \<rparr>)
           in Inr (get_id s1 uuid, s1))"

definition list_channels :: "store \<Rightarrow> string \<Rightarrow> string \<Rightarrow> chan list" where
  "list_channels s ftype fmember =
     filter (\<lambda>ch. (ftype = [] \<or> c_type ch = ftype)
                 \<and> (fmember = [] \<or> c_id ch \<in> set (st_member_of s fmember)))
       (st_channels s)"

definition delete_channel :: "string \<Rightarrow> store \<Rightarrow> store_error + store" where
  "delete_channel i s =
     (case get_id s i of
        None \<Rightarrow> Inl (ChannelNotFound i)
      | Some ch \<Rightarrow>
          Inr (rebuild_indexes
            (s\<lparr> st_channels := filter (\<lambda>c. c_id c \<noteq> i) (st_channels s),
                st_members := filter (\<lambda>m. cm_channel m \<noteq> i) (st_members s) \<rparr>)))"

definition new_channel :: "string \<Rightarrow> stamp \<Rightarrow> string \<Rightarrow> string \<Rightarrow> string \<Rightarrow> string \<Rightarrow> chan" where
  "new_channel uuid ts name slug ty by =
     \<lparr> c_id = uuid, c_name = name, c_slug = slug, c_type = ty, c_created_by = by,
       c_created_at = ts, c_updated_at = ts, c_last_post_at = NoStamp, c_description = [] \<rparr>"

definition get_or_create_direct ::
  "string \<Rightarrow> stamp \<Rightarrow> string \<Rightarrow> string \<Rightarrow> store \<Rightarrow> store_error + chan option \<times> store" where
  "get_or_create_direct uuid ts a b s =
     (if a = [] \<or> b = [] then Inl EmptyMember
      else if a = b then Inl (SelfDM a)
      else (case get_slug s (direct_slug a b) of
              Some ch \<Rightarrow> Inr (Some ch, s)
            | None \<Rightarrow>
                let ch = new_channel uuid ts (''DM: '' @ a @ '' & '' @ b) (direct_slug a b) type_direct a;
                    s1 = s\<lparr> st_channels := st_channels s @ [ch] \<rparr>;
                    s2 = add_member_locked ts uuid b ''all'' (add_member_locked ts uuid a ''all'' s1);
                    s3 = rebuild_indexes s2
                in Inr (get_id s3 uuid, s3)))"

definition get_or_create_group ::
  "bool \<Rightarrow> (string \<Rightarrow> string) \<Rightarrow> string \<Rightarrow> stamp \<Rightarrow> string list \<Rightarrow> string \<Rightarrow> store \<Rightarrow>
     store_error + chan option \<times> store" where
  "get_or_create_group enabled sha1 uuid ts ms by s =
     (let slug = group_slug sha1 ms in
        case get_slug s slug of
          Some ch \<Rightarrow> Inr (Some ch, s)
        | None \<Rightarrow>
            if \<not> enabled then Inl GroupDMsDisabled
            else let ch = new_channel uuid ts ''Group DM'' slug type_group by;
                     s1 = s\<lparr> st_channels := st_channels s @ [ch] \<rparr>;
                     s2 = foldl (\<lambda>s m. add_member_locked ts uuid m ''all'' s) s1 ms;
                     s3 = rebuild_indexes s2
                 in Inr (get_id s3 uuid, s3))"

definition find_direct_by_members :: "string \<Rightarrow> string \<Rightarrow> store \<Rightarrow> chan option" where
  "find_direct_by_members a b s =
     (case get_slug s (direct_slug a b) of
        Some ch \<Rightarrow> if c_type ch = type_direct then Some ch else None
      | None \<Rightarrow> None)"

definition other_member :: "string \<Rightarrow> string \<Rightarrow> store \<Rightarrow> string option" where
  "other_member cid slug s =
     (case get_id s cid of
        Some ch \<Rightarrow>
          if c_type ch = type_direct
          then map_option cm_slug (find (\<lambda>m. cm_channel m = cid \<and> cm_slug m \<noteq> slug) (st_members s))
          else None
      | None \<Rightarrow> None)"

definition is_row :: "string \<Rightarrow> string \<Rightarrow> cmember \<Rightarrow> bool" where
  "is_row cid slug m \<longleftrightarrow> cm_channel m = cid \<and> cm_slug m = slug"

definition add_member :: "stamp \<Rightarrow> string \<Rightarrow> string \<Rightarrow> string \<Rightarrow> store \<Rightarrow> store_error + store" where
  "add_member ts cid slug notify s =
     (if st_by_id s cid = None then Inl (ChannelNotFound cid)
      else if \<exists>m\<in>set (st_members s). is_row cid slug m then Inr s
      else Inr (add_member_locked ts cid slug notify s))"

definition remove_member :: "string \<Rightarrow> string \<Rightarrow> store \<Rightarrow> store_error + store" where
  "remove_member cid slug s =
     (if \<exists>m\<in>set (st_members s). is_row cid slug m
      then Inr (s\<lparr> st_members := filter (\<lambda>m. \<not> is_row cid slug m) (st_members s),
                   st_member_of := (st_member_of s)(slug := filter (\<lambda>i. i \<noteq> cid) (st_member_of s slug)) \<rparr>)
      else Inl (NotAMember slug cid))"

definition members_of :: "string \<Rightarrow> store \<Rightarrow> cmember list" where
  "members_of cid s = filter (\<lambda>m. cm_channel m = cid) (st_members s)"

definition is_member :: "string \<Rightarrow> string \<Rightarrow> store \<Rightarrow> bool" where
  "is_member cid slug s \<longleftrightarrow> cid \<in> set (st_member_of s slug)"

definition is_member_by_slug :: "string \<Rightarrow> string \<Rightarrow> store \<Rightarrow> bool" where
  "is_member_by_slug cslug mslug s \<longleftrightarrow>
     (case get_slug s cslug of Some ch \<Rightarrow> c_id ch \<in> set (st_member_of s mslug) | None \<Rightarrow> False)"

definition member_channels :: "string \<Rightarrow> store \<Rightarrow> chan list" where
  "member_channels slug s = List.map_filter (get_id s) (st_member_of s slug)"

definition is_direct :: "string \<Rightarrow> store \<Rightarrow> bool" where
  "is_direct cid s \<longleftrightarrow> (case get_id s cid of Some ch \<Rightarrow> c_type ch = type_direct | None \<Rightarrow> False)"

definition is_group :: "string \<Rightarrow> store \<Rightarrow> bool" where
  "is_group cid s \<longleftrightarrow> (case get_id s cid of Some ch \<Rightarrow> c_type ch = type_group | None \<Rightarrow> False)"

definition is_direct_by_slug :: "string \<Rightarrow> store \<Rightarrow> bool" where
  "is_direct_by_slug g s \<longleftrightarrow> (case get_slug s g of Some ch \<Rightarrow> c_type ch = type_direct | None \<Rightarrow> False)"

definition other_member_by_slug :: "string \<Rightarrow> string \<Rightarrow> store \<Rightarrow> string option" where
  "other_member_by_slug cslug mslug s =
     (case get_slug s cslug of
        Some ch \<Rightarrow> if c_type ch = type_direct then other_member (c_id ch) mslug s else None
      | None \<Rightarrow> None)"

section \<open>Messages and cursors\<close>

definition append_cmessage :: "stamp \<Rightarrow> cmessage \<Rightarrow> store \<Rightarrow> store" where
  "append_cmessage ts m s =
     (let s1 = s\<lparr> st_messages := st_messages s @ [m] \<rparr> in
        case st_by_slug s (cg_channel m) of
          None \<Rightarrow> s1
        | Some k \<Rightarrow>
            s1\<lparr> st_channels := (st_channels s)[k :=
                  (st_channels s ! k)\<lparr> c_last_post_at := ts, c_updated_at := ts \<rparr>] \<rparr>)"

definition channel_messages :: "string \<Rightarrow> store \<Rightarrow> cmessage list" where
  "channel_messages g s = filter (\<lambda>m. cg_channel m = g) (st_messages s)"

definition thread_messages :: "string \<Rightarrow> string \<Rightarrow> store \<Rightarrow> cmessage list" where
  "thread_messages g tid s =
     filter (\<lambda>m. cg_channel m = g \<and> (cg_id m = tid \<or> cg_reply_to m = tid)) (st_messages s)"

definition next_message_id :: "store \<Rightarrow> string \<times> store" where
  "next_message_id s = (''msg-'' @ itoa (st_counter s + 1), s\<lparr> st_counter := st_counter s + 1 \<rparr>)"

definition bump :: "(cmember \<Rightarrow> bool) \<Rightarrow> store \<Rightarrow> store" where
  "bump p s =
     s\<lparr> st_members := map (\<lambda>m. if p m then m\<lparr> cm_mentions := cm_mentions m + 1 \<rparr> else m) (st_members s) \<rparr>"

definition increment_mentions :: "string \<Rightarrow> string \<Rightarrow> store \<Rightarrow> store" where
  "increment_mentions g sender s =
     (case get_slug s g of
        None \<Rightarrow> s
      | Some ch \<Rightarrow>
          if c_type ch \<noteq> type_direct \<and> c_type ch \<noteq> type_group then s
          else bump (\<lambda>m. cm_channel m = c_id ch \<and> cm_slug m \<noteq> sender) s)"

definition increment_mentions_tagged :: "string \<Rightarrow> string \<Rightarrow> string list \<Rightarrow> store \<Rightarrow> store" where
  "increment_mentions_tagged g sender tagged s =
     (case get_slug s g of
        None \<Rightarrow> s
      | Some ch \<Rightarrow>
          bump (\<lambda>m. cm_channel m = c_id ch \<and> cm_slug m \<noteq> sender \<and> cm_slug m \<in> set tagged) s)"

definition get_member :: "string \<Rightarrow> string \<Rightarrow> store \<Rightarrow> cmember option" where
  "get_member cid slug s = find (is_row cid slug) (st_members s)"

definition update_row ::
  "string \<Rightarrow> string \<Rightarrow> (cmember \<Rightarrow> cmember) \<Rightarrow> store \<Rightarrow> store_error + store" where
  "update_row cid slug f s =
     (if \<exists>m\<in>set (st_members s). is_row cid slug m
      then Inr (s\<lparr> st_members := map_first (is_row cid slug) f (st_members s) \<rparr>)
      else Inl (NotAMember slug cid))"

definition mark_read :: "string \<Rightarrow> string \<Rightarrow> string \<Rightarrow> store \<Rightarrow> store_error + store" where
  "mark_read cid slug mid = update_row cid slug (\<lambda>m. m\<lparr> cm_last_read := mid \<rparr>)"

definition mark_processed :: "string \<Rightarrow> string \<Rightarrow> string \<Rightarrow> store \<Rightarrow> store_error + store" where
  "mark_processed cid slug mid =
     update_row cid slug (\<lambda>m. m\<lparr> cm_last_processed := mid, cm_mentions := 0 \<rparr>)"

section \<open>Migration\<close>

definition proper_type :: "string \<Rightarrow> bool" where
  "proper_type t \<longleftrightarrow> t = type_direct \<or> t = type_group \<or> t = type_public"

definition relabel :: "string \<Rightarrow> string \<Rightarrow> cmessage list \<Rightarrow> cmessage list" where
  "relabel old new ms = map (\<lambda>m. if cg_channel m = old then m\<lparr> cg_channel := new \<rparr> else m) ms"

text \<open>One channel of the loop: the index, and the UUID it would draw.\<close>

definition migrate_one :: "stamp \<Rightarrow> nat \<Rightarrow> string \<Rightarrow> store \<times> bool \<Rightarrow> store \<times> bool" where
  "migrate_one ts i uuid sc =
     (let s = fst sc; ch = st_channels s ! i in
        if proper_type (c_type ch) \<and> c_id ch \<noteq> [] then sc
        else if prefix ''dm-'' (c_slug ch) then
          let bot = trim_prefix (c_slug ch) ''dm-''; new = direct_slug ''human'' bot;
              ch1 = ch\<lparr> c_id := uuid, c_type := type_direct, c_slug := new,
                       c_updated_at := (if c_updated_at ch = NoStamp then ts else c_updated_at ch) \<rparr>;
              s1 = s\<lparr> st_channels := (st_channels s)[i := ch1],
                      st_messages := relabel (c_slug ch) new (st_messages s) \<rparr>
          in (add_member_locked ts uuid bot ''all'' (add_member_locked ts uuid ''human'' ''all'' s1), True)
        else
          let ch1 = ch\<lparr> c_id := (if c_id ch = [] then uuid else c_id ch),
                       c_type := (if c_type ch = [] then type_public else c_type ch) \<rparr>
          in (s\<lparr> st_channels := (st_channels s)[i := ch1] \<rparr>,
              snd sc \<or> c_id ch = [] \<or> c_type ch = []))"

definition migrate_legacy_dm :: "stamp \<Rightarrow> (nat \<Rightarrow> string) \<Rightarrow> store \<Rightarrow> store \<times> bool" where
  "migrate_legacy_dm ts uuids s =
     (let r = foldl (\<lambda>sc i. migrate_one ts i (uuids i) sc) (s, False) [0..<length (st_channels s)]
      in if snd r then (rebuild_indexes (fst r), True) else r)"

section \<open>Persistence\<close>

record store_json =
  sj_channels :: "chan list"
  sj_members :: "cmember list"
  sj_messages :: "cmessage list"
  sj_counter :: int

definition marshal :: "store \<Rightarrow> store_json" where
  "marshal s =
     \<lparr> sj_channels = st_channels s, sj_members = st_members s, sj_messages = st_messages s,
       sj_counter = st_counter s \<rparr>"

definition unmarshal :: "store_json \<Rightarrow> store" where
  "unmarshal j =
     rebuild_indexes \<lparr> st_channels = sj_channels j, st_members = sj_members j,
       st_messages = sj_messages j, st_counter = sj_counter j, st_by_id = Map.empty,
       st_by_slug = Map.empty, st_member_of = (\<lambda>_. []) \<rparr>"

end
