(* ===== verification/LookupTable.thy ===== *)
theory LookupTable
  imports Prelude
begin

text \<open>
  The contract of a lookup table over a list of items: under the owner's invariant a hit is an
  item with that key, and every item whose key is not blank is found under it.  The clients of a
  table (the channel store's two indexes, the broker's task lookup) use the lemmas of the locale.
\<close>

locale lookup_table =
  fixes inv :: "'s \<Rightarrow> bool"
    and look :: "'s \<Rightarrow> 'k \<Rightarrow> 'v option"
    and items :: "'s \<Rightarrow> 'v list"
    and key :: "'v \<Rightarrow> 'k"
    and blank :: "'k \<Rightarrow> bool"
  assumes look_sound: "inv s \<Longrightarrow> look s k = Some v \<Longrightarrow> v \<in> set (items s) \<and> key v = k"
    and look_complete: "inv s \<Longrightarrow> v \<in> set (items s) \<Longrightarrow> \<not> blank (key v) \<Longrightarrow> look s (key v) \<noteq> None"
begin

lemma look_miss: "inv s \<Longrightarrow> look s k = None \<Longrightarrow> \<not> blank k \<Longrightarrow> k \<notin> key ` set (items s)"
  using look_complete by fastforce

lemma look_hit: "inv s \<Longrightarrow> k \<in> key ` set (items s) \<Longrightarrow> \<not> blank k \<Longrightarrow> \<exists>v. look s k = Some v \<and> key v = k"
  using look_complete look_sound by fastforce

lemma look_exact:
  assumes "inv s" "distinct (map key (items s))" "v \<in> set (items s)" "\<not> blank (key v)"
  shows "look s (key v) = Some v"
proof -
  obtain w where w: "look s (key v) = Some w" using look_complete assms by fastforce
  then have "w \<in> set (items s)" "key w = key v" using look_sound assms(1) by blast+
  then have "w = v" using assms(2,3) by (auto simp: distinct_map inj_on_def)
  then show ?thesis using w by simp
qed

end

end
