(* ===== verification/BrokerState.thy ===== *)
theory BrokerState
  imports LifecycleTable Slugs ChannelStore LookupTable
begin

text \<open>
  The state of the broker of \<^verbatim>\<open>src/internal/team\<close> that the task life cycle reads and
  writes, one record per Go struct (\<^verbatim>\<open>broker_types.go\<close>), and the logs every component
  appends to: the bounded action log (\<^verbatim>\<open>ledger.go\<close>), the bounded message log
  (\<^verbatim>\<open>broker_publish.go\<close>) and the watchdog alerts.

  \<open>env\<close> holds what an operation takes from outside: the clock, environment variables, the
  result of a git diff, the decoding of a manifest line, whether a write to disk succeeds.  The
  broker mutex makes every operation atomic, so an operation is a function of the state.  A
  pointer into \<open>b.tasks\<close> is the id of the task.
\<close>

section \<open>Records\<close>

record objection =
  ob_actor :: string
  ob_body :: string
  ob_at :: stamp
  ob_artifact_hash :: string

record human_note =
  hn_halt :: bool

record deliverable =
  dl_name :: string
  dl_format :: string

record definition_of_task =
  df_goal :: string
  df_deliverables :: "deliverable list"
  df_criteria :: "string list"
  df_access :: "string list"
  df_defined_at :: stamp

record verification =
  vf_kind :: string
  vf_spec :: string
  vf_required :: bool

record task =
  t_id :: string
  t_channel :: string
  t_title :: string
  t_details :: string
  t_owner :: string
  t_status :: string
  t_created_by :: string
  t_thread_id :: string
  t_task_type :: string
  t_pipeline_id :: string
  t_pipeline_stage :: string
  t_execution_mode :: string
  t_review_state :: string
  t_source_signal_id :: string
  t_source_decision_id :: string
  t_worktree_path :: string
  t_worktree_branch :: string
  t_depends_on :: "string list"
  t_blocked_on :: "string list"
  t_parent_issue_id :: string
  t_blocked :: bool
  t_lifecycle :: lifecycle
  t_reviewers :: "string list"
  t_tags :: "string list"
  t_review_started_at :: stamp
  t_review_timeout :: int
  t_due_at :: stamp
  t_follow_up_at :: stamp
  t_reminder_at :: stamp
  t_recheck_at :: stamp
  t_wiki_refs :: "string list"
  t_memory :: string
  t_verification :: "verification option"
  t_definition :: "definition_of_task option"
  t_artifact :: string
  t_changes :: "objection option"
  t_objection :: "objection option"
  t_note :: "human_note option"
  t_created_at :: stamp
  t_updated_at :: stamp
  t_completed_at :: stamp

record interview =
  r_id :: string
  r_status :: string
  r_channel :: string
  r_title :: string
  r_question :: string
  r_answered :: bool
  r_due_at :: stamp
  r_reminder_at :: stamp
  r_recheck_at :: stamp
  r_follow_up_at :: stamp

record watching =
  w_files :: "string list"
  w_wiki_paths :: "string list"
  w_tool_names :: "string list"
  w_task_tags :: "string list"

record member =
  m_slug :: string
  m_built_in :: bool
  m_watching :: watching

record grade =
  g_reviewer :: string
  g_severity :: string
  g_reasoning :: string
  g_submitted_at :: "int option"

record packet =
  p_task_id :: string
  p_lifecycle :: lifecycle
  p_grades :: "grade list"
  p_updated_at :: "int option"

record message =
  msg_id :: string
  msg_from :: string
  msg_channel :: string
  msg_kind :: string
  msg_title :: string
  msg_content :: string
  msg_tagged :: "string list"
  msg_timestamp :: stamp
  msg_reply_to :: string
  msg_source_task :: string
  msg_payload :: "(string \<times> string) list"

record action_log =
  a_id :: string
  a_kind :: string
  a_source :: string
  a_channel :: string
  a_actor :: string
  a_summary :: string
  a_related_id :: string
  a_created_at :: stamp

record job =
  j_slug :: string
  j_kind :: string
  j_label :: string
  j_target_type :: string
  j_target_id :: string
  j_channel :: string
  j_provider :: string
  j_schedule_expr :: string
  j_workflow_key :: string
  j_skill_name :: string
  j_interval_minutes :: int
  j_due_at :: stamp
  j_next_run :: stamp
  j_last_run :: stamp
  j_status :: string
  j_payload :: string

record alert =
  al_target_type :: string
  al_target_id :: string
  al_channel :: string
  al_owner :: string
  al_status :: string
  al_updated_at :: stamp

record activity =
  ac_kind :: string
  ac_last_time :: stamp

record manifest_event =
  ev_type :: string
  ev_status :: string
  ev_tool_names :: "string list"

record team_channel =
  tc_slug :: string
  tc_name :: string
  tc_type :: string
  tc_description :: string
  tc_members :: "string list"
  tc_disabled :: "string list"
  tc_created_by :: string
  tc_created_at :: stamp
  tc_updated_at :: stamp
  tc_task_id :: string

record stream =
  s_slug :: string
  s_task_lines :: "string \<Rightarrow> string list"

record lifecycle_event =
  le_subkind :: string
  le_task_id :: string
  le_state :: lifecycle
  le_reviewer :: string
  le_severity :: string

record broker =
  b_tasks :: "task list"
  b_requests :: "interview list"
  b_members :: "member list"
  b_index :: "lifecycle \<rightharpoonup> string list"
  b_packets :: "string \<rightharpoonup> packet"
  b_packet_disk :: "string \<rightharpoonup> packet"
  b_timers :: "string set"
  b_messages :: "message list"
  b_counter :: int
  b_actions :: "action_log list"
  b_jobs :: "job list"
  b_watchdogs :: "alert list"
  b_activity :: "string \<rightharpoonup> activity"
  b_grades :: "string \<rightharpoonup> grade list"
  b_streams :: "stream list"
  b_events :: "lifecycle_event list"
  b_channels :: "team_channel list"
  b_store :: "store option"
  b_one_on_one :: "string option"

record env =
  e_now :: int
  e_max_messages :: "int option"
  e_git_diff :: "string \<Rightarrow> string \<Rightarrow> string option"
  e_decode_event :: "string \<Rightarrow> manifest_event option"
  e_packet_write :: "nat \<Rightarrow> string \<Rightarrow> packet \<Rightarrow> bool"
  e_follow_up_minutes :: int
  e_recheck_minutes :: int
  e_reminder_minutes :: int
  e_worktree_usable :: "string \<Rightarrow> bool"
  e_worktree_writable :: "string \<Rightarrow> bool"
  e_cleanup_worktree :: "string \<Rightarrow> string \<Rightarrow> bool"
  e_prepare_worktree :: "string \<Rightarrow> (string \<times> string) option"
  e_retention_days :: "int option"
  e_save :: "broker \<Rightarrow> bool"
  e_memory_sync :: "task \<Rightarrow> string"
  e_memory_gate :: "task \<Rightarrow> string \<Rightarrow> string \<Rightarrow> bool \<Rightarrow> string option"
  e_derive_check :: "definition_of_task \<Rightarrow> verification option"

definition now_stamp :: "env \<Rightarrow> stamp" where
  "now_stamp e = rfc3339 (e_now e)"

lemma now_stamp_not_NoStamp [simp]: "now_stamp e \<noteq> NoStamp"
  by (simp add: now_stamp_def)

section \<open>Tasks by id\<close>

definition task_by_id :: "broker \<Rightarrow> string \<Rightarrow> task option" where
  "task_by_id b i = find (\<lambda>t. t_id t = i) (b_tasks b)"

text \<open>A write through the pointer the lookup returned.\<close>

definition set_task :: "string \<Rightarrow> (task \<Rightarrow> task) \<Rightarrow> broker \<Rightarrow> broker" where
  "set_task i f b = b\<lparr> b_tasks := map_first (\<lambda>t. t_id t = i) f (b_tasks b) \<rparr>"

definition task_ids :: "broker \<Rightarrow> string list" where
  "task_ids b = map t_id (b_tasks b)"

lemma task_by_id_Some: "task_by_id b i = Some t \<Longrightarrow> t \<in> set (b_tasks b) \<and> t_id t = i"
  by (auto simp: task_by_id_def dest: find_SomeD)

lemma task_by_id_None: "task_by_id b i = None \<longleftrightarrow> i \<notin> set (task_ids b)"
  by (auto simp: task_by_id_def find_NoneD task_ids_def)

lemma task_ids_set_task [simp]: "(\<And>t. t_id (f t) = t_id t) \<Longrightarrow> task_ids (set_task i f b) = task_ids b"
  by (simp add: task_ids_def set_task_def map_map_first)

lemma set_task_same:
  "task_by_id b i = Some t \<Longrightarrow> (\<And>t. t_id (f t) = t_id t) \<Longrightarrow>
     task_by_id (set_task i f b) i = Some (f t)"
  by (auto simp: task_by_id_def set_task_def intro!: find_map_first dest: find_SomeD)

lemma find_map_first_other:
  "(\<And>t. t_id (f t) = t_id t) \<Longrightarrow> i \<noteq> j \<Longrightarrow>
     find (\<lambda>t. t_id t = j) (map_first (\<lambda>t. t_id t = i) f ts) = find (\<lambda>t. t_id t = j) ts"
  by (induction ts) auto

lemma set_task_other:
  "(\<And>t. t_id (f t) = t_id t) \<Longrightarrow> i \<noteq> j \<Longrightarrow> task_by_id (set_task i f b) j = task_by_id b j"
  by (simp add: task_by_id_def set_task_def find_map_first_other)

lemma set_task_sel [simp]:
  "b_requests (set_task i f b) = b_requests b" "b_members (set_task i f b) = b_members b"
  "b_index (set_task i f b) = b_index b" "b_packets (set_task i f b) = b_packets b"
  "b_packet_disk (set_task i f b) = b_packet_disk b" "b_timers (set_task i f b) = b_timers b"
  "b_messages (set_task i f b) = b_messages b" "b_counter (set_task i f b) = b_counter b"
  "b_actions (set_task i f b) = b_actions b" "b_jobs (set_task i f b) = b_jobs b"
  "b_watchdogs (set_task i f b) = b_watchdogs b" "b_activity (set_task i f b) = b_activity b"
  "b_grades (set_task i f b) = b_grades b" "b_streams (set_task i f b) = b_streams b"
  "b_events (set_task i f b) = b_events b" "b_channels (set_task i f b) = b_channels b"
  "b_store (set_task i f b) = b_store b" "b_one_on_one (set_task i f b) = b_one_on_one b"
  by (simp_all add: set_task_def)

interpretation tasks: lookup_table "\<lambda>b. True" task_by_id b_tasks t_id "\<lambda>_. False"
  by unfold_locales (auto simp: task_by_id_def find_NoneD dest: find_SomeD)

lemma task_by_id_cong: "b_tasks b' = b_tasks b \<Longrightarrow> task_by_id b' i = task_by_id b i"
  by (simp add: task_by_id_def)

lemma distinct_ids_find:
  "distinct (task_ids b) \<Longrightarrow> t \<in> set (b_tasks b) \<Longrightarrow> task_by_id b (t_id t) = Some t"
  by (rule tasks.look_exact) (simp_all add: task_ids_def)

section \<open>The message log\<close>

definition default_max_messages :: int where
  "default_max_messages = 500"

text \<open>\<open>e_max_messages\<close> is the parsed environment variable, None when it is no number.\<close>

definition max_messages :: "env \<Rightarrow> int" where
  "max_messages e =
     (case e_max_messages e of
        Some v \<Rightarrow> if v > 0 then v else default_max_messages
      | None \<Rightarrow> default_max_messages)"

text \<open>\<open>appendMessageLocked\<close> for a message of the sender \<open>system\<close>, which is neither attributed
  to a task nor counted as a human post.\<close>

definition append_message :: "env \<Rightarrow> message \<Rightarrow> broker \<Rightarrow> broker" where
  "append_message e m b =
     b\<lparr> b_messages := last_n (nat (max_messages e)) (b_messages b @ [m]) \<rparr>"

lemma max_messages_pos: "0 < max_messages e"
  by (auto simp: max_messages_def default_max_messages_def split: option.splits)

lemma append_message_bound: "length (b_messages (append_message e m b)) \<le> nat (max_messages e)"
  by (simp add: append_message_def)

lemma append_message_last: "last (b_messages (append_message e m b)) = m"
  using max_messages_pos [of e] by (simp add: append_message_def last_n_snoc)

section \<open>The action log\<close>

definition mk_action ::
  "env \<Rightarrow> string \<Rightarrow> string \<Rightarrow> string \<Rightarrow> string \<Rightarrow> string \<Rightarrow> string \<Rightarrow> nat \<Rightarrow> action_log" where
  "mk_action e kind source channel actor summary related n =
     \<lparr> a_id = ''action-'' @ itoa (int n + 1),
       a_kind = trim_space kind,
       a_source = trim_space source,
       a_channel = (if trim_space channel = [] then []
                    else normalize_channel_slug (trim_space channel)),
       a_actor = trim_space actor,
       a_summary = trim_space summary,
       a_related_id = trim_space related,
       a_created_at = now_stamp e \<rparr>"

definition append_action ::
  "env \<Rightarrow> string \<Rightarrow> string \<Rightarrow> string \<Rightarrow> string \<Rightarrow> string \<Rightarrow> string \<Rightarrow> broker \<Rightarrow> broker" where
  "append_action e kind source channel actor summary related b =
     b\<lparr> b_actions := last_n 150
          (b_actions b @
             [mk_action e kind source channel actor summary related (length (b_actions b))]) \<rparr>"

lemma append_action_bound:
  "length (b_actions (append_action e k s c ac su r b)) \<le> 150"
  by (simp add: append_action_def)

section \<open>Watchdog alerts\<close>

definition alert_matches :: "string \<Rightarrow> string \<Rightarrow> string \<Rightarrow> alert \<Rightarrow> bool" where
  "alert_matches ttype tid channel al \<longleftrightarrow>
     \<not> (ttype \<noteq> [] \<and> al_target_type al \<noteq> trim_space ttype)
     \<and> \<not> (tid \<noteq> [] \<and> al_target_id al \<noteq> trim_space tid)
     \<and> \<not> (channel \<noteq> [] \<and> al_channel al \<noteq> [] \<and> al_channel al \<noteq> channel)
     \<and> trim_space (al_status al) \<noteq> ''resolved''"

definition clear_stuck :: "env \<Rightarrow> alert \<Rightarrow> broker \<Rightarrow> broker" where
  "clear_stuck e al b =
     (if trim_space (al_owner al) = [] then b
      else let slug = normalize_channel_slug (al_owner al) in
        case b_activity b slug of
          None \<Rightarrow> b
        | Some snap \<Rightarrow>
            if ac_kind snap \<noteq> ''stuck'' then b
            else if \<exists>w\<in>set (b_watchdogs b). trim_space (al_status w) \<noteq> ''resolved''
                      \<and> normalize_channel_slug (al_owner w) = slug then b
            else b\<lparr> b_activity := (b_activity b)(slug \<mapsto>
                     snap\<lparr> ac_kind := ''routine'', ac_last_time := now_stamp e \<rparr>) \<rparr>)"

definition resolve_alert :: "env \<Rightarrow> nat \<Rightarrow> broker \<Rightarrow> broker" where
  "resolve_alert e i b =
     (let al = (b_watchdogs b ! i)\<lparr> al_status := ''resolved'', al_updated_at := now_stamp e \<rparr>
      in clear_stuck e al (b\<lparr> b_watchdogs := (b_watchdogs b)[i := al] \<rparr>))"

definition resolve_watchdog_alerts ::
  "env \<Rightarrow> string \<Rightarrow> string \<Rightarrow> string \<Rightarrow> broker \<Rightarrow> broker" where
  "resolve_watchdog_alerts e ttype tid channel b =
     (let ch = (if trim_space channel = [] then [] else normalize_channel_slug (trim_space channel))
      in foldl (\<lambda>b i. if alert_matches ttype tid ch (b_watchdogs b ! i) then resolve_alert e i b
                      else b)
           b [0..<length (b_watchdogs b)])"

lemma clear_stuck_sel [simp]:
  "b_tasks (clear_stuck e al b) = b_tasks b" "b_index (clear_stuck e al b) = b_index b"
  "b_watchdogs (clear_stuck e al b) = b_watchdogs b" "b_jobs (clear_stuck e al b) = b_jobs b"
  "b_requests (clear_stuck e al b) = b_requests b"
  by (auto simp: clear_stuck_def Let_def split: option.splits)

lemma resolve_alert_sel [simp]:
  "b_tasks (resolve_alert e i b) = b_tasks b" "b_index (resolve_alert e i b) = b_index b"
  "b_jobs (resolve_alert e i b) = b_jobs b" "b_requests (resolve_alert e i b) = b_requests b"
  by (simp_all add: resolve_alert_def Let_def)

lemma foldl_keeps:
  "(\<And>b i. P (f b i) = P b) \<Longrightarrow> P (foldl f b is) = P b"
  by (induction "is" arbitrary: b) auto

lemma resolve_watchdog_alerts_sel [simp]:
  "b_tasks (resolve_watchdog_alerts e ty i c b) = b_tasks b"
  "b_index (resolve_watchdog_alerts e ty i c b) = b_index b"
  "b_jobs (resolve_watchdog_alerts e ty i c b) = b_jobs b"
  "b_requests (resolve_watchdog_alerts e ty i c b) = b_requests b"
  by (auto simp: resolve_watchdog_alerts_def Let_def intro!: foldl_keeps)

lemma append_message_sel [simp]:
  "b_tasks (append_message e m b) = b_tasks b" "b_index (append_message e m b) = b_index b"
  "b_requests (append_message e m b) = b_requests b" "b_jobs (append_message e m b) = b_jobs b"
  "b_members (append_message e m b) = b_members b" "b_packets (append_message e m b) = b_packets b"
  "b_grades (append_message e m b) = b_grades b" "b_streams (append_message e m b) = b_streams b"
  "b_packet_disk (append_message e m b) = b_packet_disk b"
  "b_timers (append_message e m b) = b_timers b" "b_actions (append_message e m b) = b_actions b"
  by (simp_all add: append_message_def)

lemma append_action_sel [simp]:
  "b_tasks (append_action e k s c ac su r b) = b_tasks b"
  "b_index (append_action e k s c ac su r b) = b_index b"
  "b_requests (append_action e k s c ac su r b) = b_requests b"
  "b_jobs (append_action e k s c ac su r b) = b_jobs b"
  "b_members (append_action e k s c ac su r b) = b_members b"
  "b_grades (append_action e k s c ac su r b) = b_grades b"
  by (simp_all add: append_action_def)

end
