(* ===== verification/InverseIndex.thy ===== *)
theory InverseIndex
  imports Prelude
begin

text \<open>
  The contract of an inverse index: a table that answers "which keys have the value v" for a
  function from keys to values, kept up to date by moving a key from its old bucket to its new
  one.  The clients rely on the two laws of \<open>move\<close> only; the lemmas of the locale show that the
  table then tracks the function.  The life-cycle index of the broker interprets it.
\<close>

definition tracks ::
  "('ix \<Rightarrow> 'v \<Rightarrow> 'k list) \<Rightarrow> 'v \<Rightarrow> ('k \<Rightarrow> 'v option) \<Rightarrow> 'ix \<Rightarrow> bool" where
  "tracks bucket none look ix \<longleftrightarrow>
     (\<forall>v. distinct (bucket ix v)) \<and>
     (\<forall>v k. k \<in> set (bucket ix v) \<longleftrightarrow> v \<noteq> none \<and> look k = Some v)"

locale inverse_index =
  fixes bucket :: "'ix \<Rightarrow> 'v \<Rightarrow> 'k list"
    and move :: "'k \<Rightarrow> 'v \<Rightarrow> 'v \<Rightarrow> 'ix \<Rightarrow> 'ix"
    and none :: 'v
  assumes move_distinct: "\<forall>v. distinct (bucket ix v) \<Longrightarrow> distinct (bucket (move k f t ix) v)"
    and move_set: "\<forall>v. distinct (bucket ix v) \<Longrightarrow>
      set (bucket (move k f t ix) v) =
        (set (bucket ix v) - (if v = f \<and> f \<noteq> none then {k} else {}))
          \<union> (if v = t \<and> t \<noteq> none then {k} else {})"
begin

lemma move_tracks:
  assumes tr: "tracks bucket none look ix"
    and old: "look k = Some f"
  shows "tracks bucket none (look(k \<mapsto> t)) (move k f t ix)"
proof -
  have d: "\<forall>v. distinct (bucket ix v)" using tr by (simp add: tracks_def)
  have m: "\<And>v j. j \<in> set (bucket ix v) \<longleftrightarrow> v \<noteq> none \<and> look j = Some v"
    using tr by (auto simp: tracks_def)
  show ?thesis
    unfolding tracks_def using move_distinct [OF d] old
    by (auto simp: move_set [OF d] m split: if_splits)
qed

lemma insert_tracks:
  assumes tr: "tracks bucket none look ix"
    and new: "look k = None \<or> look k = Some none"
  shows "tracks bucket none (look(k \<mapsto> t)) (move k none t ix)"
proof -
  have d: "\<forall>v. distinct (bucket ix v)" using tr by (simp add: tracks_def)
  have m: "\<And>v j. j \<in> set (bucket ix v) \<longleftrightarrow> v \<noteq> none \<and> look j = Some v"
    using tr by (auto simp: tracks_def)
  show ?thesis
    unfolding tracks_def using move_distinct [OF d] new
    by (auto simp: move_set [OF d] m split: if_splits)
qed

lemma tracks_unique_bucket:
  "tracks bucket none look ix \<Longrightarrow> k \<in> set (bucket ix u) \<Longrightarrow> k \<in> set (bucket ix v) \<Longrightarrow> u = v"
  by (auto simp: tracks_def)

end

end
