(* ===== verification/Lifecycle.thy ===== *)
theory Lifecycle
  imports BrokerState InverseIndex
begin

text \<open>
  The write path of the task life cycle: the inverse index from states to task ids, the chat
  card and the decision packet that follow a transition, \<open>applyLifecycleStateLocked\<close>, the
  reindexing of tasks changed through their legacy fields and the start-up migration
  (\<^verbatim>\<open>broker_lifecycle_transition.go\<close>, with \<^verbatim>\<open>broker_tasks_notifications.go\<close> and
  \<^verbatim>\<open>broker_decision_packet.go\<close> for the card and the packet).
\<close>

section \<open>The inverse index\<close>

type_synonym lc_index = "lifecycle \<rightharpoonup> string list"

definition bucket :: "lc_index \<Rightarrow> lifecycle \<Rightarrow> string list" where
  "bucket ix s = (case ix s of None \<Rightarrow> [] | Some ids \<Rightarrow> ids)"

definition index_remove :: "string \<Rightarrow> lifecycle \<Rightarrow> lc_index \<Rightarrow> lc_index" where
  "index_remove i s ix =
     (if s = LsUnset then ix
      else let ids = remove1 i (bucket ix s)
           in if ids = [] then ix(s := None) else ix(s \<mapsto> ids))"

definition index_insert :: "string \<Rightarrow> lifecycle \<Rightarrow> lc_index \<Rightarrow> lc_index" where
  "index_insert i s ix =
     (if s = LsUnset \<or> i \<in> set (bucket ix s) then ix else ix(s \<mapsto> bucket ix s @ [i]))"

definition index_lifecycle :: "string \<Rightarrow> lifecycle \<Rightarrow> lifecycle \<Rightarrow> lc_index \<Rightarrow> lc_index" where
  "index_lifecycle i from_s to_s ix = index_insert i to_s (index_remove i from_s ix)"

definition index_snapshot :: "broker \<Rightarrow> lc_index" where
  "index_snapshot b = b_index b"

lemma bucket_remove:
  "bucket (index_remove i s ix) v =
     (if v = s \<and> s \<noteq> LsUnset then remove1 i (bucket ix s) else bucket ix v)"
  by (auto simp: index_remove_def bucket_def Let_def split: option.splits)

lemma bucket_insert:
  "bucket (index_insert i s ix) v =
     (if v = s \<and> s \<noteq> LsUnset \<and> i \<notin> set (bucket ix s) then bucket ix s @ [i] else bucket ix v)"
  by (auto simp: index_insert_def bucket_def split: option.splits)

interpretation lc: inverse_index bucket index_lifecycle LsUnset
proof
  fix ix :: lc_index and i f t v
  assume d: "\<forall>v. distinct (bucket ix v)"
  show "distinct (bucket (index_lifecycle i f t ix) v)"
    using d by (auto simp: index_lifecycle_def bucket_insert bucket_remove)
  show "set (bucket (index_lifecycle i f t ix) v) =
          (set (bucket ix v) - (if v = f \<and> f \<noteq> LsUnset then {i} else {}))
            \<union> (if v = t \<and> t \<noteq> LsUnset then {i} else {})"
    using d by (auto simp: index_lifecycle_def bucket_insert bucket_remove)
qed

text \<open>What the index promises: every task id is in the bucket of its state, once, and in no
  other bucket; no bucket is stored empty.\<close>

definition life_of :: "broker \<Rightarrow> string \<Rightarrow> lifecycle option" where
  "life_of b i = map_option t_lifecycle (task_by_id b i)"

definition no_empty_bucket :: "lc_index \<Rightarrow> bool" where
  "no_empty_bucket ix \<longleftrightarrow> (\<forall>s. ix s \<noteq> Some [])"

definition index_inv :: "broker \<Rightarrow> bool" where
  "index_inv b \<longleftrightarrow>
     distinct (task_ids b) \<and> tracks bucket LsUnset (life_of b) (b_index b)
     \<and> no_empty_bucket (b_index b)"

lemma no_empty_index_lifecycle:
  "no_empty_bucket ix \<Longrightarrow> no_empty_bucket (index_lifecycle i f t ix)"
  by (auto simp: no_empty_bucket_def index_lifecycle_def index_insert_def index_remove_def Let_def)

section \<open>The lifecycle card\<close>

datatype issue_transition =
    TrStarted | TrInReview | TrApproved | TrRejected | TrBlocked | TrNeedsInput | TrRevising
  | TrGeneric

fun transition_name :: "issue_transition \<Rightarrow> string" where
  "transition_name TrStarted = ''started''"
| "transition_name TrInReview = ''in_review''"
| "transition_name TrApproved = ''approved''"
| "transition_name TrRejected = ''rejected''"
| "transition_name TrBlocked = ''blocked''"
| "transition_name TrNeedsInput = ''needs_input''"
| "transition_name TrRevising = ''revising''"
| "transition_name TrGeneric = ''generic''"

definition classify_transition :: "lifecycle \<Rightarrow> lifecycle \<Rightarrow> issue_transition" where
  "classify_transition from_s to_s =
     (if from_s = LsDrafting \<and> to_s = LsRunning then TrStarted
      else if to_s = LsReview \<or> to_s = LsDecision then TrInReview
      else if to_s = LsApproved then TrApproved
      else if to_s = LsRejected then TrRejected
      else if to_s = LsBlocked then TrBlocked
      else if to_s = LsChangesRequested then TrRevising
      else TrGeneric)"

definition em_dash :: string where
  "em_dash = [CHR 0xE2, CHR 0x80, CHR 0x94]"

definition issue_human_line :: "issue_transition \<Rightarrow> string \<Rightarrow> string \<Rightarrow> string \<Rightarrow> string" where
  "issue_human_line tr tid title owner =
     (let tag = (if owner = [] then ''no one'' else ''@'' @ owner);
          d = '' '' @ em_dash @ '' ''
      in case tr of
           TrStarted \<Rightarrow> ''Approved'' @ d @ tag @ '' starting work on '' @ tid @ '': '' @ title
         | TrInReview \<Rightarrow> ''Ready for review'' @ d @ tag @ '' submitted '' @ tid @ '': '' @ title
         | TrApproved \<Rightarrow> ''Done'' @ d @ tag @ '' wrapped '' @ tid @ '': '' @ title
         | TrRejected \<Rightarrow> ''Closed'' @ d @ tid @ '': '' @ title
         | TrBlocked \<Rightarrow> ''Blocked'' @ d @ tag @ '' on '' @ tid @ '': '' @ title
         | TrNeedsInput \<Rightarrow> ''Needs your input'' @ d @ tag @ '' on '' @ tid @ '': '' @ title
         | TrRevising \<Rightarrow> ''Revising'' @ d @ tag @ '' reworking '' @ tid @ '': '' @ title
         | TrGeneric \<Rightarrow> ''Issue '' @ tid @ '' updated: '' @ title)"

definition dedupe_tags :: "string list \<Rightarrow> string list" where
  "dedupe_tags tags = dedup (filter (\<lambda>t. t \<noteq> []) (map trim_space tags))"

definition task_card_has_no_home :: "task \<Rightarrow> bool" where
  "task_card_has_no_home t \<longleftrightarrow> trim_space (t_channel t) = []"

definition card_window :: int where
  "card_window = 10 * nanos_per_second"

text \<open>The messages from the newest to the oldest: cards of the same task are dropped until a
  message older than the window.\<close>

fun coalesce_newest_first :: "int \<Rightarrow> string \<Rightarrow> message list \<Rightarrow> message list" where
  "coalesce_newest_first cutoff tid [] = []"
| "coalesce_newest_first cutoff tid (m # ms) =
     (if (case parse_stamp (msg_timestamp m) of Some ts \<Rightarrow> ts < cutoff | None \<Rightarrow> False) then m # ms
      else if msg_kind m = ''issue_lifecycle'' \<and> trim_space (msg_source_task m) = tid
      then coalesce_newest_first cutoff tid ms
      else m # coalesce_newest_first cutoff tid ms)"

definition coalesce_cards :: "env \<Rightarrow> string \<Rightarrow> broker \<Rightarrow> broker" where
  "coalesce_cards e tid b =
     (if trim_space tid = [] then b
      else b\<lparr> b_messages :=
        rev (coalesce_newest_first (e_now e - card_window) (trim_space tid) (rev (b_messages b))) \<rparr>)"

definition lifecycle_card ::
  "env \<Rightarrow> task \<Rightarrow> lifecycle \<Rightarrow> lifecycle \<Rightarrow> string \<Rightarrow> int \<Rightarrow> message" where
  "lifecycle_card e t from_s to_s actor n =
     (let tr = classify_transition from_s to_s;
          channel = normalize_channel_slug (t_channel t);
          title = (if trim_space (t_title t) = [] then t_id t else trim_space (t_title t));
          owner = trim_space (t_owner t);
          act = (if trim_space actor = [] then ''system'' else trim_space actor)
      in \<lparr> msg_id = ''msg-'' @ itoa n, msg_from = ''system'', msg_channel = channel,
           msg_kind = ''issue_lifecycle'', msg_title = title,
           msg_content = issue_human_line tr (t_id t) title owner,
           msg_tagged = dedupe_tags (if owner = [] then [''cos''] else [''cos'', owner]),
           msg_timestamp = now_stamp e, msg_reply_to = trim_space (t_thread_id t),
           msg_source_task = t_id t,
           msg_payload =
             [(''task_id'', t_id t), (''title'', title), (''owner'', owner),
              (''channel'', channel), (''from_state'', state_name from_s),
              (''to_state'', state_name to_s), (''transition'', transition_name tr),
              (''actor'', act)] \<rparr>)"

definition post_lifecycle_card ::
  "env \<Rightarrow> task \<Rightarrow> lifecycle \<Rightarrow> lifecycle \<Rightarrow> string \<Rightarrow> broker \<Rightarrow> broker" where
  "post_lifecycle_card e t from_s to_s actor b =
     (if \<not> equal_fold (t_task_type t) ''issue'' then b
      else if from_s = to_s then b
      else if task_card_has_no_home t then b
      else let b1 = coalesce_cards e (t_id t) b;
               n = b_counter b1 + 1
           in append_message e (lifecycle_card e t from_s to_s actor n)
                (b1\<lparr> b_counter := n \<rparr>))"

lemma post_lifecycle_card_sel [simp]:
  "b_tasks (post_lifecycle_card e t f s a b) = b_tasks b"
  "b_index (post_lifecycle_card e t f s a b) = b_index b"
  "b_requests (post_lifecycle_card e t f s a b) = b_requests b"
  "b_members (post_lifecycle_card e t f s a b) = b_members b"
  "b_packets (post_lifecycle_card e t f s a b) = b_packets b"
  "b_grades (post_lifecycle_card e t f s a b) = b_grades b"
  "b_streams (post_lifecycle_card e t f s a b) = b_streams b"
  "b_jobs (post_lifecycle_card e t f s a b) = b_jobs b"
  "b_timers (post_lifecycle_card e t f s a b) = b_timers b"
  by (simp_all add: post_lifecycle_card_def coalesce_cards_def Let_def)

section \<open>The decision packet\<close>

definition stamp_lifecycle :: "env \<Rightarrow> broker \<Rightarrow> packet \<Rightarrow> packet" where
  "stamp_lifecycle e b p =
     (let p1 = p\<lparr> p_updated_at := Some (e_now e) \<rparr> in
        case task_by_id b (p_task_id p) of
          Some t \<Rightarrow> p1\<lparr> p_lifecycle := t_lifecycle t \<rparr>
        | None \<Rightarrow> p1)"

definition packet_write_attempts :: nat where
  "packet_write_attempts = 3"

definition packet_error_banner :: "string \<Rightarrow> string" where
  "packet_error_banner tid =
     ''persistence error on task '' @ tid @ '' '' @ em_dash
       @ '' your changes are still in memory but not saved to disk yet, fix the underlying issue''
       @ '' and the next transition will retry.''"

definition persist_packet :: "env \<Rightarrow> string \<Rightarrow> packet \<Rightarrow> broker \<Rightarrow> broker" where
  "persist_packet e tid p b =
     (if \<exists>a\<in>set [0..<packet_write_attempts]. e_packet_write e a tid p
      then b\<lparr> b_packet_disk := (b_packet_disk b)(tid \<mapsto> p) \<rparr>
      else let n = b_counter b + 1 in
        append_message e
          \<lparr> msg_id = ''msg-'' @ itoa n, msg_from = ''system'', msg_channel = ''general'',
             msg_kind = ''persistence_error'', msg_title = [],
             msg_content = packet_error_banner tid, msg_tagged = [],
             msg_timestamp = now_stamp e, msg_reply_to = [], msg_source_task = [],
             msg_payload = [] \<rparr>
          (b\<lparr> b_counter := n \<rparr>))"

definition schedule_running_flush :: "string \<Rightarrow> broker \<Rightarrow> broker" where
  "schedule_running_flush tid b = b\<lparr> b_timers := insert tid (b_timers b) \<rparr>"

definition cancel_running_flush :: "string \<Rightarrow> broker \<Rightarrow> broker" where
  "cancel_running_flush tid b = b\<lparr> b_timers := b_timers b - {tid} \<rparr>"

definition on_lifecycle_transition :: "env \<Rightarrow> string \<Rightarrow> lifecycle \<Rightarrow> broker \<Rightarrow> broker" where
  "on_lifecycle_transition e tid new_s b =
     (case b_packets b tid of
        None \<Rightarrow> b
      | Some p \<Rightarrow>
          let p1 = stamp_lifecycle e b p;
              b1 = persist_packet e tid p1 (b\<lparr> b_packets := (b_packets b)(tid \<mapsto> p1) \<rparr>)
          in if new_s = LsRunning then schedule_running_flush tid b1
             else cancel_running_flush tid b1)"

text \<open>The body of the debounce timer; the timer itself has fired.\<close>

definition flush_running_packet :: "env \<Rightarrow> string \<Rightarrow> broker \<Rightarrow> broker" where
  "flush_running_packet e tid b =
     (case b_packets b tid of
        None \<Rightarrow> b
      | Some p \<Rightarrow>
          let running = (\<exists>t\<in>set (b_tasks b). t_id t = tid \<and> t_lifecycle t = LsRunning);
              b1 = persist_packet e tid p b
          in if running then schedule_running_flush tid b1 else cancel_running_flush tid b1)"

lemma persist_packet_sel [simp]:
  "b_tasks (persist_packet e i p b) = b_tasks b" "b_index (persist_packet e i p b) = b_index b"
  "b_requests (persist_packet e i p b) = b_requests b"
  "b_members (persist_packet e i p b) = b_members b"
  "b_packets (persist_packet e i p b) = b_packets b"
  "b_grades (persist_packet e i p b) = b_grades b"
  "b_streams (persist_packet e i p b) = b_streams b" "b_jobs (persist_packet e i p b) = b_jobs b"
  "b_timers (persist_packet e i p b) = b_timers b"
  by (simp_all add: persist_packet_def Let_def)

lemma on_lifecycle_transition_sel [simp]:
  "b_tasks (on_lifecycle_transition e i s b) = b_tasks b"
  "b_index (on_lifecycle_transition e i s b) = b_index b"
  "b_requests (on_lifecycle_transition e i s b) = b_requests b"
  "b_members (on_lifecycle_transition e i s b) = b_members b"
  "b_grades (on_lifecycle_transition e i s b) = b_grades b"
  "b_streams (on_lifecycle_transition e i s b) = b_streams b"
  "b_jobs (on_lifecycle_transition e i s b) = b_jobs b"
  by (simp_all add: on_lifecycle_transition_def schedule_running_flush_def
      cancel_running_flush_def Let_def split: option.splits)

section \<open>Writing a state\<close>

datatype lc_error =
    TaskRequired | NoForwardRow lifecycle | NotCanonical lifecycle | TaskIdRequired
  | TaskNotFound string | ReviewerRequired | DetailRequired | WritableWorktree string
  | TheaterTask | WorktreeFailed | SaveFailed

definition stamp_row :: "lifecycle \<Rightarrow> derived_row \<Rightarrow> task \<Rightarrow> task" where
  "stamp_row s row t =
     t\<lparr> t_lifecycle := s, t_pipeline_stage := dr_stage row, t_review_state := dr_review row,
        t_status := dr_status row, t_blocked := dr_blocked row \<rparr>"

text \<open>Write a new state through the pointer and move the id to its bucket.\<close>

definition move_task :: "string \<Rightarrow> (task \<Rightarrow> task) \<Rightarrow> lifecycle \<Rightarrow> lifecycle \<Rightarrow> broker \<Rightarrow> broker" where
  "move_task i f prev new_s b =
     (set_task i f b)\<lparr> b_index := index_lifecycle i prev new_s (b_index b) \<rparr>"

definition apply_lifecycle :: "env \<Rightarrow> string \<Rightarrow> lifecycle \<Rightarrow> broker \<Rightarrow> lc_error + broker" where
  "apply_lifecycle e i new_s b =
     (case task_by_id b i of
        None \<Rightarrow> Inl TaskRequired
      | Some t \<Rightarrow>
          (case derived_fields_for new_s of
             None \<Rightarrow> Inl (NoForwardRow new_s)
           | Some row \<Rightarrow>
               let prev = t_lifecycle t;
                   b1 = move_task i (stamp_row new_s row) prev new_s b;
                   b2 = (if prev \<noteq> LsUnset \<and> prev \<noteq> LsUnknown
                         then post_lifecycle_card e (stamp_row new_s row t) prev new_s ''system'' b1
                         else b1)
               in Inr (on_lifecycle_transition e i new_s b2)))"

definition mark_queued_behind_owner :: "env \<Rightarrow> string \<Rightarrow> broker \<Rightarrow> broker" where
  "mark_queued_behind_owner e i b =
     (case apply_lifecycle e i LsQueuedBehindOwner b of Inl _ \<Rightarrow> b | Inr b1 \<Rightarrow> b1)"

section \<open>Reindexing after a legacy write\<close>

definition legacy_fallback :: "task \<Rightarrow> lifecycle" where
  "legacy_fallback t =
     (let status = norm_field (t_status t) in
        if t_blocked t \<or> status = ''blocked'' then LsBlocked
        else if is_terminal_status status then LsApproved
        else if status = ''review'' \<or> equal_fold (trim_space (t_review_state t)) ''ready_for_review''
          then LsReview
        else if status = ''in_progress'' \<or> trim_space (t_owner t) \<noteq> [] then LsRunning
        else LsReady)"

definition reindex_state :: "task \<Rightarrow> lifecycle" where
  "reindex_state t =
     (let d0 = derive_from_legacy (t_pipeline_stage t) (t_review_state t) (t_status t) (t_blocked t);
          d1 = (if d0 = LsUnknown then legacy_fallback t else d0)
      in if t_lifecycle t = LsPlanning \<and> \<not> t_blocked t
              \<and> norm_field (t_status t) \<in> {'''', ''open'', ''in_progress''}
         then LsPlanning else d1)"

definition set_lifecycle :: "lifecycle \<Rightarrow> task \<Rightarrow> task" where
  "set_lifecycle s t = t\<lparr> t_lifecycle := s \<rparr>"

definition reindex_task :: "env \<Rightarrow> string \<Rightarrow> broker \<Rightarrow> broker" where
  "reindex_task e i b =
     (case task_by_id b i of
        None \<Rightarrow> b
      | Some t \<Rightarrow>
          let d = reindex_state t; prev = t_lifecycle t;
              b1 = move_task i (set_lifecycle d) prev d b
          in if prev \<noteq> d then on_lifecycle_transition e i d b1 else b1)"

section \<open>Migration at start-up\<close>

definition migrate_state :: "task \<Rightarrow> lifecycle" where
  "migrate_state t =
     (if t_lifecycle t \<noteq> LsUnset then t_lifecycle t
      else let d = derive_from_legacy (t_pipeline_stage t) (t_review_state t) (t_status t) (t_blocked t)
           in if d = LsUnknown then derive_from_legacy [] [] (t_status t) (t_blocked t) else d)"

definition migrate_task :: "task \<Rightarrow> task" where
  "migrate_task t = set_lifecycle (migrate_state t) t"

definition rebuild_index :: "task list \<Rightarrow> lc_index" where
  "rebuild_index ts = foldl (\<lambda>ix t. index_lifecycle (t_id t) LsUnset (t_lifecycle t) ix) Map.empty ts"

definition migrate_lifecycle_states :: "broker \<Rightarrow> broker" where
  "migrate_lifecycle_states b =
     (let ts = map migrate_task (b_tasks b)
      in b\<lparr> b_tasks := ts, b_index := rebuild_index ts \<rparr>)"

section \<open>Lemmas\<close>

lemma stamp_row_id [simp]: "t_id (stamp_row s row t) = t_id t"
  by (simp add: stamp_row_def)

lemma set_lifecycle_sel [simp]:
  "t_id (set_lifecycle s t) = t_id t" "t_lifecycle (set_lifecycle s t) = s"
  by (simp_all add: set_lifecycle_def)

lemma stamp_row_sel [simp]:
  "t_lifecycle (stamp_row s row t) = s" "t_status (stamp_row s row t) = dr_status row"
  "t_blocked (stamp_row s row t) = dr_blocked row"
  "t_review_state (stamp_row s row t) = dr_review row"
  "t_pipeline_stage (stamp_row s row t) = dr_stage row"
  "t_depends_on (stamp_row s row t) = t_depends_on t"
  "t_blocked_on (stamp_row s row t) = t_blocked_on t"
  "t_reviewers (stamp_row s row t) = t_reviewers t"
  "t_owner (stamp_row s row t) = t_owner t" "t_details (stamp_row s row t) = t_details t"
  by (simp_all add: stamp_row_def)

lemma move_task_sel [simp]:
  "b_requests (move_task i f p s b) = b_requests b" "b_members (move_task i f p s b) = b_members b"
  "b_packets (move_task i f p s b) = b_packets b" "b_messages (move_task i f p s b) = b_messages b"
  "b_grades (move_task i f p s b) = b_grades b" "b_jobs (move_task i f p s b) = b_jobs b"
  "b_streams (move_task i f p s b) = b_streams b" "b_timers (move_task i f p s b) = b_timers b"
  "b_index (move_task i f p s b) = index_lifecycle i p s (b_index b)"
  "b_tasks (move_task i f p s b) = b_tasks (set_task i f b)"
  by (simp_all add: move_task_def)

lemma task_ids_move [simp]:
  "(\<And>t. t_id (f t) = t_id t) \<Longrightarrow> task_ids (move_task i f p s b) = task_ids b"
  by (simp add: move_task_def task_ids_def set_task_def map_map_first)

lemma life_of_cong: "b_tasks b' = b_tasks b \<Longrightarrow> life_of b' = life_of b"
  by (simp add: life_of_def fun_eq_iff task_by_id_def)

lemma index_inv_cong:
  "b_tasks b' = b_tasks b \<Longrightarrow> b_index b' = b_index b \<Longrightarrow> index_inv b' = index_inv b"
  using life_of_cong [of b' b] by (simp add: index_inv_def task_ids_def)

lemma index_inv_after [simp]:
  "index_inv (on_lifecycle_transition e i s b) = index_inv b"
  "index_inv (post_lifecycle_card e t f s a b) = index_inv b"
  "index_inv (append_action e k so c ac su r b) = index_inv b"
  "index_inv (append_message e m b) = index_inv b"
  by (rule index_inv_cong; simp)+

lemma move_task_inv:
  assumes inv: "index_inv b" and t: "task_by_id b i = Some t"
    and f: "\<And>u. t_id (f u) = t_id u" "\<And>u. t_lifecycle (f u) = s"
  shows "index_inv (move_task i f (t_lifecycle t) s b)"
proof -
  have "life_of (move_task i f (t_lifecycle t) s b) = (life_of b)(i \<mapsto> s)"
  proof
    fix j
    show "life_of (move_task i f (t_lifecycle t) s b) j = ((life_of b)(i \<mapsto> s)) j"
      using set_task_same [OF t f(1)] set_task_other [of f i j b] f
      by (auto simp: life_of_def task_by_id_def move_task_def)
  qed
  moreover have "life_of b i = Some (t_lifecycle t)" using t by (simp add: life_of_def)
  ultimately show ?thesis
    using inv f(1) by (simp add: index_inv_def lc.move_tracks no_empty_index_lifecycle)
qed

lemma apply_lifecycle_cases:
  assumes "apply_lifecycle e i s b = Inr b'"
  obtains t row where "task_by_id b i = Some t" "derived_fields_for s = Some row"
    "b_tasks b' = b_tasks (move_task i (stamp_row s row) (t_lifecycle t) s b)"
    "b_index b' = b_index (move_task i (stamp_row s row) (t_lifecycle t) s b)"
    "b_requests b' = b_requests b" "b_members b' = b_members b" "b_grades b' = b_grades b"
    "b_streams b' = b_streams b" "b_jobs b' = b_jobs b"
  using assms
  by (auto simp: apply_lifecycle_def Let_def split: option.splits if_splits)

lemma apply_lifecycle_inv:
  assumes "index_inv b" "apply_lifecycle e i s b = Inr b'"
  shows "index_inv b'"
  using assms(2)
proof (rule apply_lifecycle_cases)
  fix t row
  assume a: "task_by_id b i = Some t" "derived_fields_for s = Some row"
    "b_tasks b' = b_tasks (move_task i (stamp_row s row) (t_lifecycle t) s b)"
    "b_index b' = b_index (move_task i (stamp_row s row) (t_lifecycle t) s b)"
  have "index_inv (move_task i (stamp_row s row) (t_lifecycle t) s b)"
    by (rule move_task_inv [OF assms(1) a(1)]) simp_all
  then show ?thesis using index_inv_cong [OF a(3,4)] by simp
qed

lemma apply_lifecycle_task:
  assumes "apply_lifecycle e i s b = Inr b'"
  shows "\<exists>t row. task_by_id b i = Some t \<and> derived_fields_for s = Some row
           \<and> task_by_id b' i = Some (stamp_row s row t)
           \<and> (\<forall>j. j \<noteq> i \<longrightarrow> task_by_id b' j = task_by_id b j)"
  using assms
proof (rule apply_lifecycle_cases)
  fix t row
  assume a: "task_by_id b i = Some t" "derived_fields_for s = Some row"
    "b_tasks b' = b_tasks (move_task i (stamp_row s row) (t_lifecycle t) s b)"
  have e: "task_by_id b' j = task_by_id (set_task i (stamp_row s row) b) j" for j
    using a(3) by (simp add: task_by_id_def)
  show ?thesis
    using a(1,2) set_task_same [OF a(1), of "stamp_row s row"]
      set_task_other [of "stamp_row s row" i _ b] by (auto simp: e)
qed

lemma reindex_task_inv: "index_inv b \<Longrightarrow> index_inv (reindex_task e i b)"
proof (cases "task_by_id b i")
  case (Some t)
  assume inv: "index_inv b"
  have "index_inv (move_task i (set_lifecycle (reindex_state t)) (t_lifecycle t) (reindex_state t) b)"
    by (rule move_task_inv [OF inv Some]) simp_all
  then show ?thesis
    using Some by (cases "t_lifecycle t = reindex_state t") (simp_all add: reindex_task_def Let_def)
qed (simp add: reindex_task_def)

lemma rebuild_index_tracks:
  assumes "distinct (map t_id ts)"
  shows "tracks bucket LsUnset
           (\<lambda>i. map_option t_lifecycle (find (\<lambda>t. t_id t = i) ts)) (rebuild_index ts)
         \<and> no_empty_bucket (rebuild_index ts)"
  using assms
proof (induction ts rule: rev_induct)
  case Nil
  then show ?case by (simp add: tracks_def rebuild_index_def bucket_def no_empty_bucket_def)
next
  case (snoc t ts)
  let ?look = "\<lambda>ts i. map_option t_lifecycle (find (\<lambda>t. t_id t = i) ts)"
  have find_app: "find p (xs @ ys) = (case find p xs of None \<Rightarrow> find p ys | Some x \<Rightarrow> Some x)"
    for p :: "task \<Rightarrow> bool" and xs ys by (induction xs) auto
  have "find (\<lambda>u. t_id u = t_id t) ts = None"
    unfolding find_NoneD using snoc.prems by simp (metis imageI)
  then have new: "?look ts (t_id t) = None" by simp
  have "?look (ts @ [t]) = (?look ts)(t_id t \<mapsto> t_lifecycle t)"
    using new by (auto simp: fun_eq_iff find_app split: option.splits)
  moreover have "rebuild_index (ts @ [t]) =
      index_lifecycle (t_id t) LsUnset (t_lifecycle t) (rebuild_index ts)"
    by (simp add: rebuild_index_def)
  ultimately show ?case
    using lc.insert_tracks [of "?look ts"] snoc new by (auto simp: no_empty_index_lifecycle)
qed

lemma migrate_task_id [simp]: "t_id (migrate_task t) = t_id t"
  by (simp add: migrate_task_def)

lemma migrate_state_set: "migrate_state t \<noteq> LsUnset"
  by (simp add: migrate_state_def Let_def)

lemma migrate_lifecycle_states_inv:
  assumes "distinct (task_ids b)"
  shows "index_inv (migrate_lifecycle_states b)"
proof -
  have "distinct (map t_id (map migrate_task (b_tasks b)))"
    using assms by (simp add: task_ids_def comp_def)
  from rebuild_index_tracks [OF this] show ?thesis
    using assms
    by (simp add: index_inv_def migrate_lifecycle_states_def Let_def task_ids_def comp_def
        life_of_def [abs_def] task_by_id_def)
qed

section \<open>Retention and saving\<close>

definition default_retention_days :: int where
  "default_retention_days = 7"

text \<open>\<open>e_retention_days\<close> is the parsed environment variable, None when it is no number.\<close>

definition task_retention :: "env \<Rightarrow> int" where
  "task_retention e =
     (case e_retention_days e of
        Some d \<Rightarrow> if d > 0 then d * 24 * 60 * 60 * nanos_per_second
                  else default_retention_days * 24 * 60 * 60 * nanos_per_second
      | None \<Rightarrow> default_retention_days * 24 * 60 * 60 * nanos_per_second)"

definition completed_before :: "task \<Rightarrow> int \<Rightarrow> bool" where
  "completed_before t cutoff \<longleftrightarrow>
     (let ts = (if t_updated_at t = NoStamp then t_created_at t else t_updated_at t) in
        case parse_stamp ts of Some p \<Rightarrow> p < cutoff | None \<Rightarrow> False)"

definition prunable :: "env \<Rightarrow> task \<Rightarrow> bool" where
  "prunable e t \<longleftrightarrow> t_lifecycle t = LsApproved \<and> completed_before t (e_now e - task_retention e)"

definition prune_completed :: "env \<Rightarrow> broker \<Rightarrow> nat \<times> broker" where
  "prune_completed e b =
     (let pruned = length (filter (prunable e) (b_tasks b))
      in (pruned, if pruned > 0 then b\<lparr> b_tasks := filter (\<lambda>t. \<not> prunable e t) (b_tasks b) \<rparr> else b))"

text \<open>\<open>saveLocked\<close>: prune, then write; a failed write leaves the pruned state in memory.\<close>

definition save_locked :: "env \<Rightarrow> broker \<Rightarrow> bool \<times> broker" where
  "save_locked e b = (let b1 = snd (prune_completed e b) in (e_save e b1, b1))"

lemma prune_completed_tasks:
  "b_tasks (snd (prune_completed e b)) = filter (\<lambda>t. \<not> prunable e t) (b_tasks b)"
  by (auto simp: prune_completed_def Let_def filter_empty_conv filter_id_conv)

lemma prune_completed_sel [simp]:
  "b_index (snd (prune_completed e b)) = b_index b"
  "b_requests (snd (prune_completed e b)) = b_requests b"
  "b_jobs (snd (prune_completed e b)) = b_jobs b"
  by (simp_all add: prune_completed_def Let_def)

lemma save_locked_sel [simp]:
  "b_index (snd (save_locked e b)) = b_index b"
  "b_requests (snd (save_locked e b)) = b_requests b"
  "b_jobs (snd (save_locked e b)) = b_jobs b"
  "b_tasks (snd (save_locked e b)) = filter (\<lambda>t. \<not> prunable e t) (b_tasks b)"
  by (simp_all add: save_locked_def Let_def prune_completed_tasks)

text \<open>What survives pruning: the index is exact for the tasks that are there; it may still list ids
  that are gone.\<close>

definition index_live :: "broker \<Rightarrow> bool" where
  "index_live b \<longleftrightarrow>
     distinct (task_ids b) \<and> (\<forall>s. distinct (bucket (b_index b) s))
     \<and> (\<forall>i s. i \<in> set (task_ids b) \<longrightarrow>
           (i \<in> set (bucket (b_index b) s) \<longleftrightarrow> s \<noteq> LsUnset \<and> life_of b i = Some s))"

lemma index_inv_live: "index_inv b \<Longrightarrow> index_live b"
  by (auto simp: index_inv_def index_live_def tracks_def)

lemma index_live_cong:
  "b_tasks b' = b_tasks b \<Longrightarrow> b_index b' = b_index b \<Longrightarrow> index_live b' = index_live b"
  using life_of_cong [of b' b] by (simp add: index_live_def task_ids_def)

lemma index_live_filter:
  assumes "index_live b" "b_tasks b' = filter p (b_tasks b)" "b_index b' = b_index b"
  shows "index_live b'"
proof -
  have d: "distinct (task_ids b')"
    using assms(1,2) by (simp add: index_live_def task_ids_def distinct_map_filter)
  have "life_of b' i = life_of b i" if i: "i \<in> set (task_ids b')" for i
  proof -
    obtain t where t: "t \<in> set (b_tasks b')" "t_id t = i"
      using i by (auto simp: task_ids_def)
    have "task_by_id b' i = Some t" using distinct_ids_find [OF d t(1)] t(2) by simp
    moreover have "task_by_id b i = Some t"
      using distinct_ids_find [of b t] t assms(1,2) by (simp add: index_live_def)
    ultimately show ?thesis by (simp add: life_of_def)
  qed
  moreover have "set (task_ids b') \<subseteq> set (task_ids b)" using assms(2) by (auto simp: task_ids_def)
  ultimately show ?thesis using assms d unfolding index_live_def by (metis subsetD)
qed

lemma save_locked_live: "index_live b \<Longrightarrow> index_live (snd (save_locked e b))"
  by (rule index_live_filter [where p = "\<lambda>t. \<not> prunable e t"]) simp_all

lemma index_live_set_task:
  assumes "index_live b" "\<And>t. t_id (f t) = t_id t" "\<And>t. t_lifecycle (f t) = t_lifecycle t"
  shows "index_live (set_task i f b)"
proof -
  have "life_of (set_task i f b) = life_of b"
  proof
    fix j
    have "map_option t_lifecycle (find (\<lambda>t. t_id t = j) (map_first (\<lambda>t. t_id t = i) f ts)) =
          map_option t_lifecycle (find (\<lambda>t. t_id t = j) ts)" for ts
      using assms(2,3) by (induction ts) auto
    then show "life_of (set_task i f b) j = life_of b j"
      by (simp add: life_of_def task_by_id_def set_task_def)
  qed
  then show ?thesis using assms by (simp add: index_live_def)
qed

lemma move_task_live:
  assumes inv: "index_live b" and t: "task_by_id b i = Some t"
    and f: "\<And>u. t_id (f u) = t_id u" "\<And>u. t_lifecycle (f u) = s"
  shows "index_live (move_task i f (t_lifecycle t) s b)"
proof -
  let ?b = "move_task i f (t_lifecycle t) s b"
  have lo: "life_of ?b j = (if j = i then Some s else life_of b j)" for j
    using set_task_same [OF t f(1)] set_task_other [of f i j b] f
    by (auto simp: life_of_def task_by_id_def move_task_def)
  have d: "\<forall>v. distinct (bucket (b_index b) v)" using inv by (simp add: index_live_def)
  have i: "i \<in> set (task_ids b)" "life_of b i = Some (t_lifecycle t)"
    using task_by_id_Some [OF t] t by (auto simp: task_ids_def life_of_def)
  show ?thesis
    unfolding index_live_def
  proof (intro conjI allI impI)
    show "distinct (task_ids ?b)" using inv f(1) by (simp add: index_live_def)
    show "distinct (bucket (b_index ?b) v)" for v using lc.move_distinct [OF d] by simp
    fix j v
    assume "j \<in> set (task_ids ?b)"
    then have j: "j \<in> set (task_ids b)" using f(1) by simp
    then have m: "j \<in> set (bucket (b_index b) w) \<longleftrightarrow> w \<noteq> LsUnset \<and> life_of b j = Some w" for w
      using inv by (simp add: index_live_def)
    show "j \<in> set (bucket (b_index ?b) v) \<longleftrightarrow> v \<noteq> LsUnset \<and> life_of ?b j = Some v"
      using i(2) by (auto simp: lc.move_set [OF d] m lo split: if_splits)
  qed
qed

lemma apply_lifecycle_live:
  assumes "index_live b" "apply_lifecycle e i s b = Inr b'"
  shows "index_live b'"
  using assms(2)
proof (rule apply_lifecycle_cases)
  fix t row
  assume a: "task_by_id b i = Some t" "derived_fields_for s = Some row"
    "b_tasks b' = b_tasks (move_task i (stamp_row s row) (t_lifecycle t) s b)"
    "b_index b' = b_index (move_task i (stamp_row s row) (t_lifecycle t) s b)"
  have "index_live (move_task i (stamp_row s row) (t_lifecycle t) s b)"
    by (rule move_task_live [OF assms(1) a(1)]) simp_all
  then show ?thesis using index_live_cong [OF a(3,4)] by simp
qed

end
