(* ===== verification/GoGlob.thy ===== *)
theory GoGlob
  imports Prelude
begin

text \<open>
  \<^verbatim>\<open>path/filepath.Match\<close> of the Go standard library on a Unix system, which the reviewer
  routing matches its file globs with: \<open>*\<close> and \<open>?\<close> never cross a slash, \<open>[...]\<close> is a class of
  code points, a backslash quotes.  The result is None for \<^verbatim>\<open>ErrBadPattern\<close>.
\<close>

section \<open>Code points\<close>

definition byte_val :: "char \<Rightarrow> nat" where
  "byte_val c = of_char c"

definition cont_val :: "char \<Rightarrow> nat option" where
  "cont_val c = (let n = byte_val c in if 128 \<le> n \<and> n < 192 then Some (n - 128) else None)"

text \<open>\<^verbatim>\<open>utf8.DecodeRune\<close>: the code point and its width, the replacement character of width 1
  for an invalid encoding.\<close>

definition rune_error :: "nat \<times> nat" where
  "rune_error = (0xFFFD, 1)"

fun decode_rune :: "string \<Rightarrow> nat \<times> nat" where
  "decode_rune [] = (0xFFFD, 0)"
| "decode_rune (a # s) =
     (let n = byte_val a in
        if n < 128 then (n, 1)
        else if 0xC2 \<le> n \<and> n < 0xE0 then
          (case s of
             b # _ \<Rightarrow> (case cont_val b of Some x \<Rightarrow> ((n - 0xC0) * 64 + x, 2) | None \<Rightarrow> rune_error)
           | [] \<Rightarrow> rune_error)
        else if 0xE0 \<le> n \<and> n < 0xF0 then
          (case s of
             b # c # _ \<Rightarrow>
               (case (cont_val b, cont_val c) of
                  (Some x, Some y) \<Rightarrow>
                    (let r = (n - 0xE0) * 4096 + x * 64 + y in
                       if r < 0x800 \<or> (0xD800 \<le> r \<and> r \<le> 0xDFFF) then rune_error else (r, 3))
                | _ \<Rightarrow> rune_error)
           | _ \<Rightarrow> rune_error)
        else if 0xF0 \<le> n \<and> n < 0xF5 then
          (case s of
             b # c # d # _ \<Rightarrow>
               (case (cont_val b, cont_val c, cont_val d) of
                  (Some x, Some y, Some z) \<Rightarrow>
                    (let r = (n - 0xF0) * 262144 + x * 4096 + y * 64 + z in
                       if r < 0x10000 \<or> 0x10FFFF < r then rune_error else (r, 4))
                | _ \<Rightarrow> rune_error)
           | _ \<Rightarrow> rune_error)
        else rune_error)"

section \<open>Chunks\<close>

text \<open>\<open>getEsc\<close>: one possibly quoted code point of a class, and the rest of the chunk.\<close>

definition get_esc :: "string \<Rightarrow> (nat \<times> string) option" where
  "get_esc chunk =
     (case chunk of
        [] \<Rightarrow> None
      | c # cs \<Rightarrow>
          if c = CHR ''-'' \<or> c = CHR '']'' then None
          else
            let ch = (if c = CHR 0x5C then cs else chunk) in
            if ch = [] then None
            else
              let (r, n) = decode_rune ch in
              if (r = 0xFFFD \<and> n = 1) \<or> drop n ch = [] then None
              else Some (r, drop (max 1 n) ch))"

lemma get_esc_shorter: "get_esc chunk = Some (r, rest) \<Longrightarrow> length rest < length chunk"
  by (auto simp: get_esc_def Let_def split: list.splits if_splits prod.splits)

text \<open>The ranges of a class: whether \<open>r\<close> is in one of them, and the chunk after the bracket.\<close>

function class_ranges :: "nat \<Rightarrow> bool \<Rightarrow> nat \<Rightarrow> string \<Rightarrow> (bool \<times> string) option" where
  "class_ranges r matched nr chunk =
     (if nr > 0 \<and> chunk \<noteq> [] \<and> hd chunk = CHR '']'' then Some (matched, tl chunk)
      else (case get_esc chunk of
              None \<Rightarrow> None
            | Some (lo, rest) \<Rightarrow>
                if rest \<noteq> [] \<and> hd rest = CHR ''-'' then
                  (case get_esc (tl rest) of
                     None \<Rightarrow> None
                   | Some (hi, rest') \<Rightarrow>
                       class_ranges r (matched \<or> (lo \<le> r \<and> r \<le> hi)) (nr + 1) rest')
                else class_ranges r (matched \<or> r = lo) (nr + 1) rest))"
  by pat_completeness auto
termination
proof (relation "measure (\<lambda>(r, m, nr, chunk). length chunk)", goal_cases)
  case 1
  show ?case by simp
next
  case (2 r matched nr chunk x lo rest y hi rest')
  then have "length rest < length chunk" by (auto dest: get_esc_shorter)
  moreover have "length rest' < length (tl rest)" using 2 by (auto dest!: get_esc_shorter)
  ultimately show ?case by simp
next
  case (3 r matched nr chunk x lo rest)
  then show ?case by (auto dest: get_esc_shorter)
qed

declare class_ranges.simps [simp del]

lemma class_ranges_shorter:
  "class_ranges r m nr chunk = Some (b, rest) \<Longrightarrow> length rest < length chunk"
proof (induction r m nr chunk rule: class_ranges.induct)
  case (1 r matched nr chunk)
  show ?case
  proof (cases "nr > 0 \<and> chunk \<noteq> [] \<and> hd chunk = CHR '']''")
    case True
    then show ?thesis using "1.prems" by (subst (asm) class_ranges.simps) (cases chunk; auto)
  next
    case False
    then obtain lo rs where e: "get_esc chunk = Some (lo, rs)"
      using "1.prems" by (subst (asm) class_ranges.simps) (auto split: option.splits)
    note l = get_esc_shorter [OF e]
    show ?thesis
    proof (cases "rs \<noteq> [] \<and> hd rs = CHR ''-''")
      case True
      obtain hi rs' where e': "get_esc (tl rs) = Some (hi, rs')"
        and c: "class_ranges r (matched \<or> (lo \<le> r \<and> r \<le> hi)) (nr + 1) rs' = Some (b, rest)"
        using "1.prems" False e True
        by (subst (asm) class_ranges.simps) (auto split: option.splits)
      have "length rest < length rs'"
        using "1.IH"(1) [OF False e _ True e' _ c] by simp
      then show ?thesis using l get_esc_shorter [OF e'] by simp
    next
      case F2: False
      have c: "class_ranges r (matched \<or> r = lo) (nr + 1) rs = Some (b, rest)"
        using "1.prems" False e F2 by (subst (asm) class_ranges.simps) auto
      show ?thesis using "1.IH"(2) [OF False e _ F2 c] l by simp
    qed
  qed
qed

text \<open>\<open>matchChunk\<close>: \<open>failed\<close> records a mismatch while the rest of the chunk is still checked for
  syntax.  \<open>Some (Some rest)\<close> is a match, \<open>Some None\<close> a mismatch, \<open>None\<close> a bad pattern.\<close>

function match_chunk :: "bool \<Rightarrow> string \<Rightarrow> string \<Rightarrow> string option option" where
  "match_chunk failed [] s = Some (if failed then None else Some s)"
| "match_chunk failed (c # cs) s =
     (let failed = (failed \<or> s = []) in
        if c = CHR ''['' then
          (let (r, n) = (if failed then (0, 0) else decode_rune s);
               s' = drop n s;
               neg = (cs \<noteq> [] \<and> hd cs = CHR ''^'');
               body = (if neg then tl cs else cs)
           in case class_ranges r False 0 body of
                None \<Rightarrow> None
              | Some (m, rest) \<Rightarrow> match_chunk (failed \<or> (m = neg)) rest s')
        else if c = CHR ''?'' then
          match_chunk (failed \<or> hd s = CHR ''/'') cs
            (if failed then s else drop (snd (decode_rune s)) s)
        else if c = CHR 0x5C then
          (case cs of
             [] \<Rightarrow> None
           | d # ds \<Rightarrow> match_chunk (failed \<or> d \<noteq> hd s) ds (if failed then s else tl s))
        else match_chunk (failed \<or> c \<noteq> hd s) cs (if failed then s else tl s))"
  by pat_completeness auto
termination
proof (relation "measure (\<lambda>(f, chunk, s). length chunk)", goal_cases)
  case 1
  show ?case by simp
next
  case (2 f c cs s failed p r n s' neg body x m rest)
  then have "length rest < length body" by (auto dest: class_ranges_shorter)
  moreover have "length body \<le> length cs" using 2 by simp
  ultimately show ?case by simp
qed auto

declare match_chunk.simps [simp del]

section \<open>Patterns\<close>

text \<open>\<open>scanChunk\<close>: the leading stars, then the chunk up to the next star outside a class, then
  the rest of the pattern.\<close>

fun scan_chunk :: "bool \<Rightarrow> string \<Rightarrow> string \<times> string" where
  "scan_chunk inr [] = ([], [])"
| "scan_chunk inr (c # cs) =
     (if c = CHR 0x5C then
        (case cs of
           [] \<Rightarrow> ([c], [])
         | d # ds \<Rightarrow> (let (a, b) = scan_chunk inr ds in (c # d # a, b)))
      else if c = CHR ''['' then (let (a, b) = scan_chunk True cs in (c # a, b))
      else if c = CHR '']'' then (let (a, b) = scan_chunk False cs in (c # a, b))
      else if c = CHR ''*'' \<and> \<not> inr then ([], c # cs)
      else (let (a, b) = scan_chunk inr cs in (c # a, b)))"

definition strip_stars :: "string \<Rightarrow> string" where
  "strip_stars p = dropWhile (\<lambda>c. c = CHR ''*'') p"

lemma scan_chunk_length: "length (fst (scan_chunk i p)) + length (snd (scan_chunk i p)) = length p"
proof (induction i p rule: scan_chunk.induct)
  case (2 inr c cs)
  then show ?case by (cases cs) (auto simp: split_beta)
qed simp

lemma scan_chunk_le: "length (snd (scan_chunk i p)) \<le> length p"
  using scan_chunk_length [of i p] by simp

lemma scan_chunk_progress:
  assumes "p \<noteq> []"
  shows "length (snd (scan_chunk False (strip_stars p))) < length p"
proof (cases p)
  case (Cons c cs)
  show ?thesis
  proof (cases "c = CHR ''*''")
    case True
    then have "strip_stars p = strip_stars cs" using Cons by (simp add: strip_stars_def)
    moreover have "length (strip_stars cs) \<le> length cs"
      by (simp add: strip_stars_def length_dropWhile_le)
    ultimately show ?thesis
      using scan_chunk_le [of False "strip_stars cs"] Cons by simp
  next
    case False
    then have st: "strip_stars p = c # cs" using Cons by (simp add: strip_stars_def)
    have "fst (scan_chunk False (c # cs)) \<noteq> []"
      using False by (cases cs) (auto simp: split_beta)
    then have "0 < length (fst (scan_chunk False (c # cs)))" by (simp del: scan_chunk.simps)
    then have "length (snd (scan_chunk False (c # cs))) < length (c # cs)"
      using scan_chunk_length [of False "c # cs"] by linarith
    then show ?thesis using st Cons by (simp del: scan_chunk.simps)
  qed
qed (use assms in simp)

text \<open>Check the syntax of what is left of a pattern after a mismatch.\<close>

function glob_syntax :: "string \<Rightarrow> bool" where
  "glob_syntax p =
     (if p = [] then True
      else let (chunk, rest) = scan_chunk False (strip_stars p) in
        match_chunk False chunk [] \<noteq> None \<and> glob_syntax rest)"
  by pat_completeness auto
termination
proof (relation "measure length", goal_cases)
  case (2 p x chunk rest)
  then show ?case using scan_chunk_progress [of p] by (metis in_measure snd_conv)
qed simp

declare glob_syntax.simps [simp del]

text \<open>The first place after a star where the chunk matches: \<open>Some (Some t)\<close> with the name left.\<close>

fun star_search :: "string \<Rightarrow> bool \<Rightarrow> string \<Rightarrow> string option option" where
  "star_search chunk lst [] = Some None"
| "star_search chunk lst (c # cs) =
     (if c = CHR ''/'' then Some None
      else (case match_chunk False chunk cs of
              None \<Rightarrow> None
            | Some (Some t) \<Rightarrow> if lst \<and> t \<noteq> [] then star_search chunk lst cs else Some (Some t)
            | Some None \<Rightarrow> star_search chunk lst cs))"

function glob_match :: "string \<Rightarrow> string \<Rightarrow> bool option" where
  "glob_match p name =
     (if p = [] then Some (name = [])
      else
        let star = (hd p = CHR ''*'');
            cr = scan_chunk False (strip_stars p);
            chunk = fst cr; rest = snd cr
        in
        if star \<and> chunk = [] then Some (CHR ''/'' \<notin> set name)
        else (case match_chunk False chunk name of
                None \<Rightarrow> None
              | Some r \<Rightarrow>
                  if r \<noteq> None \<and> (the r = [] \<or> rest \<noteq> []) then glob_match rest (the r)
                  else if star then
                    (case star_search chunk (rest = []) name of
                       None \<Rightarrow> None
                     | Some (Some t) \<Rightarrow> glob_match rest t
                     | Some None \<Rightarrow> if glob_syntax rest then Some False else None)
                  else if glob_syntax rest then Some False else None))"
  by pat_completeness auto
termination
  by (relation "measure (\<lambda>(p, n). length p)") (auto dest: scan_chunk_progress)

declare glob_match.simps [simp del]

end
