(* ===== verification/Reviewers.thy ===== *)
theory Reviewers
  imports Lifecycle GoGlob
begin

text \<open>
  Reviewer routing (\<^verbatim>\<open>broker_reviewer_routing.go\<close>) and the transition chokepoint that calls
  it (\<open>transitionLifecycleLocked\<close> of \<^verbatim>\<open>broker_lifecycle_transition.go\<close>): who reviews a
  task, the grades, and the convergence rule that moves a task from review to decision.

  A bot stream is the list of manifest lines per task; decoding a line is a parameter of the
  environment.  A Go slice that is ranged over while its bucket shrinks is modelled with its
  backing array (\<open>sweep_loop\<close>).
\<close>

section \<open>Routing signals\<close>

definition task_worktree_diff :: "env \<Rightarrow> string \<Rightarrow> string \<Rightarrow> string list" where
  "task_worktree_diff e path branch =
     (if trim_space path = [] then []
      else let parent = (if trim_space branch = [] then ''HEAD'' else trim_space branch) in
        case e_git_diff e (trim_space path) parent of
          None \<Rightarrow> []
        | Some out \<Rightarrow>
            filter (\<lambda>l. l \<noteq> []) (map trim_space (split_on (CHR 0x0A) (trim_space out))))"

definition is_manifest :: "manifest_event option \<Rightarrow> bool" where
  "is_manifest ev \<longleftrightarrow> (case ev of Some m \<Rightarrow> ev_type m = ''manifest'' | None \<Rightarrow> False)"

definition line_event :: "env \<Rightarrow> string \<Rightarrow> manifest_event option" where
  "line_event e line =
     (let ev = e_decode_event e (trim_space line) in if is_manifest ev then ev else None)"

definition event_tools :: "env \<Rightarrow> string \<Rightarrow> string list" where
  "event_tools e line =
     (case line_event e line of
        None \<Rightarrow> []
      | Some m \<Rightarrow> filter (\<lambda>n. n \<noteq> []) (map trim_space (ev_tool_names m)))"

definition manifest_tool_names :: "env \<Rightarrow> string \<Rightarrow> broker \<Rightarrow> string list" where
  "manifest_tool_names e tid b =
     (if trim_space tid = [] then []
      else sort (dedup (concat (map (\<lambda>s. concat (map (event_tools e) (s_task_lines s (trim_space tid))))
                                    (b_streams b)))))"

definition filter_wiki_paths :: "string list \<Rightarrow> string list" where
  "filter_wiki_paths paths =
     filter (\<lambda>p. p \<noteq> [] \<and> (prefix ''wiki/'' p \<or> prefix ''team/'' p))
       (map (\<lambda>p. trim_prefix (trim_space p) ''./'') paths)"

record signals =
  sg_files :: "string list"
  sg_wiki_paths :: "string list"
  sg_tool_names :: "string list"
  sg_task_tags :: "string list"

definition extract_signals :: "env \<Rightarrow> task \<Rightarrow> string list \<Rightarrow> broker \<Rightarrow> signals" where
  "extract_signals e t files b =
     \<lparr> sg_files = files, sg_wiki_paths = filter_wiki_paths files,
       sg_tool_names = manifest_tool_names e (t_id t) b, sg_task_tags = t_tags t \<rparr>"

text \<open>One pattern against the candidates: an invalid glob drops the pattern.\<close>

fun glob_any :: "string \<Rightarrow> string list \<Rightarrow> bool" where
  "glob_any p [] = False"
| "glob_any p (c # cs) =
     (if trim_space c = [] then glob_any p cs
      else (case glob_match p (trim_space c) of
              None \<Rightarrow> False
            | Some True \<Rightarrow> True
            | Some False \<Rightarrow> glob_any p cs))"

definition any_glob_matches :: "string list \<Rightarrow> string list \<Rightarrow> bool" where
  "any_glob_matches patterns cands \<longleftrightarrow>
     (\<exists>p\<in>set patterns. trim_space p \<noteq> [] \<and> glob_any (trim_space p) cands)"

definition any_exact_matches :: "string list \<Rightarrow> string list \<Rightarrow> bool" where
  "any_exact_matches want have \<longleftrightarrow>
     (\<exists>w\<in>set want. trim_space w \<noteq> [] \<and> trim_space w \<in> trim_space ` set have)"

definition watching_empty :: "watching \<Rightarrow> bool" where
  "watching_empty w \<longleftrightarrow>
     w_files w = [] \<and> w_wiki_paths w = [] \<and> w_tool_names w = [] \<and> w_task_tags w = []"

definition watching_matches :: "watching \<Rightarrow> signals \<Rightarrow> bool" where
  "watching_matches w s \<longleftrightarrow>
     any_glob_matches (w_files w) (sg_files s)
     \<or> any_glob_matches (w_wiki_paths w) (sg_wiki_paths s)
     \<or> any_exact_matches (w_tool_names w) (sg_tool_names s)
     \<or> any_exact_matches (w_task_tags w) (sg_task_tags s)"

section \<open>Resolving and assigning\<close>

text \<open>\<open>prefetched\<close> is the diff taken outside the lock, None when the caller passes nil.\<close>

definition resolve_reviewers ::
  "env \<Rightarrow> string \<Rightarrow> string list option \<Rightarrow> broker \<Rightarrow> lc_error + string list" where
  "resolve_reviewers e tid prefetched b =
     (let i = trim_space tid in
        if i = [] then Inl TaskIdRequired
        else (case task_by_id b i of
                None \<Rightarrow> Inl (TaskNotFound i)
              | Some t \<Rightarrow>
                  let files = (case prefetched of
                                 Some fs \<Rightarrow> fs
                               | None \<Rightarrow> task_worktree_diff e (t_worktree_path t) (t_worktree_branch t));
                      sg = extract_signals e t files b
                  in Inr (sort (dedup (map (\<lambda>m. trim_space (m_slug m))
                            (filter (\<lambda>m. trim_space (m_slug m) \<noteq> []
                                        \<and> \<not> watching_empty (m_watching m)
                                        \<and> watching_matches (m_watching m) sg)
                                    (b_members b)))))))"

definition assign_reviewers :: "env \<Rightarrow> string \<Rightarrow> string list \<Rightarrow> broker \<Rightarrow> lc_error + broker" where
  "assign_reviewers e tid slugs b =
     (let i = trim_space tid in
        if i = [] then Inl TaskIdRequired
        else (case task_by_id b i of
                None \<Rightarrow> Inl (TaskNotFound i)
              | Some t \<Rightarrow>
                  Inr (set_task i
                    (\<lambda>t. t\<lparr> t_reviewers :=
                              sort (dedup (filter (\<lambda>s. s \<noteq> []) (map trim_space slugs))),
                            t_review_started_at := now_stamp e \<rparr>) b)))"

section \<open>The transition chokepoint\<close>

definition auto_assign :: "env \<Rightarrow> string \<Rightarrow> broker \<Rightarrow> broker" where
  "auto_assign e tid b =
     (case resolve_reviewers e tid None b of
        Inl _ \<Rightarrow> b
      | Inr slugs \<Rightarrow>
          if slugs = [] then b
          else (case assign_reviewers e tid slugs b of Inl _ \<Rightarrow> b | Inr b1 \<Rightarrow> b1))"

definition transition :: "env \<Rightarrow> string \<Rightarrow> lifecycle \<Rightarrow> broker \<Rightarrow> lc_error + broker" where
  "transition e tid new_s b =
     (case derived_fields_for new_s of
        None \<Rightarrow> Inl (NotCanonical new_s)
      | Some row \<Rightarrow>
          (case task_by_id b tid of
             None \<Rightarrow> Inl (TaskNotFound tid)
           | Some t \<Rightarrow>
               (case apply_lifecycle e tid new_s b of
                  Inl x \<Rightarrow> Inl x
                | Inr b1 \<Rightarrow>
                    Inr (if new_s = LsReview \<and> t_lifecycle t \<noteq> LsReview \<and> t_reviewers t = []
                         then auto_assign e tid b1 else b1))))"

section \<open>Grades and convergence\<close>

definition replace_or_append :: "('a \<Rightarrow> bool) \<Rightarrow> 'a \<Rightarrow> 'a list \<Rightarrow> 'a list" where
  "replace_or_append p x xs =
     (if \<exists>y\<in>set xs. p y then map_first p (\<lambda>_. x) xs else xs @ [x])"

definition get_or_init_packet :: "string \<Rightarrow> broker \<Rightarrow> packet" where
  "get_or_init_packet tid b =
     (case b_packets b tid of
        Some p \<Rightarrow> p
      | None \<Rightarrow> \<lparr> p_task_id = tid, p_lifecycle = LsUnset, p_grades = [], p_updated_at = None \<rparr>)"

definition grade_to_packet :: "env \<Rightarrow> string \<Rightarrow> grade \<Rightarrow> broker \<Rightarrow> broker" where
  "grade_to_packet e tid g b =
     (let p = get_or_init_packet tid b;
          p1 = p\<lparr> p_grades := replace_or_append
                    (\<lambda>h. norm_field (g_reviewer h) = norm_field (g_reviewer g)) g (p_grades p) \<rparr>;
          p2 = stamp_lifecycle e b p1;
          b1 = persist_packet e tid p2 (b\<lparr> b_packets := (b_packets b)(tid \<mapsto> p2) \<rparr>)
      in b1\<lparr> b_events := b_events b1 @
              [\<lparr> le_subkind = ''review.submitted'', le_task_id = tid, le_state = p_lifecycle p2,
                 le_reviewer = g_reviewer g, le_severity = g_severity g \<rparr>] \<rparr>)"

definition task_grades :: "string \<Rightarrow> broker \<Rightarrow> grade list" where
  "task_grades tid b = (case b_grades b tid of Some gs \<Rightarrow> gs | None \<Rightarrow> [])"

definition default_review_timeout :: int where
  "default_review_timeout = 600"

text \<open>None is the zero time: no deadline.\<close>

definition reviewer_deadline :: "task \<Rightarrow> int option" where
  "reviewer_deadline t =
     (case parse_stamp (t_review_started_at t) of
        None \<Rightarrow> None
      | Some started \<Rightarrow>
          let secs = (if t_review_timeout t \<le> 0 then default_review_timeout else t_review_timeout t)
          in Some (started + secs * nanos_per_second))"

definition observed_status :: "env \<Rightarrow> string \<Rightarrow> string \<Rightarrow> broker \<Rightarrow> string option" where
  "observed_status e tid slug b =
     (case find (\<lambda>s. s_slug s = slug) (b_streams b) of
        None \<Rightarrow> None
      | Some s \<Rightarrow>
          (case find (\<lambda>l. line_event e l \<noteq> None) (rev (s_task_lines s tid)) of
             None \<Rightarrow> None
           | Some l \<Rightarrow> map_option ev_status (line_event e l)))"

definition timeout_reason :: "env \<Rightarrow> string \<Rightarrow> string \<Rightarrow> broker \<Rightarrow> string" where
  "timeout_reason e tid slug b =
     (case observed_status e tid slug b of
        Some st \<Rightarrow>
          if st = ''idle'' \<or> st = ''error'' then ''reviewer process exited''
          else ''reviewer timed out''
      | None \<Rightarrow> ''reviewer timed out'')"

definition review_timeout_message :: "env \<Rightarrow> task \<Rightarrow> string \<Rightarrow> string \<Rightarrow> message" where
  "review_timeout_message e t slug reason =
     \<lparr> msg_id = ''review-timeout-'' @ t_id t @ ''-'' @ slug @ ''-'' @ itoa (e_now e),
       msg_from = ''system'',
       msg_channel = (if trim_space (t_channel t) = [] then ''general'' else trim_space (t_channel t)),
       msg_kind = ''agent.review.timeout'',
       msg_title = ''Reviewer '' @ slug @ '' did not grade task '' @ t_id t,
       msg_content = ''Reviewer '' @ go_quote slug @ '' on task '' @ go_quote (t_id t) @ '': '' @ reason
         @ '' '' @ em_dash @ '' slot filled with skipped placeholder.'',
       msg_tagged = [], msg_timestamp = now_stamp e, msg_reply_to = [], msg_source_task = [],
       msg_payload = [] \<rparr>"

definition fill_timeout :: "env \<Rightarrow> task \<Rightarrow> string \<Rightarrow> string \<Rightarrow> broker \<Rightarrow> broker" where
  "fill_timeout e t slug reason b =
     (let g = \<lparr> g_reviewer = slug, g_severity = ''skipped'', g_reasoning = reason,
               g_submitted_at = Some (e_now e) \<rparr>;
          b1 = b\<lparr> b_grades := (b_grades b)(t_id t \<mapsto> task_grades (t_id t) b @ [g]) \<rparr>;
          b2 = grade_to_packet e (t_id t) g b1
      in append_message e (review_timeout_message e t slug reason) b2)"

definition missing_reviewers :: "task \<Rightarrow> broker \<Rightarrow> string list" where
  "missing_reviewers t b =
     filter (\<lambda>s. s \<notin> g_reviewer ` set (task_grades (t_id t) b)) (t_reviewers t)"

definition to_decision :: "env \<Rightarrow> string \<Rightarrow> broker \<Rightarrow> lc_error option \<times> broker" where
  "to_decision e tid b =
     (case transition e tid LsDecision b of Inl x \<Rightarrow> (Some x, b) | Inr b1 \<Rightarrow> (None, b1))"

definition past_deadline :: "env \<Rightarrow> task \<Rightarrow> bool" where
  "past_deadline e t \<longleftrightarrow> (case reviewer_deadline t of None \<Rightarrow> False | Some d \<Rightarrow> d < e_now e)"

definition evaluate_convergence :: "env \<Rightarrow> string \<Rightarrow> broker \<Rightarrow> lc_error option \<times> broker" where
  "evaluate_convergence e tid b =
     (let i = trim_space tid in
        if i = [] then (None, b)
        else (case task_by_id b i of
                None \<Rightarrow> (Some (TaskNotFound i), b)
              | Some t \<Rightarrow>
                  if t_lifecycle t \<noteq> LsReview then (None, b)
                  else if t_reviewers t = [] then to_decision e i b
                  else
                    let missing = missing_reviewers t b in
                    if missing = [] then to_decision e i b
                    else if \<not> past_deadline e t then (None, b)
                    else
                      let reasons = map (\<lambda>s. (s, timeout_reason e i s b)) missing;
                          b1 = foldl (\<lambda>b (s, r). fill_timeout e t s r b) b reasons
                      in to_decision e i b1))"

definition append_reviewer_grade :: "env \<Rightarrow> string \<Rightarrow> grade \<Rightarrow> broker \<Rightarrow> lc_error + broker" where
  "append_reviewer_grade e tid g b =
     (let i = trim_space tid in
        if i = [] then Inl TaskIdRequired
        else if trim_space (g_reviewer g) = [] then Inl ReviewerRequired
        else (case task_by_id b i of
                None \<Rightarrow> Inl (TaskNotFound i)
              | Some t \<Rightarrow>
                  let g1 = (if g_submitted_at g = None then g\<lparr> g_submitted_at := Some (e_now e) \<rparr>
                            else g);
                      gs = replace_or_append (\<lambda>h. g_reviewer h = g_reviewer g1) g1 (task_grades i b)
                  in Inr (snd (evaluate_convergence e i
                            (b\<lparr> b_grades := (b_grades b)(i \<mapsto> gs) \<rparr>)))))"

section \<open>The sweep\<close>

text \<open>\<open>arr\<close> is the backing array the range clause took its header from.  Removing an id from the
  bucket shifts the tail of that array in place and leaves the last slot as it was.\<close>

definition shift_array :: "string list \<Rightarrow> string list \<Rightarrow> string list" where
  "shift_array new_bucket arr = new_bucket @ drop (length new_bucket) arr"

fun sweep_loop :: "env \<Rightarrow> nat list \<Rightarrow> string list \<Rightarrow> broker \<Rightarrow> broker" where
  "sweep_loop e [] arr b = b"
| "sweep_loop e (k # ks) arr b =
     (let b1 = snd (evaluate_convergence e (arr ! k) b);
          old = bucket (b_index b) LsReview; new = bucket (b_index b1) LsReview;
          arr1 = (if length new < length old then shift_array new arr else arr)
      in sweep_loop e ks arr1 b1)"

definition sweep_review_convergence :: "env \<Rightarrow> broker \<Rightarrow> broker" where
  "sweep_review_convergence e b =
     (let arr = bucket (b_index b) LsReview in sweep_loop e [0..<length arr] arr b)"

section \<open>Lemmas\<close>

lemma grade_to_packet_sel [simp]:
  "b_tasks (grade_to_packet e i g b) = b_tasks b" "b_index (grade_to_packet e i g b) = b_index b"
  "b_grades (grade_to_packet e i g b) = b_grades b"
  "b_members (grade_to_packet e i g b) = b_members b"
  "b_streams (grade_to_packet e i g b) = b_streams b"
  by (simp_all add: grade_to_packet_def Let_def)

lemma fill_timeout_sel [simp]:
  "b_tasks (fill_timeout e t s r b) = b_tasks b" "b_index (fill_timeout e t s r b) = b_index b"
  "b_members (fill_timeout e t s r b) = b_members b"
  "b_streams (fill_timeout e t s r b) = b_streams b"
  by (simp_all add: fill_timeout_def Let_def)

lemma fill_timeout_grades:
  "b_grades (fill_timeout e t s r b) =
     (b_grades b)(t_id t \<mapsto> task_grades (t_id t) b @
        [\<lparr> g_reviewer = s, g_severity = ''skipped'', g_reasoning = r,
           g_submitted_at = Some (e_now e) \<rparr>])"
  by (simp add: fill_timeout_def Let_def)

definition fill_all :: "env \<Rightarrow> task \<Rightarrow> (string \<times> string) list \<Rightarrow> broker \<Rightarrow> broker" where
  "fill_all e t rs b = foldl (\<lambda>b (s, r). fill_timeout e t s r b) b rs"

lemma fill_all_sel [simp]:
  "b_tasks (fill_all e t rs b) = b_tasks b" "b_index (fill_all e t rs b) = b_index b"
  by (auto simp: fill_all_def intro!: foldl_keeps split: prod.splits)

lemma fill_all_graded:
  "g_reviewer ` set (task_grades (t_id t) (fill_all e t rs b)) =
     g_reviewer ` set (task_grades (t_id t) b) \<union> fst ` set rs"
proof (induction rs arbitrary: b)
  case Nil
  then show ?case by (simp add: fill_all_def)
next
  case (Cons sr rs)
  obtain s r where sr: "sr = (s, r)" by (cases sr)
  have step: "fill_all e t (sr # rs) b = fill_all e t rs (fill_timeout e t s r b)"
    by (simp add: fill_all_def sr)
  have "g_reviewer ` set (task_grades (t_id t) (fill_timeout e t s r b)) =
          insert s (g_reviewer ` set (task_grades (t_id t) b))"
    by (simp add: task_grades_def [of _ "fill_timeout e t s r b"] fill_timeout_grades)
  then show ?case unfolding step Cons.IH by (simp add: sr)
qed

lemma index_inv_set_task:
  assumes "index_inv b" "\<And>t. t_id (f t) = t_id t" "\<And>t. t_lifecycle (f t) = t_lifecycle t"
  shows "index_inv (set_task i f b)"
proof -
  have "life_of (set_task i f b) = life_of b"
  proof
    fix j
    have "map_option t_lifecycle (find (\<lambda>t. t_id t = j) (map_first (\<lambda>t. t_id t = i) f ts)) =
          map_option t_lifecycle (find (\<lambda>t. t_id t = j) ts)" for ts
      using assms(2,3) by (induction ts) auto
    then show "life_of (set_task i f b) j = life_of b j"
      by (simp add: life_of_def task_by_id_def set_task_def)
  qed
  then show ?thesis using assms by (simp add: index_inv_def)
qed

lemma assign_reviewers_inv:
  "index_inv b \<Longrightarrow> assign_reviewers e i ss b = Inr b' \<Longrightarrow> index_inv b'"
  by (auto simp: assign_reviewers_def Let_def split: if_splits option.splits
      intro!: index_inv_set_task)

lemma auto_assign_inv: "index_inv b \<Longrightarrow> index_inv (auto_assign e i b)"
  by (auto simp: auto_assign_def split: sum.splits intro: assign_reviewers_inv)

lemma transition_ok:
  assumes "transition e i s b = Inr b'"
  obtains t row b1 where "task_by_id b i = Some t" "derived_fields_for s = Some row"
    "apply_lifecycle e i s b = Inr b1"
    "b' = (if s = LsReview \<and> t_lifecycle t \<noteq> LsReview \<and> t_reviewers t = []
           then auto_assign e i b1 else b1)"
  using assms by (auto simp: transition_def split: option.splits sum.splits)

lemma transition_keeps_index:
  "index_inv b \<Longrightarrow> transition e i s b = Inr b' \<Longrightarrow> index_inv b'"
  by (erule transition_ok) (auto intro: apply_lifecycle_inv auto_assign_inv split: if_splits)

lemma transition_succeeds:
  assumes "task_by_id b i = Some t" "s \<in> set canonical_states"
  shows "\<exists>b'. transition e i s b = Inr b'"
proof -
  obtain row where "derived_fields_for s = Some row"
    using assms(2) derived_fields_canonical by blast
  then show ?thesis using assms(1) by (simp add: transition_def apply_lifecycle_def Let_def)
qed

text \<open>\<open>same_but_reviewers\<close>: two tasks that differ at most in what reviewer assignment writes.\<close>

definition same_but_reviewers :: "task \<Rightarrow> task \<Rightarrow> bool" where
  "same_but_reviewers t u \<longleftrightarrow>
     u = t\<lparr> t_reviewers := t_reviewers u, t_review_started_at := t_review_started_at u \<rparr>"

lemma auto_assign_task:
  assumes "task_by_id b i = Some t"
  shows "\<exists>u. task_by_id (auto_assign e i b) i = Some u \<and> same_but_reviewers t u"
proof -
  let ?f = "\<lambda>slugs (t::task). t\<lparr> t_reviewers := sort (dedup (filter (\<lambda>s. s \<noteq> []) (map trim_space slugs))),
                            t_review_started_at := now_stamp e \<rparr>"
  have c: "auto_assign e i b = b \<or> (\<exists>slugs. auto_assign e i b = set_task (trim_space i) (?f slugs) b)"
    by (auto simp: auto_assign_def assign_reviewers_def Let_def split: sum.splits option.splits)
  show "\<exists>u. task_by_id (auto_assign e i b) i = Some u \<and> same_but_reviewers t u"
  proof (cases "auto_assign e i b = b")
    case True
    then show ?thesis using assms by (simp add: same_but_reviewers_def)
  next
    case False
    then obtain slugs where s: "auto_assign e i b = set_task (trim_space i) (?f slugs) b" using c by blast
    show ?thesis
    proof (cases "trim_space i = i")
      case True
      have "task_by_id (set_task i (?f slugs) b) i = Some (?f slugs t)"
        by (rule set_task_same [OF assms]) simp
      then show ?thesis by (simp add: s True same_but_reviewers_def)
    next
      case False
      have "task_by_id (set_task (trim_space i) (?f slugs) b) i = task_by_id b i"
        by (rule set_task_other) (use False in simp_all)
      then show ?thesis using assms by (simp add: s same_but_reviewers_def)
    qed
  qed
qed

lemma auto_assign_other:
  "j \<noteq> trim_space i \<Longrightarrow> task_by_id (auto_assign e i b) j = task_by_id b j"
  by (auto simp: auto_assign_def assign_reviewers_def Let_def
      split: sum.splits option.splits intro!: set_task_other)

lemma transition_task:
  assumes "transition e i s b = Inr b'"
  shows "\<exists>t row u. task_by_id b i = Some t \<and> derived_fields_for s = Some row
           \<and> task_by_id b' i = Some u \<and> same_but_reviewers (stamp_row s row t) u"
  using assms
proof (rule transition_ok)
  fix t row b1
  assume a: "task_by_id b i = Some t" "derived_fields_for s = Some row"
    "apply_lifecycle e i s b = Inr b1"
    "b' = (if s = LsReview \<and> t_lifecycle t \<noteq> LsReview \<and> t_reviewers t = []
           then auto_assign e i b1 else b1)"
  have t1: "task_by_id b1 i = Some (stamp_row s row t)"
    using apply_lifecycle_task [OF a(3)] a(1,2) by auto
  show ?thesis
    using a auto_assign_task [OF t1, of e] t1
    by (auto simp: same_but_reviewers_def)
qed

lemma same_but_reviewers_sel:
  "same_but_reviewers t u \<Longrightarrow> t_lifecycle u = t_lifecycle t \<and> t_status u = t_status t
     \<and> t_blocked u = t_blocked t \<and> t_review_state u = t_review_state t
     \<and> t_pipeline_stage u = t_pipeline_stage t \<and> t_id u = t_id t
     \<and> t_depends_on u = t_depends_on t \<and> t_blocked_on u = t_blocked_on t \<and> t_owner u = t_owner t"
  by (cases t; cases u) (simp add: same_but_reviewers_def)

lemma to_decision_inv: "index_inv b \<Longrightarrow> index_inv (snd (to_decision e i b))"
  by (auto simp: to_decision_def split: sum.splits intro: transition_keeps_index)

lemma index_inv_fill_all [simp]: "index_inv (fill_all e t rs b) = index_inv b"
  by (rule index_inv_cong) simp_all

lemma evaluate_convergence_inv:
  "index_inv b \<Longrightarrow> index_inv (snd (evaluate_convergence e i b))"
  by (auto simp: evaluate_convergence_def Let_def fill_all_def [symmetric] to_decision_inv
      split: option.splits)

lemma sweep_loop_inv: "index_inv b \<Longrightarrow> index_inv (sweep_loop e ks arr b)"
  by (induction ks arbitrary: arr b) (simp_all add: Let_def evaluate_convergence_inv)

lemma to_decision_task:
  assumes "task_by_id b i = Some t"
  shows "fst (to_decision e i b) = None
    \<and> (\<exists>u. task_by_id (snd (to_decision e i b)) i = Some u \<and> t_lifecycle u = LsDecision)"
proof -
  obtain b' where b': "transition e i LsDecision b = Inr b'"
    using transition_succeeds [OF assms, of LsDecision e] by (auto simp: canonical_states_def)
  from transition_task [OF b'] show ?thesis
    by (auto simp: to_decision_def b' dest!: same_but_reviewers_sel)
qed

lemma assign_reviewers_live:
  "index_live b \<Longrightarrow> assign_reviewers e i ss b = Inr b' \<Longrightarrow> index_live b'"
  by (auto simp: assign_reviewers_def Let_def split: if_splits option.splits
      intro!: index_live_set_task)

lemma auto_assign_live: "index_live b \<Longrightarrow> index_live (auto_assign e i b)"
  by (auto simp: auto_assign_def split: sum.splits intro: assign_reviewers_live)

lemma transition_live:
  "index_live b \<Longrightarrow> transition e i s b = Inr b' \<Longrightarrow> index_live b'"
  by (erule transition_ok) (auto intro: apply_lifecycle_live auto_assign_live split: if_splits)

text \<open>A transition of one task leaves every other task as it was.\<close>

lemma transition_frame:
  assumes "transition e i s b = Inr b'" "trim_space i = i" "j \<noteq> i"
  shows "task_by_id b' j = task_by_id b j"
  using assms(1)
proof (rule transition_ok)
  fix t row b1
  assume a: "apply_lifecycle e i s b = Inr b1"
    "b' = (if s = LsReview \<and> t_lifecycle t \<noteq> LsReview \<and> t_reviewers t = []
           then auto_assign e i b1 else b1)"
  have "task_by_id b' j = task_by_id b1 j"
    using assms(2,3) a(2) auto_assign_other [of j i e b1] by simp
  then show ?thesis using apply_lifecycle_task [OF a(1)] assms(3) by auto
qed

lemma transition_ids:
  assumes "transition e i s b = Inr b'"
  shows "task_ids b' = task_ids b"
  using assms
proof (rule transition_ok)
  fix t row b1
  assume a: "apply_lifecycle e i s b = Inr b1"
    "b' = (if s = LsReview \<and> t_lifecycle t \<noteq> LsReview \<and> t_reviewers t = []
           then auto_assign e i b1 else b1)"
  have "task_ids b1 = task_ids b"
    using a(1) by (rule apply_lifecycle_cases) (simp add: task_ids_def set_task_def map_map_first)
  moreover have "task_ids (auto_assign e i b1) = task_ids b1"
    by (auto simp: auto_assign_def assign_reviewers_def Let_def split: sum.splits option.splits)
  ultimately show ?thesis using a(2) by simp
qed

lemma transition_requests:
  assumes "transition e i s b = Inr b'"
  shows "b_requests b' = b_requests b"
  using assms
proof (rule transition_ok)
  fix t row b1
  assume a: "apply_lifecycle e i s b = Inr b1"
    "b' = (if s = LsReview \<and> t_lifecycle t \<noteq> LsReview \<and> t_reviewers t = []
           then auto_assign e i b1 else b1)"
  have "b_requests b1 = b_requests b" using a(1) by (rule apply_lifecycle_cases) simp
  moreover have "b_requests (auto_assign e i b1) = b_requests b1"
    by (auto simp: auto_assign_def assign_reviewers_def Let_def split: sum.splits option.splits)
  ultimately show ?thesis using a(2) by simp
qed

end
