(* ===== verification/Samples.thy ===== *)
theory Samples
  imports BrokerState
begin

text \<open>
  Concrete states the witnesses evaluate the definitions on: an environment in which every disk
  write succeeds, a task, and a broker with three tasks.
\<close>

definition sample_now :: int where
  "sample_now = 1000 * nanos_per_second"

definition sample_env :: env where
  "sample_env =
     \<lparr> e_now = sample_now, e_max_messages = None, e_git_diff = (\<lambda>_ _. None),
       e_decode_event = (\<lambda>_. None), e_packet_write = (\<lambda>_ _ _. True),
       e_follow_up_minutes = 60, e_recheck_minutes = 15, e_reminder_minutes = 30,
       e_worktree_usable = (\<lambda>_. True), e_worktree_writable = (\<lambda>_. True),
       e_cleanup_worktree = (\<lambda>_ _. True), e_prepare_worktree = (\<lambda>i. Some (''/wt/'' @ i, ''br-'' @ i)),
       e_retention_days = None, e_save = (\<lambda>_. True),
       e_memory_sync = t_memory, e_memory_gate = (\<lambda>t _ _ _. Some (t_memory t)),
       e_derive_check = (\<lambda>_. None) \<rparr>"

definition sample_task :: "string \<Rightarrow> lifecycle \<Rightarrow> task" where
  "sample_task i s =
     \<lparr> t_id = i, t_channel = ''dev'', t_title = ''Write notes'', t_details = [], t_owner = [],
       t_status = ''open'', t_created_by = ''human'', t_thread_id = [], t_task_type = ''follow_up'',
       t_pipeline_id = ''follow_up'', t_pipeline_stage = ''triage'', t_execution_mode = ''office'',
       t_review_state = ''pending_review'', t_source_signal_id = [], t_source_decision_id = [],
       t_worktree_path = [], t_worktree_branch = [], t_depends_on = [], t_blocked_on = [],
       t_parent_issue_id = [], t_blocked = False, t_lifecycle = s, t_reviewers = [], t_tags = [],
       t_review_started_at = NoStamp, t_review_timeout = 0, t_due_at = NoStamp,
       t_follow_up_at = NoStamp, t_reminder_at = NoStamp, t_recheck_at = NoStamp, t_wiki_refs = [], t_memory = [],
       t_verification = None, t_definition = None, t_artifact = [], t_changes = None,
       t_objection = None, t_note = None,
       t_created_at = At 0, t_updated_at = At 0,
       t_completed_at = NoStamp \<rparr>"

definition sample_broker :: "task list \<Rightarrow> broker" where
  "sample_broker ts =
     \<lparr> b_tasks = ts, b_requests = [], b_members = [], b_index = Map.empty, b_packets = Map.empty,
       b_packet_disk = Map.empty, b_timers = {}, b_messages = [], b_counter = 0, b_actions = [],
       b_jobs = [], b_watchdogs = [], b_activity = Map.empty, b_grades = Map.empty,
       b_streams = [], b_events = [], b_channels = [], b_store = None,
       b_one_on_one = None \<rparr>"

end
