(* ===== verification/LifecycleProps.thy ===== *)
theory LifecycleProps
  imports Reviewers Samples
begin

text \<open>
  The properties of the task life cycle: the inverse index, the legacy fields, the decision
  packet, the migration tables, the reindexing of legacy writes, reviewer resolution, the
  convergence rule and its sweep.
\<close>

section \<open>Sample states\<close>

definition board :: broker where
  "board = migrate_lifecycle_states (sample_broker
     [sample_task ''A'' LsUnset, sample_task ''B'' LsReview, sample_task ''C'' LsRunning])"

definition review_board :: broker where
  "review_board = migrate_lifecycle_states (sample_broker
     [sample_task ''A'' LsReview, sample_task ''B'' LsReview, sample_task ''C'' LsReview])"

lemma board_inv: "index_inv board"
  unfolding board_def
  by (rule migrate_lifecycle_states_inv) (simp add: task_ids_def sample_broker_def sample_task_def)

lemma board_task: "\<exists>t. task_by_id board ''A'' = Some t"
proof -
  have "\<not> Option.is_none (task_by_id board ''A'')" by code_simp
  then show ?thesis by (cases "task_by_id board ''A''") simp_all
qed

section \<open>The transition chokepoint\<close>

text \<open>C21.  A successful transition keeps the inverse index exact (every task id once, in the
  bucket of its state, no empty bucket) and leaves the moved id in the bucket of the new state
  and in no other.\<close>

theorem transition_index:
  assumes "index_inv b" "transition e i s b = Inr b'"
  shows "index_inv b' \<and> i \<in> set (bucket (b_index b') s)
         \<and> (\<forall>v. v \<noteq> s \<longrightarrow> i \<notin> set (bucket (b_index b') v))"
proof -
  have inv: "index_inv b'" by (rule transition_keeps_index [OF assms])
  from transition_task [OF assms(2)] obtain row u where
    "derived_fields_for s = Some row" "task_by_id b' i = Some u" "t_lifecycle u = s"
    by (auto dest!: same_but_reviewers_sel)
  moreover have "s \<noteq> LsUnset" using calculation(1) by auto
  ultimately show ?thesis using inv by (auto simp: index_inv_def tracks_def life_of_def)
qed

theorem transition_index_witness:
  "\<exists>b'. transition sample_env ''A'' LsRunning board = Inr b' \<and> index_inv b'"
proof -
  obtain b' where "transition sample_env ''A'' LsRunning board = Inr b'"
    using board_task transition_succeeds [of board "''A''" _ LsRunning sample_env]
    by (auto simp: canonical_states_def)
  with transition_index [OF board_inv this] show ?thesis by blast
qed

lemma transition_branches:
  assumes "trim_space i = i"
  shows "s \<notin> set canonical_states \<Longrightarrow> transition e i s b = Inl (NotCanonical s)"
    and "s \<in> set canonical_states \<Longrightarrow> task_by_id b i = None \<Longrightarrow>
           transition e i s b = Inl (TaskNotFound i)"
    and "s \<in> set canonical_states \<Longrightarrow> task_by_id b i = Some t \<Longrightarrow>
           \<exists>b' u row. transition e i s b = Inr b' \<and> derived_fields_for s = Some row
             \<and> task_by_id b' i = Some u \<and> same_but_reviewers (stamp_row s row t) u
             \<and> (\<forall>j. j \<noteq> i \<longrightarrow> task_by_id b' j = task_by_id b j)"
proof -
  show "s \<notin> set canonical_states \<Longrightarrow> transition e i s b = Inl (NotCanonical s)"
    using derived_fields_canonical [of s] by (auto simp: transition_def split: option.splits)
  show "s \<in> set canonical_states \<Longrightarrow> task_by_id b i = None \<Longrightarrow>
          transition e i s b = Inl (TaskNotFound i)"
    using derived_fields_canonical [of s] by (auto simp: transition_def split: option.splits)
  assume s: "s \<in> set canonical_states" and t: "task_by_id b i = Some t"
  from transition_succeeds [OF t s, of e] obtain b' where b': "transition e i s b = Inr b'" by blast
  have "\<forall>j. j \<noteq> i \<longrightarrow> task_by_id b' j = task_by_id b j"
    using b'
  proof (rule transition_ok)
    fix t row b1
    assume a: "apply_lifecycle e i s b = Inr b1"
      "b' = (if s = LsReview \<and> t_lifecycle t \<noteq> LsReview \<and> t_reviewers t = []
             then auto_assign e i b1 else b1)"
      "task_by_id b i = Some t"
    have "task_by_id b' j = task_by_id b1 j" if "j \<noteq> i" for j
      using that a(2,3) assms auto_assign_other [of j i e b1] by simp
    then show ?thesis using apply_lifecycle_task [OF a(1)] by auto
  qed
  then show "\<exists>b' u row. transition e i s b = Inr b' \<and> derived_fields_for s = Some row
      \<and> task_by_id b' i = Some u \<and> same_but_reviewers (stamp_row s row t) u
      \<and> (\<forall>j. j \<noteq> i \<longrightarrow> task_by_id b' j = task_by_id b j)"
    using b' transition_task [OF b'] t by auto
qed

text \<open>C20.  What a transition returns, on every branch: an error for a state without a forward-map
  row or an unknown task, otherwise the task with the new state and exactly the four derived
  fields of the state's row (reviewer assignment apart), and no other task changed.\<close>

theorem transition_result:
  assumes "trim_space i = i"
  shows "(if s \<notin> set canonical_states then transition e i s b = Inl (NotCanonical s)
          else (case task_by_id b i of
                  None \<Rightarrow> transition e i s b = Inl (TaskNotFound i)
                | Some t \<Rightarrow>
                    \<exists>b' u row. transition e i s b = Inr b' \<and> derived_fields_for s = Some row
                      \<and> task_by_id b' i = Some u \<and> same_but_reviewers (stamp_row s row t) u
                      \<and> (\<forall>j. j \<noteq> i \<longrightarrow> task_by_id b' j = task_by_id b j)))"
  using transition_branches [OF assms, where s = s and e = e and b = b]
  by (cases "task_by_id b i") simp_all

theorem transition_result_witness:
  "\<exists>b' u. transition sample_env ''A'' LsApproved board = Inr b'
     \<and> task_by_id b' ''A'' = Some u \<and> t_status u = ''done'' \<and> \<not> t_blocked u"
proof -
  obtain t where t: "task_by_id board ''A'' = Some t" using board_task by blast
  have "trim_space ''A'' = ''A''" by code_simp
  from transition_result [OF this, of LsApproved sample_env board] show ?thesis
    using t by (auto simp: canonical_states_def mk_row_def dest!: same_but_reviewers_sel)
qed

text \<open>C22.  The decision packet never lags behind the task: after a transition of a task that has a
  packet, the packet carries the new state and its grades are kept; the copy on disk is that
  packet when one of the three attempts to write it succeeds, and otherwise the last message is
  the persistence-error banner.  The debounce timer is armed exactly when the new state is
  running.\<close>

theorem packet_lockstep:
  assumes tr: "apply_lifecycle e i s b = Inr b'"
    and p: "b_packets b i = Some p" "p_task_id p = i"
  shows "\<exists>p'. b_packets b' i = Some p' \<and> p_lifecycle p' = s \<and> p_grades p' = p_grades p
           \<and> ((\<exists>a<3. e_packet_write e a i p') \<longrightarrow> b_packet_disk b' i = Some p')
           \<and> (\<not> (\<exists>a<3. e_packet_write e a i p') \<longrightarrow>
                msg_kind (last (b_messages b')) = ''persistence_error'')
           \<and> (i \<in> b_timers b' \<longleftrightarrow> s = LsRunning)"
proof -
  obtain t row where t: "task_by_id b i = Some t" and row: "derived_fields_for s = Some row"
    using tr by (rule apply_lifecycle_cases)
  define b1 where "b1 = move_task i (stamp_row s row) (t_lifecycle t) s b"
  define b2 where "b2 = (if t_lifecycle t \<noteq> LsUnset \<and> t_lifecycle t \<noteq> LsUnknown
    then post_lifecycle_card e (stamp_row s row t) (t_lifecycle t) s ''system'' b1 else b1)"
  have b': "b' = on_lifecycle_transition e i s b2"
    using tr t row by (auto simp: apply_lifecycle_def Let_def b1_def b2_def)
  have pk: "b_packets b2 i = Some p" using p by (simp add: b2_def b1_def)
  have "task_by_id b2 i = task_by_id (set_task i (stamp_row s row) b) i"
    by (rule task_by_id_cong) (simp add: b2_def b1_def)
  then have t2: "task_by_id b2 i = Some (stamp_row s row t)"
    using set_task_same [OF t, of "stamp_row s row"] by simp
  have l: "p_lifecycle (stamp_lifecycle e b2 p) = s" "p_grades (stamp_lifecycle e b2 p) = p_grades p"
    using p t2 by (simp_all add: stamp_lifecycle_def Let_def)
  show ?thesis
    using l unfolding b' on_lifecycle_transition_def pk
    by (auto simp: Let_def schedule_running_flush_def cancel_running_flush_def persist_packet_def
        packet_write_attempts_def append_message_last)
qed

definition packet_board :: broker where
  "packet_board = board\<lparr> b_packets := [''A'' \<mapsto>
     \<lparr> p_task_id = ''A'', p_lifecycle = LsUnset, p_grades = [], p_updated_at = None \<rparr>] \<rparr>"

theorem packet_lockstep_witness:
  "\<exists>b' p'. apply_lifecycle sample_env ''A'' LsRunning packet_board = Inr b'
     \<and> b_packet_disk b' ''A'' = Some p' \<and> p_lifecycle p' = LsRunning"
proof -
  have "\<exists>b'. apply_lifecycle sample_env ''A'' LsRunning packet_board = Inr b'"
    using board_task by (auto simp: apply_lifecycle_def Let_def packet_board_def task_by_id_def)
  then obtain b' where b': "apply_lifecycle sample_env ''A'' LsRunning packet_board = Inr b'" ..
  from packet_lockstep [OF this, of "\<lparr> p_task_id = ''A'', p_lifecycle = LsUnset, p_grades = [],
      p_updated_at = None \<rparr>"]
  obtain p' where p': "p_lifecycle p' = LsRunning"
    "(\<exists>a<3. e_packet_write sample_env a ''A'' p') \<longrightarrow> b_packet_disk b' ''A'' = Some p'"
    by (auto simp: packet_board_def)
  moreover have "\<exists>a<3. e_packet_write sample_env a ''A'' p'"
    by (rule exI [of _ 0]) (simp add: sample_env_def)
  ultimately show ?thesis using b' by blast
qed

section \<open>The tables\<close>

text \<open> The migration map read back from the forward map: a state survives the way through its
  legacy fields, except that intake comes back as ready, decision as review and changes
  requested as running.  The comment on the migration map calls its canonical rows the direct
  inverse of the forward map; the three exceptions are the states it is not one for.\<close>

theorem derive_after_forward:
  assumes "derived_fields_for s = Some r"
  shows "derive_row r = back_state s"
  using assms by (cases s; simp add: back_state_def; hypsubst; code_simp)

theorem derive_after_forward_witness:
  "derive_row (mk_row ''implement'' ''pending_review'' ''in_progress'' False) = LsRunning
   \<and> back_state LsChangesRequested = LsRunning"
  using derive_after_forward [of LsChangesRequested] by (simp add: back_state_def)

text \<open> The start-up migration gives every task a state, leaves a state already set as it is,
  builds an exact index from scratch, and running it again changes nothing.\<close>

theorem migrate_exact:
  assumes "distinct (task_ids b)"
  shows "index_inv (migrate_lifecycle_states b)
    \<and> (\<forall>t\<in>set (b_tasks (migrate_lifecycle_states b)). t_lifecycle t \<noteq> LsUnset)
    \<and> (\<forall>i t. task_by_id b i = Some t \<longrightarrow> t_lifecycle t \<noteq> LsUnset \<longrightarrow>
         task_by_id (migrate_lifecycle_states b) i = Some t)
    \<and> migrate_lifecycle_states (migrate_lifecycle_states b) = migrate_lifecycle_states b"
proof (intro conjI)
  show "index_inv (migrate_lifecycle_states b)" by (rule migrate_lifecycle_states_inv [OF assms])
  show "\<forall>t\<in>set (b_tasks (migrate_lifecycle_states b)). t_lifecycle t \<noteq> LsUnset"
    by (auto simp: migrate_lifecycle_states_def Let_def migrate_task_def migrate_state_set)
  have keep: "migrate_task t = t" if "t_lifecycle t \<noteq> LsUnset" for t
    using that by (simp add: migrate_task_def migrate_state_def set_lifecycle_def)
  have fm: "find (\<lambda>t. t_id t = i) (map migrate_task ts) =
      map_option migrate_task (find (\<lambda>t. t_id t = i) ts)" for i ts
    by (induction ts) auto
  show "\<forall>i t. task_by_id b i = Some t \<longrightarrow> t_lifecycle t \<noteq> LsUnset \<longrightarrow>
      task_by_id (migrate_lifecycle_states b) i = Some t"
    by (auto simp: task_by_id_def migrate_lifecycle_states_def Let_def fm keep)
  have "migrate_task (migrate_task t) = migrate_task t" for t
    by (rule keep) (simp add: migrate_task_def migrate_state_set)
  then show "migrate_lifecycle_states (migrate_lifecycle_states b) = migrate_lifecycle_states b"
    by (simp add: migrate_lifecycle_states_def Let_def comp_def)
qed

theorem migrate_exact_witness:
  "index_inv (migrate_lifecycle_states (sample_broker [sample_task ''A'' LsUnset]))"
  using migrate_exact [of "sample_broker [sample_task ''A'' LsUnset]"]
  by (simp add: task_ids_def sample_broker_def)

lemma blocked_map:
  "map_of lifecycle_migration_map (p, r, s, True) = Some l \<Longrightarrow>
     l \<in> {LsBlocked, LsQueuedBehindOwner, LsRejected}"
proof -
  have "\<forall>x\<in>set lifecycle_migration_map. snd (snd (snd (fst x))) \<longrightarrow>
          snd x \<in> {LsBlocked, LsQueuedBehindOwner, LsRejected}"
    by (simp add: lifecycle_migration_map_def)
  moreover assume "map_of lifecycle_migration_map (p, r, s, True) = Some l"
  ultimately show ?thesis by (fastforce dest: map_of_SomeD)
qed

text \<open> Reindexing a task after a legacy write: the task gets the derived state and the index
  follows; the state is always a canonical one, so a dispatch gate never sees unknown; a blocked
  task never comes out as planning or as any state an owner turn may run in; and an unblocked
  task in planning whose status is still open or in progress stays in planning.\<close>

theorem reindex_sound:
  assumes "index_inv b" "task_by_id b i = Some t"
  shows "index_inv (reindex_task e i b)
    \<and> life_of (reindex_task e i b) i = Some (reindex_state t)
    \<and> reindex_state t \<in> set canonical_states
    \<and> (t_blocked t \<longrightarrow> \<not> is_executable (reindex_state t))
    \<and> (t_lifecycle t = LsPlanning \<and> \<not> t_blocked t
         \<and> norm_field (t_status t) \<in> {'''', ''open'', ''in_progress''} \<longrightarrow>
         reindex_state t = LsPlanning)"
proof (intro conjI impI)
  show "index_inv (reindex_task e i b)" by (rule reindex_task_inv [OF assms(1)])
  let ?d = "reindex_state t"
  have "task_by_id (set_task i (set_lifecycle ?d) b) i = Some (set_lifecycle ?d t)"
    by (rule set_task_same [OF assms(2)]) simp
  then show "life_of (reindex_task e i b) i = Some ?d"
    using assms(2) by (auto simp: reindex_task_def Let_def life_of_def task_by_id_def)
  show "?d \<in> set canonical_states"
    using derive_in_table [of "t_pipeline_stage t" "t_review_state t" "t_status t" "t_blocked t"]
    by (auto simp: reindex_state_def legacy_fallback_def Let_def canonical_states_def)
  show "\<not> is_executable ?d" if "t_blocked t"
    using that blocked_map
    by (auto simp: reindex_state_def legacy_fallback_def Let_def derive_from_legacy_def
        is_executable_def split: option.splits)
  show "?d = LsPlanning"
    if "t_lifecycle t = LsPlanning \<and> \<not> t_blocked t
        \<and> norm_field (t_status t) \<in> {'''', ''open'', ''in_progress''}"
    using that by (auto simp: reindex_state_def Let_def)
qed

theorem reindex_sound_witness:
  "\<exists>t. task_by_id board ''A'' = Some t \<and> index_inv (reindex_task sample_env ''A'' board)"
  using board_task reindex_sound [OF board_inv] by blast

section \<open>Reviewers\<close>

text \<open> Reviewer resolution returns, sorted and without repetition, exactly the trimmed
  non-empty slugs of the members whose watching set meets one of the task's signals.\<close>

theorem resolve_reviewers_exact:
  assumes "resolve_reviewers e i fs b = Inr slugs" "task_by_id b (trim_space i) = Some t"
  shows "sorted slugs \<and> distinct slugs
    \<and> (\<forall>s. s \<in> set slugs \<longleftrightarrow>
         s \<noteq> [] \<and> (\<exists>m\<in>set (b_members b). trim_space (m_slug m) = s
           \<and> watching_matches (m_watching m)
               (extract_signals e t
                  (case fs of Some l \<Rightarrow> l
                   | None \<Rightarrow> task_worktree_diff e (t_worktree_path t) (t_worktree_branch t)) b)))"
proof -
  let ?sg = "extract_signals e t
    (case fs of Some l \<Rightarrow> l
     | None \<Rightarrow> task_worktree_diff e (t_worktree_path t) (t_worktree_branch t)) b"
  have ne: "(\<not> watching_empty w \<and> watching_matches w sg) = watching_matches w sg" for w sg
    by (auto simp: watching_matches_def watching_empty_def any_glob_matches_def any_exact_matches_def)
  have "slugs = sort (dedup (map (\<lambda>m. trim_space (m_slug m))
      (filter (\<lambda>m. trim_space (m_slug m) \<noteq> [] \<and> watching_matches (m_watching m) ?sg)
              (b_members b))))"
    using assms by (simp add: resolve_reviewers_def Let_def ne split: if_splits)
  then show ?thesis by auto
qed

definition watch_board :: broker where
  "watch_board = board\<lparr> b_members :=
     [\<lparr> m_slug = ''qa'', m_built_in = False, m_watching = \<lparr> w_files = [''docs/*.md''], w_wiki_paths = [],
         w_tool_names = [], w_task_tags = [] \<rparr> \<rparr>] \<rparr>"

theorem resolve_reviewers_exact_witness:
  "sorted [''qa''] \<and> resolve_reviewers sample_env ''A'' (Some [''docs/a.md'']) watch_board = Inr [''qa'']"
proof -
  have r: "resolve_reviewers sample_env ''A'' (Some [''docs/a.md'']) watch_board = Inr [''qa'']"
    by code_simp
  moreover have "\<exists>t. task_by_id watch_board (trim_space ''A'') = Some t"
  proof -
    have "trim_space ''A'' = ''A''" by code_simp
    then show ?thesis using board_task by (simp add: watch_board_def task_by_id_def)
  qed
  ultimately show ?thesis using resolve_reviewers_exact by blast
qed

lemma convergence_branches:
  assumes "task_by_id b i = Some t" "t_lifecycle t = LsReview" "trim_space i = i" "i \<noteq> []"
  defines "done_state b' \<equiv> (\<exists>u. task_by_id b' i = Some u \<and> t_lifecycle u = LsDecision)"
  shows "missing_reviewers t b = [] \<Longrightarrow> done_state (snd (evaluate_convergence e i b))"
    and "missing_reviewers t b \<noteq> [] \<Longrightarrow> \<not> past_deadline e t \<Longrightarrow>
           evaluate_convergence e i b = (None, b)"
    and "missing_reviewers t b \<noteq> [] \<Longrightarrow> past_deadline e t \<Longrightarrow>
           done_state (snd (evaluate_convergence e i b))
           \<and> set (t_reviewers t) \<subseteq>
               g_reviewer ` set (task_grades i (snd (evaluate_convergence e i b)))"
proof -
  have id: "t_id t = i" using task_by_id_Some [OF assms(1)] by simp
  show "missing_reviewers t b = [] \<Longrightarrow> done_state (snd (evaluate_convergence e i b))"
    using to_decision_task [OF assms(1), of e] assms
    by (simp add: evaluate_convergence_def Let_def)
  assume m: "missing_reviewers t b \<noteq> []"
  then have r: "t_reviewers t \<noteq> []" by (auto simp: missing_reviewers_def)
  show "\<not> past_deadline e t \<Longrightarrow> evaluate_convergence e i b = (None, b)"
    using assms m r by (simp add: evaluate_convergence_def Let_def)
  assume d: "past_deadline e t"
  define rs where "rs = map (\<lambda>s. (s, timeout_reason e i s b)) (missing_reviewers t b)"
  have ev: "evaluate_convergence e i b = to_decision e i (fill_all e t rs b)"
    using assms m r d by (simp add: evaluate_convergence_def Let_def rs_def fill_all_def)
  have t': "task_by_id (fill_all e t rs b) i = Some t"
    using assms(1) by (simp add: task_by_id_def)
  obtain b' where b': "transition e i LsDecision (fill_all e t rs b) = Inr b'"
    using transition_succeeds [OF t', of LsDecision e] by (auto simp: canonical_states_def)
  have "b_grades b' = b_grades (fill_all e t rs b)"
    using b' by (auto elim!: transition_ok apply_lifecycle_cases)
  then have "task_grades i (snd (evaluate_convergence e i b)) = task_grades i (fill_all e t rs b)"
    by (simp add: ev to_decision_def b' task_grades_def)
  moreover have "set (t_reviewers t) \<subseteq> g_reviewer ` set (task_grades (t_id t) (fill_all e t rs b))"
    unfolding fill_all_graded by (auto simp: rs_def missing_reviewers_def image_iff)
  ultimately show "done_state (snd (evaluate_convergence e i b))
      \<and> set (t_reviewers t) \<subseteq> g_reviewer ` set (task_grades i (snd (evaluate_convergence e i b)))"
    using to_decision_task [OF t', of e] id by (simp add: ev done_state_def)
qed

text \<open>C23.  The convergence rule, for a task in review.  With no reviewers, or once every reviewer
  has a grade, the task moves to decision.  While a reviewer is missing and the deadline has not
  passed (or there is none), nothing changes.  Once the deadline has passed, every reviewer ends
  with a grade and the task moves to decision, so a silent reviewer never holds a task in
  review.\<close>

theorem convergence_rule:
  assumes "task_by_id b i = Some t" "t_lifecycle t = LsReview" "trim_space i = i" "i \<noteq> []"
  shows "(let b' = snd (evaluate_convergence e i b) in
     if missing_reviewers t b = [] then life_of b' i = Some LsDecision
     else if past_deadline e t
       then life_of b' i = Some LsDecision
            \<and> set (t_reviewers t) \<subseteq> g_reviewer ` set (task_grades i b')
     else evaluate_convergence e i b = (None, b))"
  using convergence_branches [OF assms, where e = e] by (auto simp: Let_def life_of_def)

theorem convergence_rule_witness:
  "life_of (snd (evaluate_convergence sample_env ''B'' board)) ''B'' = Some LsDecision"
proof -
  let ?t = "sample_task ''B'' LsReview"
  have "task_by_id board ''B'' = Some ?t" "trim_space ''B'' = ''B''" by code_simp+
  moreover have "t_lifecycle ?t = LsReview" "missing_reviewers ?t board = []"
    by (simp_all add: sample_task_def missing_reviewers_def)
  ultimately show ?thesis
    using convergence_rule [of board "''B''" ?t sample_env] by (simp add: Let_def)
qed

text \<open> The sweep keeps the index exact, whatever it converges.\<close>

theorem sweep_keeps_index:
  assumes "index_inv b"
  shows "index_inv (sweep_review_convergence e b)"
  using assms by (simp add: sweep_review_convergence_def Let_def sweep_loop_inv)

theorem sweep_keeps_index_witness: "index_inv (sweep_review_convergence sample_env board)"
  by (rule sweep_keeps_index [OF board_inv])

text \<open>One sweep does not reach every converged task: of three tasks in review without
  reviewers, each of which the rule would move to decision, the sweep moves the first and the
  third and leaves the second in review, because the bucket it ranges over is shifted in place
  when the first id leaves it.\<close>

theorem sweep_skips_task:
  "map t_lifecycle (b_tasks (sweep_review_convergence sample_env review_board)) =
     [LsDecision, LsReview, LsDecision]"
  by code_simp

end
