(* ===== verification/TaskPipeline.thy ===== *)
theory TaskPipeline
  imports Lifecycle
begin

text \<open>
  The pure part of task planning, \<^verbatim>\<open>src/internal/team/task_pipeline.go\<close>: the pipeline templates,
  the inference of a task's type and execution mode from the words of its text, the
  normalisation of a plan, and the guard against live-business tasks framed as proof artefacts.
\<close>

section \<open>Templates\<close>

record template =
  tp_id :: string
  tp_open :: string
  tp_active :: string
  tp_review :: string
  tp_done :: string
  tp_review_required :: bool

definition mk_template ::
  "string \<Rightarrow> string \<Rightarrow> string \<Rightarrow> string \<Rightarrow> string \<Rightarrow> bool \<Rightarrow> template" where
  "mk_template i op ac rv dn q =
     \<lparr> tp_id = i, tp_open = op, tp_active = ac, tp_review = rv, tp_done = dn,
        tp_review_required = q \<rparr>"

definition follow_up_template :: template where
  "follow_up_template = mk_template ''follow_up'' ''triage'' ''act'' ''verify'' ''done'' False"

definition task_pipeline_templates :: "template list" where
  "task_pipeline_templates =
     [mk_template ''issue'' ''draft'' ''breakdown'' ''approve'' ''approved'' False,
      mk_template ''feature'' ''triage'' ''implement'' ''review'' ''ship'' True,
      mk_template ''bugfix'' ''triage'' ''fix'' ''review'' ''verify'' True,
      mk_template ''research'' ''question'' ''investigate'' ''synthesize'' ''recommend'' False,
      mk_template ''launch'' ''brief'' ''execute'' ''review'' ''ship'' False,
      mk_template ''incident'' ''assess'' ''mitigate'' ''verify'' ''postmortem'' False,
      follow_up_template]"

definition pipeline_template :: "string \<Rightarrow> template" where
  "pipeline_template ty =
     (case find (\<lambda>t. tp_id t = trim_space ty) task_pipeline_templates of
        Some t \<Rightarrow> t
      | None \<Rightarrow> follow_up_template)"

section \<open>Words\<close>

definition contains_any :: "string \<Rightarrow> string list \<Rightarrow> bool" where
  "contains_any text needles \<longleftrightarrow> (\<exists>n\<in>set needles. str_contains text n)"

definition bugfix_words :: "string list" where
  "bugfix_words =
    [''bug'', ''fix'', ''regression'', ''broken'', ''error'', ''panic'', ''crash'']"

definition incident_words :: "string list" where
  "incident_words =
    [''incident'', ''outage'', ''sev'', ''mitigate'', ''hotfix'']"

definition launch_words :: "string list" where
  "launch_words =
    [''launch'', ''campaign'', ''announce'', ''rollout'', ''go to market'']"

definition research_words :: "string list" where
  "research_words =
    [''research'', ''investigate'', ''evaluate'', ''compare'', ''analyze'', ''audit'',
     ''thesis'', ''framework'', ''recommend'']"

definition feature_words :: "string list" where
  "feature_words =
    [''feature'', ''build'', ''implement'', ''ship'', ''signup'', ''flow'']"

definition local_words :: "string list" where
  "local_words =
    [''eng'', ''engineer'', ''developer'', ''repo'', ''repository'', ''worktree'',
     ''workspace'', ''filesystem'', ''code'', ''coding'', ''implement'', ''build'', ''ship'',
     ''frontend'', ''backend'', ''api'', ''database'', ''schema'', ''migration'', ''bug'',
     ''fix'', ''panic'', ''crash'', ''compile'', ''test'']"

definition external_optout_words :: "string list" where
  "external_optout_words =
    [''mock preview'', ''preview only'', ''stub only'', ''local-only'', ''local only'',
     ''repo-only'', ''repo only'', ''no live write'', ''no external write'', ''do not post'',
     ''don'' @ [CHR 0x27] @ ''t post'', ''do not create remotely'',
     ''don'' @ [CHR 0x27] @ ''t create remotely'']"

definition external_system_words :: "string list" where
  "external_system_words =
    [''slack'', ''notion'', ''google drive'', ''drive'', ''discord'', ''calendar'', ''crm'',
     ''hubspot'', ''salesforce'', ''airtable'', ''linear'', ''jira'', ''confluence'',
     ''integration'', ''connected account'', ''external system'', ''external tool'',
     ''external workflow'', ''one action'']"

definition external_verb_words :: "string list" where
  "external_verb_words =
    [''post'', ''create'', ''write'', ''publish'', ''send'', ''join'', ''search'', ''query'',
     ''read'', ''fetch'', ''sync'', ''run'', ''execute'', ''trigger'', ''handoff'',
     ''proof artifact'', ''page'', ''doc'', ''document'', ''message'', ''database'',
     ''workflow'', ''fan-out'', ''fanout'']"

definition mock_words :: "string list" where
  "mock_words =
    [''mock'', ''preview'', ''stub'', ''test'', ''testing'', ''dry run'', ''dry-run'',
     ''sandbox'', ''simulate'', ''simulation'']"

definition theater_words :: "string list" where
  "theater_words =
    [''proof artifact'', ''proof packet'', ''proof page'', ''review bundle'',
     ''review packet'', ''local artifact'', ''preview packet'', ''artifact theater'',
     ''eval'', ''evaluation'', ''blueprint-derived scaffolding'',
     ''blueprint derived scaffolding'', ''scaffolding'', ''scaffold'', ''rubric'',
     ''scorecard'', ''smoke test'', ''handoff packet'', ''delivery packet'',
     ''artifact path'', ''local path'', ''reviewable artifact'', ''reviewable bundle'',
     ''source-of-truth artifact'', ''source of truth artifact'', ''blueprint.yaml'',
     ''updated blueprint'', ''template review packet'']"

definition business_words :: "string list" where
  "business_words =
    [''launch'', ''go live'', ''go-live'', ''end to end'', ''end-to-end'', ''client'',
     ''customer'', ''customer-facing'', ''client-facing'', ''revenue'', ''sales'',
     ''deliverable'', ''publish'', ''ship'', ''deploy'', ''production'', ''live external'',
     ''real external'', ''business objective'', ''client-delivery'', ''delivery'',
     ''fulfillment'', ''customer-success'', ''marketing'', ''growth'', ''publishing'',
     ''publish'', ''content'', ''website'', ''landing page'', ''offer'', ''youtube'',
     ''video'', ''script'']"

definition lower_text :: "string list \<Rightarrow> string" where
  "lower_text parts = to_lower (trim_space (join '' '' parts))"

definition infer_task_type :: "string \<Rightarrow> string \<Rightarrow> string \<Rightarrow> string" where
  "infer_task_type owner title details =
     (let text = lower_text [owner, title, details] in
        if contains_any text bugfix_words then ''bugfix''
        else if contains_any text incident_words then ''incident''
        else if contains_any text launch_words then ''launch''
        else if contains_any text research_words then ''research''
        else if contains_any text feature_words then ''feature''
        else ''follow_up'')"

definition work_requires_local :: "string \<Rightarrow> string \<Rightarrow> string \<Rightarrow> bool" where
  "work_requires_local owner title details \<longleftrightarrow>
     contains_any (lower_text [owner, title, details]) local_words"

definition requires_real_external :: "task \<Rightarrow> bool" where
  "requires_real_external t \<longleftrightarrow>
     \<not> equal_fold (trim_space (t_execution_mode t)) ''local_worktree''
     \<and> (let text = lower_text [t_owner t, t_title t, t_details t] in
          text \<noteq> [] \<and> \<not> contains_any text external_optout_words
          \<and> contains_any text external_system_words \<and> contains_any text external_verb_words)"

definition full_text :: "task \<Rightarrow> string" where
  "full_text t =
     lower_text [t_channel t, t_owner t, t_title t, t_details t, t_task_type t, t_pipeline_id t,
                 t_execution_mode t]"

definition has_mock_intent :: "task \<Rightarrow> bool" where
  "has_mock_intent t \<longleftrightarrow> full_text t \<noteq> [] \<and> contains_any (full_text t) mock_words"

definition looks_like_theater :: "task \<Rightarrow> bool" where
  "looks_like_theater t \<longleftrightarrow> full_text t \<noteq> [] \<and> contains_any (full_text t) theater_words"

definition looks_like_live_business :: "task \<Rightarrow> bool" where
  "looks_like_live_business t \<longleftrightarrow>
     requires_real_external t
     \<or> (full_text t \<noteq> [] \<and> contains_any (full_text t) business_words)"

definition reject_theater :: "task \<Rightarrow> lc_error option" where
  "reject_theater t =
     (if looks_like_live_business t \<and> \<not> has_mock_intent t \<and> looks_like_theater t
      then Some TheaterTask else None)"

section \<open>Normalising a plan\<close>

definition needs_structured_review :: "task \<Rightarrow> bool" where
  "needs_structured_review t \<longleftrightarrow>
     equal_fold (trim_space (t_execution_mode t)) ''local_worktree''
     \<or> equal_fold (trim_space (t_execution_mode t)) ''live_external''
     \<or> (tp_review_required (pipeline_template (t_task_type t))
        \<and> work_requires_local (t_owner t) (t_title t) (t_details t))"

definition default_execution_mode :: "task \<Rightarrow> string" where
  "default_execution_mode t =
     (if requires_real_external (t\<lparr> t_execution_mode := [] \<rparr>) then ''live_external''
      else if norm_field (t_task_type t) \<in> {''feature'', ''bugfix'', ''incident''}
              \<and> work_requires_local (t_owner t) (t_title t) (t_details t)
        then ''local_worktree''
      else ''office'')"

definition stage_for_status :: "task \<Rightarrow> string" where
  "stage_for_status t =
     (let tp = pipeline_template (t_task_type t); s = trim_space (t_status t) in
        if s = ''in_progress'' then tp_active tp
        else if s = ''review'' then tp_review tp
        else if s = ''done'' then tp_done tp
        else tp_open tp)"

text \<open>The five defaulting steps of \<open>normalizeTaskPlan\<close>, in its order.\<close>

definition default_type :: "task \<Rightarrow> task" where
  "default_type t =
     (if trim_space (t_task_type t) = []
      then t\<lparr> t_task_type := infer_task_type (t_owner t) (t_title t) (t_details t) \<rparr> else t)"

definition default_pipeline :: "task \<Rightarrow> task" where
  "default_pipeline t =
     (if trim_space (t_pipeline_id t) = [] then t\<lparr> t_pipeline_id := t_task_type t \<rparr> else t)"

definition default_mode :: "task \<Rightarrow> task" where
  "default_mode t =
     (if trim_space (t_execution_mode t) = []
      then t\<lparr> t_execution_mode := default_execution_mode t \<rparr> else t)"

definition default_review :: "task \<Rightarrow> task" where
  "default_review t =
     (if trim_space (t_review_state t) = []
      then t\<lparr> t_review_state :=
                (if needs_structured_review t then ''pending_review'' else ''not_required'') \<rparr>
      else t)"

definition settle_review :: "task \<Rightarrow> task" where
  "settle_review t =
     (let t1 = (if trim_space (t_status t) = ''review''
                then t\<lparr> t_review_state := ''ready_for_review'' \<rparr> else t)
      in if trim_space (t_status t1) = ''done''
            \<and> t_review_state t1 \<in> {''pending_review'', ''ready_for_review''}
         then t1\<lparr> t_review_state := ''approved'' \<rparr> else t1)"

definition normalize_task_plan :: "task \<Rightarrow> task" where
  "normalize_task_plan t =
     (let t1 = settle_review (default_review (default_mode (default_pipeline (default_type t))))
      in t1\<lparr> t_pipeline_stage := stage_for_status t1 \<rparr>)"

section \<open>Requests\<close>

definition request_is_resolved :: "interview list \<Rightarrow> string \<Rightarrow> bool" where
  "request_is_resolved rs rid \<longleftrightarrow>
     trim_space rid \<noteq> [] \<and>
     (case find (\<lambda>r. trim_space (r_id r) = trim_space rid) rs of
        None \<Rightarrow> False
      | Some r \<Rightarrow>
          r_answered r \<or> norm_field (r_status r) \<in> {''answered'', ''canceled'', ''cancelled''})"

section \<open>Lemmas\<close>

lemma default_type_keeps [simp]:
  "t_id (default_type t) = t_id t"
  "t_lifecycle (default_type t) = t_lifecycle t"
  "t_status (default_type t) = t_status t"
  "t_blocked (default_type t) = t_blocked t"
  "t_depends_on (default_type t) = t_depends_on t"
  "t_blocked_on (default_type t) = t_blocked_on t"
  "t_owner (default_type t) = t_owner t"
  "t_channel (default_type t) = t_channel t"
  "t_title (default_type t) = t_title t"
  "t_details (default_type t) = t_details t"
  by (simp_all add: default_type_def Let_def)

lemma default_pipeline_keeps [simp]:
  "t_id (default_pipeline t) = t_id t"
  "t_lifecycle (default_pipeline t) = t_lifecycle t"
  "t_status (default_pipeline t) = t_status t"
  "t_blocked (default_pipeline t) = t_blocked t"
  "t_depends_on (default_pipeline t) = t_depends_on t"
  "t_blocked_on (default_pipeline t) = t_blocked_on t"
  "t_owner (default_pipeline t) = t_owner t"
  "t_channel (default_pipeline t) = t_channel t"
  "t_title (default_pipeline t) = t_title t"
  "t_details (default_pipeline t) = t_details t"
  by (simp_all add: default_pipeline_def Let_def)

lemma default_mode_keeps [simp]:
  "t_id (default_mode t) = t_id t"
  "t_lifecycle (default_mode t) = t_lifecycle t"
  "t_status (default_mode t) = t_status t"
  "t_blocked (default_mode t) = t_blocked t"
  "t_depends_on (default_mode t) = t_depends_on t"
  "t_blocked_on (default_mode t) = t_blocked_on t"
  "t_owner (default_mode t) = t_owner t"
  "t_channel (default_mode t) = t_channel t"
  "t_title (default_mode t) = t_title t"
  "t_details (default_mode t) = t_details t"
  by (simp_all add: default_mode_def Let_def)

lemma default_review_keeps [simp]:
  "t_id (default_review t) = t_id t"
  "t_lifecycle (default_review t) = t_lifecycle t"
  "t_status (default_review t) = t_status t"
  "t_blocked (default_review t) = t_blocked t"
  "t_depends_on (default_review t) = t_depends_on t"
  "t_blocked_on (default_review t) = t_blocked_on t"
  "t_owner (default_review t) = t_owner t"
  "t_channel (default_review t) = t_channel t"
  "t_title (default_review t) = t_title t"
  "t_details (default_review t) = t_details t"
  by (simp_all add: default_review_def Let_def)

lemma settle_review_keeps [simp]:
  "t_id (settle_review t) = t_id t"
  "t_lifecycle (settle_review t) = t_lifecycle t"
  "t_status (settle_review t) = t_status t"
  "t_blocked (settle_review t) = t_blocked t"
  "t_depends_on (settle_review t) = t_depends_on t"
  "t_blocked_on (settle_review t) = t_blocked_on t"
  "t_owner (settle_review t) = t_owner t"
  "t_channel (settle_review t) = t_channel t"
  "t_title (settle_review t) = t_title t"
  "t_details (settle_review t) = t_details t"
  by (simp_all add: settle_review_def Let_def)

lemma normalize_task_plan_keeps [simp]:
  "t_id (normalize_task_plan t) = t_id t"
  "t_lifecycle (normalize_task_plan t) = t_lifecycle t"
  "t_status (normalize_task_plan t) = t_status t"
  "t_blocked (normalize_task_plan t) = t_blocked t"
  "t_depends_on (normalize_task_plan t) = t_depends_on t"
  "t_blocked_on (normalize_task_plan t) = t_blocked_on t"
  "t_owner (normalize_task_plan t) = t_owner t"
  "t_channel (normalize_task_plan t) = t_channel t"
  "t_title (normalize_task_plan t) = t_title t"
  "t_details (normalize_task_plan t) = t_details t"
  by (simp_all add: normalize_task_plan_def Let_def)

lemma infer_task_type_known:
  "infer_task_type ow ti de \<in> tp_id ` set task_pipeline_templates"
  by (simp add: infer_task_type_def Let_def task_pipeline_templates_def mk_template_def
      follow_up_template_def)

end
