(* ===== verification/SchedulerJobs.thy ===== *)
theory SchedulerJobs
  imports TaskPipeline Samples
begin

text \<open>
  The scheduler jobs of \<^verbatim>\<open>src/internal/team/broker_scheduler.go\<close>: normalising and upserting a
  job, when a job is due, closing the jobs of a finished target, and the follow-up and recheck
  jobs that shadow a task or a request through its life.  The cadence settings are parameters of
  the environment.
\<close>

section \<open>Jobs\<close>

definition empty_job :: job where
  "empty_job =
     \<lparr> j_slug = [], j_kind = [], j_label = [], j_target_type = [], j_target_id = [], j_channel = [],
       j_provider = [], j_schedule_expr = [], j_workflow_key = [], j_skill_name = [],
       j_interval_minutes = 0, j_due_at = NoStamp, j_next_run = NoStamp, j_last_run = NoStamp,
       j_status = [], j_payload = [] \<rparr>"

definition or_default :: "string \<Rightarrow> string \<Rightarrow> string" where
  "or_default s d = (if s = [] then d else s)"

definition normalize_job :: "job \<Rightarrow> job" where
  "normalize_job j =
     \<lparr> j_slug = trim_space (j_slug j), j_kind = trim_space (j_kind j),
       j_label = trim_space (j_label j), j_target_type = trim_space (j_target_type j),
       j_target_id = trim_space (j_target_id j),
       j_channel = or_default (normalize_channel_slug (j_channel j)) ''general'',
       j_provider = trim_space (j_provider j), j_schedule_expr = trim_space (j_schedule_expr j),
       j_workflow_key = trim_space (j_workflow_key j), j_skill_name = trim_space (j_skill_name j),
       j_interval_minutes = max 0 (j_interval_minutes j),
       j_due_at = (if j_due_at j = NoStamp then j_next_run j else j_due_at j),
       j_next_run = (if j_next_run j = NoStamp then j_due_at j else j_next_run j),
       j_last_run = j_last_run j,
       j_status = or_default (trim_space (j_status j)) ''scheduled'',
       j_payload = trim_space (j_payload j) \<rparr>"

definition conflict :: "string \<Rightarrow> string \<Rightarrow> bool" where
  "conflict a b \<longleftrightarrow> a \<noteq> [] \<and> b \<noteq> [] \<and> a \<noteq> b"

definition job_matches :: "job \<Rightarrow> job \<Rightarrow> bool" where
  "job_matches ex c \<longleftrightarrow>
     (if j_slug ex \<noteq> [] \<and> j_slug c \<noteq> [] \<and> j_slug ex = j_slug c then True
      else if conflict (j_kind ex) (j_kind c) then False
      else if conflict (j_target_type ex) (j_target_type c) then False
      else if conflict (j_target_id ex) (j_target_id c) then False
      else if conflict (j_channel ex) (j_channel c) then False
      else j_kind ex \<noteq> [] \<and> j_kind ex = j_kind c \<and> j_target_type ex = j_target_type c
           \<and> j_target_id ex = j_target_id c \<and> j_channel ex = j_channel c)"

definition stamp_due :: "stamp \<Rightarrow> int \<Rightarrow> bool" where
  "stamp_due s now \<longleftrightarrow> (case parse_stamp s of Some t \<Rightarrow> t \<le> now | None \<Rightarrow> False)"

definition job_closed :: "job \<Rightarrow> bool" where
  "job_closed j \<longleftrightarrow> equal_fold (j_status j) ''done'' \<or> equal_fold (j_status j) ''canceled''"

definition job_due :: "job \<Rightarrow> int \<Rightarrow> bool" where
  "job_due j now \<longleftrightarrow>
     \<not> job_closed j \<and> (stamp_due (j_due_at j) now \<or> stamp_due (j_next_run j) now)"

definition due_jobs :: "int \<Rightarrow> broker \<Rightarrow> job list" where
  "due_jobs now b = filter (\<lambda>j. job_due j now) (b_jobs b)"

definition upsert_job :: "job \<Rightarrow> job list \<Rightarrow> job list" where
  "upsert_job j js =
     (if \<exists>x\<in>set js. job_matches x j then map_first (\<lambda>x. job_matches x j) (\<lambda>_. j) js else js @ [j])"

definition schedule_job_locked :: "job \<Rightarrow> broker \<Rightarrow> broker" where
  "schedule_job_locked j b = b\<lparr> b_jobs := upsert_job j (b_jobs b) \<rparr>"

datatype job_error = JobSlugRequired | JobSaveFailed

text \<open>\<open>SetSchedulerJob\<close> and \<open>scheduleJob\<close>: a failed save leaves the job in memory.\<close>

definition schedule_job :: "env \<Rightarrow> job \<Rightarrow> broker \<Rightarrow> job_error option \<times> broker" where
  "schedule_job e j b =
     (let j1 = normalize_job j in
        if j_slug j1 = [] then (Some JobSlugRequired, b)
        else let b1 = schedule_job_locked j1 b in
          if fst (save_locked e b1) then (None, snd (save_locked e b1))
          else (Some JobSaveFailed, snd (save_locked e b1)))"

definition schedule_task_follow_up ::
  "env \<Rightarrow> string \<Rightarrow> string \<Rightarrow> string \<Rightarrow> string \<Rightarrow> int \<Rightarrow> broker \<Rightarrow> job_error option \<times> broker" where
  "schedule_task_follow_up e tid channel label payload w =
     schedule_job e (empty_job\<lparr> j_slug := normalize_scheduler_slug [''task_follow_up'', channel, tid],
       j_kind := ''task_follow_up'', j_label := label, j_target_type := ''task'',
       j_target_id := trim_space tid, j_channel := normalize_channel_slug channel,
       j_due_at := rfc3339 w, j_next_run := rfc3339 w, j_status := ''scheduled'',
       j_payload := payload \<rparr>)"

definition schedule_request_follow_up ::
  "env \<Rightarrow> string \<Rightarrow> string \<Rightarrow> string \<Rightarrow> string \<Rightarrow> int \<Rightarrow> broker \<Rightarrow> job_error option \<times> broker" where
  "schedule_request_follow_up e rid channel label payload w =
     schedule_job e (empty_job\<lparr> j_slug := normalize_scheduler_slug [''request_follow_up'', channel, rid],
       j_kind := ''request_follow_up'', j_label := label, j_target_type := ''request'',
       j_target_id := trim_space rid, j_channel := normalize_channel_slug channel,
       j_due_at := rfc3339 w, j_next_run := rfc3339 w, j_status := ''scheduled'',
       j_payload := payload \<rparr>)"

definition schedule_recheck ::
  "env \<Rightarrow> string \<Rightarrow> string \<Rightarrow> string \<Rightarrow> string \<Rightarrow> string \<Rightarrow> int \<Rightarrow> broker \<Rightarrow>
     job_error option \<times> broker" where
  "schedule_recheck e channel ttype tid label payload w =
     schedule_job e (empty_job\<lparr> j_slug := normalize_scheduler_slug [''recheck'', channel, ttype, tid],
       j_kind := ''recheck'', j_label := label, j_target_type := trim_space ttype,
       j_target_id := trim_space tid, j_channel := normalize_channel_slug channel,
       j_due_at := rfc3339 w, j_next_run := rfc3339 w, j_status := ''scheduled'',
       j_payload := payload \<rparr>)"

section \<open>Closing jobs\<close>

definition close_job :: "env \<Rightarrow> job \<Rightarrow> job" where
  "close_job e j =
     j\<lparr> j_status := ''done'', j_due_at := NoStamp, j_next_run := NoStamp, j_last_run := now_stamp e \<rparr>"

definition targets :: "string \<Rightarrow> string \<Rightarrow> string \<Rightarrow> job \<Rightarrow> bool" where
  "targets ttype tid channel j \<longleftrightarrow>
     (ttype = [] \<or> j_target_type j = ttype) \<and> (tid = [] \<or> j_target_id j = tid)
     \<and> (channel = [] \<or> j_channel j = []
        \<or> normalize_channel_slug (j_channel j) = normalize_channel_slug channel)"

definition complete_jobs :: "env \<Rightarrow> string \<Rightarrow> string \<Rightarrow> string \<Rightarrow> broker \<Rightarrow> broker" where
  "complete_jobs e ttype tid channel b =
     b\<lparr> b_jobs := map (\<lambda>j. if targets ttype tid channel j then close_job e j else j) (b_jobs b) \<rparr>"

definition superseded :: "string \<Rightarrow> string \<Rightarrow> string \<Rightarrow> job \<Rightarrow> bool" where
  "superseded tid channel keep j \<longleftrightarrow>
     j_target_type j = ''task'' \<and> j_target_id j = tid
     \<and> normalize_channel_slug (j_channel j) = normalize_channel_slug channel
     \<and> j_kind j \<noteq> keep \<and> \<not> job_closed j"

definition cancel_superseded_jobs :: "env \<Rightarrow> string \<Rightarrow> string \<Rightarrow> string \<Rightarrow> broker \<Rightarrow> broker" where
  "cancel_superseded_jobs e tid channel keep b =
     b\<lparr> b_jobs := map (\<lambda>j. if superseded tid channel keep j then close_job e j else j) (b_jobs b) \<rparr>"

section \<open>The jobs of a task\<close>

definition minutes :: "int \<Rightarrow> int" where
  "minutes m = m * 60 * nanos_per_second"

definition task_job ::
  "string list \<Rightarrow> string \<Rightarrow> string \<Rightarrow> task \<Rightarrow> string \<Rightarrow> stamp \<Rightarrow> job" where
  "task_job slug_parts kind label t channel due =
     normalize_job (empty_job\<lparr> j_slug := normalize_scheduler_slug slug_parts, j_kind := kind,
       j_label := label, j_target_type := ''task'', j_target_id := t_id t, j_channel := channel,
       j_due_at := due, j_next_run := due, j_status := ''scheduled'', j_payload := t_details t \<rparr>)"

definition closed_status :: "string \<Rightarrow> bool" where
  "closed_status s \<longleftrightarrow>
     equal_fold s ''done'' \<or> equal_fold s ''canceled'' \<or> equal_fold s ''cancelled''
     \<or> equal_fold s ''archived''"

definition clear_task_times :: "task \<Rightarrow> task" where
  "clear_task_times t =
     t\<lparr> t_follow_up_at := NoStamp, t_reminder_at := NoStamp, t_recheck_at := NoStamp,
        t_due_at := NoStamp \<rparr>"

definition follow_up_times :: "env \<Rightarrow> task \<Rightarrow> task" where
  "follow_up_times e t =
     (let due = e_now e + minutes (e_follow_up_minutes e) in
        t\<lparr> t_follow_up_at := rfc3339 due,
           t_reminder_at := rfc3339 (due + minutes (e_reminder_minutes e)),
           t_recheck_at := rfc3339 (due + minutes (e_recheck_minutes e)),
           t_due_at := rfc3339 due \<rparr>)"

definition recheck_times :: "env \<Rightarrow> task \<Rightarrow> task" where
  "recheck_times e t =
     (let due = e_now e + minutes (e_recheck_minutes e) in
        t\<lparr> t_recheck_at := rfc3339 due,
           t_reminder_at := rfc3339 (due + minutes (e_reminder_minutes e)),
           t_follow_up_at := rfc3339 due, t_due_at := rfc3339 due \<rparr>)"

definition task_channel_or_general :: "string \<Rightarrow> string" where
  "task_channel_or_general c = or_default (normalize_channel_slug c) ''general''"

text \<open>The task-local part of \<open>scheduleTaskLifecycleLocked\<close>, and the part that writes the broker.\<close>

definition scheduled_task :: "env \<Rightarrow> task \<Rightarrow> task" where
  "scheduled_task e t =
     (let t1 = normalize_task_plan t in
        if closed_status (t_status t1) then clear_task_times t1
        else if norm_field (t_status t1) = ''in_progress'' then follow_up_times e t1
        else recheck_times e t1)"

definition schedule_task_jobs :: "env \<Rightarrow> task \<Rightarrow> broker \<Rightarrow> broker" where
  "schedule_task_jobs e t b =
     (let ch = task_channel_or_general (t_channel t); t1 = scheduled_task e t in
        if closed_status (t_status t) then
          resolve_watchdog_alerts e ''task'' (t_id t) ch (complete_jobs e ''task'' (t_id t) ch b)
        else if norm_field (t_status t) = ''in_progress'' then
          schedule_job_locked
            (task_job [''task_follow_up'', ch, t_id t] ''task_follow_up''
               (''Follow up on '' @ t_title t) t1 ch (t_follow_up_at t1))
            (cancel_superseded_jobs e (t_id t) ch ''task_follow_up'' b)
        else
          schedule_job_locked
            (task_job [''recheck'', ch, ''task'', t_id t] ''recheck''
               (''Recheck task '' @ truncate_summary (t_title t) 48) t1 ch (t_recheck_at t1))
            (cancel_superseded_jobs e (t_id t) ch ''recheck'' b))"

definition schedule_task_lifecycle :: "env \<Rightarrow> string \<Rightarrow> broker \<Rightarrow> broker" where
  "schedule_task_lifecycle e i b =
     (case task_by_id b i of
        None \<Rightarrow> b
      | Some t \<Rightarrow> schedule_task_jobs e t (set_task i (scheduled_task e) b))"

section \<open>The jobs of a request\<close>

definition request_times :: "env \<Rightarrow> interview \<Rightarrow> interview" where
  "request_times e r =
     (if equal_fold (r_status r) ''answered'' \<or> equal_fold (r_status r) ''canceled'' then
        r\<lparr> r_due_at := NoStamp, r_reminder_at := NoStamp, r_recheck_at := NoStamp,
           r_follow_up_at := NoStamp \<rparr>
      else let due = e_now e + minutes (e_reminder_minutes e) in
        r\<lparr> r_reminder_at := rfc3339 due,
           r_follow_up_at := rfc3339 (due + minutes (e_follow_up_minutes e)),
           r_recheck_at := rfc3339 due, r_due_at := rfc3339 due \<rparr>)"

definition schedule_request_jobs :: "env \<Rightarrow> interview \<Rightarrow> broker \<Rightarrow> broker" where
  "schedule_request_jobs e r b =
     (let ch = task_channel_or_general (r_channel r); due = r_reminder_at (request_times e r) in
        if equal_fold (r_status r) ''answered'' \<or> equal_fold (r_status r) ''canceled'' then
          resolve_watchdog_alerts e ''request'' (r_id r) ch (complete_jobs e ''request'' (r_id r) ch b)
        else
          schedule_job_locked
            (normalize_job (empty_job\<lparr>
               j_slug := normalize_scheduler_slug [''request_follow_up'', ch, r_id r],
               j_kind := ''request_follow_up'', j_label := ''Follow up on '' @ r_title r,
               j_target_type := ''request'', j_target_id := r_id r, j_channel := ch,
               j_due_at := due, j_next_run := due, j_status := ''scheduled'',
               j_payload := r_question r \<rparr>)) b)"

definition schedule_request_lifecycle :: "env \<Rightarrow> string \<Rightarrow> broker \<Rightarrow> broker" where
  "schedule_request_lifecycle e i b =
     (case find (\<lambda>r. r_id r = i) (b_requests b) of
        None \<Rightarrow> b
      | Some r \<Rightarrow>
          schedule_request_jobs e r
            (b\<lparr> b_requests := map_first (\<lambda>r. r_id r = i) (request_times e) (b_requests b) \<rparr>))"

section \<open>Lemmas\<close>

lemma schedule_job_locked_sel [simp]:
  "b_tasks (schedule_job_locked j b) = b_tasks b" "b_index (schedule_job_locked j b) = b_index b"
  "b_requests (schedule_job_locked j b) = b_requests b"
  by (simp_all add: schedule_job_locked_def)

lemma complete_jobs_sel [simp]:
  "b_tasks (complete_jobs e ty i c b) = b_tasks b" "b_index (complete_jobs e ty i c b) = b_index b"
  "b_requests (complete_jobs e ty i c b) = b_requests b"
  by (simp_all add: complete_jobs_def)

lemma cancel_superseded_jobs_sel [simp]:
  "b_tasks (cancel_superseded_jobs e i c k b) = b_tasks b"
  "b_index (cancel_superseded_jobs e i c k b) = b_index b"
  "b_requests (cancel_superseded_jobs e i c k b) = b_requests b"
  by (simp_all add: cancel_superseded_jobs_def)

lemma schedule_task_jobs_sel [simp]:
  "b_tasks (schedule_task_jobs e t b) = b_tasks b" "b_index (schedule_task_jobs e t b) = b_index b"
  "b_requests (schedule_task_jobs e t b) = b_requests b"
  by (simp_all add: schedule_task_jobs_def Let_def)

lemma times_keep [simp]:
  "t_id (clear_task_times t) = t_id t" "t_id (follow_up_times e t) = t_id t"
  "t_id (recheck_times e t) = t_id t" "t_lifecycle (clear_task_times t) = t_lifecycle t"
  "t_lifecycle (follow_up_times e t) = t_lifecycle t"
  "t_lifecycle (recheck_times e t) = t_lifecycle t"
  "t_status (clear_task_times t) = t_status t" "t_status (follow_up_times e t) = t_status t"
  "t_status (recheck_times e t) = t_status t"
  "t_blocked (clear_task_times t) = t_blocked t" "t_blocked (follow_up_times e t) = t_blocked t"
  "t_blocked (recheck_times e t) = t_blocked t"
  "t_depends_on (clear_task_times t) = t_depends_on t"
  "t_depends_on (follow_up_times e t) = t_depends_on t"
  "t_depends_on (recheck_times e t) = t_depends_on t"
  "t_blocked_on (clear_task_times t) = t_blocked_on t"
  "t_blocked_on (follow_up_times e t) = t_blocked_on t"
  "t_blocked_on (recheck_times e t) = t_blocked_on t"
  "t_owner (clear_task_times t) = t_owner t" "t_owner (follow_up_times e t) = t_owner t"
  "t_owner (recheck_times e t) = t_owner t"
  by (simp_all add: clear_task_times_def follow_up_times_def recheck_times_def Let_def)

lemma scheduled_task_keeps [simp]:
  "t_id (scheduled_task e t) = t_id t" "t_lifecycle (scheduled_task e t) = t_lifecycle t"
  "t_status (scheduled_task e t) = t_status t" "t_blocked (scheduled_task e t) = t_blocked t"
  "t_depends_on (scheduled_task e t) = t_depends_on t"
  "t_blocked_on (scheduled_task e t) = t_blocked_on t" "t_owner (scheduled_task e t) = t_owner t"
  by (simp_all add: scheduled_task_def Let_def)

lemma close_job_closed [simp]: "job_closed (close_job e j)"
  by (simp add: job_closed_def close_job_def)

lemma closed_not_due: "job_closed j \<Longrightarrow> \<not> job_due j now"
  by (simp add: job_due_def)

lemma upsert_job_mem: "j \<in> set (upsert_job j js)"
proof (cases "\<exists>x\<in>set js. job_matches x j")
  case True
  then have "j \<in> set (map_first (\<lambda>x. job_matches x j) (\<lambda>_. j) js)"
    by (induction js) auto
  then show ?thesis using True by (simp add: upsert_job_def)
qed (simp add: upsert_job_def)

lemma upsert_job_subset: "set (upsert_job j js) \<subseteq> insert j (set js)"
  using set_map_first_subset [of "\<lambda>x. job_matches x j" "\<lambda>_. j" js] by (auto simp: upsert_job_def)

lemma length_upsert_job: "length (upsert_job j js) \<le> Suc (length js)"
  by (simp add: upsert_job_def)

end
