(* ===== verification/SchedulerProps.thy ===== *)
theory SchedulerProps
  imports SchedulerJobs
begin

text \<open>
  The properties of plan normalisation and of the scheduler jobs: what a finished and an active
  task leave in the job list, and how scheduling a task interacts with the reindexing of legacy
  writes.
\<close>

section \<open>Jobs\<close>

lemma watchdogs_keep_jobs: "b_jobs (resolve_watchdog_alerts e ty i c b) = b_jobs b"
  by simp

text \<open> A task whose status is closed leaves no job behind that could fire: every job that targets
  it in its channel is closed and stays undue at any time, and its own four timestamps are
  cleared.\<close>

theorem closed_task_quiet:
  assumes "task_by_id b i = Some t" "closed_status (t_status t)"
    and "j \<in> set (b_jobs (schedule_task_lifecycle e i b))"
    and "targets ''task'' i (task_channel_or_general (t_channel t)) j"
  shows "\<not> job_due j now \<and> job_closed j
    \<and> task_by_id (schedule_task_lifecycle e i b) i = Some (clear_task_times (normalize_task_plan t))"
proof -
  have id: "t_id t = i" using task_by_id_Some [OF assms(1)] by simp
  let ?ch = "task_channel_or_general (t_channel t)"
  have sch: "schedule_task_lifecycle e i b =
      resolve_watchdog_alerts e ''task'' i ?ch
        (complete_jobs e ''task'' i ?ch (set_task i (scheduled_task e) b))"
    using assms(1,2) id by (simp add: schedule_task_lifecycle_def schedule_task_jobs_def Let_def)
  have "targets ty ti c (close_job e x) = targets ty ti c x" for ty ti c x
    by (simp add: targets_def close_job_def)
  then have "job_closed j"
    using assms(3,4) by (auto simp: sch complete_jobs_def split: if_splits)
  moreover have "task_by_id (schedule_task_lifecycle e i b) i =
      task_by_id (set_task i (scheduled_task e) b) i"
    by (rule task_by_id_cong) (simp add: sch)
  moreover have "task_by_id (set_task i (scheduled_task e) b) i = Some (scheduled_task e t)"
    by (rule set_task_same [OF assms(1)]) simp
  ultimately show ?thesis
    using assms(2) by (simp add: closed_not_due scheduled_task_def Let_def)
qed

definition done_board :: broker where
  "done_board = (sample_broker [(sample_task ''A'' LsApproved)\<lparr> t_status := ''done'' \<rparr>])
     \<lparr> b_jobs := [empty_job\<lparr> j_slug := ''recheck:dev:task:a'', j_kind := ''recheck'',
         j_target_type := ''task'', j_target_id := ''A'', j_channel := ''dev'',
         j_due_at := At 0, j_next_run := At 0, j_status := ''scheduled'' \<rparr>] \<rparr>"

theorem closed_task_quiet_witness:
  "\<exists>j\<in>set (b_jobs (schedule_task_lifecycle sample_env ''A'' done_board)). \<not> job_due j sample_now"
proof -
  let ?t = "(sample_task ''A'' LsApproved)\<lparr> t_status := ''done'' \<rparr>"
  let ?js = "b_jobs (schedule_task_lifecycle sample_env ''A'' done_board)"
  have t: "task_by_id done_board ''A'' = Some ?t" by code_simp
  have c: "closed_status (t_status ?t)" by code_simp
  have "?js \<noteq> [] \<and> targets ''task'' ''A'' (task_channel_or_general (t_channel ?t)) (hd ?js)"
    by code_simp
  then have "hd ?js \<in> set ?js" "targets ''task'' ''A'' (task_channel_or_general (t_channel ?t)) (hd ?js)"
    by simp_all
  with closed_task_quiet [OF t c, of "hd ?js" sample_env sample_now] show ?thesis by blast
qed

text \<open> A task that is not closed has its follow-up job (in progress) or its recheck job
  (otherwise) in the list after scheduling, due at the time stamped on the task, with that time a
  whole second not after the cadence; every other job of the task in that channel that is still
  open is of the same kind, so the two kinds never run against each other.\<close>

theorem open_task_shadowed:
  fixes t :: task and e :: env
  defines "kind \<equiv> (if norm_field (t_status t) = ''in_progress'' then ''task_follow_up'' else ''recheck'')"
    and "wait \<equiv> (if norm_field (t_status t) = ''in_progress'' then e_follow_up_minutes e
                 else e_recheck_minutes e)"
    and "ch \<equiv> task_channel_or_general (t_channel t)"
  assumes "\<not> closed_status (t_status t)"
  shows "(\<exists>j\<in>set (b_jobs (schedule_task_jobs e t b)).
            j_kind j = trim_space kind \<and> j_target_id j = trim_space (t_id t)
            \<and> j_due_at j = rfc3339 (e_now e + minutes wait)
            \<and> j_next_run j = rfc3339 (e_now e + minutes wait))
    \<and> (\<forall>j\<in>set (b_jobs (schedule_task_jobs e t b)).
          superseded (t_id t) ch kind j \<longrightarrow> j_kind j = trim_space kind)"
proof -
  let ?keep = "\<lambda>j. if superseded (t_id t) ch kind j then close_job e j else j"
  obtain parts label j0 where j0: "j0 = task_job parts kind label (scheduled_task e t) ch
        (rfc3339 (e_now e + minutes wait))"
    and js: "b_jobs (schedule_task_jobs e t b) = upsert_job j0 (map ?keep (b_jobs b))"
  proof (cases "norm_field (t_status t) = ''in_progress''")
    case True
    have "t_follow_up_at (scheduled_task e t) = rfc3339 (e_now e + minutes wait)"
      using True assms(4) by (simp add: scheduled_task_def follow_up_times_def Let_def wait_def)
    then have "b_jobs (schedule_task_jobs e t b) = upsert_job
        (task_job [''task_follow_up'', ch, t_id t] kind (''Follow up on '' @ t_title t)
           (scheduled_task e t) ch (rfc3339 (e_now e + minutes wait))) (map ?keep (b_jobs b))"
      using True assms(4) by (simp add: schedule_task_jobs_def Let_def kind_def ch_def
          schedule_job_locked_def cancel_superseded_jobs_def)
    then show ?thesis using that by blast
  next
    case False
    have "t_recheck_at (scheduled_task e t) = rfc3339 (e_now e + minutes wait)"
      using False assms(4) by (simp add: scheduled_task_def recheck_times_def Let_def wait_def)
    then have "b_jobs (schedule_task_jobs e t b) = upsert_job
        (task_job [''recheck'', ch, ''task'', t_id t] kind
           (''Recheck task '' @ truncate_summary (t_title t) 48)
           (scheduled_task e t) ch (rfc3339 (e_now e + minutes wait))) (map ?keep (b_jobs b))"
      using False assms(4) by (simp add: schedule_task_jobs_def Let_def kind_def ch_def
          schedule_job_locked_def cancel_superseded_jobs_def)
    then show ?thesis using that by blast
  qed
  have j0k: "j_kind j0 = trim_space kind" "j_target_id j0 = trim_space (t_id t)"
    "j_due_at j0 = rfc3339 (e_now e + minutes wait)" "j_next_run j0 = rfc3339 (e_now e + minutes wait)"
    by (simp_all add: j0 task_job_def normalize_job_def)
  have ns: "\<not> superseded (t_id t) ch kind (?keep x)" for x
    by (simp add: superseded_def)
  have "j = j0" if j: "j \<in> set (upsert_job j0 (map ?keep (b_jobs b)))" "superseded (t_id t) ch kind j" for j
  proof -
    have "j = j0 \<or> (\<exists>x. j = ?keep x)"
      using j(1) upsert_job_subset [of j0 "map ?keep (b_jobs b)"] unfolding set_map by blast
    then show ?thesis using j(2) ns by blast
  qed
  then show ?thesis
    using j0k upsert_job_mem [of j0 "map ?keep (b_jobs b)"] unfolding js by blast
qed

theorem open_task_shadowed_witness:
  "\<exists>j\<in>set (b_jobs (schedule_task_jobs sample_env (sample_task ''A'' LsReady) (sample_broker []))).
     j_due_at j = rfc3339 (sample_now + minutes 15)"
proof -
  have "\<not> closed_status (t_status (sample_task ''A'' LsReady))" by code_simp
  moreover have "norm_field (t_status (sample_task ''A'' LsReady)) \<noteq> ''in_progress''" by code_simp
  ultimately show ?thesis
    using open_task_shadowed [of "sample_task ''A'' LsReady" sample_env "sample_broker []"]
    by (auto simp: sample_env_def)
qed

text \<open>Two lists of terminal statuses disagree: a task with status completed counts as terminal
  for its dependents, yet scheduling it arms a recheck job that becomes due.\<close>

theorem completed_task_is_rechecked:
  "is_terminal_status ''completed''
   \<and> (\<exists>j\<in>set (b_jobs (schedule_task_jobs sample_env
          ((sample_task ''A'' LsApproved)\<lparr> t_status := ''completed'' \<rparr>) (sample_broker []))).
        job_due j (sample_now + minutes 15))"
  by code_simp

section \<open>Scheduling and reindexing\<close>

lemma pipeline_template_known: "pipeline_template ty \<in> set task_pipeline_templates"
  by (auto simp: pipeline_template_def task_pipeline_templates_def split: option.splits
      dest!: find_SomeD)

text \<open>The state a legacy reindex gives a task that was just moved to \<open>s\<close> and then scheduled.\<close>

definition after_schedule :: "env \<Rightarrow> lifecycle \<Rightarrow> task \<Rightarrow> lifecycle" where
  "after_schedule e s t =
     (case derived_fields_for s of
        None \<Rightarrow> LsUnset
      | Some row \<Rightarrow> reindex_state (scheduled_task e (stamp_row s row t)))"

lemma times_keep_review [simp]:
  "t_review_state (clear_task_times t) = t_review_state t"
  "t_review_state (follow_up_times e t) = t_review_state t"
  "t_review_state (recheck_times e t) = t_review_state t"
  "t_pipeline_stage (clear_task_times t) = t_pipeline_stage t"
  "t_pipeline_stage (follow_up_times e t) = t_pipeline_stage t"
  "t_pipeline_stage (recheck_times e t) = t_pipeline_stage t"
  by (simp_all add: clear_task_times_def follow_up_times_def recheck_times_def Let_def)

lemma scheduled_task_legacy:
  "t_review_state (scheduled_task e t) = t_review_state (normalize_task_plan t)"
  "t_pipeline_stage (scheduled_task e t) = t_pipeline_stage (normalize_task_plan t)"
  by (simp_all add: scheduled_task_def Let_def)

lemma defaults_keep_review [simp]:
  "t_review_state (default_type t) = t_review_state t"
  "t_review_state (default_pipeline t) = t_review_state t"
  "t_review_state (default_mode t) = t_review_state t"
  by (simp_all add: default_type_def default_pipeline_def default_mode_def)

lemma normalize_keeps_review:
  assumes "trim_space (t_review_state t) \<noteq> []" "trim_space (t_status t) \<noteq> ''review''"
    "trim_space (t_status t) = ''done'' \<longrightarrow> t_review_state t \<notin> {''pending_review'', ''ready_for_review''}"
  shows "t_review_state (normalize_task_plan t) = t_review_state t"
  using assms by (auto simp: normalize_task_plan_def settle_review_def default_review_def Let_def)

lemma normalize_stage:
  "\<exists>tp\<in>set task_pipeline_templates.
     t_pipeline_stage (normalize_task_plan t) =
       (let s = trim_space (t_status t) in
          if s = ''in_progress'' then tp_active tp else if s = ''review'' then tp_review tp
          else if s = ''done'' then tp_done tp else tp_open tp)"
proof -
  let ?u = "settle_review (default_review (default_mode (default_pipeline (default_type t))))"
  show ?thesis
    by (rule bexI [of _ "pipeline_template (t_task_type ?u)"])
      (simp_all add: normalize_task_plan_def stage_for_status_def Let_def pipeline_template_known)
qed

lemma template_tables:
  "\<forall>tp\<in>set task_pipeline_templates.
     derive_from_legacy (tp_active tp) ''pending_review'' ''in_progress'' False \<in> {LsRunning, LsUnknown}
   \<and> derive_from_legacy (tp_active tp) ''ready_for_review'' ''in_progress'' False = LsUnknown
   \<and> derive_from_legacy (tp_open tp) ''ready_for_review'' ''blocked'' True = LsUnknown
   \<and> derive_from_legacy (tp_open tp) ''rejected'' ''rejected'' True = LsUnknown
   \<and> derive_from_legacy (tp_open tp) ''approved'' ''archived'' False = LsUnknown
   \<and> derive_from_legacy (tp_done tp) ''approved'' ''done'' False \<in> {LsApproved, LsUnknown}"
  by code_simp

lemma fold_literals:
  "trim_space ''pending_review'' = ''pending_review''"
  "trim_space ''ready_for_review'' = ''ready_for_review''"
  "trim_space ''rejected'' = ''rejected''" "trim_space ''approved'' = ''approved''"
  "trim_space ''open'' = ''open''" "trim_space ''in_progress'' = ''in_progress''"
  "trim_space ''blocked'' = ''blocked''" "trim_space ''done'' = ''done''"
  "trim_space ''archived'' = ''archived''"
  by code_simp+

lemma norm_literals:
  "norm_field ''open'' = ''open''" "norm_field ''in_progress'' = ''in_progress''"
  "norm_field ''blocked'' = ''blocked''" "norm_field ''done'' = ''done''"
  "norm_field ''archived'' = ''archived''" "norm_field ''rejected'' = ''rejected''"
  by code_simp+

lemma terminal_literals:
  "is_terminal_status ''done''" "is_terminal_status ''archived''"
  "\<not> is_terminal_status ''in_progress''"
  "\<not> equal_fold ''pending_review'' ''ready_for_review''"
  by code_simp+

text \<open> States that survive being scheduled: a task moved to running, review, planning or
  approved, whatever its type, words and owner, is given the same state by a later legacy
  reindex, although scheduling overwrites its pipeline stage with the one of its template; and a
  blocked one stays blocked.\<close>

theorem schedule_keeps_state:
  assumes "s \<in> {LsRunning, LsReview, LsBlocked, LsPlanning, LsApproved}"
  shows "after_schedule e s t = s"
proof -
  obtain row where row: "derived_fields_for s = Some row"
    using assms by (cases s) auto
  let ?u = "stamp_row s row t"
  obtain tp where tp: "tp \<in> set task_pipeline_templates"
    and stg: "t_pipeline_stage (normalize_task_plan ?u) =
       (let st = trim_space (t_status ?u) in
          if st = ''in_progress'' then tp_active tp else if st = ''review'' then tp_review tp
          else if st = ''done'' then tp_done tp else tp_open tp)"
    using normalize_stage [of ?u] by blast
  note tb = template_tables [rule_format, OF tp]
  have rv: "t_review_state (normalize_task_plan ?u) = t_review_state ?u"
    by (rule normalize_keeps_review)
      (use assms row in \<open>auto simp: mk_row_def fold_literals\<close>)
  have a: "after_schedule e s t = reindex_state (scheduled_task e ?u)"
    by (simp add: after_schedule_def row)
  note u = reindex_state_def scheduled_task_legacy legacy_fallback_def fold_literals
    norm_literals terminal_literals Let_def stamp_row_sel scheduled_task_keeps mk_row_def
  from assms consider "s = LsRunning" | "s = LsReview" | "s = LsBlocked" | "s = LsPlanning"
    | "s = LsApproved" by blast
  then show ?thesis
  proof cases
    case 1
    then have r: "row = mk_row ''implement'' ''pending_review'' ''in_progress'' False" using row by simp
    show ?thesis
      using stg tb a rv unfolding u r 1
      by (auto simp: fold_literals norm_literals terminal_literals)
  next
    case 2
    then have r: "row = mk_row ''review'' ''ready_for_review'' ''in_progress'' False" using row by simp
    show ?thesis
      using stg tb a rv unfolding u r 2
      by (auto simp: fold_literals norm_literals terminal_literals)
  next
    case 3
    then have r: "row = mk_row ''review'' ''ready_for_review'' ''blocked'' True" using row by simp
    show ?thesis
      using stg tb a rv unfolding u r 3
      by (auto simp: fold_literals norm_literals terminal_literals)
  next
    case 4
    then have r: "row = mk_row ''plan'' ''pending_review'' ''in_progress'' False" using row by simp
    show ?thesis
      using stg tb a rv unfolding u r 4
      by (auto simp: fold_literals norm_literals terminal_literals)
  next
    case 5
    then have r: "row = mk_row ''ship'' ''approved'' ''done'' False" using row by simp
    show ?thesis
      using stg tb a rv unfolding u r 5
      by (auto simp: fold_literals norm_literals terminal_literals)
  qed
qed

theorem schedule_keeps_state_witness:
  "after_schedule sample_env LsReview (sample_task ''A'' LsReady) = LsReview"
  by (rule schedule_keeps_state) simp

text \<open>States that do not survive it: the reindex turns a rejected task into a blocked one, an
  archived task into an approved one, a decision back into a review, and a task parked in
  drafting, of type research and with an owner, into a running one, which the dispatch gate lets
  through.\<close>

theorem schedule_loses_state:
  "after_schedule sample_env LsRejected (sample_task ''A'' LsReady) = LsBlocked
   \<and> after_schedule sample_env LsArchived (sample_task ''A'' LsReady) = LsApproved
   \<and> after_schedule sample_env LsDecision (sample_task ''A'' LsReady) = LsReview
   \<and> after_schedule sample_env LsDrafting
       ((sample_task ''A'' LsReady)\<lparr> t_task_type := ''research'', t_owner := ''ana'' \<rparr>) = LsRunning
   \<and> is_executable LsRunning \<and> \<not> is_executable LsDrafting"
  by (intro conjI; code_simp)

end
