(* ===== verification/ChannelProps.thy ===== *)
theory ChannelProps
  imports ChannelStore LookupTable
begin

text \<open>
  The correctness of the channel store: the three tables always agree with the lists, in every
  state the operations can reach; what membership, direct messages and the migration promise on
  top of that; and where slugs of different conversations collide.
\<close>

section \<open>The tables agree with the lists\<close>

text \<open>A key table points at the last channel with that key.\<close>

definition table_ok :: "(chan \<Rightarrow> string) \<Rightarrow> chan list \<Rightarrow> (string \<rightharpoonup> nat) \<Rightarrow> bool" where
  "table_ok key cs m \<longleftrightarrow>
     (\<forall>g. case m g of
        None \<Rightarrow> g = [] \<or> g \<notin> key ` set cs
      | Some k \<Rightarrow> g \<noteq> [] \<and> k < length cs \<and> key (cs ! k) = g
                  \<and> (\<forall>j. k < j \<and> j < length cs \<longrightarrow> key (cs ! j) \<noteq> g))"

definition store_inv :: "store \<Rightarrow> bool" where
  "store_inv s \<longleftrightarrow>
     table_ok c_id (st_channels s) (st_by_id s)
     \<and> table_ok c_slug (st_channels s) (st_by_slug s)
     \<and> (\<forall>g. st_member_of s g = map cm_channel (filter (\<lambda>m. cm_slug m = g) (st_members s)))"

lemma index_from_snoc:
  "index_from key i (cs @ [c]) m =
     (if key c \<noteq> [] then (index_from key i cs m)(key c \<mapsto> i + length cs) else index_from key i cs m)"
  by (induction cs arbitrary: i m) auto

lemma index_from_ok: "table_ok key cs (index_from key 0 cs Map.empty)"
proof (induction cs rule: rev_induct)
  case Nil
  then show ?case by (simp add: table_ok_def)
next
  case (snoc c cs)
  show ?case
    unfolding table_ok_def
  proof
    fix g
    let ?m = "index_from key 0 cs Map.empty"
    have IH: "case ?m g of
        None \<Rightarrow> g = [] \<or> g \<notin> key ` set cs
      | Some k \<Rightarrow> g \<noteq> [] \<and> k < length cs \<and> key (cs ! k) = g
                  \<and> (\<forall>j. k < j \<and> j < length cs \<longrightarrow> key (cs ! j) \<noteq> g)"
      using snoc by (simp add: table_ok_def)
    show "case index_from key 0 (cs @ [c]) Map.empty g of
        None \<Rightarrow> g = [] \<or> g \<notin> key ` set (cs @ [c])
      | Some k \<Rightarrow> g \<noteq> [] \<and> k < length (cs @ [c]) \<and> key ((cs @ [c]) ! k) = g
                  \<and> (\<forall>j. k < j \<and> j < length (cs @ [c]) \<longrightarrow> key ((cs @ [c]) ! j) \<noteq> g)"
      using IH by (auto simp: index_from_snoc nth_append less_Suc_eq split: option.splits)
  qed
qed

lemma table_ok_iff:
  assumes "table_ok key cs m"
  shows "m g = Some k \<longleftrightarrow>
    g \<noteq> [] \<and> k < length cs \<and> key (cs ! k) = g
    \<and> (\<forall>j. k < j \<and> j < length cs \<longrightarrow> key (cs ! j) \<noteq> g)"
proof
  assume "m g = Some k"
  then show "g \<noteq> [] \<and> k < length cs \<and> key (cs ! k) = g
      \<and> (\<forall>j. k < j \<and> j < length cs \<longrightarrow> key (cs ! j) \<noteq> g)"
    using assms [unfolded table_ok_def, THEN spec, of g] by simp
next
  assume k: "g \<noteq> [] \<and> k < length cs \<and> key (cs ! k) = g
      \<and> (\<forall>j. k < j \<and> j < length cs \<longrightarrow> key (cs ! j) \<noteq> g)"
  then have "g \<in> key ` set cs" by auto
  then obtain l where l: "m g = Some l"
    using assms [unfolded table_ok_def, THEN spec, of g] k by (cases "m g") auto
  then have "l < length cs \<and> key (cs ! l) = g \<and> (\<forall>j. l < j \<and> j < length cs \<longrightarrow> key (cs ! j) \<noteq> g)"
    using assms [unfolded table_ok_def, THEN spec, of g] by simp
  then have "l = k" using k by (metis linorder_neqE_nat)
  then show "m g = Some k" using l by simp
qed

lemma table_ok_unique:
  assumes "table_ok key cs m" "table_ok key cs n"
  shows "m = n"
proof
  fix g
  have "m g = Some k \<longleftrightarrow> n g = Some k" for k
    by (simp add: table_ok_iff [OF assms(1)] table_ok_iff [OF assms(2)])
  then show "m g = n g" by (metis not_None_eq)
qed

lemma member_table_spec:
  "member_table ms f g = f g @ map cm_channel (filter (\<lambda>m. cm_slug m = g) ms)"
  by (induction ms arbitrary: f) auto

lemma rebuild_inv [simp]: "store_inv (rebuild_indexes s)"
  by (simp add: store_inv_def rebuild_indexes_def index_from_ok member_table_spec)

lemma rebuild_id: "store_inv s \<Longrightarrow> rebuild_indexes s = s"
  using table_ok_unique [OF index_from_ok]
  by (cases s) (auto simp: store_inv_def rebuild_indexes_def member_table_spec fun_eq_iff)

lemma rebuild_sel [simp]:
  "st_channels (rebuild_indexes s) = st_channels s" "st_members (rebuild_indexes s) = st_members s"
  "st_messages (rebuild_indexes s) = st_messages s" "st_counter (rebuild_indexes s) = st_counter s"
  by (simp_all add: rebuild_indexes_def)

definition is_blank :: "string \<Rightarrow> bool" where
  "is_blank g \<longleftrightarrow> g = []"

lemma table_sound:
  "table_ok key cs m \<Longrightarrow> map_option (\<lambda>k. cs ! k) (m g) = Some c \<Longrightarrow> c \<in> set cs \<and> key c = g"
  by (auto simp: table_ok_def split: option.splits dest: spec [of _ g])

lemma table_complete:
  "table_ok key cs m \<Longrightarrow> c \<in> set cs \<Longrightarrow> key c \<noteq> [] \<Longrightarrow> m (key c) \<noteq> None"
  by (auto simp: table_ok_def split: option.splits dest: spec [of _ "key c"])

interpretation by_id: lookup_table store_inv get_id st_channels c_id is_blank
  by unfold_locales (auto simp: store_inv_def get_id_def is_blank_def
      dest: table_sound table_complete)

interpretation by_slug: lookup_table store_inv get_slug st_channels c_slug is_blank
  by unfold_locales (auto simp: store_inv_def get_slug_def is_blank_def
      dest: table_sound table_complete)

section \<open>Every operation keeps the tables\<close>

lemma add_member_locked_inv:
  "store_inv s \<Longrightarrow> store_inv (add_member_locked ts cid slug n s)"
  by (auto simp: store_inv_def add_member_locked_def)

lemma remove_member_inv: "store_inv s \<Longrightarrow> remove_member cid slug s = Inr s' \<Longrightarrow> store_inv s'"
proof -
  have "filter (\<lambda>i. i \<noteq> cid) (map cm_channel (filter (\<lambda>m. cm_slug m = slug) ms)) =
        map cm_channel (filter (\<lambda>m. cm_slug m = slug) (filter (\<lambda>m. \<not> is_row cid slug m) ms))" for ms
    by (induction ms) (auto simp: is_row_def)
  moreover have "filter (\<lambda>m. cm_slug m = g) (filter (\<lambda>m. \<not> is_row cid slug m) ms) =
        filter (\<lambda>m. cm_slug m = g) ms" if "g \<noteq> slug" for g ms
    using that by (induction ms) (auto simp: is_row_def)
  ultimately show "store_inv s \<Longrightarrow> remove_member cid slug s = Inr s' \<Longrightarrow> store_inv s'"
    by (auto simp: remove_member_def store_inv_def split: if_splits)
qed

lemma map_rows_inv:
  assumes "store_inv s" "\<And>m. cm_channel (f m) = cm_channel m" "\<And>m. cm_slug (f m) = cm_slug m"
    and "ms = map f (st_members s) \<or> ms = map_first p f (st_members s)"
  shows "store_inv (s\<lparr> st_members := ms \<rparr>)"
proof -
  have "map cm_channel (filter (\<lambda>m. cm_slug m = g) (map f xs)) =
        map cm_channel (filter (\<lambda>m. cm_slug m = g) xs)" for g xs
    using assms(2,3) by (induction xs) auto
  moreover have "map cm_channel (filter (\<lambda>m. cm_slug m = g) (map_first p f xs)) =
        map cm_channel (filter (\<lambda>m. cm_slug m = g) xs)" for g xs
    using assms(2,3) by (induction xs) auto
  ultimately show ?thesis using assms(1,4) by (auto simp: store_inv_def)
qed

lemma bump_inv: "store_inv s \<Longrightarrow> store_inv (bump p s)"
  unfolding bump_def by (rule map_rows_inv [OF _ _ _ disjI1 [OF refl]]) auto

lemma update_row_inv:
  assumes "store_inv s" "update_row cid slug f s = Inr s'"
    "\<And>m. cm_channel (f m) = cm_channel m" "\<And>m. cm_slug (f m) = cm_slug m"
  shows "store_inv s'"
  using assms(2) map_rows_inv [OF assms(1,3,4) disjI2 [OF refl], of "is_row cid slug"]
  by (auto simp: update_row_def split: if_splits)

lemma table_ok_update:
  assumes "table_ok key cs m" "k < length cs" "key c = key (cs ! k)"
  shows "table_ok key (cs[k := c]) m"
proof -
  have n: "key (cs[k := c] ! j) = key (cs ! j)" if "j < length cs" for j
    using that assms(3) by (cases "j = k") auto
  have i: "key ` set (cs[k := c]) = key ` set cs"
  proof -
    have "map key (cs[k := c]) = map key cs"
      by (rule nth_equalityI) (use n in auto)
    then show ?thesis by (metis list.set_map)
  qed
  show ?thesis
    unfolding table_ok_def
  proof
    fix g
    show "case m g of
        None \<Rightarrow> g = [] \<or> g \<notin> key ` set (cs[k := c])
      | Some l \<Rightarrow> g \<noteq> [] \<and> l < length (cs[k := c]) \<and> key (cs[k := c] ! l) = g
                  \<and> (\<forall>j. l < j \<and> j < length (cs[k := c]) \<longrightarrow> key (cs[k := c] ! j) \<noteq> g)"
      using assms(1) [unfolded table_ok_def, THEN spec, of g] unfolding i
      by (cases "m g") (simp_all add: n)
  qed
qed

lemma append_cmessage_inv: "store_inv s \<Longrightarrow> store_inv (append_cmessage ts m s)"
proof (cases "st_by_slug s (cg_channel m)")
  case (Some k)
  assume inv: "store_inv s"
  then have "k < length (st_channels s)"
    using Some by (auto simp: store_inv_def table_ok_def dest: spec [of _ "cg_channel m"]
        split: option.splits)
  then show ?thesis
    using inv Some by (auto simp: store_inv_def append_cmessage_def Let_def intro!: table_ok_update)
qed (auto simp: append_cmessage_def store_inv_def Let_def)

text \<open>The states the operations of the store reach from an empty or a loaded store.\<close>

inductive reachable :: "store \<Rightarrow> bool" where
  "reachable new_store"
| "reachable (unmarshal j)"
| "reachable s \<Longrightarrow> create u ts ch s = Inr (r, s') \<Longrightarrow> reachable s'"
| "reachable s \<Longrightarrow> delete_channel i s = Inr s' \<Longrightarrow> reachable s'"
| "reachable s \<Longrightarrow> get_or_create_direct u ts a b s = Inr (r, s') \<Longrightarrow> reachable s'"
| "reachable s \<Longrightarrow> get_or_create_group en sha u ts ms by1 s = Inr (r, s') \<Longrightarrow> reachable s'"
| "reachable s \<Longrightarrow> add_member ts i g n s = Inr s' \<Longrightarrow> reachable s'"
| "reachable s \<Longrightarrow> remove_member i g s = Inr s' \<Longrightarrow> reachable s'"
| "reachable s \<Longrightarrow> reachable (append_cmessage ts m s)"
| "reachable s \<Longrightarrow> reachable (snd (next_message_id s))"
| "reachable s \<Longrightarrow> reachable (increment_mentions g sd s)"
| "reachable s \<Longrightarrow> reachable (increment_mentions_tagged g sd tg s)"
| "reachable s \<Longrightarrow> mark_read i g mid s = Inr s' \<Longrightarrow> reachable s'"
| "reachable s \<Longrightarrow> mark_processed i g mid s = Inr s' \<Longrightarrow> reachable s'"
| "reachable s \<Longrightarrow> reachable (fst (migrate_legacy_dm ts us s))"

lemma migrate_one_unchanged:
  "\<not> snd (migrate_one ts i u sc) \<Longrightarrow> migrate_one ts i u sc = sc"
proof -
  assume a: "\<not> snd (migrate_one ts i u sc)"
  let ?ch = "st_channels (fst sc) ! i"
  have "?ch\<lparr> c_id := c_id ?ch, c_type := c_type ?ch \<rparr> = ?ch" by simp
  then show ?thesis
    using a by (cases sc) (auto simp: migrate_one_def Let_def split: if_splits)
qed

lemma migrate_fold_unchanged:
  "\<not> snd (foldl (\<lambda>sc i. migrate_one ts i (us i) sc) sc is) \<Longrightarrow>
     foldl (\<lambda>sc i. migrate_one ts i (us i) sc) sc is = sc"
proof (induction "is" arbitrary: sc)
  case (Cons i "is")
  let ?sc = "migrate_one ts i (us i) sc"
  have f: "foldl (\<lambda>sc i. migrate_one ts i (us i) sc) ?sc is = ?sc"
    using Cons by simp
  then have "\<not> snd ?sc" using Cons.prems by simp
  then show ?case using f migrate_one_unchanged [of ts i "us i" sc] by simp
qed simp

lemma migrate_legacy_dm_inv: "store_inv s \<Longrightarrow> store_inv (fst (migrate_legacy_dm ts us s))"
  using migrate_fold_unchanged [of ts us "(s, False)" "[0..<length (st_channels s)]"]
  by (auto simp: migrate_legacy_dm_def Let_def)

lemma reachable_inv:
  assumes "reachable s"
  shows "store_inv s"
  using assms
proof induction
  case 1
  then show ?case by (simp add: store_inv_def new_store_def table_ok_def)
next
  case (8 s i g s')
  then show ?case by (blast intro: remove_member_inv)
next
  case (10 s)
  then show ?case by (simp add: store_inv_def next_message_id_def)
qed (auto simp: unmarshal_def create_def delete_channel_def get_or_create_direct_def
    get_or_create_group_def add_member_def increment_mentions_def increment_mentions_tagged_def
    mark_read_def mark_processed_def Let_def add_member_locked_inv bump_inv append_cmessage_inv
    migrate_legacy_dm_inv split: if_splits option.splits intro: update_row_inv)

text \<open>C38.  In every state the store can reach, from empty or from any loaded file, the id and slug
  tables point exactly at the last channel with that key and the membership table lists exactly
  the channels of the member's rows, in order.\<close>

theorem store_tables_exact:
  assumes "reachable s"
  shows "store_inv s"
  using assms by (rule reachable_inv)

theorem store_tables_exact_witness:
  "store_inv (fst (migrate_legacy_dm (At 0) (\<lambda>i. ''u'' @ itoa (int i)) new_store))"
  by (rule store_tables_exact) (rule reachable.intros(15) [OF reachable.intros(1)])

section \<open>Membership\<close>

lemma is_member_iff:
  "store_inv s \<Longrightarrow> is_member cid slug s \<longleftrightarrow> (\<exists>m\<in>set (st_members s). is_row cid slug m)"
  by (auto simp: store_inv_def is_member_def is_row_def)

text \<open> Membership after an addition and a removal: exactly the named member is added to or taken
  out of exactly the named channel; a removal fails exactly when there is no such member.\<close>

theorem membership_ops:
  assumes "store_inv s"
  shows "(\<forall>s'. add_member ts cid slug n s = Inr s' \<longrightarrow>
            (\<forall>c g. is_member c g s' \<longleftrightarrow> is_member c g s \<or> (c = cid \<and> g = slug)))
    \<and> (\<forall>s'. remove_member cid slug s = Inr s' \<longrightarrow>
            (\<forall>c g. is_member c g s' \<longleftrightarrow> is_member c g s \<and> \<not> (c = cid \<and> g = slug)))
    \<and> (remove_member cid slug s = Inl (NotAMember slug cid) \<longleftrightarrow> \<not> is_member cid slug s)"
proof (intro conjI allI impI)
  note mem = is_member_iff [OF assms, of cid slug]
  have op: "add_member ts cid slug n s =
      (if st_by_id s cid = None then Inl (ChannelNotFound cid)
       else if is_member cid slug s then Inr s else Inr (add_member_locked ts cid slug n s))"
    by (simp only: add_member_def mem)
  have op': "remove_member cid slug s =
      (if is_member cid slug s
       then Inr (s\<lparr> st_members := filter (\<lambda>m. \<not> is_row cid slug m) (st_members s),
                   st_member_of := (st_member_of s)(slug := filter (\<lambda>i. i \<noteq> cid) (st_member_of s slug)) \<rparr>)
       else Inl (NotAMember slug cid))"
    by (simp only: remove_member_def mem)
  show "is_member c g s' \<longleftrightarrow> is_member c g s \<or> (c = cid \<and> g = slug)"
    if add: "add_member ts cid slug n s = Inr s'" for s' c g
  proof (cases "is_member cid slug s")
    case True
    then have "s' = s" using add op by (simp split: if_splits)
    then show ?thesis using True by blast
  next
    case False
    then have "s' = add_member_locked ts cid slug n s"
      using add op by (simp split: if_splits)
    then show ?thesis by (simp add: is_member_def add_member_locked_def) blast
  qed
  show "is_member c g s' \<longleftrightarrow> is_member c g s \<and> \<not> (c = cid \<and> g = slug)"
    if "remove_member cid slug s = Inr s'" for s' c g
    using that op' by (auto simp: is_member_def split: if_splits)
  show "remove_member cid slug s = Inl (NotAMember slug cid) \<longleftrightarrow> \<not> is_member cid slug s"
    by (simp add: op')
qed

theorem membership_ops_witness:
  "\<not> is_member ''c'' ''ana'' new_store
   \<and> remove_member ''c'' ''ana'' new_store = Inl (NotAMember ''ana'' ''c'')"
proof -
  have "store_inv new_store" by (rule reachable_inv) (rule reachable.intros(1))
  from membership_ops [OF this, of "At 0" "''c''" "''ana''" "''all''"] show ?thesis
    by (simp add: is_member_def new_store_def remove_member_def)
qed

section \<open>Direct messages\<close>

lemma direct_slug_sym: "direct_slug a b = direct_slug b a"
  by (auto simp: direct_slug_def)

lemma direct_slug_not_Nil: "direct_slug a b \<noteq> []"
  by (simp add: direct_slug_def)

lemma last_channel:
  assumes "store_inv s" "st_channels s = cs @ [c]"
  shows "c_id c \<noteq> [] \<Longrightarrow> get_id s (c_id c) = Some c"
    and "c_slug c \<noteq> [] \<Longrightarrow> get_slug s (c_slug c) = Some c"
proof -
  have t: "table_ok c_id (st_channels s) (st_by_id s)" "table_ok c_slug (st_channels s) (st_by_slug s)"
    using assms(1) by (simp_all add: store_inv_def)
  have "c_id c \<noteq> [] \<Longrightarrow> st_by_id s (c_id c) = Some (length cs)"
    unfolding table_ok_iff [OF t(1)] using assms(2) by auto
  then show "c_id c \<noteq> [] \<Longrightarrow> get_id s (c_id c) = Some c" using assms(2) by (simp add: get_id_def)
  have "c_slug c \<noteq> [] \<Longrightarrow> st_by_slug s (c_slug c) = Some (length cs)"
    unfolding table_ok_iff [OF t(2)] using assms(2) by auto
  then show "c_slug c \<noteq> [] \<Longrightarrow> get_slug s (c_slug c) = Some c" using assms(2) by (simp add: get_slug_def)
qed

lemma direct_message_lemma:
  assumes "store_inv s" "a \<noteq> []" "b \<noteq> []" "a \<noteq> b" "u \<noteq> []"
  shows "\<exists>ch s'. get_or_create_direct u ts a b s = Inr (Some ch, s') \<and> store_inv s'
    \<and> c_slug ch = direct_slug a b \<and> get_slug s' (direct_slug a b) = Some ch
    \<and> (\<forall>u' ts'. get_or_create_direct u' ts' a b s' = Inr (Some ch, s')
              \<and> get_or_create_direct u' ts' b a s' = Inr (Some ch, s'))
    \<and> (get_slug s (direct_slug a b) = None \<longrightarrow> u \<notin> cm_channel ` set (st_members s) \<longrightarrow>
         c_id ch = u \<and> c_type ch = type_direct \<and> (\<forall>g. is_member u g s' \<longleftrightarrow> g = a \<or> g = b))"
proof (cases "get_slug s (direct_slug a b)")
  case (Some ch)
  then have "c_slug ch = direct_slug a b" using by_slug.look_sound assms(1) by blast
  then show ?thesis
    using Some assms by (auto simp: get_or_create_direct_def direct_slug_sym [of b a])
next
  case None
  let ?ch = "new_channel u ts (''DM: '' @ a @ '' & '' @ b) (direct_slug a b) type_direct a"
  let ?s2 = "add_member_locked ts u b ''all''
      (add_member_locked ts u a ''all'' (s\<lparr> st_channels := st_channels s @ [?ch] \<rparr>))"
  let ?s' = "rebuild_indexes ?s2"
  have cs: "st_channels ?s' = st_channels s @ [?ch]" by (simp add: add_member_locked_def)
  have sel: "c_id ?ch = u" "c_slug ?ch = direct_slug a b" "c_type ?ch = type_direct"
    by (simp_all add: new_channel_def)
  have g: "get_id ?s' u = Some ?ch" "get_slug ?s' (direct_slug a b) = Some ?ch"
    using last_channel [OF rebuild_inv cs] assms(5) sel direct_slug_not_Nil by auto
  have op: "get_or_create_direct u ts a b s = Inr (Some ?ch, ?s')"
    using None assms g(1) by (simp add: get_or_create_direct_def Let_def)
  have mem: "\<forall>x. is_member u x ?s' \<longleftrightarrow> x = a \<or> x = b" if "u \<notin> cm_channel ` set (st_members s)"
    using that by (auto simp: is_member_iff is_row_def add_member_locked_def)
  have again: "get_or_create_direct u' ts' a b ?s' = Inr (Some ?ch, ?s')"
    "get_or_create_direct u' ts' b a ?s' = Inr (Some ?ch, ?s')" for u' ts'
    using assms g(2) by (simp_all add: get_or_create_direct_def direct_slug_sym [of b a])
  show ?thesis using op again mem sel g(2) by (intro exI [of _ ?ch] exI [of _ ?s']) simp
qed

text \<open> Opening a direct message: it always returns a channel whose slug is the canonical one of
  the pair, whichever of the two asks; asking again, in either order, returns the same channel
  and changes nothing; and a channel it creates is a direct channel whose members are exactly the
  two.\<close>

theorem direct_message_canonical:
  assumes "store_inv s" "a \<noteq> []" "b \<noteq> []" "a \<noteq> b" "u \<noteq> []"
  shows "\<exists>ch s'. get_or_create_direct u ts a b s = Inr (Some ch, s') \<and> store_inv s'
    \<and> c_slug ch = direct_slug a b \<and> get_slug s' (direct_slug a b) = Some ch
    \<and> (\<forall>u' ts'. get_or_create_direct u' ts' a b s' = Inr (Some ch, s')
              \<and> get_or_create_direct u' ts' b a s' = Inr (Some ch, s'))
    \<and> (get_slug s (direct_slug a b) = None \<longrightarrow> u \<notin> cm_channel ` set (st_members s) \<longrightarrow>
         c_id ch = u \<and> c_type ch = type_direct \<and> (\<forall>g. is_member u g s' \<longleftrightarrow> g = a \<or> g = b))"
  using assms by (rule direct_message_lemma)

theorem direct_message_canonical_witness:
  "\<exists>ch s'. get_or_create_direct ''u1'' (At 0) ''human'' ''ana'' new_store = Inr (Some ch, s')
     \<and> get_or_create_direct ''u2'' (At 5) ''ana'' ''human'' s' = Inr (Some ch, s')"
proof -
  have "store_inv new_store" by (rule reachable_inv) (rule reachable.intros(1))
  from direct_message_canonical [OF this, of "''human''" "''ana''" "''u1''" "At 0"] show ?thesis
    by auto
qed

text \<open>Slugs of different conversations collide.  A direct slug does not tell where one name ends,
  so a second pair is handed the first pair's channel without being a member of it; and a group
  slug digests the concatenated names, so two different groups share it whatever the digest.\<close>

theorem slug_collisions:
  "(\<forall>sha. group_slug sha [''ab'', ''c''] = group_slug sha [''a'', ''bc''])
   \<and> (case get_or_create_direct ''u1'' (At 0) ''a'' ''b__c'' new_store of
        Inr (Some ch, s) \<Rightarrow>
          get_or_create_direct ''u2'' (At 0) ''a__b'' ''c'' s = Inr (Some ch, s)
          \<and> \<not> is_member (c_id ch) ''c'' s
      | _ \<Rightarrow> False)"
proof (intro conjI allI)
  fix sha :: "string \<Rightarrow> string"
  have "concat (sort [''ab'', ''c'']) = concat (sort [''a'', ''bc''])" by code_simp
  then show "group_slug sha [''ab'', ''c''] = group_slug sha [''a'', ''bc'']"
    by (simp add: group_slug_def)
next
  let ?r = "get_or_create_direct ''u1'' (At 0) ''a'' ''b__c'' new_store"
  have inv: "store_inv new_store" by (rule reachable_inv) (rule reachable.intros(1))
  obtain ch s where r: "?r = Inr (Some ch, s)" and sl: "c_slug ch = direct_slug ''a'' ''b__c''"
    and again: "get_slug s (direct_slug ''a'' ''b__c'') = Some ch"
    and mem: "c_id ch = ''u1''" "\<forall>g. is_member ''u1'' g s \<longleftrightarrow> g = ''a'' \<or> g = ''b__c''"
    using direct_message_lemma [OF inv, of "''a''" "''b__c''" "''u1''" "At 0"]
    by (auto simp: new_store_def get_slug_def)
  have "direct_slug ''a__b'' ''c'' = direct_slug ''a'' ''b__c''" by code_simp
  then have "get_or_create_direct ''u2'' (At 0) ''a__b'' ''c'' s = Inr (Some ch, s)"
    using again by (simp add: get_or_create_direct_def)
  then show "case ?r of
        Inr (Some ch, s) \<Rightarrow>
          get_or_create_direct ''u2'' (At 0) ''a__b'' ''c'' s = Inr (Some ch, s)
          \<and> \<not> is_member (c_id ch) ''c'' s
      | _ \<Rightarrow> False"
    using r mem by simp
qed

section \<open>Migration and persistence\<close>

definition needs_migration :: "chan \<Rightarrow> bool" where
  "needs_migration ch \<longleftrightarrow>
     \<not> (proper_type (c_type ch) \<and> c_id ch \<noteq> [])
     \<and> (prefix ''dm-'' (c_slug ch) \<or> c_id ch = [] \<or> c_type ch = [])"

lemma migrate_one_channels:
  assumes "i < length (st_channels (fst sc))" "u \<noteq> []"
  shows "\<exists>ch. st_channels (fst (migrate_one ts i u sc)) = (st_channels (fst sc))[i := ch]
           \<and> \<not> needs_migration ch"
proof -
  let ?ch = "st_channels (fst sc) ! i"
  let ?new = "if proper_type (c_type ?ch) \<and> c_id ?ch \<noteq> [] then ?ch
    else if prefix ''dm-'' (c_slug ?ch) then
      ?ch\<lparr> c_id := u, c_type := type_direct,
         c_slug := direct_slug ''human'' (trim_prefix (c_slug ?ch) ''dm-''),
         c_updated_at := (if c_updated_at ?ch = NoStamp then ts else c_updated_at ?ch) \<rparr>
    else ?ch\<lparr> c_id := (if c_id ?ch = [] then u else c_id ?ch),
            c_type := (if c_type ?ch = [] then type_public else c_type ?ch) \<rparr>"
  have "st_channels (fst (migrate_one ts i u sc)) = (st_channels (fst sc))[i := ?new]"
    by (simp add: migrate_one_def Let_def add_member_locked_def)
  moreover have "\<not> needs_migration ?new"
    using assms(2) by (simp add: needs_migration_def proper_type_def)
  ultimately show ?thesis by blast
qed

lemma migrate_fold_channels:
  assumes "n \<le> length (st_channels s)" "\<And>i. us i \<noteq> []"
  shows "length (st_channels (fst (foldl (\<lambda>sc i. migrate_one ts i (us i) sc) (s, c) [0..<n]))) =
           length (st_channels s)
    \<and> (\<forall>i<n. \<not> needs_migration
          (st_channels (fst (foldl (\<lambda>sc i. migrate_one ts i (us i) sc) (s, c) [0..<n])) ! i))"
  using assms(1)
proof (induction n)
  case (Suc n)
  let ?sc = "foldl (\<lambda>sc i. migrate_one ts i (us i) sc) (s, c) [0..<n]"
  have IH: "length (st_channels (fst ?sc)) = length (st_channels s)"
    "\<forall>i<n. \<not> needs_migration (st_channels (fst ?sc) ! i)" using Suc by auto
  obtain ch where ch: "st_channels (fst (migrate_one ts n (us n) ?sc)) = (st_channels (fst ?sc))[n := ch]"
    "\<not> needs_migration ch"
    using migrate_one_channels [of n ?sc "us n" ts] Suc.prems IH(1) assms(2) by auto
  then show ?case using IH Suc.prems by (auto simp: nth_list_update less_Suc_eq)
qed simp

lemma migrate_fold_noop:
  assumes "\<forall>ch\<in>set (st_channels s). \<not> needs_migration ch" "\<forall>i\<in>set is. i < length (st_channels s)"
  shows "foldl (\<lambda>sc i. migrate_one ts i (us i) sc) (s, False) is = (s, False)"
  using assms(2)
proof (induction "is")
  case (Cons i "is")
  let ?ch = "st_channels s ! i"
  have "\<not> needs_migration ?ch" using assms(1) Cons.prems by simp
  then have "\<not> snd (migrate_one ts i (us i) (s, False))"
    by (auto simp: migrate_one_def Let_def needs_migration_def)
  then have "migrate_one ts i (us i) (s, False) = (s, False)" by (rule migrate_one_unchanged)
  then show ?case using Cons by simp
qed simp

text \<open>The legacy migration leaves no channel it would touch again: run a second time it changes
  nothing and reports no change, as its comment promises.\<close>

theorem migration_idempotent:
  assumes "\<forall>i. us i \<noteq> []"
  shows "migrate_legacy_dm ts' us' (fst (migrate_legacy_dm ts us s)) =
           (fst (migrate_legacy_dm ts us s), False)"
proof -
  let ?s' = "fst (migrate_legacy_dm ts us s)"
  let ?f = "foldl (\<lambda>sc i. migrate_one ts i (us i) sc) (s, False) [0..<length (st_channels s)]"
  have cs: "st_channels ?s' = st_channels (fst ?f)"
    by (simp add: migrate_legacy_dm_def Let_def)
  have "\<not> needs_migration ch" if "ch \<in> set (st_channels ?s')" for ch
    using that migrate_fold_channels [of "length (st_channels s)" s us ts False] assms cs
    by (auto simp: in_set_conv_nth)
  then show ?thesis
    using migrate_fold_noop [of ?s' "[0..<length (st_channels ?s')]" ts' us']
    by (simp add: migrate_legacy_dm_def [of ts' us'] Let_def)
qed

theorem migration_idempotent_witness:
  "migrate_legacy_dm (At 1) (\<lambda>_. ''w'') (fst (migrate_legacy_dm (At 0) (\<lambda>_. ''v'') new_store)) =
     (fst (migrate_legacy_dm (At 0) (\<lambda>_. ''v'') new_store), False)"
  by (rule migration_idempotent) simp

text \<open>It can leave two channels under one slug: a legacy DM is renamed to the canonical slug
  without a check that the canonical channel already exists, and the slug table then answers with
  the last of the two.\<close>

theorem migration_duplicates_slug:
  "(let old = \<lparr> c_id = [], c_name = ''ana'', c_slug = ''dm-ana'', c_type = [], c_created_by = [],
                c_created_at = NoStamp, c_updated_at = NoStamp, c_last_post_at = NoStamp,
                c_description = [] \<rparr>;
        s = unmarshal \<lparr> sj_channels = [new_channel ''u0'' (At 0) ''DM'' ''ana__human'' type_direct ''human'', old],
                        sj_members = [], sj_messages = [], sj_counter = 0 \<rparr>;
        t = fst (migrate_legacy_dm (At 1) (\<lambda>i. ''v'' @ itoa (int i)) s)
    in map c_slug (st_channels t) = [''ana__human'', ''ana__human'']
       \<and> map_option c_id (get_slug s ''ana__human'') = Some ''u0''
       \<and> map_option c_id (get_slug t ''ana__human'') = Some ''v1'')"
  by code_simp

text \<open> Writing a reachable store and loading it back gives the same store, tables included.\<close>

theorem store_roundtrip:
  assumes "reachable s"
  shows "unmarshal (marshal s) = s"
proof -
  have inv: "store_inv s" using assms by (rule reachable_inv)
  have "unmarshal (marshal s) = rebuild_indexes s"
    by (cases s) (simp add: unmarshal_def marshal_def rebuild_indexes_def)
  then show ?thesis using rebuild_id [OF inv] by simp
qed

theorem store_roundtrip_witness: "unmarshal (marshal new_store) = new_store"
  by (rule store_roundtrip) (rule reachable.intros(1))

end
