(* ===== verification/TeamChannels.thy ===== *)
theory TeamChannels
  imports BrokerState
begin

text \<open>
  The broker's conversations: direct-message slugs and their participants (\<^verbatim>\<open>broker_dm.go\<close>,
  \<^verbatim>\<open>broker_consult_relay.go\<close>), the lookup of channels and members (\<^verbatim>\<open>broker_indexes.go\<close>),
  who may read a channel, and how a task's owner enters its channel
  (\<^verbatim>\<open>broker_channel_access.go\<close>).

  The slug indexes of the broker are caches of \<open>last element with this slug\<close>, rebuilt on a miss;
  the lookups here search the lists from the end.
\<close>

section \<open>Participants of a direct message\<close>

definition is_human_sender :: "string \<Rightarrow> bool" where
  "is_human_sender sender \<longleftrightarrow>
     (let s = normalize_actor_slug sender in
        s = [] \<or> s = ''you'' \<or> s = ''human'' \<or> prefix ''human:'' s)"

text \<open>\<^verbatim>\<open>strings.Split(s, "__")\<close>.\<close>

fun split_under :: "string \<Rightarrow> string list" where
  "split_under [] = [[]]"
| "split_under [c] = [[c]]"
| "split_under (c # d # cs) =
     (if c = CHR ''_'' \<and> d = CHR ''_'' then [] # split_under cs
      else (case split_under (d # cs) of [] \<Rightarrow> [[c]] | w # ws \<Rightarrow> (c # w) # ws))"

definition canonical_dm_pair :: "string \<Rightarrow> (string \<times> string) option" where
  "canonical_dm_pair slug =
     (case split_under (normalize_channel_slug slug) of
        [x, y] \<Rightarrow>
          let a = trim_space x; b = trim_space y in
          if a = [] \<or> b = [] then None else Some (a, b)
      | _ \<Rightarrow> None)"

definition canonical_dm_target :: "string \<Rightarrow> string" where
  "canonical_dm_target slug =
     (case canonical_dm_pair slug of
        None \<Rightarrow> []
      | Some (a, b) \<Rightarrow> if is_human_sender a then b else if is_human_sender b then a else [])"

definition is_dm_slug :: "string \<Rightarrow> bool" where
  "is_dm_slug slug \<longleftrightarrow>
     prefix ''dm-'' (normalize_channel_slug slug)
     \<or> canonical_dm_pair (normalize_channel_slug slug) \<noteq> None"

definition dm_slug_for :: "string \<Rightarrow> string" where
  "dm_slug_for bt =
     (let s = normalize_actor_slug bt in if s = [] then [] else direct_slug ''human'' s)"

definition dm_target_bot :: "string \<Rightarrow> string" where
  "dm_target_bot slug =
     (let s = normalize_channel_slug slug in
        if prefix ''dm-human-'' s then trim_prefix s ''dm-human-''
        else if prefix ''dm-'' s then trim_prefix s ''dm-''
        else canonical_dm_target s)"

definition dm_participants :: "string \<Rightarrow> (string \<times> string) option" where
  "dm_participants slug =
     (let s = normalize_channel_slug slug in
        if prefix ''dm-'' s then
          let bt = normalize_actor_slug (dm_target_bot s) in
          if bt = [] then None else Some (''human'', bt)
        else canonical_dm_pair s)"

definition dm_other_participant :: "string \<Rightarrow> string \<Rightarrow> string" where
  "dm_other_participant slug viewer =
     (case dm_participants slug of
        None \<Rightarrow> []
      | Some (a, b) \<Rightarrow>
          let v = normalize_actor_slug viewer in
          if v = [] then []
          else if is_human_sender viewer then
            (if is_human_sender a then b else if is_human_sender b then a else [])
          else if v = normalize_actor_slug a then b
          else if v = normalize_actor_slug b then a
          else [])"

definition human_dm_bot :: "string \<Rightarrow> string" where
  "human_dm_bot slug =
     (case dm_participants slug of
        None \<Rightarrow> []
      | Some (a, b) \<Rightarrow>
          if is_human_sender a then normalize_actor_slug b
          else if is_human_sender b then normalize_actor_slug a else [])"

definition bot_to_bot_dm :: "string \<Rightarrow> (string \<times> string) option" where
  "bot_to_bot_dm slug =
     (case dm_participants slug of
        None \<Rightarrow> None
      | Some (a, b) \<Rightarrow> if is_human_sender a \<or> is_human_sender b then None else Some (a, b))"

section \<open>Lookups\<close>

definition find_channel :: "broker \<Rightarrow> string \<Rightarrow> team_channel option" where
  "find_channel b slug = find (\<lambda>c. tc_slug c = normalize_channel_slug slug) (rev (b_channels b))"

definition find_member :: "broker \<Rightarrow> string \<Rightarrow> member option" where
  "find_member b slug = find (\<lambda>m. m_slug m = normalize_channel_slug slug) (rev (b_members b))"

definition is_dm_channel :: "team_channel \<Rightarrow> bool" where
  "is_dm_channel ch \<longleftrightarrow> tc_type ch = ''dm'' \<or> is_dm_slug (tc_slug ch)"

text \<open>\<open>partner = last non-human member\<close>, when there are two members and one of them is human.\<close>

definition dm_partner :: "broker \<Rightarrow> string \<Rightarrow> string" where
  "dm_partner b slug =
     (case find_channel b (normalize_channel_slug slug) of
        None \<Rightarrow> []
      | Some ch \<Rightarrow>
          if \<not> is_dm_channel ch \<or> length (tc_members ch) \<noteq> 2 then []
          else (case filter (\<lambda>m. \<not> is_human_sender m) (tc_members ch) of
                  [p] \<Rightarrow> p
                | _ \<Rightarrow> []))"

section \<open>Access\<close>

definition channel_has_member :: "broker \<Rightarrow> string \<Rightarrow> string \<Rightarrow> bool" where
  "channel_has_member b channel slug \<longleftrightarrow>
     (case find_channel b channel of
        None \<Rightarrow> (case b_store b of Some st \<Rightarrow> is_member_by_slug channel slug st | None \<Rightarrow> False)
      | Some ch \<Rightarrow> slug \<in> set (tc_members ch))"

definition channel_member_enabled :: "broker \<Rightarrow> string \<Rightarrow> string \<Rightarrow> bool" where
  "channel_member_enabled b channel slug \<longleftrightarrow>
     channel_has_member b channel slug
     \<and> (case find_channel b channel of None \<Rightarrow> True | Some ch \<Rightarrow> slug \<notin> set (tc_disabled ch))"

definition enabled_members :: "broker \<Rightarrow> string \<Rightarrow> string list \<Rightarrow> string list" where
  "enabled_members b channel cands = filter (channel_member_enabled b channel) cands"

definition can_access :: "broker \<Rightarrow> string \<Rightarrow> string \<Rightarrow> bool" where
  "can_access b actor channel \<longleftrightarrow>
     (let s = normalize_actor_slug actor in
        if trim_space channel = [] then True
        else let ch = normalize_channel_slug channel in
          case b_one_on_one b of
            Some bt \<Rightarrow> is_human_sender s \<or> s = bt
          | None \<Rightarrow>
              if is_human_sender s \<or> s = ''nex'' \<or> s = ''system'' then True
              else (case dm_participants ch of
                      Some (x, y) \<Rightarrow> s = normalize_actor_slug x \<or> s = normalize_actor_slug y
                    | None \<Rightarrow> channel_has_member b ch s))"

section \<open>Owners and their channels\<close>

definition unique_slugs :: "string list \<Rightarrow> string list" where
  "unique_slugs items =
     dedup (map normalize_channel_slug (filter (\<lambda>i. trim_space i \<noteq> []) items))"

text \<open>A write through the pointer \<open>findChannelLocked\<close> returned: the last channel with the slug.\<close>

definition set_channel :: "string \<Rightarrow> (team_channel \<Rightarrow> team_channel) \<Rightarrow> broker \<Rightarrow> broker" where
  "set_channel slug f b =
     b\<lparr> b_channels := rev (map_first (\<lambda>c. tc_slug c = normalize_channel_slug slug) f
                             (rev (b_channels b))) \<rparr>"

definition admit :: "env \<Rightarrow> string \<Rightarrow> team_channel \<Rightarrow> team_channel" where
  "admit e owner ch =
     (let ch1 = (if owner \<in> set (tc_members ch) then ch
                 else ch\<lparr> tc_members := unique_slugs (tc_members ch @ [owner]),
                         tc_updated_at := now_stamp e \<rparr>)
      in ch1\<lparr> tc_disabled := filter (\<lambda>d. d \<noteq> owner) (tc_disabled ch1) \<rparr>)"

definition ensure_owner_membership :: "env \<Rightarrow> string \<Rightarrow> string \<Rightarrow> broker \<Rightarrow> broker" where
  "ensure_owner_membership e channel owner b =
     (if trim_space channel = [] \<or> trim_space owner = [] then b
      else let ch = normalize_channel_slug channel; o1 = normalize_actor_slug owner in
        if find_member b o1 = None then b
        else if find_channel b ch = None then b
        else if human_dm_bot ch \<noteq> [] \<and> human_dm_bot ch \<noteq> o1 then b
        else set_channel ch (admit e o1) b)"

definition new_dm :: "env \<Rightarrow> string \<Rightarrow> string \<Rightarrow> string list \<Rightarrow> team_channel" where
  "new_dm e slug descr ms =
     \<lparr> tc_slug = slug, tc_name = slug, tc_type = ''dm'', tc_description = descr, tc_members = ms,
       tc_disabled = [], tc_created_by = ''wuphf'', tc_created_at = now_stamp e,
       tc_updated_at = now_stamp e, tc_task_id = [] \<rparr>"

text \<open>Opening the direct message in the channel store as well; its error is dropped.\<close>

definition store_direct :: "env \<Rightarrow> string \<Rightarrow> string \<Rightarrow> string \<Rightarrow> broker \<Rightarrow> broker" where
  "store_direct e uuid x y b =
     (case b_store b of
        None \<Rightarrow> b
      | Some st \<Rightarrow>
          (case get_or_create_direct uuid (now_stamp e) x y st of
             Inl _ \<Rightarrow> b
           | Inr (_, st1) \<Rightarrow> b\<lparr> b_store := Some st1 \<rparr>))"

definition ensure_bot_pair_dm :: "env \<Rightarrow> string \<Rightarrow> string \<Rightarrow> broker \<Rightarrow> string option \<times> broker" where
  "ensure_bot_pair_dm e uuid slug b =
     (case bot_to_bot_dm slug of
        None \<Rightarrow> (None, b)
      | Some (x, y) \<Rightarrow>
          let a = normalize_actor_slug x; c = normalize_actor_slug y in
          if find_member b a = None \<or> find_member b c = None then (None, b)
          else let canon = normalize_channel_slug (direct_slug a c) in
            case find_channel b canon of
              Some ch \<Rightarrow> (Some (tc_slug ch), b)
            | None \<Rightarrow>
                let b1 = store_direct e uuid a c b in
                (Some canon, b1\<lparr> b_channels := b_channels b1 @
                   [new_dm e canon (''Direct messages between '' @ a @ '' and '' @ c) [a, c]] \<rparr>))"

definition re_home_out_of_human_dm ::
  "env \<Rightarrow> string \<Rightarrow> string \<Rightarrow> string \<Rightarrow> broker \<Rightarrow> string \<times> broker" where
  "re_home_out_of_human_dm e uuid slug owner b =
     (let bt = human_dm_bot slug; o1 = normalize_actor_slug owner in
        if bt = [] \<or> o1 = [] \<or> o1 = bt \<or> find_member b o1 = None then (slug, b)
        else (case ensure_bot_pair_dm e uuid (normalize_channel_slug (direct_slug bt o1)) b of
                (None, b1) \<Rightarrow> (slug, b1)
              | (Some s, b1) \<Rightarrow> (s, b1)))"

definition bot_pair_dm_for ::
  "env \<Rightarrow> string \<Rightarrow> string \<Rightarrow> string \<Rightarrow> broker \<Rightarrow> string \<times> broker" where
  "bot_pair_dm_for e uuid x y b =
     (let a = normalize_actor_slug x; c = normalize_actor_slug y in
        if a = [] \<or> c = [] \<or> a = c \<or> is_human_sender a \<or> is_human_sender c then ([], b)
        else if find_member b a = None \<or> find_member b c = None then ([], b)
        else (case ensure_bot_pair_dm e uuid (normalize_channel_slug (direct_slug a c)) b of
                (None, b1) \<Rightarrow> ([], b1)
              | (Some s, b1) \<Rightarrow> (s, b1)))"

definition ensure_dm_conversation :: "env \<Rightarrow> string \<Rightarrow> string \<Rightarrow> broker \<Rightarrow> string option \<times> broker" where
  "ensure_dm_conversation e uuid slug b =
     (case find_channel b slug of
        Some ch \<Rightarrow> (Some (tc_slug ch), b)
      | None \<Rightarrow>
          if \<not> is_dm_slug slug then (None, b)
          else let bt = dm_target_bot slug in
            if bt = [] then ensure_bot_pair_dm e uuid slug b
            else
              let opened = (case b_store b of
                              None \<Rightarrow> False
                            | Some st \<Rightarrow> \<not> Option.is_none
                                (case get_or_create_direct uuid (now_stamp e) ''human'' bt st of
                                   Inl _ \<Rightarrow> None | Inr r \<Rightarrow> Some r));
                  b1 = store_direct e uuid ''human'' bt b;
                  s1 = (if opened then dm_slug_for bt else slug)
              in (Some s1, b1\<lparr> b_channels := b_channels b1 @
                    [new_dm e s1 (''Direct messages with '' @ bt) [''human'', bt]] \<rparr>))"

section \<open>Lemmas\<close>

lemma set_channel_sel [simp]:
  "b_tasks (set_channel s f b) = b_tasks b" "b_index (set_channel s f b) = b_index b"
  "b_requests (set_channel s f b) = b_requests b" "b_members (set_channel s f b) = b_members b"
  "b_jobs (set_channel s f b) = b_jobs b"
  by (simp_all add: set_channel_def)

lemma ensure_owner_membership_sel [simp]:
  "b_tasks (ensure_owner_membership e c ow b) = b_tasks b"
  "b_index (ensure_owner_membership e c ow b) = b_index b"
  "b_requests (ensure_owner_membership e c ow b) = b_requests b"
  "b_members (ensure_owner_membership e c ow b) = b_members b"
  "b_jobs (ensure_owner_membership e c ow b) = b_jobs b"
  by (simp_all add: ensure_owner_membership_def Let_def)

end
