(* ===== verification/TaskDeps.thy ===== *)
theory TaskDeps
  imports Reviewers SchedulerJobs TeamChannels
begin

text \<open>
  Blocking, resuming and the unblock cascade: \<^verbatim>\<open>broker_tasks_lifecycle.go\<close> with the worktree
  synchronisation and the owner lanes of \<^verbatim>\<open>broker_tasks_worktrees.go\<close> and the retry markers of
  \<^verbatim>\<open>broker_studio.go\<close>.

  Git worktrees (probing, preparing, cleaning up) and the save to disk are functions of the
  environment that succeed or fail.  The auto-notebook events after a successful change are
  output only and left out; the cascade returns them as a list.
\<close>

section \<open>Retry markers\<close>

definition digit_char :: "char \<Rightarrow> bool" where
  "digit_char c \<longleftrightarrow> (let n = (of_char c :: nat) in 48 \<le> n \<and> n \<le> 57)"

fun matches_classes :: "(char \<Rightarrow> bool) list \<Rightarrow> string \<Rightarrow> bool" where
  "matches_classes [] s = True"
| "matches_classes (p # ps) [] = False"
| "matches_classes (p # ps) (c # cs) = (p c \<and> matches_classes ps cs)"

text \<open>\<^verbatim>\<open>(?i)retry after [0-9]{4}-[0-9]{2}-[0-9]{2}T[0-9:.+-]+\<close> at the head of a lower-cased text.\<close>

definition retry_classes :: "(char \<Rightarrow> bool) list" where
  "retry_classes =
     (let d = digit_char; h = (\<lambda>c. c = CHR ''-'') in
        [d, d, d, d, h, d, d, h, d, d, (\<lambda>c. c = CHR ''t''),
         (\<lambda>c. digit_char c \<or> c \<in> set '':.+-'')])"

definition retry_prefix :: string where
  "retry_prefix = ''retry after ''"

fun has_retry_marker :: "string \<Rightarrow> bool" where
  "has_retry_marker [] = False"
| "has_retry_marker (c # cs) =
     ((prefix retry_prefix (c # cs)
       \<and> matches_classes retry_classes (drop (length retry_prefix) (c # cs)))
      \<or> has_retry_marker cs)"

definition strip_retry_marker :: "string \<Rightarrow> string" where
  "strip_retry_marker details =
     (if details = [] then details
      else trim_space (join newline
             (filter (\<lambda>l. \<not> has_retry_marker (to_lower l)) (split_on (CHR 0x0A) details))))"

section \<open>Worktrees\<close>

definition coding_bot :: "string \<Rightarrow> bool" where
  "coding_bot s \<longleftrightarrow> s \<in> {''eng'', ''fe'', ''be'', ''ai'', ''qa'', ''tech-lead''}"

definition needs_local_worktree :: "task \<Rightarrow> bool" where
  "needs_local_worktree t \<longleftrightarrow>
     equal_fold (trim_space (t_execution_mode t)) ''local_worktree''
     \<and> trim_space (t_owner t) \<noteq> []
     \<and> (let s = trim_space (t_status t) in
          if s = [] \<or> s = ''open'' then False
          else if s = ''done'' then trim_space (t_worktree_path t) \<noteq> [] \<or> trim_space (t_worktree_branch t) \<noteq> []
          else True)"

definition write_issue_markers :: "string list" where
  "write_issue_markers =
     [''read-only'', ''read only'', ''writable workspace'', ''write access'', ''filesystem sandbox'',
      ''workspace sandbox'', ''operation not permitted'', ''permission denied'']"

definition looks_like_write_issue :: "string \<Rightarrow> bool" where
  "looks_like_write_issue reason \<longleftrightarrow>
     norm_field reason \<noteq> [] \<and> contains_any (norm_field reason) write_issue_markers"

definition reject_false_block :: "env \<Rightarrow> task \<Rightarrow> string \<Rightarrow> lc_error option" where
  "reject_false_block e t reason =
     (if equal_fold (trim_space (t_execution_mode t)) ''local_worktree''
         \<and> looks_like_write_issue reason
         \<and> trim_space (t_worktree_path t) \<noteq> []
         \<and> e_worktree_writable e (trim_space (t_worktree_path t))
      then Some (WritableWorktree (trim_space (t_worktree_path t))) else None)"

text \<open>\<open>b.tasks\<close> searched for the first usable worktree of the dependencies, in their order; the
  owner's own comes first, any other is the fallback.\<close>

definition reusable_dep :: "task \<Rightarrow> bool" where
  "reusable_dep d \<longleftrightarrow>
     equal_fold (trim_space (t_execution_mode d)) ''local_worktree''
     \<and> trim_space (t_worktree_path d) \<noteq> [] \<and> trim_space (t_worktree_branch d) \<noteq> []
     \<and> (norm_field (t_status d) \<in> {''review'', ''done''}
        \<or> norm_field (t_review_state d) \<in> {''ready_for_review'', ''approved''})"

definition dep_candidates :: "broker \<Rightarrow> task \<Rightarrow> task list" where
  "dep_candidates b t =
     concat (map (\<lambda>d. if trim_space d = [] then []
                      else filter (\<lambda>u. trim_space (t_id u) = trim_space d \<and> reusable_dep u) (b_tasks b))
                 (t_depends_on t))"

definition worktree_of :: "task \<Rightarrow> string \<times> string" where
  "worktree_of t = (trim_space (t_worktree_path t), trim_space (t_worktree_branch t))"

definition reusable_dependency_worktree :: "broker \<Rightarrow> task \<Rightarrow> (string \<times> string) option" where
  "reusable_dependency_worktree b t =
     (let owner = trim_space (t_owner t); cs = dep_candidates b t in
        case find (\<lambda>u. owner \<noteq> [] \<and> trim_space (t_owner u) = owner) cs of
          Some u \<Rightarrow> Some (worktree_of u)
        | None \<Rightarrow> (case cs of [] \<Rightarrow> None | u # _ \<Rightarrow> Some (worktree_of u)))"

definition default_coding_mode :: "task \<Rightarrow> task" where
  "default_coding_mode t =
     (if t_execution_mode t = [] \<and> coding_bot (trim_space (t_owner t))
         \<and> trim_space (t_status t) \<notin> {'''', ''open'', ''done''}
      then t\<lparr> t_execution_mode := ''local_worktree'' \<rparr> else t)"

definition set_worktree :: "string \<times> string \<Rightarrow> task \<Rightarrow> task" where
  "set_worktree pb t = t\<lparr> t_worktree_path := fst pb, t_worktree_branch := snd pb \<rparr>"

definition has_worktree :: "task \<Rightarrow> bool" where
  "has_worktree t \<longleftrightarrow> trim_space (t_worktree_path t) \<noteq> [] \<or> trim_space (t_worktree_branch t) \<noteq> []"

text \<open>The task after \<open>syncTaskWorktreeLocked\<close>, and whether it failed; a failing step leaves what was
  written before it.\<close>

definition sync_worktree :: "env \<Rightarrow> broker \<Rightarrow> task \<Rightarrow> task \<times> bool" where
  "sync_worktree e b t0 =
     (let t = default_coding_mode t0 in
        if needs_local_worktree t then
          if has_worktree t \<and> e_worktree_usable e (t_worktree_path t) then (t, True)
          else if has_worktree t \<and> \<not> e_cleanup_worktree e (t_worktree_path t) (t_worktree_branch t)
            then (t, False)
          else
            let t1 = (if has_worktree t then set_worktree ([], []) t else t) in
            case reusable_dependency_worktree b t1 of
              Some pb \<Rightarrow> (set_worktree pb t1, True)
            | None \<Rightarrow>
                (case e_prepare_worktree e (t_id t1) of
                   None \<Rightarrow> (t1, False)
                 | Some pb \<Rightarrow> (set_worktree pb t1, True))
        else if \<not> has_worktree t then (t, True)
        else if \<not> e_cleanup_worktree e (t_worktree_path t) (t_worktree_branch t) then (t, False)
        else (set_worktree ([], []) t, True))"

definition sync_task_worktree :: "env \<Rightarrow> string \<Rightarrow> broker \<Rightarrow> bool \<times> broker" where
  "sync_task_worktree e i b =
     (case task_by_id b i of
        None \<Rightarrow> (True, b)
      | Some t \<Rightarrow> (snd (sync_worktree e b t), set_task i (\<lambda>_. fst (sync_worktree e b t)) b))"

section \<open>Owner lanes\<close>

definition requires_exclusive_turn :: "task \<Rightarrow> bool" where
  "requires_exclusive_turn t = False"

definition consumes_exclusive_turn :: "string \<Rightarrow> bool" where
  "consumes_exclusive_turn s \<longleftrightarrow> norm_field s \<in> {''in_progress'', ''review''}"

definition active_exclusive_task :: "broker \<Rightarrow> string \<Rightarrow> string \<Rightarrow> task option" where
  "active_exclusive_task b owner exclude =
     (if trim_space owner = [] then None
      else find (\<lambda>t. \<not> (trim_space exclude \<noteq> [] \<and> trim_space (t_id t) = trim_space exclude)
                    \<and> equal_fold (trim_space (t_owner t)) (trim_space owner)
                    \<and> requires_exclusive_turn t \<and> consumes_exclusive_turn (t_status t))
             (b_tasks b))"

definition append_note :: "string \<Rightarrow> string \<Rightarrow> string" where
  "append_note details note =
     (let ex = trim_space details in
        if ex = [] then note
        else if \<not> str_contains ex note then ex @ newline @ newline @ note
        else details)"

definition queue_note :: "task \<Rightarrow> string \<Rightarrow> string" where
  "queue_note t active =
     ''Queued behind '' @ active @ '' so @'' @ trim_space (t_owner t)
       @ '' only carries one active '' @ trim_space (t_execution_mode t) @ '' lane at a time.''"

definition queue_behind_owner :: "env \<Rightarrow> string \<Rightarrow> broker \<Rightarrow> broker" where
  "queue_behind_owner e i b =
     (case task_by_id b i of
        None \<Rightarrow> b
      | Some t \<Rightarrow>
          if \<not> requires_exclusive_turn t \<or> \<not> consumes_exclusive_turn (t_status t) then b
          else (case active_exclusive_task b (t_owner t) (t_id t) of
                  None \<Rightarrow> b
                | Some a \<Rightarrow>
                    set_task i (\<lambda>t. t\<lparr> t_details := append_note (t_details t) (queue_note t (t_id a)) \<rparr>)
                      (mark_queued_behind_owner e i
                        (set_task i (\<lambda>t. if contains_fold (t_depends_on t) (t_id a) then t
                                        else t\<lparr> t_depends_on := t_depends_on t @ [t_id a] \<rparr>) b))))"

section \<open>Dependencies\<close>

definition dep_unresolved :: "broker \<Rightarrow> string \<Rightarrow> bool" where
  "dep_unresolved b d \<longleftrightarrow>
     \<not> request_is_resolved (b_requests b) d
     \<and> (case task_by_id b d of Some u \<Rightarrow> \<not> is_terminal_status (t_status u) | None \<Rightarrow> True)"

definition has_unresolved_deps :: "broker \<Rightarrow> task \<Rightarrow> bool" where
  "has_unresolved_deps b t \<longleftrightarrow> (\<exists>d\<in>set (t_depends_on t). dep_unresolved b d)"

section \<open>Blocking\<close>

definition touch :: "env \<Rightarrow> task \<Rightarrow> task" where
  "touch e t = t\<lparr> t_updated_at := now_stamp e \<rparr>"

definition block_edits :: "string \<Rightarrow> string \<Rightarrow> task \<Rightarrow> task" where
  "block_edits reason blocker t =
     (let t1 = (if reason \<noteq> [] then t\<lparr> t_details := append_note (t_details t) reason \<rparr> else t)
      in if blocker \<noteq> [] \<and> blocker \<noteq> t_id t1 \<and> blocker \<notin> set (t_blocked_on t1)
         then t1\<lparr> t_blocked_on := t_blocked_on t1 @ [blocker] \<rparr> else t1)"

definition or_system :: "string \<Rightarrow> string" where
  "or_system actor = (if trim_space actor = [] then ''system'' else trim_space actor)"

text \<open>The result, whether the task changed, and the state left in memory.\<close>

type_synonym op_result = "(lc_error + bool) \<times> broker"

definition save_result :: "env \<Rightarrow> broker \<Rightarrow> op_result" where
  "save_result e b =
     (if fst (save_locked e b) then (Inr True, snd (save_locked e b))
      else (Inl SaveFailed, snd (save_locked e b)))"

definition block_task :: "env \<Rightarrow> string \<Rightarrow> string \<Rightarrow> string \<Rightarrow> string \<Rightarrow> broker \<Rightarrow> op_result" where
  "block_task e tid actor0 reason0 blocker0 b =
     (let i = trim_space tid; actor = or_system actor0; reason = trim_space reason0;
          blocker = trim_space blocker0 in
        if i = [] then (Inl TaskIdRequired, b)
        else (case task_by_id b i of
                None \<Rightarrow> (Inl (TaskNotFound i), b)
              | Some t \<Rightarrow>
                  if is_terminal_status (t_status t) then (Inr False, b)
                  else (case reject_false_block e t reason of
                    Some x \<Rightarrow> (Inl x, b)
                  | None \<Rightarrow>
                    let b1 = set_task i (block_edits reason blocker) b in
                    case transition e i LsBlocked b1 of
                      Inl x \<Rightarrow> (Inl x, b1)
                    | Inr b2 \<Rightarrow>
                        let b3 = set_task i (touch e) b2 in
                        case task_by_id b3 i of
                          None \<Rightarrow> (Inl (TaskNotFound i), b3)
                        | Some t3 \<Rightarrow>
                            (case reject_theater t3 of
                               Some x \<Rightarrow> (Inl x, b3)
                             | None \<Rightarrow>
                                 let b4 = schedule_task_lifecycle e i b3;
                                     (ok, b5) = sync_task_worktree e i b4
                                 in if \<not> ok then (Inl WorktreeFailed, b5)
                                    else let b6 = append_action e ''task_updated'' ''office''
                                               (normalize_channel_slug (t_channel t3)) actor
                                               (truncate_summary (t_title t3 @ '' ['' @ t_status t3 @ '']'') 140)
                                               i b5
                                      in save_result e b6))))"

section \<open>Resuming\<close>

definition paused :: "task \<Rightarrow> bool" where
  "paused t \<longleftrightarrow> t_blocked t \<or> equal_fold (trim_space (t_status t)) ''blocked''"

definition resume_state :: "task \<Rightarrow> lifecycle" where
  "resume_state t = (if trim_space (t_owner t) \<noteq> [] then LsRunning else LsReady)"

definition append_resume_reason :: "string \<Rightarrow> task \<Rightarrow> task" where
  "append_resume_reason reason t =
     (if reason \<noteq> [] \<and> \<not> str_contains (t_details t) reason
      then t\<lparr> t_details := (let d = trim_space (t_details t) in
                              if d = [] then reason else d @ newline @ newline @ reason) \<rparr>
      else t)"

text \<open>The steps after the task has changed: lane, times, worktree, log, save.\<close>

definition finish_resume :: "env \<Rightarrow> string \<Rightarrow> string \<Rightarrow> string \<Rightarrow> broker \<Rightarrow> op_result" where
  "finish_resume e i actor reason b =
     (case task_by_id b i of
        None \<Rightarrow> (Inl (TaskNotFound i), b)
      | Some t \<Rightarrow>
          let b1 = set_task i (append_resume_reason reason) b;
              b2 = ensure_owner_membership e (t_channel t) (t_owner t) b1;
              b3 = queue_behind_owner e i b2;
              b4 = schedule_task_lifecycle e i (set_task i (touch e) b3);
              (ok, b5) = sync_task_worktree e i b4
          in if \<not> ok then (Inl WorktreeFailed, b5)
             else let b6 = append_action e ''task_unblocked'' ''office''
                        (normalize_channel_slug (t_channel t)) actor
                        (truncate_summary (t_title t @ '' resumed'') 140) i b5
               in save_result e b6)"

definition resume_task :: "env \<Rightarrow> string \<Rightarrow> string \<Rightarrow> string \<Rightarrow> broker \<Rightarrow> op_result" where
  "resume_task e tid actor0 reason0 b =
     (let i = trim_space tid; actor = or_system actor0; reason = trim_space reason0 in
        if i = [] then (Inl TaskIdRequired, b)
        else (case task_by_id b i of
                None \<Rightarrow> (Inl (TaskNotFound i), b)
              | Some t \<Rightarrow>
                  let cleaned = strip_retry_marker (t_details t);
                      b1 = set_task i (\<lambda>t. t\<lparr> t_details := cleaned \<rparr>) b
                  in if paused t \<and> \<not> has_unresolved_deps b1 t then
                       (case transition e i (resume_state t) b1 of
                          Inl x \<Rightarrow> (Inl x, b1)
                        | Inr b2 \<Rightarrow> finish_resume e i actor reason b2)
                     else if cleaned \<noteq> t_details t then finish_resume e i actor reason b1
                     else (Inr False, b1)))"

section \<open>Details\<close>

definition append_detail :: "string \<Rightarrow> task \<Rightarrow> task" where
  "append_detail detail t =
     (if str_contains (t_details t) detail then t
      else t\<lparr> t_details := (let d = trim_space (t_details t) in
                              if d = [] then detail else d @ newline @ newline @ detail) \<rparr>)"

definition append_task_detail :: "env \<Rightarrow> string \<Rightarrow> string \<Rightarrow> string \<Rightarrow> broker \<Rightarrow> op_result" where
  "append_task_detail e tid actor0 detail0 b =
     (let i = trim_space tid; detail = trim_space detail0; actor = or_system actor0 in
        if i = [] then (Inl TaskIdRequired, b)
        else if detail = [] then (Inl DetailRequired, b)
        else (case task_by_id b i of
                None \<Rightarrow> (Inl (TaskNotFound i), b)
              | Some t \<Rightarrow>
                  let b1 = set_task i (\<lambda>t. touch e (append_detail detail t)) b;
                      b2 = append_action e ''task_updated'' ''office''
                             (normalize_channel_slug (t_channel t)) actor
                             (truncate_summary (t_title t @ '' [updated]'') 140) i b1
                  in save_result e b2))"

section \<open>The unblock cascade\<close>

definition waits_on :: "string \<Rightarrow> task \<Rightarrow> bool" where
  "waits_on done_id t \<longleftrightarrow>
     (t_blocked t \<or> t_lifecycle t = LsBlocked)
     \<and> (done_id \<in> set (t_depends_on t) \<or> done_id \<in> set (t_blocked_on t))"

definition drop_blocker :: "string \<Rightarrow> task \<Rightarrow> task" where
  "drop_blocker done_id t = t\<lparr> t_blocked_on := filter (\<lambda>d. d \<noteq> done_id) (t_blocked_on t) \<rparr>"

definition unblock_state :: "task \<Rightarrow> lifecycle" where
  "unblock_state t = (if t_lifecycle t = LsBlocked then LsReview else resume_state t)"

text \<open>One task of the loop: the broker after it, and the notebook events so far.\<close>

definition unblock_one ::
  "env \<Rightarrow> string \<Rightarrow> (string \<times> string) list \<times> broker \<Rightarrow> string \<Rightarrow> (string \<times> string) list \<times> broker" where
  "unblock_one e done_id acc i =
     (let b = snd acc in
        case task_by_id b i of
          None \<Rightarrow> acc
        | Some t \<Rightarrow>
            if \<not> waits_on done_id t then acc
            else
              let b1 = set_task i (drop_blocker done_id) b; t1 = drop_blocker done_id t in
              if has_unresolved_deps b1 t1 \<or> t_blocked_on t1 \<noteq> [] then (fst acc, b1)
              else
                let b2 = set_task i (\<lambda>t. t\<lparr> t_details := strip_retry_marker (t_details t) \<rparr>) b1 in
                case transition e i (unblock_state t1) b2 of
                  Inl _ \<Rightarrow> (fst acc, set_task i (\<lambda>u. u\<lparr> t_blocked_on := t_blocked_on t \<rparr>) b2)
                | Inr b3 \<Rightarrow>
                    let b4 = queue_behind_owner e i b3;
                        b5 = schedule_task_lifecycle e i (set_task i (touch e) b4);
                        b6 = snd (sync_task_worktree e i b5);
                        b7 = append_action e ''task_unblocked'' ''office''
                               (normalize_channel_slug (t_channel t)) ''system''
                               (truncate_summary (t_title t @ '' unblocked by '' @ done_id) 140) i b6
                    in (fst acc @ [(i, t_status t)], b7))"

definition unblock_dependents ::
  "env \<Rightarrow> string \<Rightarrow> broker \<Rightarrow> (string \<times> string) list \<times> broker" where
  "unblock_dependents e done_id b =
     (case task_by_id b done_id of
        Some t \<Rightarrow>
          if \<not> is_terminal_status (t_status t) then ([], b)
          else foldl (unblock_one e done_id) ([], b) (task_ids b)
      | None \<Rightarrow> foldl (unblock_one e done_id) ([], b) (task_ids b))"

text \<open>\<open>OnDecisionRecorded\<close>: a failed save puts the snapshot back (the decision packets and their
  copies on disk are not part of it).\<close>

definition restore_snapshot :: "broker \<Rightarrow> broker \<Rightarrow> broker" where
  "restore_snapshot old b =
     b\<lparr> b_tasks := b_tasks old, b_channels := b_channels old, b_messages := b_messages old,
        b_actions := b_actions old, b_watchdogs := b_watchdogs old, b_jobs := b_jobs old,
        b_index := b_index old, b_counter := b_counter old \<rparr>"

definition on_decision_recorded :: "env \<Rightarrow> string \<Rightarrow> broker \<Rightarrow> broker" where
  "on_decision_recorded e done_id b =
     (let b1 = snd (unblock_dependents e (trim_space done_id) b)
      in if fst (save_locked e b1) then snd (save_locked e b1)
         else restore_snapshot b (snd (save_locked e b1)))"

end
