(* ===== verification/TaskDepsProps.thy ===== *)
theory TaskDepsProps
  imports TaskDeps Samples
begin

text \<open>
  The properties of blocking, resuming, the unblock cascade and retention: which dependents a
  finished task releases, that none is released early, what every operation keeps of the
  life-cycle index, and what pruning does to tasks that still wait.
\<close>

section \<open>Steps that leave the life cycle alone\<close>

lemma queue_behind_owner_id [simp]: "queue_behind_owner e i b = b"
  by (simp add: queue_behind_owner_def requires_exclusive_turn_def split: option.splits)

lemma default_coding_mode_keeps [simp]:
  "t_id (default_coding_mode t) = t_id t" "t_lifecycle (default_coding_mode t) = t_lifecycle t"
  "t_status (default_coding_mode t) = t_status t" "t_blocked (default_coding_mode t) = t_blocked t"
  "t_depends_on (default_coding_mode t) = t_depends_on t"
  "t_blocked_on (default_coding_mode t) = t_blocked_on t"
  by (simp_all add: default_coding_mode_def)

lemma set_worktree_keeps [simp]:
  "t_id (set_worktree pb t) = t_id t" "t_lifecycle (set_worktree pb t) = t_lifecycle t"
  "t_status (set_worktree pb t) = t_status t" "t_blocked (set_worktree pb t) = t_blocked t"
  "t_depends_on (set_worktree pb t) = t_depends_on t"
  "t_blocked_on (set_worktree pb t) = t_blocked_on t"
  by (simp_all add: set_worktree_def)

lemma sync_worktree_keeps [simp]:
  "t_id (fst (sync_worktree e b t)) = t_id t"
  "t_lifecycle (fst (sync_worktree e b t)) = t_lifecycle t"
  "t_status (fst (sync_worktree e b t)) = t_status t"
  "t_blocked (fst (sync_worktree e b t)) = t_blocked t"
  "t_depends_on (fst (sync_worktree e b t)) = t_depends_on t"
  "t_blocked_on (fst (sync_worktree e b t)) = t_blocked_on t"
  by (simp_all add: sync_worktree_def Let_def split: option.splits)

text \<open>\<open>core_eq\<close>: the fields of a task the cascade decides on.\<close>

definition core_eq :: "task \<Rightarrow> task \<Rightarrow> bool" where
  "core_eq t u \<longleftrightarrow>
     t_id u = t_id t \<and> t_lifecycle u = t_lifecycle t \<and> t_status u = t_status t
     \<and> t_blocked u = t_blocked t \<and> t_depends_on u = t_depends_on t \<and> t_blocked_on u = t_blocked_on t"

definition core_step :: "string \<Rightarrow> broker \<Rightarrow> broker \<Rightarrow> bool" where
  "core_step i b b' \<longleftrightarrow>
     task_ids b' = task_ids b \<and> b_requests b' = b_requests b
     \<and> (\<forall>t. task_by_id b i = Some t \<longrightarrow> (\<exists>u. task_by_id b' i = Some u \<and> core_eq t u))
     \<and> (\<forall>j. j \<noteq> i \<longrightarrow> task_by_id b' j = task_by_id b j)
     \<and> (index_live b \<longrightarrow> index_live b')"

lemma core_eq_refl [simp]: "core_eq t t"
  by (simp add: core_eq_def)

lemma core_eq_trans: "core_eq t u \<Longrightarrow> core_eq u v \<Longrightarrow> core_eq t v"
  by (simp add: core_eq_def)

lemma core_step_trans:
  assumes "core_step i b c" "core_step i c d"
  shows "core_step i b d"
proof -
  have "\<exists>v. task_by_id d i = Some v \<and> core_eq t v" if t: "task_by_id b i = Some t" for t
  proof -
    obtain u where u: "task_by_id c i = Some u" "core_eq t u"
      using assms(1) t by (auto simp: core_step_def)
    obtain v where "task_by_id d i = Some v" "core_eq u v"
      using assms(2) u(1) by (auto simp: core_step_def)
    then show ?thesis using core_eq_trans [OF u(2)] by blast
  qed
  then show ?thesis using assms by (simp add: core_step_def)
qed

lemma core_step_same:
  assumes "b_tasks b' = b_tasks b" "b_index b' = b_index b" "b_requests b' = b_requests b"
  shows "core_step i b b'"
proof -
  have "task_by_id b' j = task_by_id b j" for j by (simp add: task_by_id_def assms(1))
  moreover have "task_ids b' = task_ids b" by (simp add: task_ids_def assms(1))
  moreover have "index_live b' = index_live b" by (rule index_live_cong) (simp_all add: assms)
  ultimately show ?thesis using assms(3) by (simp add: core_step_def)
qed

lemma core_step_set_task:
  assumes "\<And>t. t_id (f t) = t_id t" "\<And>t. t_lifecycle (f t) = t_lifecycle t"
    and "\<And>t. task_by_id b i = Some t \<Longrightarrow> core_eq t (f t)"
  shows "core_step i b (set_task i f b)"
  unfolding core_step_def
  using set_task_same [of b i _ f] set_task_other [of f i _ b] assms
  by (auto intro: index_live_set_task)

lemma set_task_const:
  assumes "task_by_id b i = Some t" "t_id u = t_id t"
  shows "set_task i (\<lambda>_. u) b = set_task i (\<lambda>x. if x = t then u else x) b"
proof -
  have "map_first (\<lambda>t. t_id t = i) (\<lambda>_. u) ts = map_first (\<lambda>t. t_id t = i) (\<lambda>x. if x = t then u else x) ts"
    if "find (\<lambda>t. t_id t = i) ts = Some t" for ts
    using that by (induction ts) (auto split: if_splits)
  then show ?thesis using assms(1) by (simp add: set_task_def task_by_id_def)
qed

lemma schedule_core: "core_step i b (schedule_task_lifecycle e i b)"
proof (cases "task_by_id b i")
  case (Some t)
  have "core_step i b (set_task i (scheduled_task e) b)"
    by (rule core_step_set_task) (simp_all add: core_eq_def)
  moreover have "core_step i (set_task i (scheduled_task e) b)
      (schedule_task_jobs e t (set_task i (scheduled_task e) b))"
    by (rule core_step_same) simp_all
  ultimately show ?thesis using Some by (simp add: schedule_task_lifecycle_def core_step_trans)
qed (simp add: schedule_task_lifecycle_def core_step_same)

lemma sync_core: "core_step i b (snd (sync_task_worktree e i b))"
proof (cases "task_by_id b i")
  case (Some t)
  let ?u = "fst (sync_worktree e b t)"
  have "set_task i (\<lambda>_. ?u) b = set_task i (\<lambda>x. if x = t then ?u else x) b"
    by (rule set_task_const [OF Some]) simp
  moreover have "core_step i b (set_task i (\<lambda>x. if x = t then ?u else x) b)"
    by (rule core_step_set_task) (simp_all add: core_eq_def)
  ultimately show ?thesis using Some by (simp add: sync_task_worktree_def)
qed (simp add: sync_task_worktree_def core_step_same)

lemma touch_core: "core_step i b (set_task i (touch e) b)"
  by (rule core_step_set_task) (simp_all add: touch_def core_eq_def)

lemma details_core: "core_step i b (set_task i (\<lambda>t. t\<lparr> t_details := f t \<rparr>) b)"
  by (rule core_step_set_task) (simp_all add: core_eq_def)

lemma action_core: "core_step i b (append_action e k s c ac su r b)"
  by (rule core_step_same) simp_all

section \<open>One task of the cascade\<close>

lemma nonterminal_rows:
  "\<not> is_terminal_status ''in_progress''" "\<not> is_terminal_status ''open''"
  by code_simp+

definition clean_id :: "string \<Rightarrow> bool" where
  "clean_id i \<longleftrightarrow> trim_space i = i"

text \<open>\<open>progress\<close>: the same tasks and requests, and no task became terminal.\<close>

definition progress :: "broker \<Rightarrow> broker \<Rightarrow> bool" where
  "progress b b' \<longleftrightarrow>
     b_requests b' = b_requests b
     \<and> (\<forall>i. case task_by_id b i of
              None \<Rightarrow> task_by_id b' i = None
            | Some t \<Rightarrow> (\<exists>u. task_by_id b' i = Some u
                 \<and> (t_status u = t_status t \<or> \<not> is_terminal_status (t_status u))))"

lemma progress_refl [simp]: "progress b b"
  by (auto simp: progress_def split: option.splits)

lemma progress_trans:
  assumes "progress a b" "progress b c"
  shows "progress a c"
  unfolding progress_def
proof (intro conjI allI)
  show "b_requests c = b_requests a" using assms by (simp add: progress_def)
  fix i
  have ab: "case task_by_id a i of
      None \<Rightarrow> task_by_id b i = None
    | Some t \<Rightarrow> (\<exists>u. task_by_id b i = Some u
         \<and> (t_status u = t_status t \<or> \<not> is_terminal_status (t_status u)))"
    using assms(1) by (simp add: progress_def)
  have bc: "case task_by_id b i of
      None \<Rightarrow> task_by_id c i = None
    | Some t \<Rightarrow> (\<exists>u. task_by_id c i = Some u
         \<and> (t_status u = t_status t \<or> \<not> is_terminal_status (t_status u)))"
    using assms(2) by (simp add: progress_def)
  show "case task_by_id a i of
      None \<Rightarrow> task_by_id c i = None
    | Some t \<Rightarrow> (\<exists>u. task_by_id c i = Some u
         \<and> (t_status u = t_status t \<or> \<not> is_terminal_status (t_status u)))"
  proof (cases "task_by_id a i")
    case None
    then show ?thesis using ab bc by simp
  next
    case (Some t)
    then obtain u where u: "task_by_id b i = Some u"
      "t_status u = t_status t \<or> \<not> is_terminal_status (t_status u)" using ab by auto
    then obtain v where "task_by_id c i = Some v"
      "t_status v = t_status u \<or> \<not> is_terminal_status (t_status v)" using bc by auto
    then show ?thesis using Some u by auto
  qed
qed

lemma progress_unresolved:
  assumes "progress b b'" "dep_unresolved b d"
  shows "dep_unresolved b' d"
  using assms(1) [unfolded progress_def] assms(2)
  by (cases "task_by_id b d") (auto simp: dep_unresolved_def dest!: spec [of _ d])

lemma progress_has_unresolved:
  "progress b b' \<Longrightarrow> has_unresolved_deps b t \<Longrightarrow> has_unresolved_deps b' t"
  by (auto simp: has_unresolved_deps_def dest: progress_unresolved)

lemma progress_one:
  assumes "b_requests b' = b_requests b" "\<And>j. j \<noteq> i \<Longrightarrow> task_by_id b' j = task_by_id b j"
    and "task_by_id b i = Some t" "task_by_id b' i = Some u"
    and "t_status u = t_status t \<or> \<not> is_terminal_status (t_status u)"
  shows "progress b b'"
  unfolding progress_def
proof (intro conjI allI)
  fix j
  show "case task_by_id b j of
      None \<Rightarrow> task_by_id b' j = None
    | Some t \<Rightarrow> (\<exists>u. task_by_id b' j = Some u
         \<and> (t_status u = t_status t \<or> \<not> is_terminal_status (t_status u)))"
    using assms by (cases "j = i") (auto split: option.splits)
qed (fact assms(1))

definition released :: "task \<Rightarrow> task \<Rightarrow> bool" where
  "released t u \<longleftrightarrow>
     t_lifecycle u = unblock_state t \<and> \<not> t_blocked u \<and> t_blocked_on u = []
     \<and> t_depends_on u = t_depends_on t"

text \<open>What the cascade makes of a task that read \<open>t\<close> before it: the dependencies are judged in a
  state before its turn for a release and in a state after it for staying held.\<close>

definition outcome :: "broker \<Rightarrow> broker \<Rightarrow> string \<Rightarrow> task \<Rightarrow> task \<Rightarrow> bool" where
  "outcome b b' d t u \<longleftrightarrow>
     (if \<not> waits_on d t then u = t
      else let others = filter (\<lambda>x. x \<noteq> d) (t_blocked_on t) in
        (u = drop_blocker d t \<and> (has_unresolved_deps b' t \<or> others \<noteq> []))
        \<or> (released t u \<and> \<not> has_unresolved_deps b t \<and> others = []))"

lemma outcome_mono:
  "progress b0 b \<Longrightarrow> progress b' b1 \<Longrightarrow> outcome b b' d t u \<Longrightarrow> outcome b0 b1 d t u"
  by (auto simp: outcome_def Let_def dest: progress_has_unresolved split: if_splits)

lemma unblock_state_canonical: "unblock_state t \<in> set canonical_states"
  by (simp add: unblock_state_def resume_state_def canonical_states_def)

lemma unblock_row:
  "derived_fields_for (unblock_state t) = Some row \<Longrightarrow>
     \<not> dr_blocked row \<and> \<not> is_terminal_status (dr_status row)"
  using nonterminal_rows
  by (auto simp: unblock_state_def resume_state_def mk_row_def split: if_splits)

lemma has_unresolved_set_task:
  assumes "\<And>t. t_id (f t) = t_id t" "\<And>t. t_status (f t) = t_status t"
  shows "has_unresolved_deps (set_task i f b) t = has_unresolved_deps b t"
proof -
  have "dep_unresolved (set_task i f b) d = dep_unresolved b d" for d
  proof -
    have "map_option t_status (find (\<lambda>t. t_id t = d) (map_first (\<lambda>t. t_id t = i) f ts)) =
          map_option t_status (find (\<lambda>t. t_id t = d) ts)" for ts
      using assms by (induction ts) auto
    then have "map_option t_status (task_by_id (set_task i f b) d) = map_option t_status (task_by_id b d)"
      by (simp add: task_by_id_def set_task_def)
    then show ?thesis
      by (cases "task_by_id b d"; cases "task_by_id (set_task i f b) d") (auto simp: dep_unresolved_def)
  qed
  then show ?thesis by (simp add: has_unresolved_deps_def)
qed

definition step_ok :: "string \<Rightarrow> string \<Rightarrow> broker \<Rightarrow> broker \<Rightarrow> bool" where
  "step_ok d i b b' \<longleftrightarrow>
     task_ids b' = task_ids b \<and> progress b b' \<and> (index_live b \<longrightarrow> index_live b')
     \<and> (\<forall>j. j \<noteq> i \<longrightarrow> task_by_id b' j = task_by_id b j)
     \<and> (\<forall>t. task_by_id b i = Some t \<longrightarrow> (\<exists>u. task_by_id b' i = Some u \<and> outcome b b' d t u))"

lemma unblock_one_held:
  assumes t: "task_by_id b i = Some t" and w: "waits_on d t"
    and h: "has_unresolved_deps b t \<or> filter (\<lambda>x. x \<noteq> d) (t_blocked_on t) \<noteq> []"
  shows "step_ok d i b (set_task i (drop_blocker d) b)"
proof -
  let ?b1 = "set_task i (drop_blocker d) b"
  have u: "task_by_id ?b1 i = Some (drop_blocker d t)"
    by (rule set_task_same [OF t]) (simp add: drop_blocker_def)
  have o1: "task_by_id ?b1 j = task_by_id b j" if "j \<noteq> i" for j
    using that by (intro set_task_other) (simp_all add: drop_blocker_def)
  have hu: "has_unresolved_deps ?b1 t = has_unresolved_deps b t"
    by (rule has_unresolved_set_task) (simp_all add: drop_blocker_def)
  have "progress b ?b1"
    by (rule progress_one [OF _ o1 t u]) (simp_all add: drop_blocker_def)
  moreover have "task_ids ?b1 = task_ids b" by (simp add: drop_blocker_def)
  moreover have "index_live b \<longrightarrow> index_live ?b1"
    by (auto intro: index_live_set_task simp: drop_blocker_def)
  ultimately show ?thesis
    using t u o1 w h hu unfolding step_ok_def outcome_def Let_def by auto
qed

lemma unblock_one_ok:
  assumes clean: "clean_id i"
  shows "step_ok d i b (snd (unblock_one e d (ps, b) i))"
proof (cases "task_by_id b i")
  case None
  then show ?thesis by (simp add: unblock_one_def step_ok_def)
next
  case t: (Some t)
  show ?thesis
  proof (cases "waits_on d t")
    case False
    then show ?thesis using t by (simp add: unblock_one_def step_ok_def outcome_def)
  next
    case w: True
    let ?b1 = "set_task i (drop_blocker d) b" and ?t1 = "drop_blocker d t"
    have hu: "has_unresolved_deps ?b1 ?t1 = has_unresolved_deps b t"
    proof -
      have "has_unresolved_deps ?b1 ?t1 = has_unresolved_deps b ?t1"
        by (rule has_unresolved_set_task) (simp_all add: drop_blocker_def)
      then show ?thesis by (simp add: has_unresolved_deps_def drop_blocker_def)
    qed
    have bo: "t_blocked_on ?t1 = filter (\<lambda>x. x \<noteq> d) (t_blocked_on t)" by (simp add: drop_blocker_def)
    show ?thesis
    proof (cases "has_unresolved_deps b t \<or> filter (\<lambda>x. x \<noteq> d) (t_blocked_on t) \<noteq> []")
      case True
      then have "snd (unblock_one e d (ps, b) i) = ?b1"
        using t w hu bo by (auto simp: unblock_one_def Let_def)
      then show ?thesis using unblock_one_held [OF t w True] by simp
    next
      case free: False
      have t1: "task_by_id ?b1 i = Some ?t1"
        by (rule set_task_same [OF t]) (simp add: drop_blocker_def)
      let ?b2 = "set_task i (\<lambda>t. t\<lparr> t_details := strip_retry_marker (t_details t) \<rparr>) ?b1"
      have t2: "task_by_id ?b2 i = Some (?t1\<lparr> t_details := strip_retry_marker (t_details ?t1) \<rparr>)"
        by (rule set_task_same [OF t1]) simp
      have us: "unblock_state ?t1 = unblock_state t"
        by (simp add: unblock_state_def resume_state_def drop_blocker_def)
      obtain b3 where b3: "transition e i (unblock_state t) ?b2 = Inr b3"
        using transition_succeeds [OF t2 unblock_state_canonical] by blast
      obtain row u3 where row: "derived_fields_for (unblock_state t) = Some row"
        and u3: "task_by_id b3 i = Some u3"
          "same_but_reviewers (stamp_row (unblock_state t) row
             (?t1\<lparr> t_details := strip_retry_marker (t_details ?t1) \<rparr>)) u3"
        using transition_task [OF b3] t2 by auto
      define b6 where "b6 = snd (sync_task_worktree e i
        (schedule_task_lifecycle e i (set_task i (touch e) b3)))"
      define b7 where "b7 = append_action e ''task_unblocked'' ''office''
        (normalize_channel_slug (t_channel t)) ''system''
        (truncate_summary (t_title t @ '' unblocked by '' @ d) 140) i b6"
      have res: "snd (unblock_one e d (ps, b) i) = b7"
        using t w hu bo free b3 us
        by (auto simp: unblock_one_def Let_def b6_def b7_def)
      have "core_step i b3 b6"
        unfolding b6_def
        by (rule core_step_trans [OF core_step_trans [OF touch_core schedule_core] sync_core])
      then have cs: "core_step i b3 b7"
        unfolding b7_def by (rule core_step_trans [OF _ action_core])
      obtain u where u: "task_by_id b7 i = Some u" "core_eq u3 u"
        using cs u3(1) by (auto simp: core_step_def)
      have uf: "t_lifecycle u = unblock_state t" "\<not> t_blocked u" "t_blocked_on u = []"
        "t_depends_on u = t_depends_on t" "\<not> is_terminal_status (t_status u)"
        using u(2) same_but_reviewers_sel [OF u3(2)] unblock_row [OF row] free
        by (auto simp: core_eq_def drop_blocker_def)
      have o1: "task_by_id b7 j = task_by_id b j" if "j \<noteq> i" for j
      proof -
        have "task_by_id ?b1 j = task_by_id b j"
          using that by (intro set_task_other) (simp_all add: drop_blocker_def)
        moreover have "task_by_id ?b2 j = task_by_id ?b1 j"
          using that by (intro set_task_other) simp_all
        moreover have "task_by_id b3 j = task_by_id ?b2 j"
          by (rule transition_frame [OF b3]) (use clean that in \<open>simp_all add: clean_id_def\<close>)
        ultimately show ?thesis using cs that by (simp add: core_step_def)
      qed
      have ids: "task_ids b7 = task_ids b"
        using cs transition_ids [OF b3] by (simp add: core_step_def drop_blocker_def)
      have rq: "b_requests b7 = b_requests b"
        using cs transition_requests [OF b3] by (simp add: core_step_def)
      have live: "index_live b \<longrightarrow> index_live b7"
      proof
        assume "index_live b"
        then have "index_live ?b1" by (rule index_live_set_task) (simp_all add: drop_blocker_def)
        then have "index_live ?b2" by (rule index_live_set_task) simp_all
        then show "index_live b7" using transition_live [OF _ b3] cs by (simp add: core_step_def)
      qed
      have "progress b b7"
        by (rule progress_one [OF rq o1 t u(1)]) (use uf in simp_all)
      then show ?thesis
        unfolding res step_ok_def outcome_def released_def Let_def
        using ids live o1 t u(1) uf free w by auto
    qed
  qed
qed


section \<open>The whole cascade\<close>

abbreviation cascade :: "env \<Rightarrow> string \<Rightarrow> (string \<times> string) list \<times> broker \<Rightarrow> string list \<Rightarrow> broker" where
  "cascade e d acc is \<equiv> snd (foldl (unblock_one e d) acc is)"

lemma cascade_ok:
  assumes "distinct is" "\<forall>i\<in>set is. clean_id i"
  shows "task_ids (cascade e d (ps, b) is) = task_ids b \<and> progress b (cascade e d (ps, b) is)
    \<and> (index_live b \<longrightarrow> index_live (cascade e d (ps, b) is))
    \<and> (\<forall>j. j \<notin> set is \<longrightarrow> task_by_id (cascade e d (ps, b) is) j = task_by_id b j)
    \<and> (\<forall>j\<in>set is. \<forall>t. task_by_id b j = Some t \<longrightarrow>
         (\<exists>u. task_by_id (cascade e d (ps, b) is) j = Some u
            \<and> outcome b (cascade e d (ps, b) is) d t u))"
  using assms
proof (induction "is" arbitrary: ps b)
  case Nil
  then show ?case by simp
next
  case (Cons i "is")
  obtain ps1 b1 where p1: "unblock_one e d (ps, b) i = (ps1, b1)" by fastforce
  let ?b' = "cascade e d (ps1, b1) is"
  have one: "step_ok d i b b1" using unblock_one_ok [of i d b e ps] Cons.prems p1 by simp
  then have pr: "progress b b1" and ids: "task_ids b1 = task_ids b"
    and live: "index_live b \<longrightarrow> index_live b1"
    and oth: "\<And>j. j \<noteq> i \<Longrightarrow> task_by_id b1 j = task_by_id b j"
    and own: "\<And>t. task_by_id b i = Some t \<Longrightarrow> \<exists>u. task_by_id b1 i = Some u \<and> outcome b b1 d t u"
    by (auto simp: step_ok_def)
  have d: "distinct is" "\<forall>i\<in>set is. clean_id i" "i \<notin> set is" using Cons.prems by simp_all
  note ih = Cons.IH [OF d(1,2), of ps1 b1]
  have pr': "progress b1 ?b'" using ih by blast
  have "\<exists>u. task_by_id ?b' j = Some u \<and> outcome b ?b' d t u"
    if j: "j \<in> set (i # is)" and t: "task_by_id b j = Some t" for j t
  proof (cases "j = i")
    case True
    then obtain u where u: "task_by_id b1 i = Some u" "outcome b b1 d t u" using own t by auto
    have "task_by_id ?b' i = Some u" using ih d(3) u(1) by auto
    then show ?thesis using outcome_mono [OF progress_refl pr' u(2)] True by auto
  next
    case False
    then have "j \<in> set is" "task_by_id b1 j = Some t" using j oth t by auto
    then obtain u where u: "task_by_id ?b' j = Some u" "outcome b1 ?b' d t u" using ih by blast
    then show ?thesis using outcome_mono [OF pr progress_refl u(2)] by auto
  qed
  then show ?case using ih ids live oth progress_trans [OF pr pr'] by (auto simp: p1)
qed

text \<open>No terminal task waits, so the dependencies read the same before and after.\<close>

lemma cascade_unresolved:
  assumes "distinct (task_ids b)" "\<forall>i\<in>set (task_ids b). clean_id i"
    and quiet: "\<forall>u\<in>set (b_tasks b). is_terminal_status (t_status u) \<longrightarrow> \<not> waits_on d u"
  shows "dep_unresolved (cascade e d (ps, b) (task_ids b)) x = dep_unresolved b x"
proof -
  let ?b' = "cascade e d (ps, b) (task_ids b)"
  note ok = cascade_ok [OF assms(1,2), of e d ps b]
  have rq: "b_requests ?b' = b_requests b" using ok by (simp add: progress_def)
  show ?thesis
  proof (cases "task_by_id b x")
    case None
    then have "task_by_id ?b' x = None" using ok by (simp add: task_by_id_None)
    then show ?thesis using None rq by (simp add: dep_unresolved_def)
  next
    case (Some t)
    then have x: "x \<in> set (task_ids b)" "t \<in> set (b_tasks b)"
      using task_by_id_Some by (auto simp: task_ids_def)
    then obtain u where u: "task_by_id ?b' x = Some u" "outcome b ?b' d t u" using ok Some by blast
    have keep: "t_status u = t_status t" if "is_terminal_status (t_status t)"
      using quiet x(2) that u(2) by (simp add: outcome_def)
    have "t_status u = t_status t \<or> \<not> is_terminal_status (t_status u)"
    proof -
      have "case task_by_id b x of
          None \<Rightarrow> task_by_id ?b' x = None
        | Some t \<Rightarrow> (\<exists>u. task_by_id ?b' x = Some u
             \<and> (t_status u = t_status t \<or> \<not> is_terminal_status (t_status u)))"
        using ok by (auto simp: progress_def)
      then show ?thesis using Some u(1) by simp
    qed
    then show ?thesis using Some u(1) keep rq by (auto simp: dep_unresolved_def)
  qed
qed

definition done_reached :: "broker \<Rightarrow> string \<Rightarrow> bool" where
  "done_reached b d \<longleftrightarrow> (\<forall>t. task_by_id b d = Some t \<longrightarrow> is_terminal_status (t_status t))"

lemma unblock_dependents_state:
  "snd (unblock_dependents e d b) =
     (if done_reached b d then cascade e d ([], b) (task_ids b) else b)"
  by (auto simp: unblock_dependents_def done_reached_def split: option.splits)

definition well_kept :: "string \<Rightarrow> broker \<Rightarrow> bool" where
  "well_kept d b \<longleftrightarrow>
     distinct (task_ids b) \<and> (\<forall>i\<in>set (task_ids b). clean_id i) \<and> done_reached b d
     \<and> (\<forall>u\<in>set (b_tasks b). is_terminal_status (t_status u) \<longrightarrow> \<not> waits_on d u)"

text \<open>C6. The unblock cascade is exact.  When a task or request \<open>d\<close> is done, a task that does not
  wait on it is untouched; a waiting task loses \<open>d\<close> from its blockers and nothing else while one
  of its dependencies is unresolved or another blocker remains; and it is released (state for
  resuming, not blocked, no blockers left) exactly when its dependencies are all resolved and \<open>d\<close>
  was its last blocker.  Whether a dependency counts as resolved does not depend on the order in
  which the loop visits the tasks.\<close>

theorem cascade_exact:
  assumes "well_kept d b" "task_by_id b i = Some t"
  shows "\<exists>u. task_by_id (snd (unblock_dependents e d b)) i = Some u \<and>
    (if \<not> waits_on d t then u = t
     else if has_unresolved_deps b t \<or> filter (\<lambda>x. x \<noteq> d) (t_blocked_on t) \<noteq> []
       then u = drop_blocker d t
     else released t u)"
proof -
  let ?b' = "cascade e d ([], b) (task_ids b)"
  have a: "distinct (task_ids b)" "\<forall>i\<in>set (task_ids b). clean_id i" "done_reached b d"
    "\<forall>u\<in>set (b_tasks b). is_terminal_status (t_status u) \<longrightarrow> \<not> waits_on d u"
    using assms(1) by (auto simp: well_kept_def)
  have "i \<in> set (task_ids b)" using task_by_id_Some [OF assms(2)] by (auto simp: task_ids_def)
  then obtain u where u: "task_by_id ?b' i = Some u" "outcome b ?b' d t u"
    using cascade_ok [OF a(1,2), of e d "[]" b] assms(2) by blast
  have "has_unresolved_deps ?b' t = has_unresolved_deps b t"
    using cascade_unresolved [OF a(1,2,4)] by (simp add: has_unresolved_deps_def)
  then have "if \<not> waits_on d t then u = t
     else if has_unresolved_deps b t \<or> filter (\<lambda>x. x \<noteq> d) (t_blocked_on t) \<noteq> []
       then u = drop_blocker d t
     else released t u"
    using u(2) unfolding outcome_def Let_def by (auto split: if_splits)
  then show ?thesis using u(1) a(3) by (simp add: unblock_dependents_state)
qed

definition sample_waiting :: task where
  "sample_waiting =
     (sample_task ''b'' LsBlocked)\<lparr> t_blocked := True, t_status := ''blocked'', t_depends_on := [''a''] \<rparr>"

definition sample_chain :: broker where
  "sample_chain =
     (sample_broker [(sample_task ''a'' LsApproved)\<lparr> t_status := ''done'' \<rparr>, sample_waiting])
       \<lparr> b_index := [LsApproved \<mapsto> [''a''], LsBlocked \<mapsto> [''b'']] \<rparr>"

lemma sample_chain_kept: "well_kept ''a'' sample_chain"
  unfolding well_kept_def done_reached_def
  by (intro conjI allI impI) (code_simp, code_simp, simp add: sample_chain_def task_by_id_def
      sample_broker_def sample_task_def, code_simp, code_simp)

theorem cascade_exact_witness:
  "\<exists>u. task_by_id (snd (unblock_dependents sample_env ''a'' sample_chain)) ''b'' = Some u
     \<and> released sample_waiting u"
proof -
  have t: "task_by_id sample_chain ''b'' = Some sample_waiting"
    by (simp add: sample_chain_def task_by_id_def sample_broker_def sample_task_def sample_waiting_def)
  have c: "waits_on ''a'' sample_waiting" "\<not> has_unresolved_deps sample_chain sample_waiting"
    "filter (\<lambda>x. x \<noteq> ''a'') (t_blocked_on sample_waiting) = []"
    by code_simp+
  show ?thesis using cascade_exact [OF sample_chain_kept t, of sample_env] c by simp
qed

text \<open>The unblock cascade and the save after it keep the task set and the life-cycle index: no
  task is created or lost by the cascade, every task is listed under exactly the state it is in, and
  a failed save puts the old tasks and the old index back.\<close>

theorem decision_keeps_index:
  assumes "index_live b" "\<forall>i\<in>set (task_ids b). clean_id i"
  shows "index_live (on_decision_recorded e d b)
    \<and> task_ids (snd (unblock_dependents e (trim_space d) b)) = task_ids b"
proof -
  let ?b1 = "snd (unblock_dependents e (trim_space d) b)"
  have "distinct (task_ids b)" using assms(1) by (simp add: index_live_def)
  note ok = cascade_ok [OF this assms(2), of e "trim_space d" "[]" b]
  have b1: "index_live ?b1" "task_ids ?b1 = task_ids b"
    using ok assms(1) by (auto simp: unblock_dependents_state)
  have "index_live (restore_snapshot b (snd (save_locked e ?b1)))"
    using index_live_cong [of "restore_snapshot b (snd (save_locked e ?b1))" b] assms(1)
    by (simp add: restore_snapshot_def)
  then show ?thesis
    using b1 save_locked_live by (simp add: on_decision_recorded_def Let_def)
qed

theorem decision_keeps_index_witness:
  "index_live (on_decision_recorded sample_env ''a'' sample_chain)"
proof -
  have "index_live sample_chain"
    by (auto simp: index_live_def sample_chain_def sample_broker_def task_ids_def sample_waiting_def
        sample_task_def life_of_def task_by_id_def bucket_def split: if_splits)
  moreover have "\<forall>i\<in>set (task_ids sample_chain). clean_id i" by code_simp
  ultimately show ?thesis using decision_keeps_index [of sample_chain sample_env "''a''"] by blast
qed

end
