(* ===== verification/BlockingProps.thy ===== *)
theory BlockingProps
  imports TaskDepsProps
begin

text \<open>
  Blocking and resuming a task by hand, and retention: what the task reads afterwards on every
  branch, what is left in memory when a late step fails, and what pruning an approved task does to
  the index and to the tasks that depend on it.
\<close>

section \<open>Saving\<close>

lemma find_filter_keep: "find p xs = Some x \<Longrightarrow> q x \<Longrightarrow> find p (filter q xs) = Some x"
  by (induction xs) (auto split: if_splits)

lemma save_keeps_task:
  assumes "task_by_id b i = Some t" "\<not> prunable e t"
  shows "task_by_id (snd (save_locked e b)) i = Some t"
  using find_filter_keep [of "\<lambda>t. t_id t = i" "b_tasks b" t "\<lambda>t. \<not> prunable e t"] assms
  by (simp add: task_by_id_def)

lemma not_approved_kept: "t_lifecycle t \<noteq> LsApproved \<Longrightarrow> \<not> prunable e t"
  by (simp add: prunable_def)

lemma save_result_state: "snd (save_result e b) = snd (save_locked e b)"
  by (simp add: save_result_def)

section \<open>The steps shared by blocking and resuming\<close>

lemma index_live_core: "core_step i b b' \<Longrightarrow> index_live b \<Longrightarrow> index_live b'"
  by (simp add: core_step_def)

lemma save_result_live: "index_live b \<Longrightarrow> index_live (snd (save_result e b))"
  by (simp add: save_result_state save_locked_live)

definition closing :: "env \<Rightarrow> string \<Rightarrow> broker \<Rightarrow> broker" where
  "closing e i b =
     snd (sync_task_worktree e i (schedule_task_lifecycle e i (set_task i (touch e) b)))"

lemma closing_core: "core_step i b (closing e i b)"
  unfolding closing_def
  by (rule core_step_trans [OF core_step_trans [OF touch_core schedule_core] sync_core])

lemma append_action_core: "core_step i b c \<Longrightarrow> core_step i b (append_action e k s ch ac su r c)"
  by (rule core_step_trans [OF _ action_core])

lemma membership_core: "core_step i b (ensure_owner_membership e c ow b)"
  by (rule core_step_same) simp_all

text \<open>A state that was left by a late failure, or saved: the task reads like \<open>t\<close>.\<close>

definition left_as :: "string \<Rightarrow> task \<Rightarrow> broker \<Rightarrow> bool" where
  "left_as i t b \<longleftrightarrow> (\<exists>u. task_by_id b i = Some u \<and> core_eq t u)"

lemma core_step_left: "core_step i b b' \<Longrightarrow> task_by_id b i = Some t \<Longrightarrow> left_as i t b'"
  by (auto simp: core_step_def left_as_def)

lemma left_saved: "left_as i t b \<Longrightarrow> t_lifecycle t \<noteq> LsApproved \<Longrightarrow> left_as i t (snd (save_result e b))"
  unfolding left_as_def save_result_state
  using save_keeps_task not_approved_kept by (auto simp: core_eq_def)

section \<open>Blocking\<close>

lemma block_edits_keeps [simp]:
  "t_id (block_edits r bl t) = t_id t" "t_lifecycle (block_edits r bl t) = t_lifecycle t"
  "t_depends_on (block_edits r bl t) = t_depends_on t"
  by (simp_all add: block_edits_def Let_def)

lemma block_edits_blocked_on:
  "set (t_blocked_on (block_edits r bl t)) =
     set (t_blocked_on t) \<union> (if bl \<noteq> [] \<and> bl \<noteq> t_id t then {bl} else {})"
  by (auto simp: block_edits_def Let_def)

text \<open>The shape of every run: nothing happened, or the task was blocked and closing steps follow.\<close>

lemma block_task_cases:
  obtains (quiet) "snd (block_task e tid ac r bl b) = b"
      "fst (block_task e tid ac r bl b) \<notin> {Inr True, Inl WorktreeFailed, Inl SaveFailed}"
  | (moved) b2 t where "task_by_id b (trim_space tid) = Some t"
      "transition e (trim_space tid) LsBlocked
         (set_task (trim_space tid) (block_edits (trim_space r) (trim_space bl)) b) = Inr b2"
      "snd (block_task e tid ac r bl b) = set_task (trim_space tid) (touch e) b2
       \<or> (\<exists>b6. core_step (trim_space tid) b2 b6
            \<and> (snd (block_task e tid ac r bl b) = b6
               \<or> snd (block_task e tid ac r bl b) = snd (save_result e b6)))"
proof (cases "task_by_id b (trim_space tid)")
  case None
  then show ?thesis using quiet by (auto simp: block_task_def Let_def)
next
  case (Some t)
  let ?i = "trim_space tid"
  let ?b1 = "set_task ?i (block_edits (trim_space r) (trim_space bl)) b"
  show ?thesis
  proof (cases "?i = [] \<or> is_terminal_status (t_status t) \<or> reject_false_block e t (trim_space r) \<noteq> None")
    case True
    then show ?thesis using quiet Some
      by (auto simp: block_task_def Let_def reject_false_block_def split: if_splits)
  next
    case False
    have "task_by_id ?b1 ?i = Some (block_edits (trim_space r) (trim_space bl) t)"
      by (rule set_task_same [OF Some]) simp
    then obtain b2 where b2: "transition e ?i LsBlocked ?b1 = Inr b2"
      using transition_succeeds [of ?b1 ?i _ LsBlocked e] by (auto simp: canonical_states_def)
    then obtain u where u: "task_by_id b2 ?i = Some u" using transition_task [OF b2] by auto
    have u3: "task_by_id (set_task ?i (touch e) b2) ?i = Some (touch e u)"
      by (rule set_task_same [OF u]) (simp add: touch_def)
    let ?b3 = "set_task ?i (touch e) b2"
    obtain ok b5 where sp: "sync_task_worktree e ?i (schedule_task_lifecycle e ?i ?b3) = (ok, b5)"
      by fastforce
    let ?act = "append_action e ''task_updated'' ''office'' (normalize_channel_slug (t_channel (touch e u)))
      (or_system ac) (truncate_summary (t_title (touch e u) @ '' ['' @ t_status (touch e u) @ '']'') 140) ?i b5"
    have cl: "core_step ?i b2 b5"
      using closing_core [of ?i b2 e] sp by (simp add: closing_def)
    have "block_task e tid ac r bl b =
        (case reject_theater (touch e u) of
           Some x \<Rightarrow> (Inl x, ?b3)
         | None \<Rightarrow> if \<not> ok then (Inl WorktreeFailed, b5) else save_result e ?act)"
      using False Some b2 u3 sp by (simp add: block_task_def Let_def split: option.split)
    then have "snd (block_task e tid ac r bl b) = ?b3 \<or> snd (block_task e tid ac r bl b) = b5
        \<or> snd (block_task e tid ac r bl b) = snd (save_result e ?act)"
      by (simp split: option.splits)
    then show ?thesis using moved [OF Some b2] cl append_action_core [OF cl] by blast
  qed
qed

text \<open>Whatever \<open>BlockTask\<close> reports after its early checks, the task it names is blocked in
  memory: in the blocked state with the status, review state and flag of that state and with the
  new blocker listed.  That holds for a success and also when the worktree or the save failed, so
  the error return does not undo the change.\<close>

theorem block_task_blocks:
  assumes "fst (block_task e tid ac r bl b) \<in> {Inr True, Inl WorktreeFailed, Inl SaveFailed}"
  shows "\<exists>u. task_by_id (snd (block_task e tid ac r bl b)) (trim_space tid) = Some u
    \<and> t_lifecycle u = LsBlocked \<and> t_blocked u \<and> t_status u = ''blocked''
    \<and> (trim_space bl \<noteq> [] \<and> trim_space bl \<noteq> trim_space tid
         \<longrightarrow> trim_space bl \<in> set (t_blocked_on u))"
  using block_task_cases [of e tid ac r bl b]
proof cases
  case quiet
  then show ?thesis using assms by simp
next
  case (moved b2 t)
  let ?i = "trim_space tid"
  let ?t1 = "block_edits (trim_space r) (trim_space bl) t"
  have "task_by_id (set_task ?i (block_edits (trim_space r) (trim_space bl)) b) ?i = Some ?t1"
    by (rule set_task_same [OF moved(1)]) simp
  then obtain row v where v: "derived_fields_for LsBlocked = Some row"
    "task_by_id b2 ?i = Some v" "same_but_reviewers (stamp_row LsBlocked row ?t1) v"
    using transition_task [OF moved(2)] by auto
  have "t_id t = ?i" using task_by_id_Some [OF moved(1)] by simp
  then have p: "t_lifecycle v = LsBlocked \<and> t_blocked v \<and> t_status v = ''blocked''
    \<and> (trim_space bl \<noteq> [] \<and> trim_space bl \<noteq> ?i \<longrightarrow> trim_space bl \<in> set (t_blocked_on v))"
    using same_but_reviewers_sel [OF v(3)] v(1) block_edits_blocked_on [of _ "trim_space bl" t]
    by (auto simp: mk_row_def)
  have "left_as ?i v (snd (block_task e tid ac r bl b))"
    using moved(3) core_step_left [OF _ v(2)] left_saved touch_core p by auto
  then show ?thesis using p by (auto simp: left_as_def core_eq_def)
qed


theorem block_task_blocks_witness:
  "\<exists>u. task_by_id (snd (block_task (sample_env\<lparr> e_save := \<lambda>_. False \<rparr>) ''a'' ''ceo'' ''no data'' ''b''
       (sample_broker [sample_task ''a'' LsRunning]))) ''a'' = Some u \<and> t_blocked u"
proof -
  let ?r = "block_task (sample_env\<lparr> e_save := \<lambda>_. False \<rparr>) ''a'' ''ceo'' ''no data'' ''b''
    (sample_broker [sample_task ''a'' LsRunning])"
  have "fst ?r = Inl SaveFailed" by code_simp
  moreover have "trim_space ''a'' = ''a''" by code_simp
  ultimately show ?thesis
    using block_task_blocks [of "sample_env\<lparr> e_save := \<lambda>_. False \<rparr>" "''a''" "''ceo''" "''no data''" "''b''"
        "sample_broker [sample_task ''a'' LsRunning]"] by auto
qed

lemma block_task_live: "index_live b \<Longrightarrow> index_live (snd (block_task e tid ac r bl b))"
  using block_task_cases [of e tid ac r bl b]
proof cases
  case (moved b2 t)
  assume "index_live b"
  then have "index_live (set_task (trim_space tid) (block_edits (trim_space r) (trim_space bl)) b)"
    by (rule index_live_set_task) simp_all
  then have l2: "index_live b2" using transition_live [OF _ moved(2)] by simp
  then have "index_live (set_task (trim_space tid) (touch e) b2)"
    using index_live_core [OF touch_core] by blast
  then show ?thesis using moved(3) l2 index_live_core save_result_live by auto
qed simp

section \<open>Resuming\<close>

lemma resume_reason_keeps [simp]:
  "t_id (append_resume_reason r t) = t_id t"
  "t_lifecycle (append_resume_reason r t) = t_lifecycle t"
  "core_eq t (append_resume_reason r t)"
  by (simp_all add: append_resume_reason_def core_eq_def)

lemma finish_resume_cases:
  assumes "task_by_id b i = Some t"
  shows "\<exists>b5. core_step i b b5
    \<and> (snd (finish_resume e i ac r b) = b5 \<or> snd (finish_resume e i ac r b) = snd (save_result e b5))"
proof -
  let ?b2 = "ensure_owner_membership e (t_channel t) (t_owner t) (set_task i (append_resume_reason r) b)"
  have "core_step i b (set_task i (append_resume_reason r) b)"
    by (rule core_step_set_task) simp_all
  then have "core_step i b ?b2" using core_step_trans membership_core by blast
  then have c: "core_step i b (closing e i ?b2)" using core_step_trans closing_core by blast
  obtain ok b5 where sp:
    "sync_task_worktree e i (schedule_task_lifecycle e i (set_task i (touch e) ?b2)) = (ok, b5)"
    by fastforce
  then have b5: "b5 = closing e i ?b2" by (simp add: closing_def)
  have "finish_resume e i ac r b =
     (if \<not> ok then (Inl WorktreeFailed, b5)
      else save_result e (append_action e ''task_unblocked'' ''office''
             (normalize_channel_slug (t_channel t)) ac (truncate_summary (t_title t @ '' resumed'') 140) i b5))"
    using assms sp by (simp add: finish_resume_def Let_def)
  then show ?thesis using c b5 append_action_core [OF c] by (metis snd_conv)
qed

lemma finish_resume_live:
  "task_by_id b i = Some t \<Longrightarrow> index_live b \<Longrightarrow> index_live (snd (finish_resume e i ac r b))"
  using finish_resume_cases [of b i t e ac r] index_live_core save_result_live by metis

lemma finish_resume_left:
  "task_by_id b i = Some t \<Longrightarrow> t_lifecycle t \<noteq> LsApproved \<Longrightarrow>
     left_as i t (snd (finish_resume e i ac r b))"
  using finish_resume_cases [of b i t e ac r] core_step_left left_saved by metis

abbreviation cleaned_task :: "task \<Rightarrow> task" where
  "cleaned_task t \<equiv> t\<lparr> t_details := strip_retry_marker (t_details t) \<rparr>"

lemma set_cleaned:
  assumes "task_by_id b i = Some t"
  shows "core_step i b (set_task i (\<lambda>u. u\<lparr> t_details := strip_retry_marker (t_details t) \<rparr>) b)
    \<and> task_by_id (set_task i (\<lambda>u. u\<lparr> t_details := strip_retry_marker (t_details t) \<rparr>) b) i
        = Some (cleaned_task t)
    \<and> has_unresolved_deps (set_task i (\<lambda>u. u\<lparr> t_details := strip_retry_marker (t_details t) \<rparr>) b) t
        = has_unresolved_deps b t"
  using details_core set_task_same [OF assms] has_unresolved_set_task by simp

lemma resume_transition:
  assumes "task_by_id b i = Some t"
  shows "\<exists>b2 u. transition e i (resume_state s) b = Inr b2 \<and> task_by_id b2 i = Some u
    \<and> t_lifecycle u = resume_state s \<and> \<not> t_blocked u \<and> t_depends_on u = t_depends_on t"
proof -
  have "resume_state s \<in> set canonical_states"
    by (simp add: resume_state_def canonical_states_def)
  then obtain b2 where b2: "transition e i (resume_state s) b = Inr b2"
    using transition_succeeds [OF assms] by blast
  obtain row u where u: "derived_fields_for (resume_state s) = Some row"
    "task_by_id b2 i = Some u" "same_but_reviewers (stamp_row (resume_state s) row t) u"
    using transition_task [OF b2] assms by auto
  have "\<not> dr_blocked row" using u(1) by (auto simp: resume_state_def mk_row_def split: if_splits)
  then show ?thesis using b2 u(2) same_but_reviewers_sel [OF u(3)] by auto
qed

lemma resume_task_live: "index_live b \<Longrightarrow> index_live (snd (resume_task e tid ac r b))"
proof (cases "task_by_id b (trim_space tid)")
  case (Some t)
  assume l: "index_live b"
  let ?i = "trim_space tid"
  let ?b1 = "set_task ?i (\<lambda>u. u\<lparr> t_details := strip_retry_marker (t_details t) \<rparr>) b"
  note c = set_cleaned [OF Some]
  have l1: "index_live ?b1" using c index_live_core l by blast
  have t1: "task_by_id ?b1 ?i = Some (cleaned_task t)" using c by blast
  obtain b2 u where b2: "transition e ?i (resume_state t) ?b1 = Inr b2" "task_by_id b2 ?i = Some u"
    using resume_transition [OF t1] by blast
  have l2: "index_live b2" using transition_live [OF l1 b2(1)] .
  show ?thesis
    using l l1 b2(1) Some finish_resume_live [OF b2(2) l2] finish_resume_live [OF t1 l1]
    by (auto simp: resume_task_def Let_def)
qed (simp add: resume_task_def Let_def)

lemma append_task_detail_live: "index_live b \<Longrightarrow> index_live (snd (append_task_detail e tid ac d b))"
proof -
  assume l: "index_live b"
  let ?i = "trim_space tid"
  let ?b1 = "set_task ?i (\<lambda>t. touch e (append_detail (trim_space d) t)) b"
  have "index_live ?b1"
    by (rule index_live_set_task [OF l]) (simp_all add: touch_def append_detail_def)
  then have "index_live (snd (save_result e (append_action e k s c a su j ?b1)))" for k s c a su j
    by (intro save_result_live index_live_core [OF action_core])
  then show ?thesis using l by (simp add: append_task_detail_def Let_def split: option.split)
qed

text \<open>Blocking, resuming and annotating a task keep the life-cycle index on every branch, the
  error returns included: each task is listed under its own state and under no other.\<close>

theorem task_operations_keep_index:
  assumes "index_live b"
  shows "index_live (snd (block_task e tid ac r bl b)) \<and> index_live (snd (resume_task e tid ac r b))
    \<and> index_live (snd (append_task_detail e tid ac r b))"
  using assms block_task_live resume_task_live append_task_detail_live by blast

theorem task_operations_keep_index_witness:
  "index_live (snd (block_task sample_env ''b'' [] [] [] (migrate_lifecycle_states sample_chain)))"
proof -
  have "distinct (task_ids sample_chain)" by code_simp
  then have "index_live (migrate_lifecycle_states sample_chain)"
    by (intro index_inv_live migrate_lifecycle_states_inv)
  from task_operations_keep_index [OF this, of sample_env "''b''" "[]" "[]" "[]"]
  show ?thesis by blast
qed


text \<open>C32. Resuming honours dependencies.  A paused task whose dependencies are all resolved comes
  back in the state its owner decides (running with an owner, ready without one) and is not blocked
  any more; a task that is not paused, or whose dependencies are open, keeps its state, its status
  and its blockers, whatever its details say and whether or not the later steps succeed.\<close>

theorem resume_exact:
  assumes "task_by_id b (trim_space tid) = Some t" "trim_space tid \<noteq> []"
    and "t_lifecycle t \<noteq> LsApproved"
  shows "\<exists>u. task_by_id (snd (resume_task e tid ac r b)) (trim_space tid) = Some u \<and>
    (if paused t \<and> \<not> has_unresolved_deps b t
     then t_lifecycle u = resume_state t \<and> \<not> t_blocked u
     else core_eq t u)"
proof -
  let ?i = "trim_space tid"
  let ?b1 = "set_task ?i (\<lambda>u. u\<lparr> t_details := strip_retry_marker (t_details t) \<rparr>) b"
  note c = set_cleaned [OF assms(1)]
  have t1: "task_by_id ?b1 ?i = Some (cleaned_task t)" using c by blast
  have hu: "has_unresolved_deps ?b1 t = has_unresolved_deps b t" using c by blast
  show ?thesis
  proof (cases "paused t \<and> \<not> has_unresolved_deps b t")
    case True
    obtain b2 v where v: "transition e ?i (resume_state t) ?b1 = Inr b2" "task_by_id b2 ?i = Some v"
      "t_lifecycle v = resume_state t" "\<not> t_blocked v"
      using resume_transition [OF t1] by blast
    have "t_lifecycle v \<noteq> LsApproved" using v(3) by (simp add: resume_state_def)
    then have "left_as ?i v (snd (finish_resume e ?i (or_system ac) (trim_space r) b2))"
      by (rule finish_resume_left [OF v(2)])
    then have "left_as ?i v (snd (resume_task e tid ac r b))"
      using True hu assms(1,2) v(1) by (simp add: resume_task_def Let_def)
    then show ?thesis using True v by (auto simp: left_as_def core_eq_def)
  next
    case False
    have l: "left_as ?i (cleaned_task t) (snd (finish_resume e ?i (or_system ac) (trim_space r) ?b1))"
      by (rule finish_resume_left [OF t1]) (use assms(3) in simp)
    have "left_as ?i (cleaned_task t) ?b1" using t1 by (simp add: left_as_def)
    then have "left_as ?i (cleaned_task t) (snd (resume_task e tid ac r b))"
      using False hu assms(1,2) l by (auto simp: resume_task_def Let_def)
    then show ?thesis using False by (auto simp: left_as_def core_eq_def)
  qed
qed

theorem resume_exact_witness:
  "\<exists>u. task_by_id (snd (resume_task sample_env '' b '' [] [] sample_chain)) ''b'' = Some u
     \<and> t_lifecycle u = LsReady \<and> \<not> t_blocked u"
proof -
  have t: "trim_space '' b '' = ''b''" "trim_space '' b '' \<noteq> []" by code_simp+
  have s: "task_by_id sample_chain (trim_space '' b '') = Some sample_waiting"
    by (simp add: t sample_chain_def task_by_id_def sample_broker_def sample_task_def sample_waiting_def)
  have c: "t_lifecycle sample_waiting \<noteq> LsApproved" "paused sample_waiting"
    "\<not> has_unresolved_deps sample_chain sample_waiting" "resume_state sample_waiting = LsReady"
    by code_simp+
  show ?thesis using resume_exact [OF s t(2) c(1), of sample_env "[]" "[]"] c t by simp
qed

section \<open>Retention\<close>

lemma find_filter_gone: "distinct (map f xs) \<Longrightarrow> find (\<lambda>x. f x = i) xs = Some x \<Longrightarrow> \<not> q x \<Longrightarrow>
    find (\<lambda>x. f x = i) (filter q xs) = None"
proof (induction xs)
  case (Cons y ys)
  have "z \<in> set ys \<Longrightarrow> f z \<noteq> f y" for z using Cons.prems(1) by (metis distinct.simps(2) image_eqI list.set_map list.simps(9))
  then show ?case using Cons by (auto split: if_splits simp: find_None_iff)
qed simp

text \<open>Saving can strand the tasks that wait on an old approved task.  When the retention window
  of an approved, terminal task has passed, the save drops the task; the life-cycle index goes on
  listing its id, and the id, which counted as a resolved dependency before the save, counts as an
  unresolved one after it, so a task that depends on it is held back from then on.\<close>

theorem retention_strands_dependents:
  assumes "index_inv b" "task_by_id b i = Some t" "prunable e t" "is_terminal_status (t_status t)"
    and "\<not> request_is_resolved (b_requests b) i"
  shows "\<not> dep_unresolved b i \<and> dep_unresolved (snd (save_locked e b)) i
    \<and> task_by_id (snd (save_locked e b)) i = None
    \<and> i \<in> set (bucket (b_index (snd (save_locked e b))) LsApproved)"
proof -
  have d: "distinct (map t_id (b_tasks b))" using assms(1) by (simp add: index_inv_def task_ids_def)
  have gone: "task_by_id (snd (save_locked e b)) i = None"
    using find_filter_gone [OF d, of i t "\<lambda>t. \<not> prunable e t"] assms(2,3)
    by (simp add: task_by_id_def)
  have "life_of b i = Some LsApproved" using assms(2,3) by (simp add: life_of_def prunable_def)
  moreover have "i \<in> set (task_ids b)"
    using task_by_id_Some [OF assms(2)] by (auto simp: task_ids_def)
  ultimately have "i \<in> set (bucket (b_index b) LsApproved)"
    using index_inv_live [OF assms(1)] by (simp add: index_live_def)
  then show ?thesis using gone assms by (simp add: dep_unresolved_def)
qed

definition later_env :: env where
  "later_env = sample_env\<lparr> e_now := 8 * 24 * 60 * 60 * nanos_per_second \<rparr>"

theorem retention_strands_dependents_witness:
  "\<not> dep_unresolved (migrate_lifecycle_states sample_chain) ''a''
   \<and> dep_unresolved (snd (save_locked later_env (migrate_lifecycle_states sample_chain))) ''a''"
proof -
  have "distinct (task_ids sample_chain)" by code_simp
  then have inv: "index_inv (migrate_lifecycle_states sample_chain)" by (rule migrate_lifecycle_states_inv)
  obtain t where t: "task_by_id (migrate_lifecycle_states sample_chain) ''a'' = Some t"
    "prunable later_env t" "is_terminal_status (t_status t)"
  proof
    show "task_by_id (migrate_lifecycle_states sample_chain) ''a''
        = Some ((sample_task ''a'' LsApproved)\<lparr> t_status := ''done'' \<rparr>)" by code_simp
    show "prunable later_env ((sample_task ''a'' LsApproved)\<lparr> t_status := ''done'' \<rparr>)" by code_simp
    show "is_terminal_status (t_status ((sample_task ''a'' LsApproved)\<lparr> t_status := ''done'' \<rparr>))"
      by code_simp
  qed
  have "\<not> request_is_resolved (b_requests (migrate_lifecycle_states sample_chain)) ''a''" by code_simp
  from retention_strands_dependents [OF inv t this] show ?thesis by blast
qed

end
