(* ===== verification/TeamChannelProps.thy ===== *)
theory TeamChannelProps
  imports TeamChannels Samples
begin

text \<open>
  Who may read a direct message: the slug built for two bots is parsed back to exactly these two,
  so nobody else but the humans and the system senders passes the access check; and the reserved
  prefix for which this fails.
\<close>

section \<open>Plain slugs\<close>

text \<open>Lower-case letters, digits and dashes: what slugs are made of.\<close>

definition plain_char :: "char \<Rightarrow> bool" where
  "plain_char c \<longleftrightarrow>
     (let n = (of_char c :: nat) in (97 \<le> n \<and> n \<le> 122) \<or> (48 \<le> n \<and> n \<le> 57) \<or> n = 45)"

definition plain_slug :: "string \<Rightarrow> bool" where
  "plain_slug s \<longleftrightarrow> s \<noteq> [] \<and> (\<forall>c\<in>set s. plain_char c)"

definition slug_char :: "char \<Rightarrow> bool" where
  "slug_char c \<longleftrightarrow> plain_char c \<or> c = CHR ''_''"

lemma slug_char_no_space:
  "slug_char c \<Longrightarrow> c \<notin> hd ` set ws_units \<and> c \<notin> last ` set ws_units"
  by (auto simp: slug_char_def plain_char_def Let_def ws_units_def)

lemma slug_char_facts:
  "slug_char c \<Longrightarrow> lower_char c = c" "slug_char c \<Longrightarrow> c \<noteq> CHR ''#''"
  "slug_char c \<Longrightarrow> c \<noteq> CHR '' ''" "slug_char c \<Longrightarrow> c \<noteq> nul"
  "plain_char c \<Longrightarrow> c \<noteq> CHR ''_''" "plain_char c \<Longrightarrow> c \<noteq> nul"
  by (auto simp: slug_char_def plain_char_def Let_def lower_char_def nul_def)

lemma head_unit_first:
  "s \<noteq> [] \<Longrightarrow> hd s \<notin> hd ` set us \<Longrightarrow> head_unit us s = None"
  by (cases s) (force simp: head_unit_def find_NoneD prefix_Cons image_iff)+

lemma trim_space_slug:
  assumes "\<forall>c\<in>set s. slug_char c"
  shows "trim_space s = s"
proof (cases "s = []")
  case False
  have l: "head_unit ws_units s = None"
    by (rule head_unit_first) (use assms False slug_char_no_space in auto)
  have "hd ` set (map rev ws_units) = last ` set ws_units"
    by (simp add: ws_units_def)
  moreover have "slug_char (hd (rev s))" using assms False by (simp add: hd_rev)
  ultimately have r: "head_unit (map rev ws_units) (rev s) = None"
    by (intro head_unit_first) (use False slug_char_no_space in simp_all)
  show ?thesis using l r by (simp add: trim_space_def trim_left_def trim_right_def strip_units_id)
qed simp

lemma to_lower_slug: "\<forall>c\<in>set s. slug_char c \<Longrightarrow> to_lower s = s"
  by (simp add: to_lower_def map_idI slug_char_facts)

lemma replace_char_id: "c \<notin> set s \<Longrightarrow> replace_char c r s = s"
  by (induction s) (auto simp: replace_char_def)

lemma replace_char_append: "replace_char c r (s @ t) = replace_char c r s @ replace_char c r t"
  by (simp add: replace_char_def)

lemma plain_no: "plain_slug s \<Longrightarrow> CHR ''_'' \<notin> set s \<and> nul \<notin> set s"
  by (auto simp: plain_slug_def dest: slug_char_facts)

lemma squeeze_plain: "CHR ''_'' \<notin> set s \<Longrightarrow> squeeze_double s = s"
  by (induction s rule: squeeze_double.induct) auto

lemma squeeze_pair:
  "CHR ''_'' \<notin> set u \<Longrightarrow> CHR ''_'' \<notin> set v \<Longrightarrow> squeeze_double (u @ ''__'' @ v) = u @ nul # v"
proof (induction u)
  case (Cons c u)
  then show ?case by (cases u) (auto simp: squeeze_plain)
qed (simp add: squeeze_plain)

lemma split_under_plain: "CHR ''_'' \<notin> set s \<Longrightarrow> split_under s = [s]"
  by (induction s rule: split_under.induct) auto

lemma split_under_pair:
  "CHR ''_'' \<notin> set u \<Longrightarrow> CHR ''_'' \<notin> set v \<Longrightarrow> split_under (u @ ''__'' @ v) = [u, v]"
proof (induction u)
  case (Cons c u)
  then show ?case by (cases u) (auto simp: split_under_plain)
qed (simp add: split_under_plain)

lemma replace_char_Cons: "replace_char c r (d # s) = (if d = c then r else [d]) @ replace_char c r s"
  by (simp add: replace_char_def)

lemma dash_under_pair:
  assumes "plain_slug u" "plain_slug v"
  shows "dash_under (u @ ''__'' @ v) = u @ ''__'' @ v"
proof -
  have n: "CHR ''_'' \<notin> set u" "nul \<notin> set u" "CHR ''_'' \<notin> set v" "nul \<notin> set v"
    using plain_no assms by blast+
  have "CHR ''_'' \<notin> set (u @ nul # v)" using n by (simp add: nul_def)
  then have "replace_char (CHR ''_'') ''-'' (u @ nul # v) = u @ nul # v" by (rule replace_char_id)
  then show ?thesis
    unfolding dash_under_def squeeze_pair [OF n(1,3)]
    using n by (simp add: replace_char_append replace_char_Cons replace_char_id)
qed

section \<open>The slug of two bots\<close>

lemma normalize_pair:
  assumes "plain_slug u" "plain_slug v" "\<not> str_contains (u @ ''__'' @ v) ''ceo''"
  shows "normalize_channel_slug (u @ ''__'' @ v) = u @ ''__'' @ v"
proof -
  let ?s = "u @ ''__'' @ v"
  have c: "\<forall>c\<in>set ?s. slug_char c" using assms(1,2) by (auto simp: plain_slug_def slug_char_def)
  have h: "dropWhile (\<lambda>c. c = CHR ''#'') ?s = ?s"
    using assms(1) c by (cases u) (auto simp: plain_slug_def dest: slug_char_facts)
  have sp: "replace_char (CHR '' '') ''-'' ?s = ?s"
    by (rule replace_char_id) (use c slug_char_facts(3) in blast)
  show ?thesis
    unfolding normalize_channel_slug_def Let_def trim_space_slug [OF c] to_lower_slug [OF c] h sp
      dash_under_pair [OF assms(1,2)]
    using assms(3) by (simp add: migrate_legacy_lead_slug_def legacy_lead_slug_def)
qed

lemma normalize_actor_plain:
  assumes "plain_slug u" "u \<noteq> ''ceo''"
  shows "normalize_actor_slug u = u"
proof -
  have c: "\<forall>c\<in>set u. slug_char c" using assms(1) by (auto simp: plain_slug_def slug_char_def)
  have "replace_char (CHR '' '') ''-'' u = u"
    by (rule replace_char_id) (use c slug_char_facts(3) in blast)
  moreover have "replace_char (CHR ''_'') ''-'' u = u"
    by (rule replace_char_id) (use plain_no assms in blast)
  ultimately show ?thesis
    using assms(2) by (simp add: normalize_actor_slug_def trim_space_slug [OF c] to_lower_slug [OF c]
        legacy_lead_slug_def)
qed

lemma participants_pair:
  assumes "plain_slug u" "plain_slug v" "\<not> str_contains (u @ ''__'' @ v) ''ceo''"
    and "\<not> prefix ''dm-'' (u @ ''__'' @ v)"
  shows "dm_participants (u @ ''__'' @ v) = Some (u, v)"
proof -
  have "\<forall>c\<in>set u. slug_char c" "\<forall>c\<in>set v. slug_char c"
    using assms(1,2) by (auto simp: plain_slug_def slug_char_def)
  then have t: "trim_space u = u" "trim_space v = v" by (simp_all add: trim_space_slug)
  have n: "u \<noteq> []" "v \<noteq> []" using assms(1,2) by (simp_all add: plain_slug_def)
  have sp: "split_under (u @ ''__'' @ v) = [u, v]"
    using plain_no assms(1,2) by (simp add: split_under_pair del: append.simps)
  show ?thesis
    unfolding dm_participants_def Let_def normalize_pair [OF assms(1-3)] canonical_dm_pair_def sp
    using assms(4) t n by simp
qed

lemma contains_part:
  "\<not> str_contains (u @ s @ v) w \<Longrightarrow> \<not> str_contains u w \<and> \<not> str_contains v w"
  by (auto simp: str_contains_sublist sublist_append)

text \<open>C39. Direct messages between two bots are private to them.  The slug the broker builds for the
  bots \<open>x\<close> and \<open>y\<close> lets an actor read the conversation exactly when the actor is one of the two, a
  human, or one of the system senders; no other member of the office passes the check, whatever
  channels exist.  (The slugs are plain, carry no legacy lead slug and do not start with the
  reserved prefix.)\<close>

theorem dm_access_exact:
  assumes "plain_slug x" "plain_slug y" "\<not> str_contains (direct_slug x y) ''ceo''"
    and "\<not> prefix ''dm-'' (direct_slug x y)" "b_one_on_one b = None"
  shows "can_access b actor (direct_slug x y) \<longleftrightarrow>
    is_human_sender (normalize_actor_slug actor)
    \<or> normalize_actor_slug actor \<in> {''nex'', ''system'', x, y}"
proof -
  obtain u v where uv: "direct_slug x y = u @ ''__'' @ v" "{u, v} = {x, y}" "plain_slug u" "plain_slug v"
    using assms(1,2) unfolding direct_slug_def by (metis insert_commute)
  have ceo: "\<not> str_contains (u @ ''__'' @ v) ''ceo''" "\<not> prefix ''dm-'' (u @ ''__'' @ v)"
    using assms(3,4) uv(1) by simp_all
  have p: "dm_participants (u @ ''__'' @ v) = Some (u, v)"
    by (rule participants_pair [OF uv(3,4) ceo])
  have nu: "normalize_actor_slug u = u" "normalize_actor_slug v = v"
    using normalize_actor_plain uv(3,4) contains_part [OF ceo(1)]
    by (auto simp: str_contains_sublist)
  have "\<forall>c\<in>set (u @ ''__'' @ v). slug_char c"
    using uv(3,4) by (auto simp: plain_slug_def slug_char_def)
  then have t: "trim_space (u @ ''__'' @ v) \<noteq> []" using trim_space_slug by simp
  have "normalize_actor_slug actor = u \<or> normalize_actor_slug actor = v \<longleftrightarrow>
      normalize_actor_slug actor = x \<or> normalize_actor_slug actor = y"
    using uv(2) by (metis doubleton_eq_iff)
  then show ?thesis
    unfolding can_access_def Let_def uv(1)
    using t p nu assms(5) normalize_pair [OF uv(3,4) ceo(1)] by auto
qed

theorem dm_access_exact_witness:
  "\<not> can_access (sample_broker []) ''pm'' (direct_slug ''eng'' ''qa'')"
proof -
  have h: "plain_slug ''eng''" "plain_slug ''qa''" "\<not> str_contains (direct_slug ''eng'' ''qa'') ''ceo''"
    "\<not> prefix ''dm-'' (direct_slug ''eng'' ''qa'')" "b_one_on_one (sample_broker []) = None"
    "\<not> is_human_sender (normalize_actor_slug ''pm'')"
    "normalize_actor_slug ''pm'' \<notin> {''nex'', ''system'', ''eng'', ''qa''}"
    by code_simp+
  show ?thesis using dm_access_exact [OF h(1-5), of "''pm''"] h(6,7) by blast
qed

text \<open>The reserved prefix breaks that privacy.  For a bot whose slug starts with \<open>dm-\<close> the slug
  of a conversation with another bot is read as a legacy conversation with a human: neither of the
  two bots may read it, while a third bot with the joined name may.\<close>

theorem dm_prefix_locks_out:
  "\<not> can_access (sample_broker []) ''dm-bot'' (direct_slug ''dm-bot'' ''eng'')
   \<and> \<not> can_access (sample_broker []) ''eng'' (direct_slug ''dm-bot'' ''eng'')
   \<and> can_access (sample_broker []) ''bot--eng'' (direct_slug ''dm-bot'' ''eng'')"
  by code_simp

end
