(* ===== verification/TaskActions.thy ===== *)
theory TaskActions
  imports TaskDeps
begin

text \<open>
  The actions a request performs on an existing task: \<open>MutateTask\<close> of
  \<^verbatim>\<open>broker_tasks_mutation_service.go\<close> (lines 826 to 1394: authorisation, guards, the action
  itself, the field overrides, the completion gates, the unblock cascade, scheduling, worktree and
  action log, with the rollback of a failed mutation).

  An error is its kind; the message is left out.  What the handler computes before it takes the
  lock is an argument (\<open>gate_view\<close>): the artifact and its hash for a request for changes, and
  whether the artifact of a finished task exists.  The memory workflow of a task is an opaque text
  that the environment refreshes and checks.  The notifications after the action log (lines 1396
  to 1451) and the creation of tasks are not part of this theory.
\<close>

section \<open>Requests and errors\<close>

datatype mutation_kind =
    MkInvalid | MkForbidden | MkNotFound | MkConflict | MkWorktree | MkPersist | MkArtifact

record task_request =
  q_action :: string
  q_channel :: string
  q_id :: string
  q_title :: string
  q_details :: string
  q_owner :: string
  q_created_by :: string
  q_task_type :: string
  q_pipeline_id :: string
  q_execution_mode :: string
  q_review_state :: string
  q_source_signal_id :: string
  q_source_decision_id :: string
  q_worktree_path :: string
  q_worktree_branch :: string
  q_wiki_refs :: "string list"
  q_check_kind :: string
  q_check_spec :: string
  q_check_required :: bool
  q_definition :: "definition_of_task option"
  q_artifact_path :: string
  q_memory_override :: bool
  q_memory_actor :: string
  q_memory_reason :: string
  q_override_reason :: string

record gate_view =
  gv_artifact :: string
  gv_hash :: string
  gv_done_ref :: string
  gv_done_exists :: bool

text \<open>Rejecting verbs accept their reason in the override field.\<close>

definition prepare_request :: "task_request \<Rightarrow> task_request" where
  "prepare_request q =
     (if trim_space (q_details q) = []
         \<and> trim_space (q_action q) \<in> {''request_changes'', ''reject'', ''block'', ''cancel''}
         \<and> trim_space (q_override_reason q) \<noteq> []
      then q\<lparr> q_details := trim_space (q_override_reason q) \<rparr> else q)"

section \<open>Who may act\<close>

definition office_lead_slug :: "member list \<Rightarrow> string" where
  "office_lead_slug ms =
     (let sorted = sort (map m_slug ms) in
        if ''cos'' \<in> set sorted then ''cos''
        else (case sort (map m_slug (filter m_built_in ms)) of
                s # _ \<Rightarrow> s
              | [] \<Rightarrow> (case sorted of s # _ \<Rightarrow> s | [] \<Rightarrow> [])))"

definition owner_allowed :: "string \<Rightarrow> bool" where
  "owner_allowed a \<longleftrightarrow>
     a \<in> {''submit_for_review'', ''review'', ''complete'', ''resume'', ''release'', ''claim'', ''assign'',
          ''block'', ''cancel'', ''reopen''}"

definition reviewer_allowed :: "string \<Rightarrow> bool" where
  "reviewer_allowed a \<longleftrightarrow> a \<in> {''request_changes'', ''approve'', ''reject''}"

definition is_internal_actor :: "string \<Rightarrow> bool" where
  "is_internal_actor actor \<longleftrightarrow> norm_field actor \<in> {'''', ''system'', ''broker'', ''nex''}"

definition unrestricted_actor :: "string \<Rightarrow> bool" where
  "unrestricted_actor s \<longleftrightarrow> s \<in> {'''', ''human'', ''you'', ''system'', ''broker'', ''nex''}"

definition task_role_allows :: "string \<Rightarrow> string \<Rightarrow> task \<Rightarrow> bool" where
  "task_role_allows a s t \<longleftrightarrow>
     (owner_allowed a \<and> equal_fold (trim_space (t_owner t)) s)
     \<or> (reviewer_allowed a \<and> (\<exists>r\<in>set (t_reviewers t). equal_fold (trim_space r) s))"

definition check_task_auth :: "string \<Rightarrow> string \<Rightarrow> string \<Rightarrow> string \<Rightarrow> broker \<Rightarrow> bool" where
  "check_task_auth action actor target intended b \<longleftrightarrow>
     (let a = norm_field action; s = norm_field actor;
          lead = norm_field (office_lead_slug (b_members b)) in
        if a = ''comment'' then True
        else if unrestricted_actor s then True
        else if lead = [] then True
        else if s = lead then True
        else if find_member b s = None then True
        else if a = ''create'' then
          (let owner = normalize_actor_slug intended in owner = [] \<or> owner = s)
        else if target \<noteq> [] \<and> trim_space target \<noteq> [] then
          (case task_by_id b (trim_space target) of
             None \<Rightarrow> False
           | Some t \<Rightarrow> task_role_allows a s t)
        else False)"

section \<open>Pieces of a mutation\<close>

definition mark_done :: "env \<Rightarrow> task \<Rightarrow> task" where
  "mark_done e t =
     (if \<not> equal_fold (trim_space (t_status t)) ''done'' \<and> t_completed_at t = NoStamp
      then t\<lparr> t_completed_at := now_stamp e, t_status := ''done'' \<rparr>
      else t\<lparr> t_status := ''done'' \<rparr>)"

definition reconcile_review :: "string \<Rightarrow> task \<Rightarrow> task" where
  "reconcile_review action t =
     (let a = norm_field action; st = norm_field (t_status t) in
        if a \<in> {''request_changes'', ''submit_for_review'', ''comment'', ''reject'', ''archive'', ''define'',
                ''edit'', ''reopen''} then t
        else if \<not> needs_structured_review t then
          (if trim_space (t_review_state t) \<noteq> [] \<or> \<not> equal_fold (trim_space action) ''create''
           then t\<lparr> t_review_state := ''not_required'' \<rparr> else t)
        else if st = ''review'' then t\<lparr> t_review_state := ''ready_for_review'' \<rparr>
        else if st = ''done'' then
          (if equal_fold (trim_space action) ''approve'' \<or> equal_fold (trim_space action) ''complete''
              \<or> equal_fold (trim_space (t_review_state t)) ''approved''
           then t\<lparr> t_review_state := ''approved'' \<rparr>
           else t\<lparr> t_review_state := ''ready_for_review'' \<rparr>)
        else if trim_space (t_review_state t) \<in> {''pending_review'', ''ready_for_review'', ''approved''} then t
        else t\<lparr> t_review_state := ''pending_review'' \<rparr>)"

definition is_auto_owner :: "string \<Rightarrow> bool" where
  "is_auto_owner owner \<longleftrightarrow> equal_fold (trim_space owner) ''auto''"

definition objection_actor :: "string \<Rightarrow> string" where
  "objection_actor actor = (if trim_space actor = [] then ''human'' else trim_space actor)"

definition normalize_verification ::
  "string \<Rightarrow> string \<Rightarrow> bool \<Rightarrow> unit + verification option" where
  "normalize_verification kind0 spec0 req =
     (let kind = norm_field kind0; spec = trim_space spec0;
          v = \<lparr> vf_kind = kind, vf_spec = spec, vf_required = req \<rparr> in
        if kind = '''' \<or> kind = ''none'' then Inr None
        else if kind = ''command'' \<or> kind = ''artifact'' then
          (if spec = [] then Inl () else Inr (Some v))
        else if kind = ''url'' then
          (if prefix ''http://'' spec \<or> prefix ''https://'' spec then Inr (Some v) else Inl ())
        else Inl ())"

definition normalize_definition ::
  "env \<Rightarrow> definition_of_task option \<Rightarrow> unit + definition_of_task" where
  "normalize_definition e d =
     (case d of
        None \<Rightarrow> Inl ()
      | Some df \<Rightarrow>
          let goal = trim_space (df_goal df);
              ds = map (\<lambda>x. \<lparr> dl_name = trim_space (dl_name x), dl_format = trim_space (dl_format x) \<rparr>)
                     (df_deliverables df);
              cs = map trim_space (df_criteria df)
          in if goal = [] \<or> [] \<in> dl_name ` set ds \<or> [] \<in> set cs then Inl ()
             else Inr \<lparr> df_goal = goal, df_deliverables = ds, df_criteria = cs,
                        df_access = filter (\<lambda>a. a \<noteq> []) (map trim_space (df_access df)),
                        df_defined_at = now_stamp e \<rparr>)"

definition valid_artifact_path :: "string \<Rightarrow> bool" where
  "valid_artifact_path p0 \<longleftrightarrow>
     (let p = trim_space p0 in
        p \<noteq> [] \<and> \<not> prefix ''/'' p \<and> \<not> prefix [CHR 0x5C] p \<and> \<not> str_contains p ''..'')"

definition dedupe_paths :: "string list \<Rightarrow> string list" where
  "dedupe_paths ps = dedup (filter (\<lambda>p. p \<noteq> []) (map trim_space ps))"


section \<open>The action\<close>

definition pending_review_state :: "task \<Rightarrow> string" where
  "pending_review_state t = (if needs_structured_review t then ''pending_review'' else ''not_required'')"

definition claim_task :: "string \<Rightarrow> task \<Rightarrow> task" where
  "claim_task owner t =
     (let t1 = t\<lparr> t_owner := owner, t_status := ''in_progress'' \<rparr>
      in t1\<lparr> t_review_state := pending_review_state t1 \<rparr>)"

definition reassign_task :: "string \<Rightarrow> task \<Rightarrow> task" where
  "reassign_task owner t =
     (let st = norm_field (t_status t);
          t1 = t\<lparr> t_owner := owner \<rparr>;
          t2 = (if st \<noteq> ''done'' \<and> st \<noteq> ''review'' then t1\<lparr> t_status := ''in_progress'' \<rparr> else t1)
      in if needs_structured_review t2 \<and> trim_space (t_review_state t2) = []
         then t2\<lparr> t_review_state := ''pending_review'' \<rparr> else t2)"

definition approve_state :: "task \<Rightarrow> task" where
  "approve_state t = (if needs_structured_review t then t\<lparr> t_review_state := ''approved'' \<rparr> else t)"

definition unblocked :: "task \<Rightarrow> task" where
  "unblocked t = t\<lparr> t_blocked := False \<rparr>"

definition complete_task :: "env \<Rightarrow> task \<Rightarrow> task" where
  "complete_task e t =
     (if equal_fold (trim_space (t_status t)) ''done'' then unblocked (approve_state t)
      else if equal_fold (trim_space (t_status t)) ''review''
           \<or> equal_fold (trim_space (t_review_state t)) ''ready_for_review''
        then unblocked (approve_state (mark_done e t))
      else if needs_structured_review t
        then t\<lparr> t_status := ''review'', t_review_state := ''ready_for_review'' \<rparr>
      else unblocked (mark_done e t))"

definition resume_fields :: "task \<Rightarrow> task" where
  "resume_fields t =
     (let t1 = unblocked t in
        if equal_fold (trim_space (t_status t1)) ''blocked''
        then t1\<lparr> t_status := (if trim_space (t_owner t1) \<noteq> [] then ''in_progress'' else ''open'') \<rparr>
        else t1)"

definition request_changes_fields :: "env \<Rightarrow> gate_view \<Rightarrow> string \<Rightarrow> string \<Rightarrow> task \<Rightarrow> task" where
  "request_changes_fields e gv actor details t =
     (let ob = \<lparr> ob_actor = objection_actor actor, ob_body = trim_space details, ob_at = now_stamp e,
                 ob_artifact_hash =
                   (if gv_hash gv \<noteq> [] \<and> trim_space (t_artifact t) = gv_artifact gv then gv_hash gv
                    else []) \<rparr>;
          t1 = t\<lparr> t_status := ''in_progress'', t_review_state := ''changes_requested'',
                 t_blocked := False, t_changes := Some ob \<rparr>
      in if is_human_sender actor then t1\<lparr> t_objection := Some ob \<rparr> else t1)"

text \<open>The definition with the check it brings, None when the request is not valid.\<close>

definition define_fields :: "env \<Rightarrow> task_request \<Rightarrow> task \<Rightarrow> (task \<times> bool) option" where
  "define_fields e q t =
     (case normalize_definition e (q_definition q) of
        Inl _ \<Rightarrow> None
      | Inr df \<Rightarrow>
          (case (if trim_space (q_check_kind q) = [] then Inr None
                 else normalize_verification (q_check_kind q) (q_check_spec q) (q_check_required q)) of
             Inl _ \<Rightarrow> None
           | Inr given \<Rightarrow>
               let t1 = t\<lparr> t_definition := Some df \<rparr> in
               Some (if t_verification t \<noteq> None then (t1, False)
                     else (case given of
                             Some v \<Rightarrow> (t1\<lparr> t_verification := Some v \<rparr>, False)
                           | None \<Rightarrow>
                               (case e_derive_check e df of
                                  Some v \<Rightarrow> (t1\<lparr> t_verification := Some v \<rparr>, True)
                                | None \<Rightarrow> (t1, False))))))"

definition reopen_target :: "task \<Rightarrow> lifecycle" where
  "reopen_target t =
     (if trim_space (t_owner t) \<noteq> [] \<and> \<not> is_auto_owner (trim_space (t_owner t)) then LsRunning
      else LsReady)"

text \<open>The switch on the action: the edited task, the state to transition to if the action is a
  life-cycle action, whether a check was derived, and whether the details are appended.\<close>

record action_result =
  ar_task :: task
  ar_target :: "lifecycle option"
  ar_derived :: bool
  ar_append :: bool

definition plain_result :: "task \<Rightarrow> bool \<Rightarrow> action_result" where
  "plain_result t app = \<lparr> ar_task = t, ar_target = None, ar_derived = False, ar_append = app \<rparr>"

definition life_result :: "task \<Rightarrow> lifecycle \<Rightarrow> action_result" where
  "life_result t s = \<lparr> ar_task = t, ar_target = Some s, ar_derived = False, ar_append = True \<rparr>"

definition act_switch ::
  "env \<Rightarrow> gate_view \<Rightarrow> task_request \<Rightarrow> task \<Rightarrow> mutation_kind + action_result" where
  "act_switch e gv q t =
     (let a = trim_space (q_action q); actor = trim_space (q_created_by q);
          owner = trim_space (q_owner q) in
        if a = ''claim'' \<or> a = ''assign'' then
          (if owner = [] then Inl MkInvalid else Inr (plain_result (claim_task owner t) False))
        else if a = ''reassign'' then
          (if owner = [] then Inl MkInvalid else Inr (plain_result (reassign_task owner t) False))
        else if a = ''complete'' then Inr (plain_result (complete_task e t) False)
        else if a = ''review'' then
          Inr (plain_result (t\<lparr> t_status := ''review'', t_review_state := ''ready_for_review'' \<rparr>) False)
        else if a = ''approve'' then
          Inr (plain_result (approve_state (unblocked (mark_done e t))) False)
        else if a = ''block'' then
          (if reject_false_block e t (q_details q) \<noteq> None then Inl MkConflict
           else Inr (plain_result (t\<lparr> t_status := ''blocked'', t_blocked := True \<rparr>) False))
        else if a = ''resume'' then Inr (plain_result (resume_fields t) True)
        else if a = ''reopen'' then
          Inr (life_result (t\<lparr> t_completed_at := NoStamp \<rparr>) (reopen_target t))
        else if a = ''release'' then
          Inr (plain_result (t\<lparr> t_owner := [], t_status := ''open'', t_blocked := False \<rparr>) False)
        else if a = ''cancel'' then
          Inr (plain_result (t\<lparr> t_status := ''canceled'', t_blocked := False, t_follow_up_at := NoStamp,
                               t_reminder_at := NoStamp, t_recheck_at := NoStamp \<rparr>) False)
        else if a = ''request_changes'' then
          Inr (plain_result (request_changes_fields e gv actor (q_details q) t) True)
        else if a = ''submit_for_review'' then
          Inr (plain_result (t\<lparr> t_status := ''review'', t_review_state := ''ready_for_review'' \<rparr>) True)
        else if a = ''comment'' then Inr (plain_result t True)
        else if a = ''define'' then
          (case define_fields e q t of
             None \<Rightarrow> Inl MkInvalid
           | Some (t1, d) \<Rightarrow> Inr ((plain_result t1 True)\<lparr> ar_derived := d \<rparr>))
        else if a = ''reject'' then
          (if trim_space (q_details q) = [] then Inl MkInvalid else Inr (life_result t LsRejected))
        else if a = ''archive'' then Inr (life_result t LsArchived)
        else if a = ''edit'' then
          (if trim_space (q_title q) = [] then Inl MkInvalid
           else Inr (plain_result (t\<lparr> t_title := trim_space (q_title q),
                                     t_details := trim_space (q_details q) \<rparr>) False))
        else Inl MkInvalid)"

section \<open>Overrides\<close>

definition set_if :: "string \<Rightarrow> (string \<Rightarrow> task \<Rightarrow> task) \<Rightarrow> task \<Rightarrow> task" where
  "set_if v f t = (if trim_space v = [] then t else f (trim_space v) t)"

definition may_link_wiki :: "string \<Rightarrow> bool" where
  "may_link_wiki actor \<longleftrightarrow>
     is_human_sender (norm_field actor) \<or> norm_field actor = ''cos''
     \<or> equal_fold (norm_field actor) ''librarian''"

definition write_details :: "task_request \<Rightarrow> bool \<Rightarrow> task \<Rightarrow> task" where
  "write_details q app t =
     (if trim_space (q_details q) = [] then t
      else if app then append_detail (trim_space (q_details q)) t
      else t\<lparr> t_details := trim_space (q_details q) \<rparr>)"

definition apply_overrides :: "task_request \<Rightarrow> task \<Rightarrow> task" where
  "apply_overrides q t0 =
     (let t1 = set_if (q_task_type q) (\<lambda>v t. t\<lparr> t_task_type := v \<rparr>) t0;
          t2 = (if q_wiki_refs q \<noteq> [] \<and> may_link_wiki (q_created_by q)
                then t1\<lparr> t_wiki_refs := dedupe_paths (q_wiki_refs q) \<rparr> else t1);
          t3 = set_if (q_pipeline_id q) (\<lambda>v t. t\<lparr> t_pipeline_id := v \<rparr>) t2;
          t4 = set_if (q_execution_mode q) (\<lambda>v t. t\<lparr> t_execution_mode := v \<rparr>) t3;
          t5 = set_if (q_review_state q) (\<lambda>v t. t\<lparr> t_review_state := v \<rparr>) t4;
          t6 = set_if (q_source_signal_id q) (\<lambda>v t. t\<lparr> t_source_signal_id := v \<rparr>) t5;
          t7 = set_if (q_source_decision_id q) (\<lambda>v t. t\<lparr> t_source_decision_id := v \<rparr>) t6;
          t8 = set_if (q_worktree_path q) (\<lambda>v t. t\<lparr> t_worktree_path := v \<rparr>) t7
      in set_if (q_worktree_branch q) (\<lambda>v t. t\<lparr> t_worktree_branch := v \<rparr>) t8)"


section \<open>Guards\<close>

definition objection_gate :: "string \<Rightarrow> string \<Rightarrow> task \<Rightarrow> mutation_kind + task" where
  "objection_gate a actor t =
     (if a = ''approve'' \<or> a = ''complete'' then
        (if t_objection t \<noteq> None \<and> \<not> is_human_sender actor then Inl MkForbidden
         else Inr (t\<lparr> t_objection := None, t_changes := None \<rparr>))
      else Inr t)"

definition parked :: "task \<Rightarrow> bool" where
  "parked t \<longleftrightarrow> t_lifecycle t = LsDrafting \<or> t_lifecycle t = LsPlanning"

definition parked_gate :: "string \<Rightarrow> string \<Rightarrow> task \<Rightarrow> bool" where
  "parked_gate a actor t \<longleftrightarrow>
     (a = ''complete'' \<or> a = ''submit_for_review'') \<and> parked t \<and> \<not> is_internal_actor actor"

definition note_gate :: "string \<Rightarrow> string \<Rightarrow> task \<Rightarrow> mutation_kind + task" where
  "note_gate a actor t =
     (if a = ''complete'' \<or> a = ''submit_for_review'' then
        (case t_note t of
           None \<Rightarrow> Inr t
         | Some n \<Rightarrow>
             if is_human_sender actor then Inr (t\<lparr> t_note := None \<rparr>)
             else if hn_halt n then Inl MkForbidden else Inr t)
      else Inr t)"

definition clear_completed :: "task \<Rightarrow> task" where
  "clear_completed t =
     (if equal_fold (trim_space (t_status t)) ''done'' then t else t\<lparr> t_completed_at := NoStamp \<rparr>)"

definition set_artifact :: "task_request \<Rightarrow> task \<Rightarrow> task" where
  "set_artifact q t = set_if (q_artifact_path q) (\<lambda>v t. t\<lparr> t_artifact := v \<rparr>) t"

text \<open>The fields between the switch and the reindexing.\<close>

definition settle_fields :: "task_request \<Rightarrow> bool \<Rightarrow> task \<Rightarrow> task" where
  "settle_fields q app t =
     reconcile_review (trim_space (q_action q))
       (clear_completed (set_artifact q (apply_overrides q (write_details q app t))))"

definition reached_done :: "task \<Rightarrow> task \<Rightarrow> bool" where
  "reached_done before t \<longleftrightarrow>
     equal_fold (trim_space (t_status t)) ''done''
     \<and> \<not> equal_fold (trim_space (t_status before)) ''done''"

definition artifact_gate :: "gate_view \<Rightarrow> task \<Rightarrow> task \<Rightarrow> bool" where
  "artifact_gate gv before t \<longleftrightarrow>
     reached_done before t \<and> t_definition t \<noteq> None
     \<and> (trim_space (t_artifact t) = []
        \<or> (trim_space (t_artifact t) = gv_done_ref gv \<and> \<not> gv_done_exists gv))"

definition memory_gate :: "env \<Rightarrow> task_request \<Rightarrow> task \<Rightarrow> string option" where
  "memory_gate e q t =
     (if equal_fold (trim_space (t_status t)) ''done'' then
        (let actor = (if trim_space (q_memory_actor q) = [] then trim_space (q_created_by q)
                      else trim_space (q_memory_actor q));
             reason = (if trim_space (q_memory_reason q) = [] then trim_space (q_override_reason q)
                       else trim_space (q_memory_reason q))
         in e_memory_gate e t actor reason (q_memory_override q))
      else Some (t_memory t))"

section \<open>The mutation\<close>

type_synonym mutation_result = "(mutation_kind + task) \<times> broker"

definition roll_back :: "mutation_kind \<Rightarrow> broker \<Rightarrow> broker \<Rightarrow> mutation_result" where
  "roll_back k old b = (Inl k, restore_snapshot old b)"

definition result_task :: "string \<Rightarrow> broker \<Rightarrow> mutation_kind + task" where
  "result_task i b = (case task_by_id b i of None \<Rightarrow> Inl MkNotFound | Some t \<Rightarrow> Inr t)"

text \<open>Starting a parked task (\<open>approve\<close> on a drafting or planning task), up to the return.\<close>

definition launch_task :: "env \<Rightarrow> string \<Rightarrow> string \<Rightarrow> task \<Rightarrow> broker \<Rightarrow> broker" where
  "launch_task e tch i t b =
     schedule_task_lifecycle e i
       (queue_behind_owner e i
         (ensure_owner_membership e tch (t_owner t) (set_task i (touch e) b)))"

definition log_start :: "env \<Rightarrow> string \<Rightarrow> string \<Rightarrow> string \<Rightarrow> task \<Rightarrow> broker \<Rightarrow> broker" where
  "log_start e tch actor i t b =
     append_action e ''task_updated'' ''office'' tch actor
       (truncate_summary (t_title t @ '' [approved]'') 140) i b"

definition save_or_roll_back :: "env \<Rightarrow> string \<Rightarrow> broker \<Rightarrow> broker \<Rightarrow> mutation_result" where
  "save_or_roll_back e i old b =
     (if fst (save_locked e b) then (result_task i b, snd (save_locked e b))
      else roll_back MkPersist old (snd (save_locked e b)))"

definition start_parked ::
  "env \<Rightarrow> string \<Rightarrow> string \<Rightarrow> string \<Rightarrow> broker \<Rightarrow> broker \<Rightarrow> mutation_result" where
  "start_parked e tch actor i old b =
     (case apply_lifecycle e i LsRunning b of
        Inl _ \<Rightarrow> (Inl MkConflict, b)
      | Inr b1 \<Rightarrow>
          (case task_by_id b1 i of
             None \<Rightarrow> (Inl MkConflict, b1)
           | Some t \<Rightarrow>
               let (ok, b2) = sync_task_worktree e i (launch_task e tch i t b1)
               in if \<not> ok then roll_back MkWorktree old b2
                  else save_or_roll_back e i old (log_start e tch actor i t b2)))"

text \<open>Everything after the reindexing, for the task \<open>before\<close> the request and a state in which
  its fields are settled: the gates, then membership, lane and time, then cascade, schedule,
  worktree and log.\<close>

definition record_mutation :: "env \<Rightarrow> string \<Rightarrow> string \<Rightarrow> string \<Rightarrow> task \<Rightarrow> broker \<Rightarrow> broker" where
  "record_mutation e tch i m t b =
     set_task i (touch e)
       (queue_behind_owner e i
         (ensure_owner_membership e tch (t_owner t) (set_task i (\<lambda>t. t\<lparr> t_memory := m \<rparr>) b)))"

definition cascade_if_terminal :: "env \<Rightarrow> string \<Rightarrow> task \<Rightarrow> broker \<Rightarrow> broker" where
  "cascade_if_terminal e i t b =
     (if is_terminal_status (t_status t) then snd (unblock_dependents e i b) else b)"

definition log_update :: "env \<Rightarrow> task_request \<Rightarrow> string \<Rightarrow> string \<Rightarrow> task \<Rightarrow> broker \<Rightarrow> broker" where
  "log_update e q tch i t b =
     append_action e ''task_updated'' ''office'' tch (trim_space (q_created_by q))
       (truncate_summary (t_title t @ '' ['' @ t_status t @ '']'') 140) i b"

definition finish_mutation ::
  "env \<Rightarrow> task_request \<Rightarrow> string \<Rightarrow> string \<Rightarrow> task \<Rightarrow> broker \<Rightarrow> broker \<Rightarrow> mutation_result" where
  "finish_mutation e q tch i t old b =
     (if reject_theater t \<noteq> None then roll_back MkConflict old b
      else let (ok, b1) = sync_task_worktree e i
                  (schedule_task_lifecycle e i (cascade_if_terminal e i t b))
           in if \<not> ok then roll_back MkWorktree old b1
              else save_or_roll_back e i old (log_update e q tch i t b1))"

definition close_mutation ::
  "env \<Rightarrow> gate_view \<Rightarrow> task_request \<Rightarrow> string \<Rightarrow> string \<Rightarrow> task \<Rightarrow> broker \<Rightarrow> broker \<Rightarrow> mutation_result" where
  "close_mutation e gv q tch i before old b =
     (case task_by_id b i of
        None \<Rightarrow> (Inl MkNotFound, b)
      | Some t \<Rightarrow>
          if artifact_gate gv before t then roll_back MkArtifact old b
          else (case memory_gate e q t of
                  None \<Rightarrow> roll_back MkConflict old b
                | Some m \<Rightarrow> finish_mutation e q tch i t old (record_mutation e tch i m t b)))"

text \<open>The switch and what follows it: the log entry of a derived check, the transition of a
  life-cycle action, the fields with the reindexing.\<close>

definition derive_log :: "env \<Rightarrow> string \<Rightarrow> string \<Rightarrow> action_result \<Rightarrow> broker \<Rightarrow> broker" where
  "derive_log e tch i ar b =
     (if ar_derived ar
      then append_action e ''verification_derived'' ''office'' tch ''system''
             (truncate_summary (''verification auto-derived from DoD: ''
                @ (case t_verification (ar_task ar) of Some v \<Rightarrow> vf_spec v | None \<Rightarrow> [])) 140) i b
      else b)"

definition run_target :: "env \<Rightarrow> string \<Rightarrow> action_result \<Rightarrow> broker \<Rightarrow> lc_error + broker" where
  "run_target e i ar b =
     (case ar_target ar of None \<Rightarrow> Inr b | Some s \<Rightarrow> apply_lifecycle e i s b)"

definition settle_mutation :: "env \<Rightarrow> task_request \<Rightarrow> string \<Rightarrow> action_result \<Rightarrow> broker \<Rightarrow> broker" where
  "settle_mutation e q i ar b =
     set_task i (\<lambda>t. t\<lparr> t_memory := e_memory_sync e t \<rparr>)
       (reindex_task e i (set_task i (settle_fields q (ar_append ar)) b))"

definition perform_action ::
  "env \<Rightarrow> gate_view \<Rightarrow> task_request \<Rightarrow> string \<Rightarrow> string \<Rightarrow> task \<Rightarrow> broker \<Rightarrow> broker \<Rightarrow> mutation_result" where
  "perform_action e gv q tch i before old b =
     (case task_by_id b i of
        None \<Rightarrow> (Inl MkNotFound, b)
      | Some t \<Rightarrow>
          (case act_switch e gv q t of
             Inl k \<Rightarrow> (Inl k, b)
           | Inr ar \<Rightarrow>
               let b2 = derive_log e tch i ar (set_task i (\<lambda>_. ar_task ar) b)
               in case run_target e i ar b2 of
                    Inl _ \<Rightarrow> (Inl (if trim_space (q_action q) = ''reopen'' then MkConflict else MkInvalid), b2)
                  | Inr b3 \<Rightarrow>
                      if trim_space (q_artifact_path q) \<noteq> [] \<and> \<not> valid_artifact_path (q_artifact_path q)
                      then roll_back MkInvalid old b3
                      else close_mutation e gv q tch i before old (settle_mutation e q i ar b3)))"

definition act_channel :: "task_request \<Rightarrow> task \<Rightarrow> string" where
  "act_channel q t =
     (if trim_space (t_channel t) \<noteq> [] then normalize_channel_slug (trim_space (t_channel t))
      else if trim_space (q_channel q) \<noteq> [] then normalize_channel_slug (trim_space (q_channel q))
      else [])"

definition guarded_mutation ::
  "env \<Rightarrow> gate_view \<Rightarrow> task_request \<Rightarrow> string \<Rightarrow> task \<Rightarrow> broker \<Rightarrow> mutation_result" where
  "guarded_mutation e gv q i t b =
     (let a = trim_space (q_action q); actor = trim_space (q_created_by q); tch = act_channel q t in
        if tch \<noteq> [] \<and> find_channel b tch = None then (Inl MkNotFound, b)
        else if tch \<noteq> [] \<and> \<not> can_access b actor tch then (Inl MkForbidden, b)
        else (case objection_gate a actor t of
                Inl k \<Rightarrow> (Inl k, b)
              | Inr t1 \<Rightarrow>
                  let b1 = set_task i (\<lambda>_. t1) b in
                  if parked_gate a actor t1 then (Inl MkConflict, b1)
                  else if a = ''approve'' \<and> parked t1 then
                    (if \<not> is_human_sender actor \<and> \<not> is_internal_actor actor then (Inl MkForbidden, b1)
                     else start_parked e tch actor i b b1)
                  else (case note_gate a actor t1 of
                          Inl k \<Rightarrow> (Inl k, b1)
                        | Inr t2 \<Rightarrow>
                            perform_action e gv q tch i t b (set_task i (\<lambda>_. t2) b1))))"

definition mutate_existing :: "env \<Rightarrow> gate_view \<Rightarrow> task_request \<Rightarrow> broker \<Rightarrow> mutation_result" where
  "mutate_existing e gv q0 b =
     (let q = prepare_request q0 in
        if \<not> check_task_auth (trim_space (q_action q)) (trim_space (q_created_by q)) (q_id q) (q_owner q) b
        then (Inl MkForbidden, b)
        else (case task_by_id b (trim_space (q_id q)) of
                None \<Rightarrow> (Inl MkNotFound, b)
              | Some t \<Rightarrow> guarded_mutation e gv q (trim_space (q_id q)) t b))"

end
