(* ===== verification/TaskActionProps.thy ===== *)
theory TaskActionProps
  imports TaskActions BlockingProps
begin

text \<open>
  The properties of the task actions: who may act, what an open human objection prevents, what an
  approved task reads, what a failed request leaves behind, and what every request keeps of the
  life-cycle index; and the housekeeping actions that move a task although they should not.
\<close>

section \<open>What the steps keep\<close>

text \<open>\<open>kept b c\<close>: the same tasks, and the index is still exact.\<close>

definition kept :: "broker \<Rightarrow> broker \<Rightarrow> bool" where
  "kept b c \<longleftrightarrow> task_ids c = task_ids b \<and> (index_live b \<longrightarrow> index_live c)"

lemma kept_refl [simp]: "kept b b"
  by (simp add: kept_def)

lemma kept_trans [trans]: "kept a b \<Longrightarrow> kept b c \<Longrightarrow> kept a c"
  by (simp add: kept_def)

lemma kept_core: "core_step i b c \<Longrightarrow> kept b c"
  by (simp add: core_step_def kept_def)

lemma kept_set_task:
  "(\<And>t. t_id (f t) = t_id t) \<Longrightarrow> (\<And>t. t_lifecycle (f t) = t_lifecycle t) \<Longrightarrow> kept b (set_task i f b)"
  using index_live_set_task [of b f i] by (simp add: kept_def)

lemma kept_set_const:
  assumes "task_by_id b i = Some t" "t_id u = t_id t" "t_lifecycle u = t_lifecycle t"
  shows "kept b (set_task i (\<lambda>_. u) b)"
  unfolding set_task_const [OF assms(1,2)] by (rule kept_set_task) (use assms in auto)


lemma kept_reindex: "kept b (reindex_task e i b)"
proof (cases "task_by_id b i")
  case (Some t)
  let ?c = "move_task i (set_lifecycle (reindex_state t)) (t_lifecycle t) (reindex_state t) b"
  have l: "index_live b \<Longrightarrow> index_live ?c" by (rule move_task_live [OF _ Some]) simp_all
  have r: "reindex_task e i b = (if t_lifecycle t \<noteq> reindex_state t
      then on_lifecycle_transition e i (reindex_state t) ?c else ?c)"
    using Some by (simp add: reindex_task_def Let_def)
  have t: "b_tasks (reindex_task e i b) = b_tasks ?c" "b_index (reindex_task e i b) = b_index ?c"
    unfolding r by simp_all
  have "task_ids ?c = task_ids b" by simp
  then show ?thesis using l t index_live_cong [OF t] by (simp add: kept_def task_ids_def)
qed (simp add: reindex_task_def)



lemma membership_kept: "kept b (ensure_owner_membership e c ow b)"
  by (rule kept_core [OF membership_core])



lemma action_kept: "kept b (append_action e k s c ac su r b)"
  by (rule kept_core [OF action_core])

lemma touch_kept: "kept b (set_task i (touch e) b)"
  by (rule kept_core [OF touch_core])

section \<open>Fields of the task\<close>

lemma mark_done_keeps [simp]:
  "t_id (mark_done e t) = t_id t" "t_lifecycle (mark_done e t) = t_lifecycle t"
  "t_blocked (mark_done e t) = t_blocked t" "t_status (mark_done e t) = ''done''"
  "t_objection (mark_done e t) = t_objection t"
  by (simp_all add: mark_done_def)

lemma approve_state_keeps [simp]:
  "t_id (approve_state t) = t_id t" "t_lifecycle (approve_state t) = t_lifecycle t"
  "t_blocked (approve_state t) = t_blocked t" "t_status (approve_state t) = t_status t"
  "t_objection (approve_state t) = t_objection t"
  by (simp_all add: approve_state_def)

lemma unblocked_keeps [simp]:
  "t_id (unblocked t) = t_id t" "t_lifecycle (unblocked t) = t_lifecycle t"
  "t_blocked (unblocked t) = False" "t_status (unblocked t) = t_status t"
  "t_objection (unblocked t) = t_objection t"
  by (simp_all add: unblocked_def)

lemma act_switch_keeps:
  "act_switch e gv q t = Inr ar \<Longrightarrow>
     t_id (ar_task ar) = t_id t \<and> t_lifecycle (ar_task ar) = t_lifecycle t
     \<and> (\<forall>s. ar_target ar = Some s \<longrightarrow> s \<in> set canonical_states)"
  by (auto simp: act_switch_def Let_def plain_result_def life_result_def claim_task_def reassign_task_def
      complete_task_def resume_fields_def request_changes_fields_def define_fields_def reopen_target_def
      canonical_states_def split: if_splits option.splits sum.splits)

lemma set_if_keeps:
  "(\<And>v t. P (f v t) = P t) \<Longrightarrow> P (set_if v f t) = P t"
  by (simp add: set_if_def)

lemma apply_overrides_keeps [simp]:
  "t_id (apply_overrides q t) = t_id t" "t_lifecycle (apply_overrides q t) = t_lifecycle t"
  "t_status (apply_overrides q t) = t_status t" "t_blocked (apply_overrides q t) = t_blocked t"
  "t_pipeline_stage (apply_overrides q t) = t_pipeline_stage t"
  "t_objection (apply_overrides q t) = t_objection t"
  by (simp_all add: apply_overrides_def Let_def set_if_keeps)

lemma reconcile_keeps [simp]:
  "t_id (reconcile_review a t) = t_id t" "t_lifecycle (reconcile_review a t) = t_lifecycle t"
  "t_status (reconcile_review a t) = t_status t" "t_blocked (reconcile_review a t) = t_blocked t"
  "t_pipeline_stage (reconcile_review a t) = t_pipeline_stage t"
  "t_objection (reconcile_review a t) = t_objection t"
  by (simp_all add: reconcile_review_def Let_def)

lemma settle_keeps [simp]:
  "t_id (settle_fields q app t) = t_id t" "t_lifecycle (settle_fields q app t) = t_lifecycle t"
  "t_status (settle_fields q app t) = t_status t" "t_blocked (settle_fields q app t) = t_blocked t"
  "t_pipeline_stage (settle_fields q app t) = t_pipeline_stage t"
  "t_objection (settle_fields q app t) = t_objection t"
  by (simp_all add: settle_fields_def clear_completed_def set_artifact_def set_if_keeps
      write_details_def append_detail_def)

lemma gates_keep:
  "objection_gate a ac t = Inr u \<Longrightarrow> t_id u = t_id t \<and> t_lifecycle u = t_lifecycle t"
  "note_gate a ac t = Inr v \<Longrightarrow> t_id v = t_id t \<and> t_lifecycle v = t_lifecycle t"
  by (auto simp: objection_gate_def note_gate_def split: if_splits option.splits)


section \<open>The index through a mutation\<close>

definition sound_after :: "broker \<Rightarrow> broker \<Rightarrow> bool" where
  "sound_after old c \<longleftrightarrow> index_live c \<and> task_ids c = task_ids old"

lemma sound_kept: "sound_after old b \<Longrightarrow> kept b c \<Longrightarrow> sound_after old c"
  by (simp add: sound_after_def kept_def)


lemma record_kept: "kept b (record_mutation e tch i m t b)"
proof -
  have "kept b (set_task i (\<lambda>t. t\<lparr> t_memory := m \<rparr>) b)" by (rule kept_set_task) simp_all
  then show ?thesis
    unfolding record_mutation_def queue_behind_owner_id
    by (rule kept_trans [OF kept_trans [OF _ membership_kept] touch_kept])
qed











section \<open>Objections and authority\<close>

text \<open>C25. While a human objection stands on a task, nobody but a human can approve or complete it: the
  request of any other actor, the lead and the internal senders included, is refused and changes
  nothing.\<close>

theorem objection_holds:
  assumes "task_by_id b (trim_space (q_id q)) = Some t" "t_objection t \<noteq> None"
    and "trim_space (q_action q) \<in> {''approve'', ''complete''}"
    and "\<not> is_human_sender (trim_space (q_created_by q))"
  shows "snd (mutate_existing e gv q b) = b
    \<and> fst (mutate_existing e gv q b) \<in> {Inl MkForbidden, Inl MkNotFound}"
proof -
  have "prepare_request q = q" using assms(3) by (auto simp: prepare_request_def)
  moreover have "objection_gate (trim_space (q_action q)) (trim_space (q_created_by q)) t = Inl MkForbidden"
    using assms(2-4) by (auto simp: objection_gate_def)
  ultimately show ?thesis
    using assms(1) by (simp add: mutate_existing_def guarded_mutation_def Let_def)
qed



section \<open>Errors\<close>

definition gates_only :: "task \<Rightarrow> task \<Rightarrow> bool" where
  "gates_only t u \<longleftrightarrow>
     u = t\<lparr> t_objection := t_objection u, t_changes := t_changes u, t_note := t_note u \<rparr>"

definition unchanged_but :: "string \<Rightarrow> broker \<Rightarrow> broker \<Rightarrow> bool" where
  "unchanged_but i b c \<longleftrightarrow>
     b_index c = b_index b \<and> task_ids c = task_ids b
     \<and> (\<forall>j. j \<noteq> i \<longrightarrow> task_by_id c j = task_by_id b j)
     \<and> (\<forall>t. task_by_id b i = Some t \<longrightarrow> (\<exists>u. task_by_id c i = Some u \<and> gates_only t u))"

definition rolled_back :: "broker \<Rightarrow> broker \<Rightarrow> bool" where
  "rolled_back old c \<longleftrightarrow> (\<exists>d. c = restore_snapshot old d)"

lemma gates_only_refl [simp]: "gates_only t t"
  by (simp add: gates_only_def)

lemma unchanged_refl [simp]: "unchanged_but i b b"
  by (simp add: unchanged_but_def)




lemma roll_back_rolled [simp]: "rolled_back old (snd (roll_back k old c))"
  by (auto simp: roll_back_def rolled_back_def)




lemma settle_mutation_kept: "kept b (settle_mutation e q i ar b)"
  unfolding settle_mutation_def
  by (intro kept_trans [OF kept_trans [OF kept_set_task kept_reindex] kept_set_task]) simp_all

lemma derive_log_kept: "kept b (derive_log e tch i ar b)"
  using action_kept by (simp add: derive_log_def)








section \<open>Where a successful action leaves the task\<close>

lemma own_cascade:
  assumes "sound_after old b" "\<forall>i\<in>set (task_ids old). clean_id i" "task_by_id b i = Some v"
    and "\<not> waits_on i v"
  shows "task_by_id (cascade_if_terminal e i t b) i = Some v"
proof -
  have a: "distinct (task_ids b)" "\<forall>i\<in>set (task_ids b). clean_id i"
    using assms(1,2) by (auto simp: sound_after_def index_live_def)
  have "i \<in> set (task_ids b)" using task_by_id_Some [OF assms(3)] by (auto simp: task_ids_def)
  then obtain u where u: "task_by_id (cascade e i ([], b) (task_ids b)) i = Some u"
    "outcome b (cascade e i ([], b) (task_ids b)) i v u"
    using cascade_ok [OF a(1,2), of e i "[]" b] assms(3) by blast
  then have "u = v" using assms(4) by (simp add: outcome_def)
  then show ?thesis
    using u(1) assms(3) by (simp add: cascade_if_terminal_def unblock_dependents_state)
qed

lemma finish_mutation_task:
  assumes s: "sound_after old b" and c: "\<forall>i\<in>set (task_ids old). clean_id i"
    and v: "task_by_id b i = Some v" "\<not> waits_on i v"
    and r: "fst (finish_mutation e q tch i t old b) = Inr u"
  shows "core_eq v u"
proof -
  let ?b = "cascade_if_terminal e i t b"
  have v1: "task_by_id ?b i = Some v" by (rule own_cascade [OF s c v])
  obtain ok b1 where sp: "sync_task_worktree e i (schedule_task_lifecycle e i ?b) = (ok, b1)" by fastforce
  have "core_step i ?b b1"
    using core_step_trans [OF schedule_core sync_core, of i ?b e e] sp by simp
  then have "core_step i ?b (log_update e q tch i t b1)"
    unfolding log_update_def by (rule core_step_trans [OF _ action_core])
  then obtain w where w: "task_by_id (log_update e q tch i t b1) i = Some w" "core_eq v w"
    using v1 by (auto simp: core_step_def)
  then have "w = u"
    using r sp by (auto simp: finish_mutation_def save_or_roll_back_def result_task_def roll_back_def
        split: if_splits)
  then show ?thesis using w(2) by simp
qed

lemma record_core: "core_step i b (record_mutation e tch i m t b)"
proof -
  have "core_step i b (set_task i (\<lambda>t. t\<lparr> t_memory := m \<rparr>) b)"
    by (rule core_step_set_task) (simp_all add: core_eq_def)
  then show ?thesis
    unfolding record_mutation_def queue_behind_owner_id
    by (rule core_step_trans [OF core_step_trans [OF _ membership_core] touch_core])
qed

lemma waits_on_core: "core_eq t u \<Longrightarrow> waits_on d u = waits_on d t"
  by (simp add: core_eq_def waits_on_def)

lemma close_mutation_task:
  assumes s: "sound_after old b" and c: "\<forall>i\<in>set (task_ids old). clean_id i"
    and v: "task_by_id b i = Some v" "\<not> waits_on i v"
    and r: "fst (close_mutation e gv q tch i before old b) = Inr u"
  shows "core_eq v u"
proof -
  obtain m where m: "fst (finish_mutation e q tch i v old (record_mutation e tch i m v b)) = Inr u"
    using r v(1) by (auto simp: close_mutation_def roll_back_def split: if_splits option.splits)
  obtain w where w: "task_by_id (record_mutation e tch i m v b) i = Some w" "core_eq v w"
    using record_core [of i b e tch m v] v(1) by (auto simp: core_step_def)
  have "core_eq w u"
    by (rule finish_mutation_task [OF sound_kept [OF s record_kept] c w(1) _ m])
      (use v(2) waits_on_core [OF w(2)] in simp)
  then show ?thesis using core_eq_trans [OF w(2)] by blast
qed

lemma reindex_task_task:
  assumes "task_by_id b i = Some t"
  shows "task_by_id (reindex_task e i b) i = Some (set_lifecycle (reindex_state t) t)"
proof -
  have "task_by_id (reindex_task e i b) i = task_by_id (set_task i (set_lifecycle (reindex_state t)) b) i"
    using assms by (simp add: reindex_task_def Let_def task_by_id_def)
  then show ?thesis using set_task_same [OF assms, of "set_lifecycle (reindex_state t)"] by simp
qed

lemma settle_mutation_task:
  assumes "task_by_id b i = Some t"
  shows "\<exists>w. task_by_id (settle_mutation e q i ar b) i = Some w
    \<and> core_eq (set_lifecycle (reindex_state (settle_fields q (ar_append ar) t))
                (settle_fields q (ar_append ar) t)) w"
proof -
  let ?t1 = "settle_fields q (ar_append ar) t"
  have "task_by_id (set_task i (settle_fields q (ar_append ar)) b) i = Some ?t1"
    by (rule set_task_same [OF assms]) simp
  from reindex_task_task [OF this, of e]
  have r: "task_by_id (reindex_task e i (set_task i (settle_fields q (ar_append ar)) b)) i =
      Some (set_lifecycle (reindex_state ?t1) ?t1)" .
  have "task_by_id (settle_mutation e q i ar b) i =
      Some ((set_lifecycle (reindex_state ?t1) ?t1)
        \<lparr> t_memory := e_memory_sync e (set_lifecycle (reindex_state ?t1) ?t1) \<rparr>)"
    unfolding settle_mutation_def by (rule set_task_same [OF r]) simp
  then show ?thesis by (simp add: core_eq_def)
qed

text \<open>An action that is no life-cycle action, past the gates: the task reads like the settled task
  with the state the reindexing derives.\<close>

definition settled :: "task_request \<Rightarrow> action_result \<Rightarrow> task" where
  "settled q ar =
     (let t = settle_fields q (ar_append ar) (ar_task ar) in set_lifecycle (reindex_state t) t)"

lemma perform_action_task:
  assumes s: "sound_after old b" and c: "\<forall>i\<in>set (task_ids old). clean_id i"
    and t: "task_by_id b i = Some t" and ar: "act_switch e gv q t = Inr ar" "ar_target ar = None"
    and w: "\<not> waits_on i (settled q ar)"
    and r: "fst (perform_action e gv q tch i before old b) = Inr u"
  shows "core_eq (settled q ar) u"
proof -
  let ?b1 = "set_task i (\<lambda>_. ar_task ar) b"
  let ?b2 = "derive_log e tch i ar ?b1"
  have id: "t_id (ar_task ar) = t_id t" "t_lifecycle (ar_task ar) = t_lifecycle t"
    using act_switch_keeps [OF ar(1)] by auto
  have "task_by_id ?b1 i = Some (ar_task ar)"
    using set_task_const [OF t id(1)] id(1)
      set_task_same [OF t, of "\<lambda>x. if x = t then ar_task ar else x"] by auto
  then have t2: "task_by_id ?b2 i = Some (ar_task ar)" by (simp add: derive_log_def task_by_id_def)
  have s2: "sound_after old ?b2"
    by (rule sound_kept [OF sound_kept [OF s kept_set_const [OF t id]] derive_log_kept])
  have run: "run_target e i ar ?b2 = Inr ?b2" using ar(2) by (simp add: run_target_def)
  obtain v where v: "task_by_id (settle_mutation e q i ar ?b2) i = Some v" "core_eq (settled q ar) v"
    using settle_mutation_task [OF t2, of e q ar] by (auto simp: settled_def Let_def)
  have "fst (close_mutation e gv q tch i before old (settle_mutation e q i ar ?b2)) = Inr u"
    using r t ar(1) run by (auto simp: perform_action_def Let_def roll_back_def split: if_splits)
  then have "core_eq v u"
    by (rule close_mutation_task [OF sound_kept [OF s2 settle_mutation_kept] c v(1), rotated])
      (use w waits_on_core [OF v(2)] in simp)
  then show ?thesis using core_eq_trans [OF v(2)] by blast
qed


lemma guarded_mutation_task:
  assumes l: "index_live b" and c: "\<forall>i\<in>set (task_ids b). clean_id i" and t: "task_by_id b i = Some t"
    and o1: "objection_gate (trim_space (q_action q)) (trim_space (q_created_by q)) t = Inr t1"
    and o2: "note_gate (trim_space (q_action q)) (trim_space (q_created_by q)) t1 = Inr t2"
    and np: "\<not> (trim_space (q_action q) = ''approve'' \<and> parked t)"
    and ar: "act_switch e gv q t2 = Inr ar" "ar_target ar = None"
    and w: "\<not> waits_on i (settled q ar)"
    and r: "fst (guarded_mutation e gv q i t b) = Inr u"
  shows "core_eq (settled q ar) u"
proof -
  let ?b1 = "set_task i (\<lambda>_. t1) b"
  have g: "t_id t1 = t_id t" "t_lifecycle t1 = t_lifecycle t" "t_id t2 = t_id t1"
    "t_lifecycle t2 = t_lifecycle t1"
    using gates_keep(1) [OF o1] gates_keep(2) [OF o2] by auto
  have b1: "task_by_id ?b1 i = Some t1"
    using set_task_const [OF t g(1)] set_task_same [OF t, of "\<lambda>x. if x = t then t1 else x"] g(1) by auto
  have b2: "task_by_id (set_task i (\<lambda>_. t2) ?b1) i = Some t2"
    using set_task_const [OF b1 g(3)] set_task_same [OF b1, of "\<lambda>x. if x = t1 then t2 else x"] g(3)
    by auto
  have "kept b (set_task i (\<lambda>_. t2) ?b1)"
    by (rule kept_trans [OF kept_set_const [OF t g(1,2)] kept_set_const [OF b1 g(3,4)]])
  then have s: "sound_after b (set_task i (\<lambda>_. t2) ?b1)" using l by (simp add: sound_after_def kept_def)
  have "parked t1 = parked t" using g by (simp add: parked_def)
  then have "fst (perform_action e gv q (act_channel q t) i t b (set_task i (\<lambda>_. t2) ?b1)) = Inr u"
    using r o1 o2 np by (auto simp: guarded_mutation_def Let_def split: if_splits)
  then show ?thesis by (rule perform_action_task [OF s c b2 ar w])
qed

lemma derive_done: "derive_from_legacy p r ''done'' False \<in> {LsApproved, LsUnknown}"
proof (cases "map_of lifecycle_migration_map (norm_field p, norm_field r, norm_field ''done'', False)")
  case (Some l)
  have "norm_field ''done'' = ''done''" by code_simp
  then have "((norm_field p, norm_field r, ''done'', False), l) \<in> set lifecycle_migration_map"
    using Some by (auto dest: map_of_SomeD)
  then have "l = LsApproved" by (auto simp: lifecycle_migration_map_def)
  then show ?thesis using Some by (simp add: derive_from_legacy_def)
qed (simp add: derive_from_legacy_def)

lemma reindex_done:
  assumes "t_status t = ''done''" "\<not> t_blocked t"
  shows "reindex_state t = LsApproved"
proof -
  have n: "norm_field ''done'' = ''done''" "is_terminal_status ''done''" by code_simp+
  show ?thesis
    using assms n derive_done [of "t_pipeline_stage t" "t_review_state t"]
    by (auto simp: reindex_state_def Let_def legacy_fallback_def)
qed

text \<open>An approval lands the task.  When the approval of a task that is not parked succeeds, the task
  is done, not blocked, in the approved state and free of objections, whatever it read before and
  whatever fields the request overrides.\<close>

theorem approve_lands:
  assumes "index_live b" "\<forall>i\<in>set (task_ids b). clean_id i"
    and "task_by_id b (trim_space (q_id q)) = Some t" "\<not> parked t"
    and "trim_space (q_action q) = ''approve''"
    and "fst (mutate_existing e gv q b) = Inr u"
  shows "t_lifecycle u = LsApproved \<and> t_status u = ''done'' \<and> \<not> t_blocked u"
proof -
  let ?i = "trim_space (q_id q)" and ?ac = "trim_space (q_created_by q)"
  let ?t1 = "t\<lparr> t_objection := None, t_changes := None \<rparr>"
  have p: "prepare_request q = q" using assms(5) by (simp add: prepare_request_def)
  have r: "fst (guarded_mutation e gv q ?i t b) = Inr u"
    using assms(3,6) by (simp add: mutate_existing_def p Let_def split: if_splits)
  have o1: "objection_gate (trim_space (q_action q)) ?ac t = Inr ?t1"
    using r assms(5) by (auto simp: guarded_mutation_def Let_def objection_gate_def split: if_splits)
  have o2: "note_gate (trim_space (q_action q)) ?ac ?t1 = Inr ?t1"
    using assms(5) by (simp add: note_gate_def)
  let ?ar = "plain_result (approve_state (unblocked (mark_done e ?t1))) False"
  have ar: "act_switch e gv q ?t1 = Inr ?ar" "ar_target ?ar = None"
    using assms(5) by (simp_all add: act_switch_def Let_def plain_result_def)
  have f: "t_status (settled q ?ar) = ''done''" "\<not> t_blocked (settled q ?ar)"
    by (simp_all add: settled_def Let_def set_lifecycle_def plain_result_def)
  have a: "t_lifecycle (settled q ?ar) = LsApproved"
    by (simp add: settled_def Let_def plain_result_def reindex_done)
  have "\<not> waits_on ?i (settled q ?ar)" using f a by (simp add: waits_on_def)
  from guarded_mutation_task [OF assms(1-3) o1 o2 _ ar this r] assms(4)
  show ?thesis using f a by (simp add: core_eq_def)
qed

lemma row_back:
  assumes "derived_fields_for s = Some row"
  shows "derive_row row = back_state s"
  using assms by (cases s; simp add: back_state_def; hypsubst; code_simp)

lemma reindex_stamped:
  assumes "derived_fields_for s = Some row" "t_lifecycle t = s"
    and "t_pipeline_stage t = dr_stage row" "t_review_state t = dr_review row"
      "t_status t = dr_status row" "t_blocked t = dr_blocked row"
  shows "reindex_state t = back_state s"
proof -
  have d: "derive_from_legacy (t_pipeline_stage t) (t_review_state t) (t_status t) (t_blocked t) = back_state s"
    using row_back [OF assms(1)] assms(3-6) by (simp add: derive_row_def)
  have "back_state s \<noteq> LsUnknown" using assms(1) by (cases s) (simp_all add: back_state_def)
  then have "reindex_state t = back_state s \<or> s = LsPlanning \<and> reindex_state t = LsPlanning"
    using d assms(2) by (simp add: reindex_state_def Let_def)
  then show ?thesis by (auto simp: back_state_def)
qed

lemma settle_review:
  assumes "trim_space (q_action q) \<in> {''comment'', ''edit''}" "trim_space (q_review_state q) = []"
  shows "t_review_state (settle_fields q app t) = t_review_state t"
proof -
  have n: "norm_field ''comment'' = ''comment''" "norm_field ''edit'' = ''edit''" by code_simp+
  have r: "reconcile_review (trim_space (q_action q)) v = v" for v
  proof -
    have "norm_field (trim_space (q_action q)) \<in> {''comment'', ''edit''}" using assms(1) n by force
    then show ?thesis unfolding reconcile_review_def Let_def by (simp only: insert_iff empty_iff) argo
  qed
  have "set_if (q_review_state q) f v = v" for f v using assms(2) by (simp add: set_if_def)
  then have "t_review_state (apply_overrides q v) = t_review_state v" for v
    by (simp add: apply_overrides_def Let_def set_if_keeps)
  then show ?thesis
    by (simp add: settle_fields_def r clear_completed_def set_artifact_def set_if_keeps write_details_def
        append_detail_def)
qed

text \<open>What a comment and an edit do in the switch.\<close>

lemma housekeeping_switch:
  assumes "trim_space (q_action q) \<in> {''comment'', ''edit''}" "act_switch e gv q t = Inr ar"
  shows "ar_target ar = None \<and> t_pipeline_stage (ar_task ar) = t_pipeline_stage t
    \<and> t_review_state (ar_task ar) = t_review_state t \<and> t_status (ar_task ar) = t_status t
    \<and> t_blocked (ar_task ar) = t_blocked t \<and> t_lifecycle (ar_task ar) = t_lifecycle t
    \<and> t_depends_on (ar_task ar) = t_depends_on t \<and> t_blocked_on (ar_task ar) = t_blocked_on t"
  using assms by (auto simp: act_switch_def Let_def plain_result_def split: if_splits)

lemma settle_deps [simp]:
  "t_depends_on (settle_fields q app t) = t_depends_on t"
  "t_blocked_on (settle_fields q app t) = t_blocked_on t"
proof -
  have o: "t_depends_on (apply_overrides q v) = t_depends_on v \<and> t_blocked_on (apply_overrides q v) = t_blocked_on v"
    for v by (simp add: apply_overrides_def Let_def set_if_keeps)
  have r: "t_depends_on (reconcile_review a v) = t_depends_on v \<and> t_blocked_on (reconcile_review a v) = t_blocked_on v"
    for a v by (simp add: reconcile_review_def Let_def)
  show "t_depends_on (settle_fields q app t) = t_depends_on t"
    "t_blocked_on (settle_fields q app t) = t_blocked_on t"
    by (simp_all add: settle_fields_def o r clear_completed_def set_artifact_def set_if_keeps
        write_details_def append_detail_def)
qed

lemma set_task_back:
  assumes "task_by_id b i = Some t"
  shows "set_task i (\<lambda>_. t) b = b"
proof -
  have "map_first p (\<lambda>x. x) xs = xs" for p and xs :: "task list" by (induction xs) auto
  moreover have "(\<lambda>x. if x = t then t else x) = (\<lambda>x. x)" by auto
  ultimately show ?thesis unfolding set_task_const [OF assms refl] by (simp add: set_task_def)
qed

lemma guarded_mutation_switch:
  assumes t: "task_by_id b i = Some t"
    and o1: "objection_gate (trim_space (q_action q)) (trim_space (q_created_by q)) t = Inr t"
    and o2: "note_gate (trim_space (q_action q)) (trim_space (q_created_by q)) t = Inr t"
    and np: "\<not> (trim_space (q_action q) = ''approve'' \<and> parked t)"
    and r: "fst (guarded_mutation e gv q i t b) = Inr u"
  shows "\<exists>ar. act_switch e gv q t = Inr ar"
proof -
  have s: "set_task i (\<lambda>_. t) b = b" by (rule set_task_back [OF t])
  have "fst (perform_action e gv q (act_channel q t) i t b b) = Inr u"
    using r o1 o2 np s by (auto simp: guarded_mutation_def Let_def split: if_splits)
  then show ?thesis using t by (cases "act_switch e gv q t") (auto simp: perform_action_def)
qed

text \<open>A comment and a rename move some tasks.  Both are meant to change no status, but both run the
  reindexing from the legacy fields: a task that a transition has put into a state is afterwards in
  the state its fields lead back to, so a task in decision falls back to review, one with requested
  changes to running, an intake to ready, and every other one stays.\<close>

theorem housekeeping_state:
  assumes "index_live b" "\<forall>i\<in>set (task_ids b). clean_id i"
    and "task_by_id b (trim_space (q_id q)) = Some (stamp_row s row t)"
    and "derived_fields_for s = Some row"
    and "trim_space (q_id q) \<notin> set (t_depends_on t) \<union> set (t_blocked_on t)"
    and "trim_space (q_action q) \<in> {''comment'', ''edit''}" "trim_space (q_review_state q) = []"
    and "fst (mutate_existing e gv q b) = Inr u"
  shows "t_lifecycle u = back_state s"
proof -
  let ?i = "trim_space (q_id q)" and ?ac = "trim_space (q_created_by q)"
  let ?t = "stamp_row s row t"
  have p: "prepare_request q = q" using assms(6) by (auto simp: prepare_request_def)
  have r: "fst (guarded_mutation e gv q ?i ?t b) = Inr u"
    using assms(3,8) by (simp add: mutate_existing_def p Let_def split: if_splits)
  have o: "objection_gate (trim_space (q_action q)) ?ac ?t = Inr ?t"
    "note_gate (trim_space (q_action q)) ?ac ?t = Inr ?t"
    using assms(6) by (auto simp: objection_gate_def note_gate_def)
  have np: "\<not> (trim_space (q_action q) = ''approve'' \<and> parked ?t)" using assms(6) by auto
  obtain ar where ar: "act_switch e gv q ?t = Inr ar"
    using guarded_mutation_switch [OF assms(3) o np r] by blast
  have k: "ar_target ar = None" "t_lifecycle (ar_task ar) = s"
    "t_pipeline_stage (ar_task ar) = dr_stage row" "t_review_state (ar_task ar) = dr_review row"
    "t_status (ar_task ar) = dr_status row" "t_blocked (ar_task ar) = dr_blocked row"
    "t_depends_on (ar_task ar) = t_depends_on t" "t_blocked_on (ar_task ar) = t_blocked_on t"
    using housekeeping_switch [OF assms(6) ar] by (simp_all add: stamp_row_def)
  have l: "reindex_state (settle_fields q (ar_append ar) (ar_task ar)) = back_state s"
    by (rule reindex_stamped [OF assms(4)]) (use k settle_review [OF assms(6,7)] in simp_all)
  have "\<not> waits_on ?i (settled q ar)"
    using assms(5) k by (simp add: waits_on_def settled_def Let_def set_lifecycle_def)
  from guarded_mutation_task [OF assms(1-3) o np ar k(1) this r]
  show ?thesis using l by (simp add: core_eq_def settled_def Let_def set_lifecycle_def)
qed

text \<open>A refused completion still drops the objection.  When a human asks to complete a task that is
  parked, the request is refused with a conflict, but the standing objection and the stamp of
  requested changes are already gone from the task in memory and nothing restores them.\<close>

theorem refused_completion_drops_objection:
  assumes "task_by_id b (trim_space (q_id q)) = Some t" "parked t" "act_channel q t = []"
    and "trim_space (q_action q) = ''complete''" "trim_space (q_created_by q) = ''human''"
  shows "mutate_existing e gv q b =
    (Inl MkConflict, set_task (trim_space (q_id q)) (\<lambda>_. t\<lparr> t_objection := None, t_changes := None \<rparr>) b)"
proof -
  let ?t1 = "t\<lparr> t_objection := None, t_changes := None \<rparr>"
  have p: "prepare_request q = q" using assms(4) by (simp add: prepare_request_def)
  have n: "norm_field ''human'' = ''human''" "is_human_sender ''human''" "\<not> is_internal_actor ''human''"
    "unrestricted_actor ''human''"
    by code_simp+
  have a: "check_task_auth (trim_space (q_action q)) (trim_space (q_created_by q)) (q_id q) (q_owner q) b"
    using n by (simp add: check_task_auth_def assms(5) Let_def)
  have o: "objection_gate ''complete'' ''human'' t = Inr ?t1" using n by (simp add: objection_gate_def)
  have "parked_gate ''complete'' ''human'' ?t1" using n assms(2) by (simp add: parked_gate_def parked_def)
  then show ?thesis using assms a o p by (simp add: mutate_existing_def guarded_mutation_def Let_def)
qed

section \<open>Witnesses\<close>

definition sample_request :: "string \<Rightarrow> string \<Rightarrow> string \<Rightarrow> task_request" where
  "sample_request a actor i =
     \<lparr> q_action = a, q_channel = [], q_id = i, q_title = ''Notes'', q_details = [], q_owner = [],
       q_created_by = actor, q_task_type = [], q_pipeline_id = [], q_execution_mode = [],
       q_review_state = [], q_source_signal_id = [], q_source_decision_id = [], q_worktree_path = [],
       q_worktree_branch = [], q_wiki_refs = [], q_check_kind = [], q_check_spec = [],
       q_check_required = False, q_definition = None, q_artifact_path = [], q_memory_override = False,
       q_memory_actor = [], q_memory_reason = [], q_override_reason = [] \<rparr>"

definition sample_view :: gate_view where
  "sample_view = \<lparr> gv_artifact = [], gv_hash = [], gv_done_ref = [], gv_done_exists = True \<rparr>"

definition homeless :: "lifecycle \<Rightarrow> task" where
  "homeless s =
     (case derived_fields_for s of
        Some row \<Rightarrow> stamp_row s row ((sample_task ''a'' s)\<lparr> t_channel := [] \<rparr>)
      | None \<Rightarrow> sample_task ''a'' s)"

definition objected :: "lifecycle \<Rightarrow> task" where
  "objected s = (homeless s)
     \<lparr> t_objection := Some \<lparr> ob_actor = ''human'', ob_body = ''Wrong'', ob_at = NoStamp, ob_artifact_hash = [] \<rparr> \<rparr>"

definition filed :: "task \<Rightarrow> broker" where
  "filed t = (sample_broker [t])\<lparr> b_index := [t_lifecycle t \<mapsto> [t_id t]] \<rparr>"

lemma filed_live:
  assumes "t_lifecycle t \<noteq> LsUnset"
  shows "index_live (filed t)"
  using assms by (auto simp: index_live_def filed_def sample_broker_def task_ids_def life_of_def
      task_by_id_def bucket_def)

lemma filed_task: "task_by_id (filed t) (t_id t) = Some t"
  by (simp add: filed_def sample_broker_def task_by_id_def)

lemma filed_clean: "t_id t = ''a'' \<Longrightarrow> \<forall>i\<in>set (task_ids (filed t)). clean_id i"
  by (simp add: filed_def sample_broker_def task_ids_def clean_id_def) code_simp

lemma sample_a: "trim_space ''a'' = ''a''" "t_id (homeless s) = ''a''" "t_id (objected s) = ''a''"
  by (code_simp, simp_all add: homeless_def objected_def sample_task_def stamp_row_def split: option.split)

lemma sample_request_fields [simp]:
  "q_id (sample_request a w i) = i" "q_action (sample_request a w i) = a"
  "q_created_by (sample_request a w i) = w" "q_review_state (sample_request a w i) = []"
  "q_channel (sample_request a w i) = []"
  by (simp_all add: sample_request_def)


theorem objection_holds_witness:
  "snd (mutate_existing sample_env sample_view (sample_request ''approve'' ''cos'' ''a'')
     (filed (objected LsReview))) = filed (objected LsReview)"
proof -
  let ?q = "sample_request ''approve'' ''cos'' ''a''"
  have t: "task_by_id (filed (objected LsReview)) (trim_space (q_id ?q)) = Some (objected LsReview)"
    using filed_task [of "objected LsReview"] by (simp add: sample_a)
  have "t_objection (objected LsReview) \<noteq> None" by (simp add: objected_def)
  moreover have "trim_space (q_action ?q) \<in> {''approve'', ''complete''}"
    "\<not> is_human_sender (trim_space (q_created_by ?q))" by code_simp+
  ultimately show ?thesis using objection_holds [OF t] by blast
qed





theorem approve_lands_witness:
  "\<exists>u. fst (mutate_existing sample_env sample_view (sample_request ''approve'' ''human'' ''a'')
        (filed (homeless LsReview))) = Inr u \<and> t_lifecycle u = LsApproved \<and> t_status u = ''done''"
proof -
  let ?q = "sample_request ''approve'' ''human'' ''a''"
  have l: "t_lifecycle (homeless LsReview) \<noteq> LsUnset" by code_simp
  have t: "task_by_id (filed (homeless LsReview)) (trim_space (q_id ?q)) = Some (homeless LsReview)"
    using filed_task [of "homeless LsReview"] by (simp add: sample_a)
  have "\<not> isl (fst (mutate_existing sample_env sample_view ?q (filed (homeless LsReview))))" by code_simp
  then obtain u where u: "fst (mutate_existing sample_env sample_view ?q (filed (homeless LsReview))) = Inr u"
    by (cases "fst (mutate_existing sample_env sample_view ?q (filed (homeless LsReview)))") auto
  have "\<not> parked (homeless LsReview)" "trim_space (q_action ?q) = ''approve''" by code_simp+
  from approve_lands [OF filed_live [OF l] filed_clean [OF sample_a(2)] t this u] u show ?thesis by blast
qed

theorem housekeeping_state_witness:
  "\<exists>u. fst (mutate_existing sample_env sample_view (sample_request ''edit'' ''human'' ''a'')
        (filed (homeless LsDecision))) = Inr u \<and> t_lifecycle u = LsReview"
proof -
  let ?q = "sample_request ''edit'' ''human'' ''a''"
  let ?t = "(sample_task ''a'' LsDecision)\<lparr> t_channel := [] \<rparr>"
  have l: "t_lifecycle (homeless LsDecision) \<noteq> LsUnset" by code_simp
  obtain row where r: "derived_fields_for LsDecision = Some row" by simp
  then have h: "homeless LsDecision = stamp_row LsDecision row ?t" by (simp add: homeless_def)
  have t: "task_by_id (filed (homeless LsDecision)) (trim_space (q_id ?q)) = Some (stamp_row LsDecision row ?t)"
    using filed_task [of "homeless LsDecision"] h
    by (simp add: sample_a(1) sample_task_def)
  have "\<not> isl (fst (mutate_existing sample_env sample_view ?q (filed (homeless LsDecision))))" by code_simp
  then obtain u where u: "fst (mutate_existing sample_env sample_view ?q (filed (homeless LsDecision))) = Inr u"
    by (cases "fst (mutate_existing sample_env sample_view ?q (filed (homeless LsDecision)))") auto
  have c: "trim_space (q_id ?q) \<notin> set (t_depends_on ?t) \<union> set (t_blocked_on ?t)"
    "trim_space (q_action ?q) \<in> {''comment'', ''edit''}" "trim_space (q_review_state ?q) = []"
    by code_simp+
  from housekeeping_state [OF filed_live [OF l] filed_clean [OF sample_a(2)] t r c u] u
  show ?thesis by (auto simp: back_state_def)
qed

theorem refused_completion_drops_objection_witness:
  "mutate_existing sample_env sample_view (sample_request ''complete'' ''human'' ''a'')
     (filed (objected LsDrafting))
   = (Inl MkConflict,
      set_task ''a'' (\<lambda>_. (objected LsDrafting)\<lparr> t_objection := None, t_changes := None \<rparr>)
        (filed (objected LsDrafting)))"
proof -
  let ?q = "sample_request ''complete'' ''human'' ''a''"
  have t: "task_by_id (filed (objected LsDrafting)) (trim_space (q_id ?q)) = Some (objected LsDrafting)"
    using filed_task [of "objected LsDrafting"] by (simp add: sample_a)
  have c: "parked (objected LsDrafting)" "act_channel ?q (objected LsDrafting) = []"
    "trim_space (q_action ?q) = ''complete''" "trim_space (q_created_by ?q) = ''human''"
    by code_simp+
  show ?thesis using refused_completion_drops_objection [OF t c, of sample_env sample_view] by (simp add: sample_a)
qed

end
