(* ===== verification/Integers.thy ===== *)
theory Integers
  imports Prelude
begin

text \<open>
  Machine integers and the texts of numbers: Go's \<^verbatim>\<open>int\<close> has 64 bits, \<open>wrap64\<close> is what an addition
  leaves, and \<open>atoi\<close> (\<^verbatim>\<open>strconv.Atoi\<close>) refuses what does not fit; and two more functions of the package
  \<^verbatim>\<open>strings\<close>.
\<close>

section \<open>Machine integers\<close>

definition max_int :: int where
  "max_int = 9223372036854775807"

definition wrap64 :: "int \<Rightarrow> int" where
  "wrap64 x = (x + 9223372036854775808) mod 18446744073709551616 - 9223372036854775808"

lemma wrap64_id: "- max_int - 1 \<le> x \<Longrightarrow> x \<le> max_int \<Longrightarrow> wrap64 x = x"
  by (simp add: wrap64_def max_int_def)

lemma wrap64_over:
  assumes "max_int < x" "x \<le> 2 * max_int"
  shows "wrap64 x = x - 18446744073709551616"
proof -
  have e: "x + 9223372036854775808 = (x - 9223372036854775808) + 18446744073709551616" by simp
  have "(x + 9223372036854775808) mod 18446744073709551616 =
      (x - 9223372036854775808) mod 18446744073709551616"
    unfolding e by (rule mod_add_self2)
  also have "\<dots> = x - 9223372036854775808"
    using assms by (intro mod_pos_pos_trivial) (simp_all add: max_int_def)
  finally show ?thesis by (simp add: wrap64_def)
qed

definition is_digit :: "char \<Rightarrow> bool" where
  "is_digit c \<longleftrightarrow> CHR ''0'' \<le> c \<and> c \<le> CHR ''9''"

definition digits_value :: "string \<Rightarrow> int" where
  "digits_value s = foldl (\<lambda>n c. 10 * n + (int (of_char c) - 48)) 0 s"

definition atoi :: "string \<Rightarrow> int option" where
  "atoi s =
     (let signed = s \<noteq> [] \<and> hd s \<in> {CHR ''+'', CHR ''-''};
          body = (if signed then tl s else s);
          v = (if signed \<and> hd s = CHR ''-'' then - digits_value body else digits_value body)
      in if body = [] \<or> \<not> list_all is_digit body then None
         else if - max_int - 1 \<le> v \<and> v \<le> max_int then Some v else None)"

text \<open>\<^verbatim>\<open>strings.SplitN(s, sep, 2)\<close> on one byte, and \<^verbatim>\<open>strings.Fields\<close>.\<close>

fun split_first :: "char \<Rightarrow> string \<Rightarrow> string \<times> string option" where
  "split_first d [] = ([], None)"
| "split_first d (c # s) =
     (if c = d then ([], Some s) else (let (a, r) = split_first d s in (c # a, r)))"

fun take_word :: "string \<Rightarrow> string \<times> string" where
  "take_word [] = ([], [])"
| "take_word (c # s) =
     (if head_unit ws_units (c # s) \<noteq> None then ([], c # s)
      else (let (w, r) = take_word s in (c # w, r)))"

lemma take_word_length: "length (fst (take_word s)) + length (snd (take_word s)) = length s"
  by (induction s) (simp_all add: case_prod_unfold Let_def)

lemma take_word_shorter:
  assumes "trim_left s = c # r"
  shows "length (snd (take_word (c # r))) < length s"
proof -
  have "head_unit ws_units (c # r) = None" using trim_left_head [of s] assms by simp
  then have "fst (take_word (c # r)) \<noteq> []" by (simp add: case_prod_unfold Let_def)
  then have "length (snd (take_word (c # r))) < length (c # r)"
    using take_word_length [of "c # r"] by (cases "fst (take_word (c # r))") auto
  also have "\<dots> \<le> length s"
    using strip_units_suffix [of ws_units s] assms suffix_length_le by (force simp: trim_left_def)
  finally show ?thesis .
qed

function str_fields :: "string \<Rightarrow> string list" where
  "str_fields s =
     (case trim_left s of
        [] \<Rightarrow> []
      | c # r \<Rightarrow> fst (take_word (c # r)) # str_fields (snd (take_word (c # r))))"
  by pat_completeness auto
termination
  by (relation "measure length") (auto simp del: take_word.simps intro: take_word_shorter)

declare str_fields.simps [simp del]

end
