(* ===== verification/Cron.thy ===== *)
theory Cron
  imports Integers
begin

text \<open>
  Cron expressions and their next fire time: \<^verbatim>\<open>internal/calendar/cron.go\<close>.

  The loop that lists the values of a range is \<open>step_values\<close>; its counter can wrap, so it is a
  partial function, None when it does not end.  An instant is a number of nanoseconds since 1970, the
  time zone a function from the second to its offset, and the fields of a date are computed in the
  proleptic Gregorian calendar, as the package \<^verbatim>\<open>time\<close> does.
\<close>

section \<open>Ranges\<close>

datatype range_error =
    BadStep string | BadStart string | BadEnd string | BadValue string | OutOfBounds int int

datatype cron_error = BadField nat range_error | BadCron string

text \<open>A computation that may not end, may fail, or gives a value.\<close>

definition and_then :: "('e + 'a) option \<Rightarrow> ('a \<Rightarrow> ('e + 'b) option) \<Rightarrow> ('e + 'b) option" where
  "and_then r f = (case r of None \<Rightarrow> None | Some (Inl e) \<Rightarrow> Some (Inl e) | Some (Inr x) \<Rightarrow> f x)"

partial_function (option) step_values :: "int \<Rightarrow> int \<Rightarrow> int \<Rightarrow> int list option" where
  "step_values step hi i =
     (if i \<le> hi
      then Option.bind (step_values step hi (wrap64 (i + step))) (\<lambda>vs. Some (i # vs))
      else Some [])"

declare step_values.simps [code]

datatype bounds = Single int | Span int int

definition parse_step :: "string option \<Rightarrow> range_error + int" where
  "parse_step st =
     (case st of
        None \<Rightarrow> Inr 0
      | Some s \<Rightarrow> (case atoi s of
                     None \<Rightarrow> Inl (BadStep s)
                   | Some n \<Rightarrow> if n \<le> 0 then Inl (BadStep s) else Inr n))"

definition parse_bounds :: "string \<Rightarrow> int \<Rightarrow> int \<Rightarrow> int \<Rightarrow> range_error + bounds" where
  "parse_bounds rp step mn mx =
     (if rp = ''*'' then Inr (Span mn mx)
      else case split_first (CHR ''-'') rp of
             (a, Some z) \<Rightarrow>
               (case atoi a of
                  None \<Rightarrow> Inl (BadStart a)
                | Some s \<Rightarrow> (case atoi z of None \<Rightarrow> Inl (BadEnd z) | Some n \<Rightarrow> Inr (Span s n)))
           | (_, None) \<Rightarrow>
               (case atoi rp of
                  None \<Rightarrow> Inl (BadValue rp)
                | Some n \<Rightarrow> if step = 0 then Inr (Single n) else Inr (Span n mx)))"

definition bounds_values :: "int \<Rightarrow> int \<Rightarrow> int \<Rightarrow> bounds \<Rightarrow> (range_error + int list) option" where
  "bounds_values mn mx step w =
     (case w of
        Single n \<Rightarrow> Some (Inr [n])
      | Span s n \<Rightarrow>
          if s < mn \<or> mx < n \<or> n < s then Some (Inl (OutOfBounds s n))
          else map_option Inr (step_values (if step = 0 then 1 else step) n s))"

definition parse_range :: "string \<Rightarrow> int \<Rightarrow> int \<Rightarrow> (range_error + int list) option" where
  "parse_range part mn mx =
     (let (rp, st) = split_first (CHR ''/'') part in
        and_then (Some (parse_step st)) (\<lambda>step.
          and_then (Some (parse_bounds rp step mn mx)) (bounds_values mn mx step)))"

fun parse_parts :: "int \<Rightarrow> int \<Rightarrow> string list \<Rightarrow> (range_error + int list) option" where
  "parse_parts mn mx [] = Some (Inr [])"
| "parse_parts mn mx (p # ps) =
     and_then (parse_range p mn mx) (\<lambda>vs.
       and_then (parse_parts mn mx ps) (\<lambda>ws. Some (Inr (vs @ ws))))"

definition parse_field :: "string \<Rightarrow> int \<Rightarrow> int \<Rightarrow> (range_error + int list) option" where
  "parse_field f mn mx =
     (if f = ''*'' then Some (Inr []) else parse_parts mn mx (split_on (CHR '','') f))"

section \<open>Expressions\<close>

record cron =
  c_minutes :: "int list"
  c_hours :: "int list"
  c_dom :: "int list"
  c_months :: "int list"
  c_dow :: "int list"

definition at_hours :: "int list \<Rightarrow> cron" where
  "at_hours hs = \<lparr> c_minutes = [0], c_hours = hs, c_dom = [], c_months = [], c_dow = [] \<rparr>"

definition shorthand :: "string \<Rightarrow> int option" where
  "shorthand x =
     (if suffix ''h'' x then
        (case atoi (butlast x) of
           Some n \<Rightarrow> if 0 < n \<and> n \<le> 24 then Some n else None
         | None \<Rightarrow> None)
      else None)"

definition field_at :: "nat \<Rightarrow> string list \<Rightarrow> int \<Rightarrow> int \<Rightarrow> (cron_error + int list) option" where
  "field_at k fs mn mx = map_option (map_sum (BadField k) id) (parse_field (fs ! k) mn mx)"

definition parse_five :: "string list \<Rightarrow> (cron_error + cron) option" where
  "parse_five fs =
     and_then (field_at 0 fs 0 59) (\<lambda>m.
     and_then (field_at 1 fs 0 23) (\<lambda>h.
     and_then (field_at 2 fs 1 31) (\<lambda>d.
     and_then (field_at 3 fs 1 12) (\<lambda>mo.
     and_then (field_at 4 fs 0 6) (\<lambda>w.
       Some (Inr \<lparr> c_minutes = m, c_hours = h, c_dom = d, c_months = mo, c_dow = w \<rparr>))))))"

definition parse_cron :: "string \<Rightarrow> (cron_error + cron) option" where
  "parse_cron expr0 =
     (let x = trim_space (to_lower expr0) in
        if x = ''daily'' then Some (Inr (at_hours [9]))
        else if x = ''hourly'' then Some (Inr (at_hours []))
        else case shorthand x of
               Some n \<Rightarrow> map_option (\<lambda>hs. Inr (at_hours hs)) (step_values n 23 0)
             | None \<Rightarrow> if length (str_fields x) \<noteq> 5 then Some (Inl (BadCron x)) else parse_five (str_fields x))"

section \<open>Dates\<close>

type_synonym zone = "int \<Rightarrow> int"

definition minute_ns :: int where
  "minute_ns = 60 * nanos_per_second"

definition local_seconds :: "zone \<Rightarrow> int \<Rightarrow> int" where
  "local_seconds tz t = t div nanos_per_second + tz (t div nanos_per_second)"

definition minute_of :: "zone \<Rightarrow> int \<Rightarrow> int" where
  "minute_of tz t = (local_seconds tz t div 60) mod 60"

definition hour_of :: "zone \<Rightarrow> int \<Rightarrow> int" where
  "hour_of tz t = (local_seconds tz t div 3600) mod 24"

definition local_day :: "zone \<Rightarrow> int \<Rightarrow> int" where
  "local_day tz t = local_seconds tz t div 86400"

definition weekday_of :: "zone \<Rightarrow> int \<Rightarrow> int" where
  "weekday_of tz t = (local_day tz t + 4) mod 7"

text \<open>Day of the year counted from 1 March, for a day counted from 1 January 1970.\<close>

definition march_day :: "int \<Rightarrow> int" where
  "march_day d =
     (let doe = (d + 719468) mod 146097;
          yoe = (doe - doe div 1460 + doe div 36524 - doe div 146096) div 365
      in doe - (365 * yoe + yoe div 4 - yoe div 100))"

definition march_month :: "int \<Rightarrow> int" where
  "march_month d = (5 * march_day d + 2) div 153"

definition civil_month :: "int \<Rightarrow> int" where
  "civil_month d = (if march_month d < 10 then march_month d + 3 else march_month d - 9)"

definition civil_day :: "int \<Rightarrow> int" where
  "civil_day d = march_day d - (153 * march_month d + 2) div 5 + 1"

section \<open>The next fire time\<close>

definition in_field :: "int list \<Rightarrow> int \<Rightarrow> bool" where
  "in_field vs v \<longleftrightarrow> vs = [] \<or> v \<in> set vs"

definition matches :: "zone \<Rightarrow> cron \<Rightarrow> int \<Rightarrow> bool" where
  "matches tz cs t \<longleftrightarrow>
     in_field (c_minutes cs) (minute_of tz t)
     \<and> in_field (c_hours cs) (hour_of tz t)
     \<and> in_field (c_months cs) (civil_month (local_day tz t))
     \<and> (if c_dom cs \<noteq> [] \<and> c_dow cs \<noteq> []
        then civil_day (local_day tz t) \<in> set (c_dom cs) \<or> weekday_of tz t \<in> set (c_dow cs)
        else in_field (c_dom cs) (civil_day (local_day tz t)) \<and> in_field (c_dow cs) (weekday_of tz t))"

text \<open>The zero value of \<^verbatim>\<open>time.Time\<close>, 1 January of the year 1.\<close>

definition zero_time :: int where
  "zero_time = - 62135596800 * nanos_per_second"

definition horizon :: "int \<Rightarrow> int" where
  "horizon after = after + 2 * 365 * 24 * 3600 * nanos_per_second"

function next_from :: "zone \<Rightarrow> cron \<Rightarrow> int \<Rightarrow> int \<Rightarrow> int" where
  "next_from tz cs limit t =
     (if t < limit
      then (if matches tz cs t then t else next_from tz cs limit (t + minute_ns))
      else zero_time)"
  by pat_completeness auto
termination
  by (relation "measure (\<lambda>(_, _, limit, t). nat (limit - t))")
    (simp_all add: minute_ns_def nanos_per_second_def)

declare next_from.simps [simp del]

definition next_fire :: "zone \<Rightarrow> cron \<Rightarrow> int \<Rightarrow> int" where
  "next_fire tz cs after =
     next_from tz cs (horizon after) (after - after mod minute_ns + minute_ns)"

end
