(* ===== verification/CronProps.thy ===== *)
theory CronProps
  imports Cron
begin

text \<open>
  The properties of cron expressions: parsing ends on every text although the counter of a range may
  wrap, a range yields the progression between its bounds, and the search finds the first matching
  minute; and the expressions the parser accepts although they never fire.
\<close>

section \<open>Ranges\<close>

definition progression :: "int \<Rightarrow> int \<Rightarrow> int \<Rightarrow> int set" where
  "progression step hi i = {x. i \<le> x \<and> x \<le> hi \<and> step dvd (x - i)}"

lemma progression_step:
  assumes "i \<le> hi" "0 < step"
  shows "progression step hi i = insert i (progression step hi (i + step))"
proof -
  have "x = i \<or> i + step \<le> x" if "i \<le> x" "step dvd (x - i)" for x
    using that zdvd_imp_le [of step "x - i"] by (cases "x = i") auto
  moreover have "step dvd (x - i) \<longleftrightarrow> step dvd (x - (i + step))" for x
    using dvd_add_triv_right_iff [of step "x - (i + step)"] by simp
  ultimately show ?thesis using assms by (auto simp: progression_def)
qed

text \<open>Without a wrap the loop lists the progression in ascending order.\<close>

lemma step_values_plain:
  assumes "0 < step" "hi + step \<le> max_int" "- max_int - 1 \<le> i"
  shows "\<exists>vs. step_values step hi i = Some vs \<and> set vs = progression step hi i \<and> sorted vs \<and> distinct vs"
  using assms(3)
proof (induction "nat (hi + 1 - i)" arbitrary: i rule: less_induct)
  case less
  show ?case
  proof (cases "i \<le> hi")
    case True
    have w: "wrap64 (i + step) = i + step" using assms True less.prems by (intro wrap64_id) auto
    obtain vs where vs: "step_values step hi (i + step) = Some vs"
      "set vs = progression step hi (i + step)" "sorted vs" "distinct vs"
      using less.hyps [of "i + step"] assms(1) True less.prems by auto
    have "\<forall>x\<in>set vs. i < x" using vs(2) assms(1) by (auto simp: progression_def)
    then have "sorted (i # vs)" "distinct (i # vs)" using vs by auto
    moreover have "set (i # vs) = progression step hi i"
      using progression_step [OF True assms(1)] vs(2) by simp
    ultimately show ?thesis using True w vs(1) by (subst step_values.simps) simp
  qed (subst step_values.simps, simp add: progression_def)
qed

text \<open>With a step close to the largest integer the counter wraps; it is lower after every second
  addition, so the loop still ends.\<close>

definition loop_level :: "int \<Rightarrow> int" where
  "loop_level i = (if i < - 4611686018427387904 then i + 9223372036854775808 else i)"

lemma step_values_wrapping:
  assumes "max_int - 59 < step" "step \<le> max_int" "hi \<le> 59" "- max_int - 1 \<le> i" "i \<le> hi"
  shows "\<exists>vs. step_values step hi i = Some vs"
  using assms(4,5)
proof (induction "nat (loop_level i + 4611686018427387904)" arbitrary: i rule: less_induct)
  case less
  let ?n = "wrap64 (i + step)"
  have "\<exists>vs. step_values step hi ?n = Some vs"
  proof (cases "?n \<le> hi")
    case True
    have n: "(?n = i + step \<and> i + step \<le> max_int) \<or> (?n = i + step - 18446744073709551616 \<and> max_int < i + step)"
      using wrap64_id [of "i + step"] wrap64_over [of "i + step"] less.prems assms
      by (cases "i + step \<le> max_int") (auto simp: max_int_def)
    then have "loop_level ?n < loop_level i" "- max_int - 1 \<le> ?n" "0 \<le> loop_level ?n + 4611686018427387904"
      using True less.prems assms by (auto simp: loop_level_def max_int_def split: if_splits)
    then show ?thesis using less.hyps [of ?n] True by simp
  qed (subst step_values.simps, simp)
  then show ?case using less.prems by (subst step_values.simps) auto
qed

lemma step_values_ends:
  assumes "0 < step" "step \<le> max_int" "hi \<le> 59" "- max_int - 1 \<le> i" "i \<le> hi"
  shows "\<exists>vs. step_values step hi i = Some vs"
proof (cases "hi + step \<le> max_int")
  case True
  then show ?thesis using step_values_plain [OF assms(1) True assms(4)] by blast
next
  case False
  then show ?thesis using assms by (intro step_values_wrapping) auto
qed

lemma atoi_bounds: "atoi s = Some n \<Longrightarrow> - max_int - 1 \<le> n \<and> n \<le> max_int"
  by (simp add: atoi_def Let_def split: if_splits)

lemma parse_step_bounds: "parse_step st = Inr n \<Longrightarrow> 0 \<le> n \<and> n \<le> max_int"
  using atoi_bounds
  by (force simp: parse_step_def max_int_def split: option.splits if_splits)

lemma and_then_ends:
  assumes "\<exists>x. r = Some x" "\<And>x. r = Some (Inr x) \<Longrightarrow> \<exists>y. f x = Some y"
  shows "\<exists>y. and_then r f = Some y"
  using assms by (cases r) (auto simp: and_then_def split: sum.split)

lemma bounds_values_ends:
  assumes "0 \<le> step" "step \<le> max_int" "0 \<le> mn" "mx \<le> 59"
  shows "\<exists>y. bounds_values mn mx step w = Some y"
proof (cases w)
  case (Span a z)
  have "\<exists>vs. step_values (if step = 0 then 1 else step) z a = Some vs" if "mn \<le> a" "z \<le> mx" "a \<le> z"
    using that assms by (intro step_values_ends) (auto simp: max_int_def)
  then show ?thesis using Span by (force simp: bounds_values_def)
qed (simp add: bounds_values_def)

lemma parse_range_ends:
  assumes "0 \<le> mn" "mx \<le> 59"
  shows "\<exists>y. parse_range p mn mx = Some y"
  unfolding parse_range_def Let_def case_prod_beta
  by (intro and_then_ends bounds_values_ends) (use assms parse_step_bounds in auto)

lemma parse_field_ends:
  assumes "0 \<le> mn" "mx \<le> 59"
  shows "\<exists>y. parse_field f mn mx = Some y"
proof -
  have "\<exists>y. parse_parts mn mx ps = Some y" for ps
  proof (induction ps)
    case (Cons p ps)
    then show ?case using parse_range_ends [OF assms, of p] by (auto intro!: and_then_ends)
  qed simp
  then show ?thesis by (simp add: parse_field_def)
qed

lemma field_at_ends: "0 \<le> mn \<Longrightarrow> mx \<le> 59 \<Longrightarrow> \<exists>y. field_at k fs mn mx = Some y"
  using parse_field_ends by (force simp: field_at_def)

text \<open>C36. Parsing a cron expression ends on every text: whatever steps and bounds it names, each loop
  over a range stops, although its 64-bit counter can pass the largest integer and start again from
  the smallest one.\<close>

theorem parse_cron_ends: "\<exists>r. parse_cron expr = Some r"
proof -
  have s: "\<exists>vs. step_values n 23 0 = Some vs" if "shorthand x = Some n" for x n
  proof (rule step_values_ends)
    show "0 < n" "n \<le> max_int"
      using that by (auto simp: shorthand_def max_int_def split: if_splits option.splits)
  qed (simp_all add: max_int_def)
  have f: "\<exists>y. parse_five fs = Some y" for fs
    unfolding parse_five_def by (intro and_then_ends field_at_ends) simp_all
  show ?thesis
    using s f by (fastforce simp: parse_cron_def Let_def split: option.split)
qed

text \<open>A range of a cron field stays within the bounds of the field.  When a part that is not a bare
  number parses and its step does not reach past the largest integer, its values are exactly the
  numbers from its start to its end in steps, in ascending order, and all of them are legal for the
  field.\<close>

theorem cron_range_bounded:
  assumes "parse_range p mn mx = Some (Inr vs)" "0 \<le> mn"
    and "parse_step (snd (split_first (CHR ''/'') p)) = Inr step" "mx + max 1 step \<le> max_int"
    and "parse_bounds (fst (split_first (CHR ''/'') p)) step mn mx = Inr (Span a z)"
  shows "set vs = progression (max 1 step) z a \<and> sorted vs \<and> (\<forall>v\<in>set vs. mn \<le> v \<and> v \<le> mx)"
proof -
  have st: "0 \<le> step" using parse_step_bounds [OF assms(3)] by simp
  have m: "(if step = 0 then 1 else step) = max 1 step" using st by auto
  have b: "bounds_values mn mx step (Span a z) = Some (Inr vs)"
    using assms(1,3,5) by (simp add: parse_range_def and_then_def case_prod_beta Let_def)
  then have r: "mn \<le> a" "z \<le> mx" and v: "step_values (max 1 step) z a = Some vs"
    by (auto simp: bounds_values_def m split: if_splits)
  obtain ws where "step_values (max 1 step) z a = Some ws" "set ws = progression (max 1 step) z a" "sorted ws"
  proof -
    have "0 < max 1 step" "z + max 1 step \<le> max_int" "- max_int - 1 \<le> a"
      using r assms(2,4) by (auto simp: max_int_def)
    then show ?thesis using that step_values_plain by blast
  qed
  then show ?thesis using v r by (auto simp: progression_def)
qed

theorem cron_range_bounded_witness: "set [5 :: int, 20, 35, 50] = progression 15 59 5"
proof -
  have "parse_range ''5/15'' 0 59 = Some (Inr [5, 20, 35, 50])" by code_simp
  moreover have "parse_step (snd (split_first (CHR ''/'') ''5/15'')) = Inr 15"
    "parse_bounds (fst (split_first (CHR ''/'') ''5/15'')) 15 0 59 = Inr (Span 5 59)"
    by code_simp+
  moreover have "(59 :: int) + max 1 15 \<le> max_int" by (simp add: max_int_def)
  ultimately have "set [5, 20, 35, 50] = progression (max 1 15) 59 5"
    using cron_range_bounded [of "''5/15''" 0 59 "[5, 20, 35, 50]" 15 5 59] by blast
  then show ?thesis by simp
qed

section \<open>The next fire time\<close>

text \<open>A whole minute after the given instant that the schedule matches.\<close>

definition fires :: "zone \<Rightarrow> cron \<Rightarrow> int \<Rightarrow> int \<Rightarrow> bool" where
  "fires tz cs after u \<longleftrightarrow> minute_ns dvd u \<and> after < u \<and> matches tz cs u"

lemma minute_pos [simp]: "0 < minute_ns"
  by (simp add: minute_ns_def nanos_per_second_def)

definition idle :: "zone \<Rightarrow> cron \<Rightarrow> int \<Rightarrow> int \<Rightarrow> bool" where
  "idle tz cs t u \<longleftrightarrow> (\<forall>v. minute_ns dvd v \<longrightarrow> t \<le> v \<longrightarrow> v < u \<longrightarrow> \<not> matches tz cs v)"

lemma idle_step:
  assumes "minute_ns dvd t" "\<not> matches tz cs t" "idle tz cs (t + minute_ns) u"
  shows "idle tz cs t u"
  unfolding idle_def
proof (intro allI impI)
  fix v assume v: "minute_ns dvd v" "t \<le> v" "v < u"
  show "\<not> matches tz cs v"
  proof (cases "v = t")
    case False
    then have "minute_ns \<le> v - t" using v assms(1) by (intro zdvd_imp_le dvd_diff) auto
    then show ?thesis using assms(3) v by (simp add: idle_def)
  qed (use assms(2) in simp)
qed

lemma next_from_spec:
  assumes "minute_ns dvd t" "next_from tz cs limit t = n"
  shows "minute_ns dvd n \<and> t \<le> n \<and> n < limit \<and> matches tz cs n \<and> idle tz cs t n
    \<or> n = zero_time \<and> idle tz cs t limit"
  using assms
proof (induction tz cs limit t rule: next_from.induct)
  case (1 tz cs limit t)
  consider "\<not> t < limit" | "t < limit" "matches tz cs t" | "t < limit" "\<not> matches tz cs t" by blast
  then show ?case
  proof cases
    case 1
    then show ?thesis using "1.prems" by (simp add: next_from.simps [of tz cs limit t] idle_def)
  next
    case 2
    then show ?thesis using "1.prems" by (simp add: next_from.simps [of tz cs limit t] idle_def)
  next
    case 3
    have d: "minute_ns dvd (t + minute_ns)" using "1.prems" by simp
    have n: "next_from tz cs limit (t + minute_ns) = n"
      using "1.prems"(2) 3 by (simp add: next_from.simps [of tz cs limit t])
    have "t + minute_ns \<le> n \<Longrightarrow> t \<le> n" using minute_pos by linarith
    then show ?thesis using "1.IH" [OF 3 d n] idle_step [OF "1.prems"(1) 3(2)] by blast
  qed
qed

lemma first_minute:
  "minute_ns dvd (a - a mod minute_ns + minute_ns)"
  "minute_ns dvd u \<Longrightarrow> (a - a mod minute_ns + minute_ns \<le> u) = (a < u)"
proof -
  show "minute_ns dvd (a - a mod minute_ns + minute_ns)" by (simp add: minus_mod_eq_mult_div)
  assume "minute_ns dvd u"
  then obtain k where u: "u = minute_ns * k" by blast
  have a: "a = minute_ns * (a div minute_ns) + a mod minute_ns" by simp
  have m: "0 \<le> a mod minute_ns" "a mod minute_ns < minute_ns" by simp_all
  have "a < u \<longleftrightarrow> a div minute_ns < k"
  proof
    assume "a < u"
    then have "minute_ns * (a div minute_ns) < minute_ns * k" using a m u by linarith
    then show "a div minute_ns < k" using mult_less_cancel_left_pos [OF minute_pos] by blast
  next
    assume "a div minute_ns < k"
    then have "minute_ns * (a div minute_ns + 1) \<le> minute_ns * k"
      by (intro mult_left_mono less_imp_le [OF minute_pos]) simp
    then have "minute_ns * (a div minute_ns) + minute_ns \<le> u" by (simp add: distrib_left u)
    then show "a < u" using a m by linarith
  qed
  also have "\<dots> \<longleftrightarrow> minute_ns * (a div minute_ns + 1) \<le> minute_ns * k"
    using mult_le_cancel_left_pos [OF minute_pos] by (simp only: add1_zle_eq)
  also have "\<dots> \<longleftrightarrow> a - a mod minute_ns + minute_ns \<le> u"
    unfolding u minus_mod_eq_mult_div by (simp add: distrib_left)
  finally show "(a - a mod minute_ns + minute_ns \<le> u) = (a < u)" by simp
qed

lemma next_fire_cases:
  "(fires tz cs a (next_fire tz cs a) \<and> next_fire tz cs a < horizon a
      \<and> (\<forall>v. fires tz cs a v \<longrightarrow> next_fire tz cs a \<le> v))
   \<or> (next_fire tz cs a = zero_time \<and> (\<forall>v. fires tz cs a v \<longrightarrow> horizon a \<le> v))"
proof -
  let ?f = "a - a mod minute_ns + minute_ns"
  have m: "?f \<le> u \<longleftrightarrow> a < u" if "minute_ns dvd u" for u using first_minute(2) [OF that] .
  have idle: "u \<le> v" if "idle tz cs ?f u" "fires tz cs a v" for u v
    using that m [of v] by (auto simp: idle_def fires_def not_less)
  from next_from_spec [OF first_minute(1) refl, of tz cs "horizon a" a]
  show ?thesis
  proof
    assume "next_from tz cs (horizon a) ?f = zero_time \<and> idle tz cs ?f (horizon a)"
    then show ?thesis unfolding next_fire_def using idle by blast
  next
    let ?n = "next_from tz cs (horizon a) ?f"
    assume n: "minute_ns dvd ?n \<and> ?f \<le> ?n \<and> ?n < horizon a \<and> matches tz cs ?n \<and> idle tz cs ?f ?n"
    then have "fires tz cs a ?n" using m [of ?n] by (simp add: fires_def)
    then show ?thesis unfolding next_fire_def using n idle by blast
  qed
qed

text \<open>The search finds the first matching minute.  When some whole minute after the given instant and
  within two years of it matches the schedule, the next fire time is such a minute and no matching
  minute lies before it; when there is none it is the zero time.\<close>

theorem next_fire_least:
  "if \<exists>u. fires tz cs a u \<and> u < horizon a
   then fires tz cs a (next_fire tz cs a) \<and> (\<forall>v\<in>{v. fires tz cs a v}. next_fire tz cs a \<le> v)
   else next_fire tz cs a = zero_time"
  using next_fire_cases [of tz cs a] by fastforce

theorem next_fire_least_witness:
  "next_fire (\<lambda>_. 0) (at_hours [9]) 0 \<le> 32400 * nanos_per_second"
proof -
  have "minute_ns dvd 32400 * nanos_per_second"
    by (rule dvdI [of _ _ 540]) (simp add: minute_ns_def nanos_per_second_def)
  moreover have h: "matches (\<lambda>_. 0) (at_hours [9]) (32400 * nanos_per_second)" "0 < 32400 * nanos_per_second"
    "32400 * nanos_per_second < horizon 0" by code_simp+
  ultimately have f: "fires (\<lambda>_. 0) (at_hours [9]) 0 (32400 * nanos_per_second)" by (simp add: fires_def)
  with h(3) have "\<exists>u. fires (\<lambda>_. 0) (at_hours [9]) 0 u \<and> u < horizon 0" by blast
  then show ?thesis using next_fire_least [of "\<lambda>_. 0" "at_hours [9]" 0] f by simp
qed

section \<open>Schedules that fire\<close>

definition day_ns :: int where
  "day_ns = 1440 * minute_ns"

lemma minute_index:
  shows "minute_of (\<lambda>_. off) (minute_ns * k) = (k + off div 60) mod 1440 mod 60"
    and "hour_of (\<lambda>_. off) (minute_ns * k) = (k + off div 60) mod 1440 div 60"
proof -
  have s: "local_seconds (\<lambda>_. off) (minute_ns * k) = 60 * k + off"
    by (simp add: local_seconds_def minute_ns_def nanos_per_second_def)
  have d: "(60 * k + off) div 60 = k + off div 60" by simp
  then show "minute_of (\<lambda>_. off) (minute_ns * k) = (k + off div 60) mod 1440 mod 60"
    by (simp add: minute_of_def s mod_mod_cancel)
  have "(60 * k + off) div 3600 = (60 * k + off) div 60 div 60" by (simp add: zdiv_zmult2_eq [symmetric])
  moreover have "(x mod 1440) div 60 = (x div 60) mod 24" for x :: int
    using zmod_zmult2_eq [of 24 x 60] by simp
  ultimately show "hour_of (\<lambda>_. off) (minute_ns * k) = (k + off div 60) mod 1440 div 60"
    by (simp add: hour_of_def s d)
qed

lemma daily_minute:
  assumes "0 \<le> h" "h < 24" "0 \<le> m" "m < 60"
  shows "\<exists>u. minute_ns dvd u \<and> a < u \<and> u \<le> a + day_ns
    \<and> minute_of (\<lambda>_. off) u = m \<and> hour_of (\<lambda>_. off) u = h"
proof -
  let ?n = "minute_ns" and ?g = "60 * h + m"
  let ?q = "a div ?n + 1"
  let ?k = "?q + (?g - (?q + off div 60)) mod 1440"
  have a: "a = ?n * (a div ?n) + a mod ?n" "0 \<le> a mod ?n" "a mod ?n < ?n" by simp_all
  have "0 \<le> (?g - (?q + off div 60)) mod 1440" "(?g - (?q + off div 60)) mod 1440 < 1440" by simp_all
  then have k: "?q \<le> ?k" "?k \<le> a div ?n + 1440" by linarith+
  have e: "?k + off div 60 = (?q + off div 60) + (?g - (?q + off div 60)) mod 1440" by linarith
  have "(?k + off div 60) mod 1440 = ((?q + off div 60) + (?g - (?q + off div 60))) mod 1440"
    by (subst e) (rule mod_add_right_eq)
  also have "\<dots> = ?g" using assms by simp
  finally have g: "(?k + off div 60) mod 1440 = ?g" .
  have lo: "?n * ?q \<le> ?n * ?k" by (rule mult_left_mono [OF k(1)]) (simp add: less_imp_le)
  have hi: "?n * ?k \<le> ?n * (a div ?n + 1440)" by (rule mult_left_mono [OF k(2)]) (simp add: less_imp_le)
  have "?n * (a div ?n) + ?n = ?n * ?q" by (simp add: distrib_left)
  then have "a < ?n * ?q" using a by linarith
  then have "a < ?n * ?k" using lo by linarith
  moreover have "?n * (a div ?n + 1440) = ?n * (a div ?n) + day_ns" by (simp add: distrib_left day_ns_def)
  then have "?n * ?k \<le> a + day_ns" using hi a by linarith
  moreover have "minute_of (\<lambda>_. off) (?n * ?k) = m" "hour_of (\<lambda>_. off) (?n * ?k) = h"
    unfolding minute_index g using assms by simp_all
  ultimately show ?thesis by (meson dvd_triv_left)
qed

text \<open>The named schedules fire every day.  \<open>daily\<close>, \<open>hourly\<close> and \<open>Nh\<close> parse, and in a zone of constant
  offset the next fire time of each of them lies after the given instant and at most 24 hours later.\<close>

theorem shorthand_fires:
  assumes "trim_space (to_lower expr) \<in> {''daily'', ''hourly''} \<or> shorthand (trim_space (to_lower expr)) \<noteq> None"
  shows "\<exists>cs. parse_cron expr = Some (Inr cs)
    \<and> a < next_fire (\<lambda>_. off) cs a \<and> next_fire (\<lambda>_. off) cs a \<le> a + day_ns"
proof -
  have f: "a < next_fire (\<lambda>_. off) (at_hours hs) a \<and> next_fire (\<lambda>_. off) (at_hours hs) a \<le> a + day_ns"
    if h: "0 \<le> h" "h < 24" "in_field hs h" for hs h
  proof -
    obtain u where u: "minute_ns dvd u" "a < u" "u \<le> a + day_ns" "minute_of (\<lambda>_. off) u = 0"
      "hour_of (\<lambda>_. off) u = h"
      using daily_minute [of h 0 a off] h by auto
    then have fu: "fires (\<lambda>_. off) (at_hours hs) a u"
      using h(3) by (simp add: fires_def matches_def at_hours_def in_field_def)
    have "a + day_ns < horizon a"
      by (simp add: day_ns_def horizon_def minute_ns_def nanos_per_second_def)
    then have "\<not> horizon a \<le> u" using u(3) by linarith
    then have n: "fires (\<lambda>_. off) (at_hours hs) a (next_fire (\<lambda>_. off) (at_hours hs) a)"
      "next_fire (\<lambda>_. off) (at_hours hs) a \<le> u"
      using next_fire_cases [of "\<lambda>_. off" "at_hours hs" a] fu by blast+
    then show ?thesis using u(3) unfolding fires_def by linarith
  qed
  let ?x = "trim_space (to_lower expr)"
  consider (daily) "?x = ''daily''" | (hourly) "?x = ''hourly''"
    | (nh) n where "shorthand ?x = Some n" "?x \<noteq> ''daily''" "?x \<noteq> ''hourly''"
  proof (cases "?x = ''daily'' \<or> ?x = ''hourly''")
    case False
    then have "?x \<notin> {''daily'', ''hourly''}" by simp
    then obtain n where "shorthand ?x = Some n" using assms by blast
    then show ?thesis using False that(3) by blast
  qed (use that in blast)
  then show ?thesis
  proof cases
    case daily
    then show ?thesis using f [of 9 "[9]"] by (simp add: parse_cron_def in_field_def)
  next
    case hourly
    then show ?thesis using f [of 0 "[]"] by (simp add: parse_cron_def in_field_def)
  next
    case nh
    then have "0 < n" "n \<le> 24" by (auto simp: shorthand_def split: if_splits option.splits)
    then obtain hs where "step_values n 23 0 = Some hs" "set hs = progression n 23 0"
      using step_values_plain [of n 23 0] by (auto simp: max_int_def)
    then show ?thesis using f [of 0 hs] nh by (simp add: parse_cron_def in_field_def progression_def)
  qed
qed

theorem shorthand_fires_witness:
  "\<exists>cs. parse_cron '' 4H '' = Some (Inr cs) \<and> 0 < next_fire (\<lambda>_. 3600) cs 0 \<and> next_fire (\<lambda>_. 3600) cs 0 \<le> day_ns"
proof -
  have "shorthand (trim_space (to_lower '' 4H '')) \<noteq> None" by code_simp
  then show ?thesis using shorthand_fires [of "'' 4H ''" 0 3600] by simp
qed

end
