(* ===== verification/Calendar.thy ===== *)
theory Calendar
  imports CronProps
begin

text \<open>
  The schedules of the bots: \<^verbatim>\<open>internal/calendar/store.go\<close> and \<^verbatim>\<open>types.go\<close>.

  The store keeps its data in memory and writes the whole of it to one file after each change; a write
  succeeds or fails (\<open>write\<close>), and the file then holds the data of the last successful write.  The
  JSON text and the choice of the path are left out.  One reading of the clock stands for the calls of
  \<^verbatim>\<open>time.Now\<close> in one operation.  \<^verbatim>\<open>sort.Slice\<close> is not stable; the keys of the list of schedules are
  distinct, and the events of a week are stated up to the order of events at one instant.
\<close>

record schedule_entry =
  se_bot :: string
  se_expr :: string
  se_description :: string
  se_enabled :: bool
  se_next :: int

datatype event_status = StatusPending | StatusFired | StatusMissed

record calendar_event =
  ce_bot :: string
  ce_at :: int
  ce_fired :: int
  ce_status :: event_status

record calendar_data =
  cd_schedules :: "schedule_entry list"
  cd_events :: "calendar_event list"

record calendar_store =
  cal_data :: calendar_data
  cal_file :: "calendar_data option"

definition open_calendar :: "calendar_data option \<Rightarrow> calendar_store" where
  "open_calendar file =
     \<lparr> cal_data = (case file of Some d \<Rightarrow> d | None \<Rightarrow> \<lparr> cd_schedules = [], cd_events = [] \<rparr>),
       cal_file = file \<rparr>"

definition save_calendar :: "(calendar_data \<Rightarrow> bool) \<Rightarrow> calendar_store \<Rightarrow> bool \<times> calendar_store" where
  "save_calendar write st =
     (if write (cal_data st) then (True, st\<lparr> cal_file := Some (cal_data st) \<rparr>) else (False, st))"

definition with_schedules :: "(schedule_entry list \<Rightarrow> schedule_entry list) \<Rightarrow> calendar_store \<Rightarrow> calendar_store" where
  "with_schedules f st =
     st\<lparr> cal_data := (cal_data st)\<lparr> cd_schedules := f (cd_schedules (cal_data st)) \<rparr> \<rparr>"

definition remove_schedule :: "(calendar_data \<Rightarrow> bool) \<Rightarrow> string \<Rightarrow> calendar_store \<Rightarrow> calendar_store" where
  "remove_schedule write slug st =
     snd (save_calendar write (with_schedules (filter (\<lambda>x. se_bot x \<noteq> slug)) st))"

datatype add_error = BadExpr cron_error | WriteFailed

text \<open>None when the parser does not return.\<close>

definition add_schedule ::
  "(calendar_data \<Rightarrow> bool) \<Rightarrow> zone \<Rightarrow> int \<Rightarrow> string \<Rightarrow> string \<Rightarrow> string \<Rightarrow> calendar_store
     \<Rightarrow> ((add_error + unit) \<times> calendar_store) option" where
  "add_schedule write tz now slug expr desc st =
     (case parse_cron expr of
        None \<Rightarrow> None
      | Some (Inl k) \<Rightarrow> Some (Inl (BadExpr k), st)
      | Some (Inr cs) \<Rightarrow>
          let x = \<lparr> se_bot = slug, se_expr = expr, se_description = desc, se_enabled = True,
                    se_next = next_fire tz cs now \<rparr>;
              (ok, st') = save_calendar write
                (with_schedules (\<lambda>xs. xs @ [x]) (remove_schedule write slug st))
          in Some (if ok then Inr () else Inl WriteFailed, st'))"

definition list_schedules :: "calendar_store \<Rightarrow> schedule_entry list" where
  "list_schedules st = sort_key se_bot (cd_schedules (cal_data st))"

section \<open>The events of a week\<close>

lemma next_fire_later:
  assumes "next_fire tz cs t \<noteq> zero_time"
  shows "t < next_fire tz cs t"
  using next_fire_cases [of tz cs t] assms by (auto simp: fires_def)

function week_times :: "zone \<Rightarrow> cron \<Rightarrow> int \<Rightarrow> int \<Rightarrow> int list" where
  "week_times tz cs stop t =
     (if t < stop
      then t # (if next_fire tz cs t = zero_time then [] else week_times tz cs stop (next_fire tz cs t))
      else [])"
  by pat_completeness auto
termination
  by (relation "measure (\<lambda>(_, _, stop, t). nat (stop - t))") (use next_fire_later in auto)

declare week_times.simps [simp del]

definition week_ns :: int where
  "week_ns = 7 * 24 * 3600 * nanos_per_second"

definition entry_times :: "zone \<Rightarrow> int \<Rightarrow> cron \<Rightarrow> int list" where
  "entry_times tz start cs =
     week_times tz cs (start + week_ns) (next_fire tz cs (start - minute_ns))"

definition event_at :: "int \<Rightarrow> string \<Rightarrow> int \<Rightarrow> calendar_event" where
  "event_at now slug t =
     \<lparr> ce_bot = slug, ce_at = t, ce_fired = zero_time,
       ce_status = (if t < now then StatusMissed else StatusPending) \<rparr>"

definition entry_events :: "zone \<Rightarrow> int \<Rightarrow> int \<Rightarrow> schedule_entry \<Rightarrow> calendar_event list" where
  "entry_events tz now start x =
     (if \<not> se_enabled x then []
      else case parse_cron (se_expr x) of
             Some (Inr cs) \<Rightarrow> map (event_at now (se_bot x)) (entry_times tz start cs)
           | _ \<Rightarrow> [])"

definition events_for_week :: "zone \<Rightarrow> int \<Rightarrow> int \<Rightarrow> calendar_store \<Rightarrow> calendar_event list" where
  "events_for_week tz now start st =
     sort_key ce_at (concat (map (entry_events tz now start) (cd_schedules (cal_data st))))"

section \<open>Properties of the store\<close>

definition scheduled_bots :: "calendar_store \<Rightarrow> string list" where
  "scheduled_bots st = map se_bot (cd_schedules (cal_data st))"

definition one_each :: "calendar_store \<Rightarrow> bool" where
  "one_each st \<longleftrightarrow> distinct (scheduled_bots st)"

lemma save_store_data [simp]: "cal_data (snd (save_calendar write st)) = cal_data st"
  by (simp add: save_calendar_def)

lemma save_store_result [simp]:
  "fst (save_calendar write st) = write (cal_data st)"
  "write (cal_data st) \<Longrightarrow> cal_file (snd (save_calendar write st)) = Some (cal_data st)"
  by (simp_all add: save_calendar_def)

lemma with_schedules_data [simp]:
  "cd_schedules (cal_data (with_schedules f st)) = f (cd_schedules (cal_data st))"
  by (simp add: with_schedules_def)

lemma remove_schedule_list [simp]:
  "cd_schedules (cal_data (remove_schedule write slug st)) =
     filter (\<lambda>x. se_bot x \<noteq> slug) (cd_schedules (cal_data st))"
  by (simp add: remove_schedule_def)

text \<open>Adding a schedule that parses leaves exactly one for its bot.  Whatever the writes to the file
  do, the call returns, leaves the schedules of the other bots as they were, drops the earlier ones of
  this bot and lists the new one last, enabled and with its next fire time; it reports success exactly
  when the file holds the new data, and a store with at most one schedule for each bot stays one.\<close>

theorem add_schedule_exact:
  assumes "parse_cron expr = Some (Inr cs)"
  shows "\<exists>r st'. add_schedule write tz now slug expr desc st = Some (r, st')
     \<and> cd_schedules (cal_data st') =
         filter (\<lambda>x. se_bot x \<noteq> slug) (cd_schedules (cal_data st))
         @ [\<lparr> se_bot = slug, se_expr = expr, se_description = desc, se_enabled = True,
               se_next = next_fire tz cs now \<rparr>]
     \<and> (r = Inr () \<longleftrightarrow> write (cal_data st'))
     \<and> (r = Inr () \<longrightarrow> cal_file st' = Some (cal_data st'))
     \<and> (one_each st \<longrightarrow> one_each st')"
proof -
  let ?x = "\<lparr> se_bot = slug, se_expr = expr, se_description = desc, se_enabled = True,
               se_next = next_fire tz cs now \<rparr>"
  let ?st = "with_schedules (\<lambda>xs. xs @ [?x]) (remove_schedule write slug st)"
  have r: "add_schedule write tz now slug expr desc st =
      Some (if fst (save_calendar write ?st) then Inr () else Inl WriteFailed, snd (save_calendar write ?st))"
    using assms by (simp add: add_schedule_def case_prod_beta Let_def)
  have l: "cd_schedules (cal_data (snd (save_calendar write ?st))) =
      filter (\<lambda>x. se_bot x \<noteq> slug) (cd_schedules (cal_data st)) @ [?x]" by simp
  have o: "one_each st \<longrightarrow> one_each (snd (save_calendar write ?st))"
    unfolding one_each_def scheduled_bots_def l by (auto simp: distinct_map inj_on_def)
  show ?thesis
    by (intro exI conjI, rule r, rule l) (use o in auto)
qed

theorem add_schedule_exact_witness:
  "\<exists>r st'. add_schedule (\<lambda>_. True) (\<lambda>_. 0) 0 ''eng'' ''hourly'' [] (open_calendar None) = Some (r, st')
     \<and> map se_bot (cd_schedules (cal_data st')) = [''eng'']"
proof -
  have "parse_cron ''hourly'' = Some (Inr (at_hours []))" by code_simp
  from add_schedule_exact [OF this, of "\<lambda>_. True" "\<lambda>_. 0" 0 "''eng''" "[]" "open_calendar None"]
  show ?thesis by (auto simp: open_calendar_def)
qed

section \<open>Properties of the week\<close>

lemma week_times_set:
  assumes "zero_time \<le> t" "stop \<le> horizon t"
  shows "set (week_times tz cs stop t) = (if t < stop then insert t {u. fires tz cs t u \<and> u < stop} else {})
    \<and> sorted (week_times tz cs stop t) \<and> distinct (week_times tz cs stop t)"
  using assms
proof (induction tz cs stop t rule: week_times.induct)
  case (1 tz cs stop t)
  let ?n = "next_fire tz cs t"
  show ?case
  proof (cases "t < stop \<and> ?n \<noteq> zero_time")
    case True
    then have n: "fires tz cs t ?n" "\<And>v. fires tz cs t v \<Longrightarrow> ?n \<le> v"
      using next_fire_cases [of tz cs t] by blast+
    have t: "t < ?n" using n(1) by (simp add: fires_def)
    then have "zero_time \<le> ?n" "stop \<le> horizon ?n" using "1.prems" by (simp_all add: horizon_def)
    note ih = "1.IH" [OF conjunct1 [OF True] conjunct2 [OF True] this]
    have e: "{u. fires tz cs t u \<and> u < stop} =
        (if ?n < stop then insert ?n {u. fires tz cs ?n u \<and> u < stop} else {})"
      using n t by (force simp: fires_def)
    have w: "week_times tz cs stop t = t # week_times tz cs stop ?n"
      using True by (simp add: week_times.simps [of tz cs stop t])
    have m: "\<forall>u\<in>set (week_times tz cs stop ?n). t < u" using ih t by (auto simp: fires_def)
    then have "set (week_times tz cs stop t) = insert t {u. fires tz cs t u \<and> u < stop}"
      unfolding w e using ih by simp
    moreover have o: "sorted (week_times tz cs stop ?n)" "distinct (week_times tz cs stop ?n)" using ih by blast+
    have "t \<notin> set (week_times tz cs stop ?n)" "\<forall>u\<in>set (week_times tz cs stop ?n). t \<le> u"
      using m less_imp_le by blast+
    then have "sorted (week_times tz cs stop t) \<and> distinct (week_times tz cs stop t)"
      unfolding w using o by simp
    ultimately show ?thesis using True by simp
  next
    case False
    have "\<not> fires tz cs t u" if "t < stop" "u < stop" for u
    proof
      assume f: "fires tz cs t u"
      have "?n = zero_time" using False that by simp
      then have "horizon t \<le> u"
        using next_fire_cases [of tz cs t] "1.prems"(1) f by (auto simp: fires_def)
      then show False using that "1.prems"(2) by simp
    qed
    then show ?thesis using False by (auto simp: week_times.simps [of tz cs stop t])
  qed
qed

text \<open>C37. The week lists exactly the minutes that match.  For a schedule that fires within two years of
  the start, the times of its events are, in ascending order and without repetition, the whole minutes
  from one minute before the start (exclusive) to the end of the week (exclusive) that the schedule
  matches; searching from match to match gives what testing every minute of the week would.\<close>

theorem week_exact:
  assumes "zero_time \<le> start - minute_ns" "next_fire tz cs (start - minute_ns) \<noteq> zero_time"
  shows "entry_times tz start cs =
    sorted_list_of_set {u. minute_ns dvd u \<and> start - minute_ns < u \<and> u < start + week_ns \<and> matches tz cs u}"
proof -
  let ?a = "start - minute_ns" and ?s = "start + week_ns"
  let ?n = "next_fire tz cs ?a"
  have n: "fires tz cs ?a ?n" "\<And>v. fires tz cs ?a v \<Longrightarrow> ?n \<le> v"
    using next_fire_cases [of tz cs ?a] assms(2) by blast+
  have a: "?a < ?n" using n(1) by (simp add: fires_def)
  have "zero_time \<le> ?n" "?s \<le> horizon ?n"
    using a assms(1) by (simp_all add: horizon_def week_ns_def minute_ns_def nanos_per_second_def)
  note w = week_times_set [OF this, of tz cs]
  have "set (week_times tz cs ?s ?n) = {u. fires tz cs ?a u \<and> u < ?s}"
    using w n a by (force simp: fires_def)
  then have "set (week_times tz cs ?s ?n) =
      {u. minute_ns dvd u \<and> ?a < u \<and> u < ?s \<and> matches tz cs u}" by (auto simp: fires_def)
  then show ?thesis
    unfolding entry_times_def using w sorted_list_of_set.idem_if_sorted_distinct by metis
qed

text \<open>A schedule that never fires is accepted and shown in the year 1.  A bare number is not checked
  against the bounds of its field: minute 99 parses, the search finds nothing at any time in any zone,
  and the week then lists a missed event at the zero time.\<close>

theorem dead_schedule_listed:
  "\<exists>cs. parse_cron ''99 * * * *'' = Some (Inr cs)
    \<and> (\<forall>tz a. next_fire tz cs a = zero_time)
    \<and> entry_times tz (zero_time + week_ns) cs = [zero_time]"
proof -
  let ?cs = "\<lparr> c_minutes = [99], c_hours = [], c_dom = [], c_months = [], c_dow = [] \<rparr>"
  have "parse_cron ''99 * * * *'' = Some (Inr ?cs)" by code_simp
  moreover have n: "next_fire tz ?cs a = zero_time" for tz a
  proof -
    have "\<not> matches tz ?cs u" for u
    proof -
      have "minute_of tz u < 60" by (simp add: minute_of_def)
      then show ?thesis by (simp add: matches_def in_field_def)
    qed
    then show ?thesis using next_fire_cases [of tz ?cs a] by (auto simp: fires_def)
  qed
  moreover have "entry_times tz (zero_time + week_ns) ?cs = [zero_time]"
    by (simp add: entry_times_def week_times.simps n week_ns_def nanos_per_second_def)
  ultimately show ?thesis by blast
qed

theorem week_exact_witness:
  "entry_times (\<lambda>_. 0) 0 (at_hours [9]) =
     sorted_list_of_set {u. minute_ns dvd u \<and> 0 - minute_ns < u \<and> u < 0 + week_ns \<and> matches (\<lambda>_. 0) (at_hours [9]) u}"
proof (rule week_exact)
  show "zero_time \<le> 0 - minute_ns" by code_simp
  have "a < next_fire (\<lambda>_. 0) (at_hours [9]) a" if "a = - minute_ns" for a
  proof -
    have "minute_ns dvd 32400 * nanos_per_second"
      by (rule dvdI [of _ _ 540]) (simp add: minute_ns_def nanos_per_second_def)
    moreover have "matches (\<lambda>_. 0) (at_hours [9]) (32400 * nanos_per_second)"
      "- minute_ns < 32400 * nanos_per_second" "32400 * nanos_per_second < horizon (- minute_ns)" by code_simp+
    ultimately have "fires (\<lambda>_. 0) (at_hours [9]) a (32400 * nanos_per_second)"
      "\<not> horizon a \<le> 32400 * nanos_per_second" using that by (auto simp: fires_def)
    then show ?thesis using next_fire_cases [of "\<lambda>_. 0" "at_hours [9]" a] by (auto simp: fires_def)
  qed
  then have "- minute_ns < next_fire (\<lambda>_. 0) (at_hours [9]) (- minute_ns)" by blast
  moreover have "zero_time < - minute_ns" by code_simp
  ultimately show "next_fire (\<lambda>_. 0) (at_hours [9]) (0 - minute_ns) \<noteq> zero_time" by simp
qed

lemma leap_day:
  assumes "civil_month d = 2" "civil_day d = 29" "0 \<le> march_day d"
  shows "march_day d = 365"
proof -
  have "0 \<le> march_month d" using assms(3) by (simp add: march_month_def)
  then have "march_month d = 11" using assms(1) by (auto simp: civil_month_def split: if_splits)
  then show ?thesis using assms(2) by (simp add: civil_day_def)
qed

lemma no_leap_day:
  assumes "20148 \<le> d" "d \<le> 20878"
  shows "0 \<le> march_day d" "march_day d < 365"
proof -
  define x where "x = d - 11017"
  have e: "d + 719468 = x + 5 * 146097" by (simp add: x_def)
  have x: "9131 \<le> x" "x \<le> 9861" using assms by (simp_all add: x_def)
  then have m: "(d + 719468) mod 146097 = x" unfolding e by (subst mod_mult_self1) simp
  have q: "x div 1460 = 6" by (rule int_div_pos_eq [of _ _ _ "x - 8760"]) (use x in simp_all)
  have z: "x div 36524 = 0" "x div 146096 = 0" using x by (simp_all add: div_pos_pos_trivial)
  define y where "y = (x - 6) div 365"
  have v: "march_day d = x - (365 * y + y div 4 - y div 100)"
    unfolding march_day_def Let_def m q z y_def by simp
  have r: "365 * y \<le> x - 6" "x - 6 < 365 * y + 365" 
    using mult_div_mod_eq [of 365 "x - 6"] pos_mod_bound [of 365 "x - 6"] pos_mod_sign [of 365 "x - 6"]
    unfolding y_def by linarith+
  then consider "y = 25" | "y = 26" | "y = 27" using x by linarith
  then have "0 \<le> march_day d \<and> march_day d < 365" using v r x by cases simp_all
  then show "0 \<le> march_day d" "march_day d < 365" by simp_all
qed

text \<open>The search gives up too early.  A schedule for 29 February is valid, but from 1 March 2025 the
  next such day lies more than two years ahead: the next fire time is the zero time, and adding the
  schedule then stores it as enabled without a date.\<close>

theorem leap_day_missed:
  "\<exists>cs. parse_cron ''0 0 29 2 *'' = Some (Inr cs)
    \<and> next_fire (\<lambda>_. 0) cs (20148 * 86400 * nanos_per_second) = zero_time
    \<and> matches (\<lambda>_. 0) cs (21243 * 86400 * nanos_per_second)"
proof -
  let ?cs = "\<lparr> c_minutes = [0], c_hours = [0], c_dom = [29], c_months = [2], c_dow = [] \<rparr>"
  let ?a = "20148 * 86400 * nanos_per_second"
  have "parse_cron ''0 0 29 2 *'' = Some (Inr ?cs)" by code_simp
  moreover have "matches (\<lambda>_. 0) ?cs (21243 * 86400 * nanos_per_second)" by code_simp
  moreover have "next_fire (\<lambda>_. 0) ?cs ?a = zero_time"
  proof (rule ccontr)
    let ?n = "next_fire (\<lambda>_. 0) ?cs ?a"
    assume "?n \<noteq> zero_time"
    then have f: "fires (\<lambda>_. 0) ?cs ?a ?n" "?n < horizon ?a"
      using next_fire_cases [of "\<lambda>_. 0" ?cs ?a] by blast+
    let ?d = "local_day (\<lambda>_. 0) ?n"
    have r: "?a \<le> ?n" "?n \<le> horizon ?a" using f by (simp_all add: fires_def)
    have d: "local_day (\<lambda>_. 0) u = u div nanos_per_second div 86400" for u
      by (simp add: local_day_def local_seconds_def)
    have "local_day (\<lambda>_. 0) ?a \<le> ?d" "?d \<le> local_day (\<lambda>_. 0) (horizon ?a)"
      unfolding d by (intro zdiv_mono1 r; simp add: nanos_per_second_def)+
    moreover have "local_day (\<lambda>_. 0) ?a = 20148" "local_day (\<lambda>_. 0) (horizon ?a) = 20878" by code_simp+
    ultimately have "20148 \<le> ?d" "?d \<le> 20878" by (simp_all only: simp_thms)
    then have "\<not> (civil_month ?d = 2 \<and> civil_day ?d = 29)" using no_leap_day [of ?d] leap_day [of ?d] by force
    then show False using f(1) by (simp add: fires_def matches_def in_field_def)
  qed
  ultimately show ?thesis by blast
qed

end
