(* ===== verification/Spaces.thy ===== *)
theory Spaces
  imports Prelude "HOL-Library.Multiset"
begin

text \<open>
  Data spaces, part one: names, slugs, ids and access (\<^verbatim>\<open>internal/dataspace\<close>: \<^verbatim>\<open>ids.go\<close>, \<^verbatim>\<open>types.go\<close>
  and the space operations of \<^verbatim>\<open>spaces.go\<close>).

  The index database is a list of space rows.  Random ids come from a stream \<open>rnd\<close> of texts, of which
  the state counts how many it has drawn; a stamp of the clock is a text.  An error keeps its kind and
  the attribute it names, not its message.
\<close>

section \<open>Errors\<close>

datatype ds_error = DsInvalid string | DsNotFound | DsForbidden | DsFatal

section \<open>Slugs and names\<close>

definition slug_byte :: "char \<Rightarrow> bool" where
  "slug_byte c \<longleftrightarrow> (CHR ''a'' \<le> c \<and> c \<le> CHR ''z'') \<or> (CHR ''0'' \<le> c \<and> c \<le> CHR ''9'')"

text \<open>The scan of \<open>slugify\<close>: whether a gap is pending and whether something has been written.\<close>

fun slug_scan :: "bool \<Rightarrow> bool \<Rightarrow> string \<Rightarrow> string" where
  "slug_scan gap started [] = []"
| "slug_scan gap started (c # s) =
     (if slug_byte c
      then (if gap \<and> started then [CHR ''_'', c] else [c]) @ slug_scan False True s
      else slug_scan True started s)"

definition slugify :: "string \<Rightarrow> string \<Rightarrow> string" where
  "slugify name fallback =
     (let s = slug_scan False False (to_lower name) in if s = [] then fallback else s)"

definition suffixed :: "string \<Rightarrow> nat \<Rightarrow> string" where
  "suffixed base k = base @ ''_'' @ itoa (int k)"

lemma nat_digits_not_Nil [simp]: "nat_digits n \<noteq> []"
  by (subst nat_digits.simps) simp

lemma nat_digits_inj: "nat_digits m = nat_digits n \<Longrightarrow> m = n"
proof (induction m arbitrary: n rule: less_induct)
  case (less m)
  have one: "length (nat_digits k) = 1 \<longleftrightarrow> k < 10" for k
    by (subst nat_digits.simps) simp
  have c: "(char_of (48 + a) :: char) = char_of (48 + b) \<Longrightarrow> a = b" if "a < 10" "b < 10" for a b :: nat
  proof -
    assume "(char_of (48 + a) :: char) = char_of (48 + b)"
    then have "(of_char (char_of (48 + a) :: char) :: nat) = of_char (char_of (48 + b) :: char)" by simp
    then show "a = b" using that by simp
  qed
  show ?case
  proof (cases "m < 10")
    case True
    then have n: "n < 10" using one [of m] one [of n] less.prems by simp
    then have "(char_of (48 + m) :: char) = char_of (48 + n)"
      using True less.prems nat_digits.simps [of m] nat_digits.simps [of n] by simp
    then show ?thesis using c True n by blast
  next
    case False
    then have n: "\<not> n < 10" using one [of m] one [of n] less.prems by simp
    have e: "nat_digits (m div 10) @ [char_of (48 + m mod 10)] = nat_digits (n div 10) @ [char_of (48 + n mod 10)]"
      using False n less.prems nat_digits.simps [of m] nat_digits.simps [of n] by simp
    then have "nat_digits (m div 10) = nat_digits (n div 10)"
      and l: "(char_of (48 + m mod 10) :: char) = char_of (48 + n mod 10)" by simp_all
    then have d: "m div 10 = n div 10" using less.IH [of "m div 10"] False by simp
    have "m mod 10 < 10" "n mod 10 < 10" by simp_all
    then have "m mod 10 = n mod 10" using c l by blast
    then show ?thesis using d by (metis div_mult_mod_eq)
  qed
qed

lemma suffixed_inj: "suffixed base j = suffixed base k \<longleftrightarrow> j = k"
  using nat_digits_inj by (auto simp: suffixed_def itoa_def)

text \<open>The endless loop of \<open>uniqueSlug\<close>: it stops because only finitely many slugs are taken.\<close>

function unique_from :: "string \<Rightarrow> string list \<Rightarrow> nat \<Rightarrow> string" where
  "unique_from base taken k =
     (if suffixed base k \<in> set taken then unique_from base taken (Suc k) else suffixed base k)"
  by pat_completeness auto
termination
proof (relation "measure (\<lambda>(base, taken, k). card {j. k \<le> j \<and> suffixed base j \<in> set taken})")
  fix base taken k
  assume k: "suffixed base k \<in> set taken"
  have "inj_on (suffixed base) {j. k \<le> j \<and> suffixed base j \<in> set taken}"
    by (simp add: inj_on_def suffixed_inj)
  moreover have "suffixed base ` {j. k \<le> j \<and> suffixed base j \<in> set taken} \<subseteq> set taken" by auto
  ultimately have f: "finite {j. k \<le> j \<and> suffixed base j \<in> set taken}"
    using finite_subset finite_imageD by (metis List.finite_set)
  have "{j. Suc k \<le> j \<and> suffixed base j \<in> set taken} \<subset> {j. k \<le> j \<and> suffixed base j \<in> set taken}"
    using k le_eq_less_or_eq [of k k] by (intro psubsetI subsetI) (auto simp: set_eq_iff intro!: exI [of _ k])
  then show "((base, taken, Suc k), (base, taken, k)) \<in>
      measure (\<lambda>(base, taken, k). card {j. k \<le> j \<and> suffixed base j \<in> set taken})"
    using psubset_card_mono [OF f] by simp
qed simp

declare unique_from.simps [simp del]

definition unique_slug :: "string \<Rightarrow> string list \<Rightarrow> string" where
  "unique_slug base taken = (if base \<notin> set taken then base else unique_from base taken 2)"

definition same_name :: "string \<Rightarrow> string \<Rightarrow> bool" where
  "same_name a b \<longleftrightarrow> equal_fold (trim_space a) (trim_space b)"

definition clean_name :: "string \<Rightarrow> ds_error + string" where
  "clean_name raw = (if trim_space raw = [] then Inl (DsInvalid []) else Inr (trim_space raw))"

definition name_key :: "string \<Rightarrow> string" where
  "name_key s = to_lower (trim_space s)"

definition normalize_ds_actor :: "string \<Rightarrow> string" where
  "normalize_ds_actor s = to_lower (trim_space s)"

lemma same_name_key: "same_name a b \<longleftrightarrow> name_key a = name_key b"
  by (simp add: same_name_def name_key_def equal_fold_def)

lemma unique_from_fresh: "unique_from base taken k \<notin> set taken"
  by (induction base taken k rule: unique_from.induct) (subst unique_from.simps, simp)

lemma unique_slug_fresh [simp]: "unique_slug base taken \<notin> set taken"
  using unique_from_fresh by (simp add: unique_slug_def)

section \<open>Ids\<close>

definition hex16 :: "string \<Rightarrow> bool" where
  "hex16 s \<longleftrightarrow> length s = 16
     \<and> list_all (\<lambda>c. (CHR ''a'' \<le> c \<and> c \<le> CHR ''f'') \<or> (CHR ''0'' \<le> c \<and> c \<le> CHR ''9'')) s"

definition is_space_id :: "string \<Rightarrow> bool" where
  "is_space_id s \<longleftrightarrow> prefix ''space_'' s \<and> hex16 (drop 6 s)"

definition is_app_id :: "string \<Rightarrow> bool" where
  "is_app_id s \<longleftrightarrow> prefix ''app_'' s \<and> hex16 (drop 4 s)"

definition is_bot_slug :: "string \<Rightarrow> bool" where
  "is_bot_slug s \<longleftrightarrow> s \<noteq> [] \<and> slug_byte (hd s) \<and> list_all (\<lambda>c. slug_byte c \<or> c = CHR ''-'') s"

text \<open>The insertion sort of \<open>sortStrings\<close>; the sorted part is kept with its largest element first.\<close>

fun sift :: "string \<Rightarrow> string list \<Rightarrow> string list" where
  "sift x [] = [x]"
| "sift x (y # ys) = (if x < y then y # sift x ys else x # y # ys)"

definition sort_strings :: "string list \<Rightarrow> string list" where
  "sort_strings xs = rev (foldl (\<lambda>acc x. sift x acc) [] xs)"

lemma sift_mset: "mset (sift x ys) = add_mset x (mset ys)"
  by (induction ys) auto

lemma sift_set [simp]: "set (sift x ys) = insert x (set ys)"
  by (induction ys) auto

lemma sift_sorted: "sorted_wrt (\<ge>) ys \<Longrightarrow> sorted_wrt (\<ge>) (sift x ys)"
  by (induction ys) auto

lemma sort_strings_sort: "sort_strings xs = sort xs"
proof -
  have "mset (foldl (\<lambda>acc x. sift x acc) acc xs) = mset acc + mset xs \<and>
      sorted_wrt (\<ge>) (foldl (\<lambda>acc x. sift x acc) acc xs)" if "sorted_wrt (\<ge>) acc" for acc
    using that
  proof (induction xs arbitrary: acc)
    case (Cons x xs)
    then show ?case using Cons.IH [OF sift_sorted [OF Cons.prems]] by (simp add: sift_mset)
  qed simp
  from this [of "[]"] show ?thesis
    by (intro properties_for_sort [symmetric]) (simp_all add: sort_strings_def sorted_wrt_rev)
qed

section \<open>Access\<close>

datatype scope = ScopePrivate | ScopeShared | ScopeGlobal | ScopeOther string

datatype level = LevelNone | LevelRead | LevelWrite | LevelOther string

record grant =
  gr_bot :: string
  gr_level :: level

record access =
  ac_scope :: scope
  ac_grants :: "grant list"

text \<open>One grant into the map and the order of first mention.\<close>

definition record_grant :: "string \<Rightarrow> level \<Rightarrow> (string \<times> level) list \<Rightarrow> (string \<times> level) list" where
  "record_grant slug l acc =
     (if slug \<in> fst ` set acc then map (\<lambda>(s, k). if s = slug then (s, l) else (s, k)) acc
      else acc @ [(slug, l)])"

fun collect_grants ::
  "string \<Rightarrow> grant list \<Rightarrow> (string \<times> level) list \<Rightarrow> ds_error + (string \<times> level) list" where
  "collect_grants owner [] acc = Inr acc"
| "collect_grants owner (g # gs) acc =
     (let slug = to_lower (trim_space (gr_bot g)) in
        if \<not> is_bot_slug slug then Inl (DsInvalid [])
        else if gr_level g \<noteq> LevelRead \<and> gr_level g \<noteq> LevelWrite then Inl (DsInvalid [])
        else if slug = to_lower (trim_space owner) then collect_grants owner gs acc
        else collect_grants owner gs (record_grant slug (gr_level g) acc))"

definition normalize_access :: "string \<Rightarrow> access \<Rightarrow> ds_error + access" where
  "normalize_access owner a =
     (if ac_scope a = ScopePrivate \<or> ac_scope a = ScopeGlobal
      then Inr \<lparr> ac_scope = ac_scope a, ac_grants = [] \<rparr>
      else if ac_scope a \<noteq> ScopeShared then Inl (DsInvalid [])
      else case collect_grants owner (ac_grants a) [] of
             Inl k \<Rightarrow> Inl k
           | Inr by_bot \<Rightarrow>
               if by_bot = [] then Inr \<lparr> ac_scope = ScopePrivate, ac_grants = [] \<rparr>
               else Inr \<lparr> ac_scope = ScopeShared,
                          ac_grants = map (\<lambda>s. \<lparr> gr_bot = s, gr_level = the (map_of by_bot s) \<rparr>)
                                        (sort_strings (map fst by_bot)) \<rparr>)"

record space =
  sp_id :: string
  sp_name :: string
  sp_description :: string
  sp_owner :: string
  sp_access :: access
  sp_apps :: "string list"
  sp_type_count :: nat
  sp_record_count :: nat
  sp_created :: string
  sp_updated :: string
  sp_caller :: level

definition level_for :: "space \<Rightarrow> string \<Rightarrow> level" where
  "level_for sp actor =
     (let slug = to_lower (trim_space actor) in
        if slug = [] then LevelNone
        else if slug = ''human'' then LevelWrite
        else if slug = to_lower (trim_space (sp_owner sp)) then LevelWrite
        else case ac_scope (sp_access sp) of
               ScopeGlobal \<Rightarrow> LevelWrite
             | ScopeShared \<Rightarrow>
                 (case find (\<lambda>g. gr_bot g = slug) (ac_grants (sp_access sp)) of
                    Some g \<Rightarrow> gr_level g | None \<Rightarrow> LevelNone)
             | _ \<Rightarrow> LevelNone)"


section \<open>The index of spaces\<close>

record space_index =
  ix_spaces :: "space list"
  ix_draws :: nat

record space_patch =
  pa_name :: "string option"
  pa_description :: "string option"
  pa_access :: "access option"

definition space_row :: "space_index \<Rightarrow> string \<Rightarrow> space option" where
  "space_row ix i = find (\<lambda>sp. sp_id sp = i) (ix_spaces ix)"

text \<open>The check every operation on a space starts with: a space the caller cannot read does not exist
  for it.\<close>

definition authorize :: "space_index \<Rightarrow> string \<Rightarrow> string \<Rightarrow> bool \<Rightarrow> ds_error + space" where
  "authorize ix actor i wr =
     (case space_row ix i of
        None \<Rightarrow> Inl DsNotFound
      | Some sp \<Rightarrow>
          let l = level_for sp actor in
          if l = LevelNone then Inl DsNotFound
          else if wr \<and> l \<noteq> LevelWrite then Inl DsForbidden
          else Inr (sp\<lparr> sp_caller := l \<rparr>))"

definition owner_only :: "string \<Rightarrow> space \<Rightarrow> bool" where
  "owner_only actor sp \<longleftrightarrow>
     normalize_ds_actor actor = ''human'' \<or> normalize_ds_actor actor = normalize_ds_actor (sp_owner sp)"

text \<open>The stored columns: the level of the caller is not one of them, and the creation stamp is never
  rewritten.\<close>

definition save_space_row :: "string \<Rightarrow> space \<Rightarrow> space_index \<Rightarrow> space \<times> space_index" where
  "save_space_row stamp sp ix =
     (let sp1 = sp\<lparr> sp_updated := stamp \<rparr> in
        (sp1, ix\<lparr> ix_spaces := map_first (\<lambda>r. sp_id r = sp_id sp)
                    (\<lambda>r. sp1\<lparr> sp_created := sp_created r, sp_caller := LevelNone \<rparr>) (ix_spaces ix) \<rparr>))"

fun mint_space :: "(nat \<Rightarrow> string) \<Rightarrow> nat \<Rightarrow> space_index \<Rightarrow> string option \<times> space_index" where
  "mint_space rnd 0 ix = (None, ix)"
| "mint_space rnd (Suc k) ix =
     (let i = ''space_'' @ rnd (ix_draws ix); ix1 = ix\<lparr> ix_draws := Suc (ix_draws ix) \<rparr> in
        if i \<in> sp_id ` set (ix_spaces ix) then mint_space rnd k ix1 else (Some i, ix1))"

definition create_space ::
  "(nat \<Rightarrow> string) \<Rightarrow> (string \<Rightarrow> bool) \<Rightarrow> string \<Rightarrow> string \<Rightarrow> string \<Rightarrow> string \<Rightarrow> access \<Rightarrow> space_index
     \<Rightarrow> (ds_error + space) \<times> space_index" where
  "create_space rnd opens stamp actor name desc acc ix =
     (let slug = normalize_ds_actor actor in
        if slug = [] \<or> (slug \<noteq> ''human'' \<and> \<not> is_bot_slug slug) then (Inl (DsInvalid []), ix)
        else case clean_name name of
               Inl k \<Rightarrow> (Inl k, ix)
             | Inr clean \<Rightarrow>
                 (case normalize_access slug
                         (if ac_scope acc = ScopeOther []
                          then \<lparr> ac_scope = ScopePrivate, ac_grants = [] \<rparr> else acc) of
                    Inl k \<Rightarrow> (Inl k, ix)
                  | Inr a \<Rightarrow>
                      (case mint_space rnd 5 ix of
                         (None, ix1) \<Rightarrow> (Inl DsFatal, ix1)
                       | (Some i, ix1) \<Rightarrow>
                           if \<not> opens i then (Inl DsFatal, ix1)
                           else let sp = \<lparr> sp_id = i, sp_name = clean, sp_description = trim_space desc,
                                           sp_owner = slug, sp_access = a, sp_apps = [], sp_type_count = 0,
                                           sp_record_count = 0, sp_created = stamp, sp_updated = stamp,
                                           sp_caller = LevelNone \<rparr>
                                in (Inr (sp\<lparr> sp_caller := LevelWrite \<rparr>),
                                    ix1\<lparr> ix_spaces := ix_spaces ix1 @ [sp] \<rparr>))))"

text \<open>The edits of one patch, before the row is saved.\<close>

definition patch_name :: "string \<Rightarrow> space_patch \<Rightarrow> space \<Rightarrow> ds_error + space" where
  "patch_name actor p sp =
     (case pa_name p of
        None \<Rightarrow> Inr sp
      | Some n \<Rightarrow>
          if \<not> owner_only actor sp then Inl DsForbidden
          else case clean_name n of Inl k \<Rightarrow> Inl k | Inr c \<Rightarrow> Inr (sp\<lparr> sp_name := c \<rparr>))"

definition patch_description :: "space_patch \<Rightarrow> space \<Rightarrow> space" where
  "patch_description p sp =
     (case pa_description p of None \<Rightarrow> sp | Some d \<Rightarrow> sp\<lparr> sp_description := trim_space d \<rparr>)"

definition patch_access :: "string \<Rightarrow> space_patch \<Rightarrow> space \<Rightarrow> ds_error + space" where
  "patch_access actor p sp =
     (case pa_access p of
        None \<Rightarrow> Inr sp
      | Some a \<Rightarrow>
          if \<not> owner_only actor sp then Inl DsForbidden
          else case normalize_access (sp_owner sp) a of
                 Inl k \<Rightarrow> Inl k | Inr a1 \<Rightarrow> Inr (sp\<lparr> sp_access := a1 \<rparr>))"

definition update_space ::
  "string \<Rightarrow> string \<Rightarrow> string \<Rightarrow> space_patch \<Rightarrow> space_index \<Rightarrow> (ds_error + space) \<times> space_index" where
  "update_space stamp actor i p ix =
     (case authorize ix actor i True of
        Inl k \<Rightarrow> (Inl k, ix)
      | Inr sp \<Rightarrow>
          (case patch_name actor p sp of
             Inl k \<Rightarrow> (Inl k, ix)
           | Inr sp1 \<Rightarrow>
               (case patch_access actor p (patch_description p sp1) of
                  Inl k \<Rightarrow> (Inl k, ix)
                | Inr sp2 \<Rightarrow>
                    let (saved, ix1) = save_space_row stamp sp2 ix
                    in (Inr (saved\<lparr> sp_caller := level_for saved actor \<rparr>), ix1))))"

definition change_apps ::
  "bool \<Rightarrow> string \<Rightarrow> string \<Rightarrow> string \<Rightarrow> string \<Rightarrow> space_index \<Rightarrow> (ds_error + space) \<times> space_index" where
  "change_apps attach stamp actor i app0 ix =
     (case authorize ix actor i True of
        Inl k \<Rightarrow> (Inl k, ix)
      | Inr sp \<Rightarrow>
          let app = trim_space app0;
              kept = (if attach then sp_apps sp else filter (\<lambda>x. x \<noteq> app) (sp_apps sp));
              apps = sort (if attach \<and> app \<notin> set (sp_apps sp) then kept @ [app] else kept)
          in if \<not> is_app_id app then (Inl (DsInvalid []), ix)
             else let (saved, ix1) = save_space_row stamp (sp\<lparr> sp_apps := apps \<rparr>) ix
                  in (Inr (saved\<lparr> sp_caller := sp_caller sp \<rparr>), ix1))"

definition list_spaces :: "string \<Rightarrow> space_index \<Rightarrow> space list" where
  "list_spaces actor ix =
     map (\<lambda>sp. sp\<lparr> sp_caller := level_for sp actor \<rparr>)
       (filter (\<lambda>sp. level_for sp actor \<noteq> LevelNone)
         (sort_key sp_created (sort_key sp_id (ix_spaces ix))))"

section \<open>Properties\<close>

text \<open>The grants as a map: the last one of each bot, the owner's left out.\<close>

definition granted :: "string \<Rightarrow> grant list \<Rightarrow> string \<Rightarrow> level option" where
  "granted owner gs s =
     (if s = to_lower (trim_space owner) then None
      else map_option gr_level (find (\<lambda>g. to_lower (trim_space (gr_bot g)) = s) (rev gs)))"

definition put_level :: "string \<Rightarrow> level \<Rightarrow> string \<times> level \<Rightarrow> string \<times> level" where
  "put_level slug l p = (fst p, if fst p = slug then l else snd p)"

lemma put_level_eq: "(\<lambda>(s, k). if s = slug then (s, l) else (s, k)) = put_level slug l"
  by (auto simp: put_level_def fun_eq_iff)

lemma map_of_put_level:
  "map_of (map (put_level slug l) acc) s =
     (if s = slug then map_option (\<lambda>_. l) (map_of acc s) else map_of acc s)"
  by (induction acc) (auto simp: put_level_def)

lemma record_grant_map: "map_of (record_grant slug l acc) = (map_of acc)(slug \<mapsto> l)"
proof (cases "slug \<in> fst ` set acc")
  case True
  then obtain k where "map_of acc slug = Some k" by (metis map_of_eq_None_iff not_None_eq)
  then show ?thesis
    using True by (auto simp: record_grant_def put_level_eq map_of_put_level fun_eq_iff)
next
  case False
  then have "map_of acc slug = None" by (simp add: map_of_eq_None_iff)
  then show ?thesis
    using False by (auto simp: record_grant_def map_add_def fun_eq_iff split: option.split)
qed

lemma record_grant_keys: "distinct (map fst acc) \<Longrightarrow> distinct (map fst (record_grant slug l acc))"
proof -
  assume d: "distinct (map fst acc)"
  have "map fst (map (put_level slug l) acc) = map fst acc" by (simp add: put_level_def)
  then show ?thesis
    using d by (cases "slug \<in> fst ` set acc") (simp_all add: record_grant_def put_level_eq del: map_map)
qed

lemma find_append: "find p (xs @ ys) = (case find p xs of Some x \<Rightarrow> Some x | None \<Rightarrow> find p ys)"
  by (induction xs) auto

lemma collect_grants_map:
  assumes "collect_grants owner gs acc = Inr by_bot" "distinct (map fst acc)"
  shows "distinct (map fst by_bot)
    \<and> map_of by_bot = map_of acc ++ granted owner gs"
  using assms
proof (induction owner gs acc rule: collect_grants.induct)
  case (1 owner acc)
  have "map_of acc ++ granted owner [] = map_of acc"
    by (rule ext) (simp add: granted_def map_add_def)
  then show ?case using 1 by auto
next
  case (2 owner g gs acc)
  let ?s = "to_lower (trim_space (gr_bot g))"
  have ok: "is_bot_slug ?s" "gr_level g = LevelRead \<or> gr_level g = LevelWrite"
    using 2(3) by (auto simp: Let_def split: if_splits)
  have g: "granted owner (g # gs) s =
      (case granted owner gs s of Some l \<Rightarrow> Some l
       | None \<Rightarrow> if s = ?s \<and> s \<noteq> to_lower (trim_space owner) then Some (gr_level g) else None)" for s
    by (auto simp: granted_def find_append split: option.splits)
  show ?case
  proof (cases "?s = to_lower (trim_space owner)")
    case True
    have "granted owner (g # gs) = granted owner gs"
      by (rule ext) (use g True in \<open>auto split: option.splits\<close>)
    moreover have "collect_grants owner gs acc = Inr by_bot" using "2.prems"(1) True ok by (auto simp: Let_def)
    note ih = "2.IH"(1) [OF refl _ _ True this "2.prems"(2)]
    ultimately show ?thesis using ih ok by auto
  next
    case False
    let ?a = "record_grant ?s (gr_level g) acc"
    have r: "collect_grants owner gs ?a = Inr by_bot" using 2(3) False ok by (auto simp: Let_def)
    note ih = "2.IH"(2) [OF refl _ _ False r record_grant_keys [OF "2.prems"(2)]]
    have "map_of ?a ++ granted owner gs = map_of acc ++ granted owner (g # gs)"
      by (rule ext) (use g False in \<open>auto simp: record_grant_map map_add_def split: option.splits\<close>)
    then show ?thesis using ih ok by simp
  qed
qed


lemma find_made: "find (\<lambda>g. gr_bot g = s) (map (\<lambda>x. \<lparr> gr_bot = x, gr_level = f x \<rparr>) xs) =
    (if s \<in> set xs then Some \<lparr> gr_bot = s, gr_level = f s \<rparr> else None)"
  by (induction xs) auto

text \<open>C28. What a space shares is what its owner granted.  After an access setting has been normalised, a
  bot that is neither the owner nor the human has the level of the last grant that names it when the
  space is shared, write access when it is global and none when it is private; a grant that names the
  owner, and an earlier grant to the same bot, have no effect.\<close>

theorem access_exact:
  assumes "normalize_access (sp_owner sp) a = Inr n"
    and "to_lower (trim_space actor) \<notin> {[], ''human'', to_lower (trim_space (sp_owner sp))}"
  shows "level_for (sp\<lparr> sp_access := n \<rparr>) actor =
    (case ac_scope a of
       ScopeGlobal \<Rightarrow> LevelWrite
     | ScopeShared \<Rightarrow>
         (case granted (sp_owner sp) (ac_grants a) (to_lower (trim_space actor)) of
            Some l \<Rightarrow> l | None \<Rightarrow> LevelNone)
     | _ \<Rightarrow> LevelNone)"
proof (cases "ac_scope a = ScopeShared")
  case True
  obtain by_bot where b: "collect_grants (sp_owner sp) (ac_grants a) [] = Inr by_bot"
    using assms(1) True by (auto simp: normalize_access_def split: sum.splits)
  then have m: "map_of by_bot = granted (sp_owner sp) (ac_grants a)"
    using collect_grants_map [OF b] by simp
  let ?g = "\<lambda>s. \<lparr> gr_bot = s, gr_level = the (map_of by_bot s) \<rparr>"
  have n: "n = (if by_bot = [] then \<lparr> ac_scope = ScopePrivate, ac_grants = [] \<rparr>
      else \<lparr> ac_scope = ScopeShared, ac_grants = map ?g (sort_strings (map fst by_bot)) \<rparr>)"
    using assms(1) True b by (auto simp: normalize_access_def split: if_splits)
  have k: "s \<in> fst ` set by_bot \<longleftrightarrow> map_of by_bot s \<noteq> None" for s by (simp add: map_of_eq_None_iff)
  show ?thesis
    using assms(2) True unfolding n m [symmetric] level_for_def Let_def
    by (auto simp: find_made sort_strings_sort k split: option.splits)
next
  case False
  then show ?thesis
    using assms by (cases "ac_scope a") (auto simp: normalize_access_def level_for_def Let_def)
qed

theorem access_exact_witness:
  "level_for \<lparr> sp_id = ''space_1'', sp_name = ''CRM'', sp_description = [], sp_owner = ''cos'',
      sp_access = \<lparr> ac_scope = ScopeShared, ac_grants = [\<lparr> gr_bot = ''eng'', gr_level = LevelWrite \<rparr>] \<rparr>,
      sp_apps = [], sp_type_count = 0, sp_record_count = 0, sp_created = [], sp_updated = [],
      sp_caller = LevelNone \<rparr> '' Eng'' = LevelWrite"
proof -
  let ?a = "\<lparr> ac_scope = ScopeShared, ac_grants = [\<lparr> gr_bot = ''ENG'', gr_level = LevelRead \<rparr>,
      \<lparr> gr_bot = ''cos'', gr_level = LevelRead \<rparr>, \<lparr> gr_bot = ''eng'', gr_level = LevelWrite \<rparr>] \<rparr>"
  let ?n = "\<lparr> ac_scope = ScopeShared, ac_grants = [\<lparr> gr_bot = ''eng'', gr_level = LevelWrite \<rparr>] \<rparr>"
  let ?s = "\<lparr> sp_id = ''space_1'', sp_name = ''CRM'', sp_description = [], sp_owner = ''cos'',
      sp_access = ?n, sp_apps = [], sp_type_count = 0, sp_record_count = 0, sp_created = [], sp_updated = [],
      sp_caller = LevelNone \<rparr>"
  have "normalize_access (sp_owner ?s) ?a = Inr ?n" by code_simp
  moreover have "to_lower (trim_space '' Eng'') \<notin> {[], ''human'', to_lower (trim_space (sp_owner ?s))}"
    by code_simp
  ultimately have "level_for (?s\<lparr> sp_access := ?n \<rparr>) '' Eng'' =
      (case ac_scope ?a of ScopeGlobal \<Rightarrow> LevelWrite
       | ScopeShared \<Rightarrow> (case granted (sp_owner ?s) (ac_grants ?a) (to_lower (trim_space '' Eng'')) of
            Some l \<Rightarrow> l | None \<Rightarrow> LevelNone)
       | _ \<Rightarrow> LevelNone)" by (rule access_exact)
  moreover have "granted (sp_owner ?s) (ac_grants ?a) (to_lower (trim_space '' Eng'')) = Some LevelWrite"
    by code_simp
  ultimately show ?thesis by simp
qed

lemma space_row_saved:
  assumes "space_row ix i = Some r" "sp_id sp = i"
  shows "space_row (snd (save_space_row stamp sp ix)) i =
    Some (sp\<lparr> sp_updated := stamp, sp_created := sp_created r, sp_caller := LevelNone \<rparr>)"
proof -
  have "find (\<lambda>x. sp_id x = i) (map_first (\<lambda>x. sp_id x = i)
      (\<lambda>x. sp\<lparr> sp_updated := stamp, sp_created := sp_created x, sp_caller := LevelNone \<rparr>) xs) =
      map_option (\<lambda>x. sp\<lparr> sp_updated := stamp, sp_created := sp_created x, sp_caller := LevelNone \<rparr>)
        (find (\<lambda>x. sp_id x = i) xs)" for xs
    using assms(2) by (induction xs) auto
  then show ?thesis using assms by (simp add: save_space_row_def space_row_def Let_def)
qed

text \<open>Only the owner and the human decide what a space is called and who sees it.  Whatever patch any
  other caller sends, the name, the owner and the access of the space are as before, on success and on
  every error, and a caller that cannot write changes nothing at all.\<close>

theorem space_update_confined:
  assumes "space_row ix i = Some sp" "\<not> owner_only actor sp"
  shows "\<exists>sp'. space_row (snd (update_space stamp actor i p ix)) i = Some sp'
    \<and> sp_name sp' = sp_name sp \<and> sp_owner sp' = sp_owner sp \<and> sp_access sp' = sp_access sp
    \<and> (level_for sp actor \<noteq> LevelWrite \<longrightarrow> update_space stamp actor i p ix = (fst (update_space stamp actor i p ix), ix))"
proof -
  have id: "sp_id sp = i" using assms(1) by (auto simp: space_row_def dest: find_SomeD)
  show ?thesis
  proof (cases "level_for sp actor = LevelWrite \<and> pa_name p = None \<and> pa_access p = None")
    case True
    then have "snd (update_space stamp actor i p ix) =
        snd (save_space_row stamp (patch_description p (sp\<lparr> sp_caller := LevelWrite \<rparr>)) ix)"
      using assms by (simp add: update_space_def authorize_def patch_name_def patch_access_def case_prod_beta Let_def)
    moreover have "sp_id (patch_description p (sp\<lparr> sp_caller := LevelWrite \<rparr>)) = i"
      using id by (simp add: patch_description_def split: option.split)
    ultimately show ?thesis
      using space_row_saved [OF assms(1)] True
      by (simp add: patch_description_def split: option.split)
  next
    case False
    have o: "\<not> owner_only actor (sp\<lparr> sp_caller := l \<rparr>)" "owner_only actor (patch_description p x) = owner_only actor x"
      for l x using assms(2) by (simp_all add: owner_only_def patch_description_def split: option.split)
    have "snd (update_space stamp actor i p ix) = ix"
      using False assms(1) o
      by (auto simp: update_space_def authorize_def patch_name_def patch_access_def Let_def split: option.splits)
    then show ?thesis using assms(1) by (metis prod.collapse)
  qed
qed

definition shared_space :: space where
  "shared_space =
     \<lparr> sp_id = ''space_1'', sp_name = ''CRM'', sp_description = [], sp_owner = ''cos'',
       sp_access = \<lparr> ac_scope = ScopeGlobal, ac_grants = [] \<rparr>, sp_apps = [], sp_type_count = 0,
       sp_record_count = 0, sp_created = [], sp_updated = [], sp_caller = LevelNone \<rparr>"

theorem space_update_confined_witness:
  "map_option sp_name (space_row (snd (update_space ''t1'' ''eng'' ''space_1''
      \<lparr> pa_name = Some ''Mine'', pa_description = Some ''note'', pa_access = None \<rparr>
      \<lparr> ix_spaces = [shared_space], ix_draws = 0 \<rparr>)) ''space_1'') = Some ''CRM''"
proof -
  let ?ix = "\<lparr> ix_spaces = [shared_space], ix_draws = 0 \<rparr>"
  have r: "space_row ?ix ''space_1'' = Some shared_space" by code_simp
  have o: "\<not> owner_only ''eng'' shared_space" by code_simp
  obtain sp' where "space_row (snd (update_space ''t1'' ''eng'' ''space_1''
      \<lparr> pa_name = Some ''Mine'', pa_description = Some ''note'', pa_access = None \<rparr> ?ix)) ''space_1'' = Some sp'"
    "sp_name sp' = sp_name shared_space"
    using space_update_confined [OF r o, of "''t1''"
        "\<lparr> pa_name = Some ''Mine'', pa_description = Some ''note'', pa_access = None \<rparr>"] by blast
  then show ?thesis by (simp add: shared_space_def)
qed

end
