(* ===== verification/SpaceValues.thy ===== *)
theory SpaceValues
  imports Spaces Integers
begin

text \<open>
  Data spaces, part two: attributes and the values they hold (\<^verbatim>\<open>internal/dataspace/values.go\<close>, with
  the types of \<^verbatim>\<open>types.go\<close> and \<^verbatim>\<open>model.go\<close>).

  A raw value is what the JSON decoder hands over, a stored value what \<open>coerce_value\<close> makes of it.
  64-bit floating-point numbers are an abstract type \<^typ>\<open>'f\<close>; the record \<open>numbers\<close> holds what the code
  asks of the standard library about them (reading a text, finiteness, being a whole number from 1 to
  5, the shortest text), of \<^verbatim>\<open>url.Parse\<close>, and of the JSON encoder (the length of an encoded value).
\<close>

section \<open>Attributes\<close>

datatype attr_type =
    TText | TNumber | TCurrency | TDate | TToggle | TSelect | TStatus | TRating | TUrl | TEmail | TPhone
  | TRelationship | TOther string

datatype cardinality = OneToOne | ManyToOne | OneToMany | ManyToMany | CardOther string

record select_option =
  op_id :: string
  op_name :: string
  op_color :: string

record rel_ref =
  rr_id :: string
  rr_target :: string
  rr_card :: cardinality
  rr_inverse :: string

record attribute =
  at_id :: string
  at_slug :: string
  at_name :: string
  at_type :: attr_type
  at_description :: string
  at_primary :: bool
  at_required :: bool
  at_unique :: bool
  at_multi :: bool
  at_options :: "select_option list"
  at_currency :: string
  at_rel :: "rel_ref option"
  at_created_by :: string
  at_position :: nat

section \<open>Raw and stored values\<close>

datatype 'f raw =
  RNull | RBool bool | RNum 'f | RStr string | RList "'f raw list" | RObj "(string \<times> 'f raw) list"

datatype 'f val = VText string | VNum 'f | VFlag bool | VMany "string list"

record 'f numbers =
  nm_finite :: "'f \<Rightarrow> bool"
  nm_parse :: "string \<Rightarrow> 'f option"
  nm_stars :: "'f \<Rightarrow> bool"
  nm_text :: "'f \<Rightarrow> string"
  nm_show :: "'f raw \<Rightarrow> string"
  nm_url :: "string \<Rightarrow> bool"
  nm_bytes :: "'f val \<Rightarrow> nat"

definition is_blank_raw :: "'f raw \<Rightarrow> bool" where
  "is_blank_raw r = (case r of RNull \<Rightarrow> True | RStr s \<Rightarrow> trim_space s = [] | _ \<Rightarrow> False)"

definition raw_string :: "'f numbers \<Rightarrow> 'f raw \<Rightarrow> string" where
  "raw_string nm r =
     (case r of RNull \<Rightarrow> [] | RStr s \<Rightarrow> s | RBool b \<Rightarrow> if b then ''true'' else ''false''
      | RNum f \<Rightarrow> nm_text nm f | _ \<Rightarrow> nm_show nm r)"

definition value_string :: "'f numbers \<Rightarrow> 'f val \<Rightarrow> string" where
  "value_string nm v =
     (case v of VText s \<Rightarrow> s | VFlag b \<Rightarrow> if b then ''true'' else ''false''
      | VMany xs \<Rightarrow> join '','' xs | VNum f \<Rightarrow> nm_text nm f)"

definition coerce_number :: "'f numbers \<Rightarrow> 'f raw \<Rightarrow> 'f option" where
  "coerce_number nm r =
     (case r of
        RNum f \<Rightarrow> if nm_finite nm f then Some f else None
      | RStr s \<Rightarrow>
          if trim_space s = [] then None
          else (case nm_parse nm (trim_space s) of
                  Some f \<Rightarrow> if nm_finite nm f then Some f else None
                | None \<Rightarrow> None)
      | _ \<Rightarrow> None)"

definition coerce_rating :: "'f numbers \<Rightarrow> 'f raw \<Rightarrow> 'f option" where
  "coerce_rating nm r =
     (case coerce_number nm r of Some f \<Rightarrow> if nm_stars nm f then Some f else None | None \<Rightarrow> None)"

section \<open>Dates\<close>

definition two_digits :: "string \<Rightarrow> bool" where
  "two_digits s \<longleftrightarrow> length s = 2 \<and> list_all is_digit s"

definition date_shape :: "string \<Rightarrow> bool" where
  "date_shape s \<longleftrightarrow>
     length s = 10 \<and> list_all is_digit (take 4 s) \<and> s ! 4 = CHR ''-'' \<and> two_digits (take 2 (drop 5 s))
     \<and> s ! 7 = CHR ''-'' \<and> two_digits (drop 8 s)"

definition leap_year :: "int \<Rightarrow> bool" where
  "leap_year y \<longleftrightarrow> y mod 4 = 0 \<and> (y mod 100 \<noteq> 0 \<or> y mod 400 = 0)"

definition month_length :: "int \<Rightarrow> int \<Rightarrow> int" where
  "month_length y m =
     (if m = 2 then (if leap_year y then 29 else 28) else if m \<in> {4, 6, 9, 11} then 30 else 31)"

definition is_real_date :: "string \<Rightarrow> bool" where
  "is_real_date s \<longleftrightarrow>
     date_shape s
     \<and> (let y = digits_value (take 4 s); m = digits_value (take 2 (drop 5 s)); d = digits_value (drop 8 s)
        in 1 \<le> m \<and> m \<le> 12 \<and> 1 \<le> d \<and> d \<le> month_length y m)"

definition clock_shape :: "string \<Rightarrow> bool" where
  "clock_shape s \<longleftrightarrow>
     length s = 8 \<and> two_digits (take 2 s) \<and> s ! 2 = CHR '':'' \<and> two_digits (take 2 (drop 3 s))
     \<and> s ! 5 = CHR '':'' \<and> two_digits (drop 6 s)"

definition zone_shape :: "string \<Rightarrow> bool" where
  "zone_shape s \<longleftrightarrow>
     s = ''Z'' \<or> s = ''z''
     \<or> (length s = 6 \<and> hd s \<in> {CHR ''+'', CHR ''-''} \<and> two_digits (take 2 (drop 1 s))
        \<and> s ! 3 = CHR '':'' \<and> two_digits (drop 4 s))"

definition fraction_zone :: "string \<Rightarrow> bool" where
  "fraction_zone s \<longleftrightarrow>
     zone_shape s
     \<or> (s \<noteq> [] \<and> hd s = CHR ''.'' \<and> takeWhile is_digit (tl s) \<noteq> []
        \<and> zone_shape (dropWhile is_digit (tl s)))"

definition instant_shape :: "string \<Rightarrow> bool" where
  "instant_shape s \<longleftrightarrow>
     19 \<le> length s \<and> date_shape (take 10 s) \<and> s ! 10 \<in> {CHR ''T'', CHR ''t''}
     \<and> clock_shape (take 8 (drop 11 s)) \<and> fraction_zone (drop 19 s)"

definition coerce_date :: "'f raw \<Rightarrow> string option" where
  "coerce_date r =
     (case r of
        RStr s \<Rightarrow>
          let t = trim_space s; d = (if instant_shape t then take 10 t else t)
          in if is_real_date d then Some d else None
      | _ \<Rightarrow> None)"

definition coerce_toggle :: "'f raw \<Rightarrow> bool option" where
  "coerce_toggle r =
     (case r of
        RBool b \<Rightarrow> Some b
      | RStr s \<Rightarrow>
          let t = to_lower (trim_space s)
          in if t = ''true'' then Some True else if t = ''false'' then Some False else None
      | _ \<Rightarrow> None)"

definition coerce_string :: "attribute \<Rightarrow> 'f raw \<Rightarrow> string option" where
  "coerce_string a r =
     (case r of RStr s \<Rightarrow> Some (if at_type a = TText then s else trim_space s) | _ \<Rightarrow> None)"

section \<open>Addresses and options\<close>

definition mail_char :: "char \<Rightarrow> bool" where
  "mail_char c \<longleftrightarrow> c \<notin> {CHR 0x09, CHR 0x0A, CHR 0x0C, CHR 0x0D, CHR 0x20, CHR ''@''}"

definition email_shape :: "string \<Rightarrow> bool" where
  "email_shape s \<longleftrightarrow>
     (case split_first (CHR ''@'') s of
        (user, Some host) \<Rightarrow>
          user \<noteq> [] \<and> list_all mail_char user \<and> list_all mail_char host
          \<and> CHR ''.'' \<in> set (butlast (tl host))
      | _ \<Rightarrow> False)"

definition coerce_email :: "attribute \<Rightarrow> 'f raw \<Rightarrow> string option" where
  "coerce_email a r =
     (case coerce_string a r of Some s \<Rightarrow> if email_shape s then Some s else None | None \<Rightarrow> None)"

definition coerce_url :: "'f numbers \<Rightarrow> attribute \<Rightarrow> 'f raw \<Rightarrow> string option" where
  "coerce_url nm a r =
     (case coerce_string a r of Some s \<Rightarrow> if nm_url nm s then Some s else None | None \<Rightarrow> None)"

definition coerce_option :: "'f numbers \<Rightarrow> attribute \<Rightarrow> 'f raw \<Rightarrow> string option" where
  "coerce_option nm a r =
     (let wanted = (case r of RStr s \<Rightarrow> trim_space s | _ \<Rightarrow> raw_string nm r) in
        case find (\<lambda>x. op_id x = wanted) (at_options a) of
          Some x \<Rightarrow> Some (op_id x)
        | None \<Rightarrow>
            (case find (\<lambda>x. equal_fold (trim_space (op_name x)) wanted) (at_options a) of
               Some x \<Rightarrow> Some (op_id x)
             | None \<Rightarrow> None))"

definition coerce_scalar :: "'f numbers \<Rightarrow> attribute \<Rightarrow> 'f raw \<Rightarrow> 'f val option" where
  "coerce_scalar nm a r =
     (case at_type a of
        TNumber \<Rightarrow> map_option VNum (coerce_number nm r)
      | TCurrency \<Rightarrow> map_option VNum (coerce_number nm r)
      | TRating \<Rightarrow> map_option VNum (coerce_rating nm r)
      | TDate \<Rightarrow> map_option VText (coerce_date r)
      | TToggle \<Rightarrow> map_option VFlag (coerce_toggle r)
      | TEmail \<Rightarrow> map_option VText (coerce_email a r)
      | TUrl \<Rightarrow> map_option VText (coerce_url nm a r)
      | TSelect \<Rightarrow> map_option VText (coerce_option nm a r)
      | TStatus \<Rightarrow> map_option VText (coerce_option nm a r)
      | TRelationship \<Rightarrow> None
      | _ \<Rightarrow> map_option VText (coerce_string a r))"

text \<open>The loop of \<open>coerceMany\<close>: the keys seen and the texts kept so far.\<close>

definition many_key :: "attribute \<Rightarrow> string \<Rightarrow> string" where
  "many_key a s = (if at_type a = TEmail then to_lower s else s)"

fun many_loop ::
  "'f numbers \<Rightarrow> attribute \<Rightarrow> 'f raw list \<Rightarrow> string list \<Rightarrow> string list option" where
  "many_loop nm a [] out = Some out"
| "many_loop nm a (r # rs) out =
     (if is_blank_raw r then many_loop nm a rs out
      else case coerce_scalar nm a r of
             None \<Rightarrow> None
           | Some v \<Rightarrow>
               let text = value_string nm v in
               if many_key a text \<in> many_key a ` set out then many_loop nm a rs out
               else many_loop nm a rs (out @ [text]))"

definition coerce_many :: "'f numbers \<Rightarrow> attribute \<Rightarrow> 'f raw \<Rightarrow> 'f val option option" where
  "coerce_many nm a r =
     map_option (\<lambda>out. if out = [] then None else Some (VMany out))
       (many_loop nm a (case r of RList rs \<Rightarrow> rs | _ \<Rightarrow> [r]) [])"

text \<open>The outer None is a rejected value, the inner one an empty value.\<close>

definition coerce_value :: "'f numbers \<Rightarrow> attribute \<Rightarrow> 'f raw \<Rightarrow> 'f val option option" where
  "coerce_value nm a r =
     (if at_multi a then coerce_many nm a r
      else case r of
             RList _ \<Rightarrow> None
           | _ \<Rightarrow> if is_blank_raw r then Some None else map_option Some (coerce_scalar nm a r))"


section \<open>Types of values\<close>

definition scalar_type :: "'f numbers \<Rightarrow> attribute \<Rightarrow> 'f val \<Rightarrow> bool" where
  "scalar_type nm a v \<longleftrightarrow>
     (case at_type a of
        TNumber \<Rightarrow> (case v of VNum f \<Rightarrow> nm_finite nm f | _ \<Rightarrow> False)
      | TCurrency \<Rightarrow> (case v of VNum f \<Rightarrow> nm_finite nm f | _ \<Rightarrow> False)
      | TRating \<Rightarrow> (case v of VNum f \<Rightarrow> nm_finite nm f \<and> nm_stars nm f | _ \<Rightarrow> False)
      | TDate \<Rightarrow> (case v of VText s \<Rightarrow> is_real_date s | _ \<Rightarrow> False)
      | TToggle \<Rightarrow> (case v of VFlag _ \<Rightarrow> True | _ \<Rightarrow> False)
      | TEmail \<Rightarrow> (case v of VText s \<Rightarrow> email_shape s \<and> trim_space s = s | _ \<Rightarrow> False)
      | TUrl \<Rightarrow> (case v of VText s \<Rightarrow> nm_url nm s \<and> trim_space s = s | _ \<Rightarrow> False)
      | TSelect \<Rightarrow> (case v of VText s \<Rightarrow> s \<in> op_id ` set (at_options a) | _ \<Rightarrow> False)
      | TStatus \<Rightarrow> (case v of VText s \<Rightarrow> s \<in> op_id ` set (at_options a) | _ \<Rightarrow> False)
      | TRelationship \<Rightarrow> False
      | TText \<Rightarrow> (case v of VText _ \<Rightarrow> True | _ \<Rightarrow> False)
      | _ \<Rightarrow> (case v of VText s \<Rightarrow> trim_space s = s | _ \<Rightarrow> False))"

definition value_type :: "'f numbers \<Rightarrow> attribute \<Rightarrow> 'f val \<Rightarrow> bool" where
  "value_type nm a v \<longleftrightarrow>
     (if at_multi a
      then (case v of
              VMany xs \<Rightarrow> xs \<noteq> [] \<and> distinct (map (many_key a) xs)
                \<and> (\<forall>x\<in>set xs. \<exists>w. scalar_type nm a w \<and> value_string nm w = x)
            | _ \<Rightarrow> False)
      else scalar_type nm a v)"

lemma coerce_number_finite: "coerce_number nm r = Some f \<Longrightarrow> nm_finite nm f"
  by (auto simp: coerce_number_def split: raw.splits if_splits option.splits)

lemma coerce_rating_stars: "coerce_rating nm r = Some f \<Longrightarrow> nm_finite nm f \<and> nm_stars nm f"
  using coerce_number_finite by (auto simp: coerce_rating_def split: option.splits if_splits)

lemma coerce_date_real: "coerce_date r = Some s \<Longrightarrow> is_real_date s"
  by (auto simp: coerce_date_def Let_def split: raw.splits if_splits)

lemma coerce_string_trimmed: "coerce_string a r = Some s \<Longrightarrow> at_type a \<noteq> TText \<Longrightarrow> trim_space s = s"
  by (auto simp: coerce_string_def split: raw.splits)

lemma coerce_option_listed: "coerce_option nm a r = Some s \<Longrightarrow> s \<in> op_id ` set (at_options a)"
  by (auto simp: coerce_option_def Let_def dest!: find_SomeD split: option.splits)

lemmas scalar_cases = coerce_scalar_def scalar_type_def

lemma coerce_scalar_text:
  assumes "coerce_scalar nm a r = Some v" "at_type a \<notin> {TNumber, TCurrency, TRating, TDate, TToggle, TEmail,
      TUrl, TSelect, TStatus, TRelationship}"
  shows "\<exists>s. v = VText s \<and> coerce_string a r = Some s"
  using assms by (cases "at_type a") (auto simp: coerce_scalar_def)

lemma coerce_scalar_typed:
  assumes "coerce_scalar nm a r = Some v"
  shows "scalar_type nm a v"
proof (cases "at_type a")
  case TEmail
  then show ?thesis using assms coerce_string_trimmed [of a r]
    by (auto simp: scalar_cases coerce_email_def split: option.splits if_splits)
next
  case TUrl
  then show ?thesis using assms coerce_string_trimmed [of a r]
    by (auto simp: scalar_cases coerce_url_def split: option.splits if_splits)
next
  case TNumber
  then show ?thesis using assms coerce_number_finite [of nm r] by (auto simp: scalar_cases)
next
  case TCurrency
  then show ?thesis using assms coerce_number_finite [of nm r] by (auto simp: scalar_cases)
next
  case TRating
  then show ?thesis using assms coerce_rating_stars [of nm r] by (auto simp: scalar_cases)
next
  case TDate
  then show ?thesis using assms coerce_date_real [of r] by (auto simp: scalar_cases)
next
  case TToggle
  then show ?thesis using assms by (auto simp: scalar_cases)
next
  case TSelect
  then show ?thesis using assms coerce_option_listed [of nm a r] by (auto simp: scalar_cases)
next
  case TStatus
  then show ?thesis using assms coerce_option_listed [of nm a r] by (auto simp: scalar_cases)
next
  case TRelationship
  then show ?thesis using assms by (simp add: scalar_cases)
next
  case TText
  then show ?thesis using assms by (auto simp: scalar_cases)
next
  case TPhone
  then show ?thesis using assms coerce_string_trimmed [of a r] by (auto simp: scalar_cases)
next
  case (TOther t)
  then show ?thesis using assms coerce_string_trimmed [of a r] by (auto simp: scalar_cases)
qed

definition many_typed :: "'f numbers \<Rightarrow> attribute \<Rightarrow> string list \<Rightarrow> bool" where
  "many_typed nm a out \<longleftrightarrow> distinct (map (many_key a) out)
     \<and> list_all (\<lambda>x. \<exists>w. scalar_type nm a w \<and> value_string nm w = x) out"

lemma many_typed_snoc:
  assumes "many_typed nm a out" "scalar_type nm a v" "many_key a (value_string nm v) \<notin> many_key a ` set out"
  shows "many_typed nm a (out @ [value_string nm v])"
  using assms by (auto simp: many_typed_def)

lemma many_loop_invariant:
  assumes step: "\<And>r v ys. \<not> is_blank_raw r \<Longrightarrow> coerce_scalar nm a r = Some v \<Longrightarrow>
      many_key a (value_string nm v) \<notin> many_key a ` set ys \<Longrightarrow> kept ys \<Longrightarrow> kept (ys @ [value_string nm v])"
  shows "many_loop nm a rs out = Some xs \<Longrightarrow> kept out \<Longrightarrow> kept xs"
proof (induction rs arbitrary: out)
  case Nil
  then show ?case by simp
next
  case (Cons r rs)
  show ?case
  proof (cases "is_blank_raw r")
    case True
    then show ?thesis using Cons.IH [OF _ Cons.prems(2)] Cons.prems(1) by simp
  next
    case nb: False
    show ?thesis
    proof (cases "coerce_scalar nm a r")
      case None
      then show ?thesis using Cons.prems(1) nb by simp
    next
      case (Some v)
      show ?thesis
      proof (cases "many_key a (value_string nm v) \<in> many_key a ` set out")
        case True
        then show ?thesis using Cons.IH [OF _ Cons.prems(2)] Cons.prems(1) nb Some by (simp add: Let_def)
      next
        case False
        then show ?thesis
          using Cons.IH [OF _ step [OF nb Some False Cons.prems(2)]] Cons.prems(1) nb Some
          by (simp add: Let_def)
      qed
    qed
  qed
qed

lemma many_loop_typed:
  assumes "many_loop nm a rs out = Some xs" "many_typed nm a out"
  shows "many_typed nm a xs"
proof (rule many_loop_invariant [where kept = "many_typed nm a", OF _ assms])
  fix r v ys
  assume "coerce_scalar nm a r = Some v" "many_key a (value_string nm v) \<notin> many_key a ` set ys" "many_typed nm a ys"
  then show "many_typed nm a (ys @ [value_string nm v])"
    using many_typed_snoc coerce_scalar_typed by blast
qed

lemma coerced_value_typed:
  assumes "coerce_value nm a r = Some (Some v)"
  shows "value_type nm a v"
proof (cases "at_multi a")
  case True
  then obtain xs where xs: "many_loop nm a (case r of RList rs \<Rightarrow> rs | _ \<Rightarrow> [r]) [] = Some xs" "xs \<noteq> []" "v = VMany xs"
    using assms by (auto simp: coerce_value_def coerce_many_def split: if_splits)
  have "many_typed nm a []" by (simp add: many_typed_def)
  then show ?thesis using many_loop_typed [OF xs(1)] xs True
    by (simp add: value_type_def many_typed_def list_all_iff)
next
  case False
  then have "coerce_scalar nm a r = Some v"
    using assms by (auto simp: coerce_value_def split: raw.splits if_splits)
  then show ?thesis using coerce_scalar_typed False by (simp add: value_type_def)
qed

text \<open>C26. A stored value has the type of its attribute.  Whatever JSON value a caller passes, a value the
  coercion accepts for storing is a finite number, a whole number from 1 to 5, a date of the calendar, a
  flag, an address of the right shape, the id of one of the options, or a text, as the attribute says,
  and for an attribute with several values a non-empty list of such without repetition.\<close>

theorem coerce_typed:
  assumes "coerce_value nm a r = Some (Some v)"
  shows "value_type nm a v"
  by (rule coerced_value_typed [OF assms])

text \<open>The sample reads decimal texts as whole numbers.\<close>

definition whole_numbers :: "int numbers" where
  "whole_numbers =
     \<lparr>nm_finite = (\<lambda>_. True), nm_parse = atoi, nm_stars = (\<lambda>n. 1 \<le> n \<and> n \<le> 5),
      nm_text = (\<lambda>_. ''n''), nm_show = (\<lambda>_. []), nm_url = (\<lambda>_. False),
      nm_bytes = (\<lambda>_. 2)\<rparr>"

definition tag_attribute :: attribute where
  "tag_attribute =
     \<lparr>at_id = ''a1'', at_slug = ''tags'', at_name = ''Tags'', at_type = TSelect, at_description = [],
      at_primary = False, at_required = False, at_unique = False, at_multi = True,
      at_options = [\<lparr>op_id = ''o1'', op_name = ''Hot lead'', op_color = []\<rparr>,
                    \<lparr>op_id = ''o2'', op_name = ''Cold'', op_color = []\<rparr>],
      at_currency = [], at_rel = None, at_created_by = ''eng'',
      at_position = 1\<rparr>"

theorem coerce_typed_witness:
  "value_type whole_numbers tag_attribute (VMany [''o1'', ''o2''])
   \<and> coerce_value whole_numbers (tag_attribute\<lparr>at_multi := False\<rparr>) (RStr ''warm'') = None"
proof -
  have e: "coerce_value whole_numbers tag_attribute
      (RList [RStr '' hot LEAD'', RNull, RStr ''o2'', RStr ''o1'']) = Some (Some (VMany [''o1'', ''o2'']))"
    by code_simp
  have n: "coerce_value whole_numbers (tag_attribute\<lparr>at_multi := False\<rparr>) (RStr ''warm'') = None"
    by code_simp
  show ?thesis using coerce_typed [OF e] n by simp
qed

section \<open>Stored values are accepted again\<close>

definition raw_of :: "'f val \<Rightarrow> 'f raw" where
  "raw_of v = (case v of VText s \<Rightarrow> RStr s | VNum f \<Rightarrow> RNum f | VFlag b \<Rightarrow> RBool b | VMany xs \<Rightarrow> RList (map RStr xs))"

definition date_char :: "char \<Rightarrow> bool" where
  "date_char c \<longleftrightarrow> is_digit c \<or> c = CHR ''-''"

lemma date_char_plain: "date_char c \<Longrightarrow> u \<in> set ws_units \<Longrightarrow> c \<noteq> hd u \<and> c \<noteq> last u"
proof -
  have "list_all (\<lambda>u. \<not> date_char (hd u) \<and> \<not> date_char (last u)) ws_units" by code_simp
  then show "date_char c \<Longrightarrow> u \<in> set ws_units \<Longrightarrow> c \<noteq> hd u \<and> c \<noteq> last u"
    by (auto simp: list_all_iff)
qed

lemma ws_units_not_Nil: "u \<in> set ws_units \<Longrightarrow> u \<noteq> []"
  by (auto simp: ws_units_def)

lemma trim_date_chars:
  assumes "list_all date_char s"
  shows "trim_space s = s"
proof (cases "s = []")
  case False
  have h: "head_unit ws_units s = None"
    unfolding head_unit_def find_None_iff
  proof (intro notI, elim exE conjE)
    fix u assume u: "u \<in> set ws_units" "u \<noteq> []" "prefix u s"
    then have "hd u = hd s" by (auto simp: prefix_def)
    moreover have "date_char (hd s)" using assms False by (cases s) auto
    ultimately show False using date_char_plain u by metis
  qed
  have l: "head_unit (map rev ws_units) (rev s) = None"
    unfolding head_unit_def find_None_iff
  proof (intro notI, elim exE conjE)
    fix w assume w: "w \<in> set (map rev ws_units)" "w \<noteq> []" "prefix w (rev s)"
    then obtain u where u: "u \<in> set ws_units" "w = rev u" by auto
    then have "last u = last s" using w by (auto simp: prefix_def hd_rev [symmetric] rev_swap)
    moreover have "date_char (last s)" using assms False by (simp add: list_all_iff)
    ultimately show False using date_char_plain u by metis
  qed
  show ?thesis by (simp add: trim_space_def trim_left_def trim_right_def strip_units_id [OF h] strip_units_id [OF l])
qed simp

lemma date_shape_chars:
  assumes "date_shape s"
  shows "list_all date_char s"
proof -
  have n: "length s = 10" using assms by (simp add: date_shape_def)
  have d1: "drop 4 s = s ! 4 # drop 5 s" using Cons_nth_drop_Suc [of 4 s] n by simp
  have d2: "drop 2 (drop 5 s) = s ! 7 # drop 8 s" using Cons_nth_drop_Suc [of 7 s] n by simp
  have "list_all date_char (take 4 s)" "list_all date_char (take 2 (drop 5 s))" "list_all date_char (drop 8 s)"
    using assms by (auto simp: date_shape_def two_digits_def list_all_iff date_char_def)
  moreover have "date_char (s ! 4)" "date_char (s ! 7)" using assms by (auto simp: date_shape_def date_char_def)
  ultimately have "list_all date_char (take 2 (drop 5 s) @ drop 2 (drop 5 s))"
    unfolding d2 by simp
  then have "list_all date_char (drop 5 s)" by (simp only: append_take_drop_id)
  then have "list_all date_char (take 4 s @ drop 4 s)"
    unfolding d1 using \<open>list_all date_char (take 4 s)\<close> \<open>date_char (s ! 4)\<close> by simp
  then show ?thesis by (simp only: append_take_drop_id)
qed

lemma real_date_kept:
  assumes "is_real_date s"
  shows "coerce_date (RStr s) = Some s"
proof -
  have s: "date_shape s" using assms by (simp add: is_real_date_def)
  have "length s = 10" using s by (simp add: date_shape_def)
  then have "\<not> instant_shape s" by (simp add: instant_shape_def)
  then show ?thesis
    using assms trim_date_chars [OF date_shape_chars [OF s]] by (simp add: coerce_date_def Let_def)
qed

definition options_clean :: "attribute \<Rightarrow> bool" where
  "options_clean a \<longleftrightarrow> list_all (\<lambda>x. op_id x \<noteq> [] \<and> trim_space (op_id x) = op_id x) (at_options a)"

lemma option_kept:
  assumes "s \<in> op_id ` set (at_options a)" "options_clean a"
  shows "coerce_option nm a (RStr s) = Some s \<and> trim_space s = s \<and> s \<noteq> []"
proof -
  have t: "trim_space s = s" "s \<noteq> []" using assms by (auto simp: options_clean_def list_all_iff)
  obtain x where x: "find (\<lambda>x. op_id x = s) (at_options a) = Some x"
    using assms(1) by (cases "find (\<lambda>x. op_id x = s) (at_options a)") (auto simp: find_None_iff)
  then have "op_id x = s" by (auto dest: find_SomeD)
  then show ?thesis using x t by (simp add: coerce_option_def)
qed

lemma scalar_kept:
  assumes "coerce_scalar nm a r = Some v" "\<not> is_blank_raw r" "options_clean a"
  shows "coerce_scalar nm a (raw_of v) = Some v \<and> \<not> is_blank_raw (raw_of v)"
proof -
  have t: "scalar_type nm a v" by (rule coerce_scalar_typed [OF assms(1)])
  have str: "s \<noteq> [] \<and> trim_space s \<noteq> [] \<and> (at_type a \<noteq> TText \<longrightarrow> trim_space s = s)"
    if "coerce_string a r = Some s" for s
    using that assms(2) by (auto simp: coerce_string_def is_blank_raw_def split: raw.splits if_splits)
  show ?thesis
  proof (cases "at_type a")
    case TNumber
    then show ?thesis using t by (auto simp: scalar_cases raw_of_def coerce_number_def is_blank_raw_def split: val.splits)
  next
    case TCurrency
    then show ?thesis using t by (auto simp: scalar_cases raw_of_def coerce_number_def is_blank_raw_def split: val.splits)
  next
    case TRating
    then show ?thesis using t
      by (auto simp: scalar_cases raw_of_def coerce_number_def coerce_rating_def is_blank_raw_def split: val.splits)
  next
    case TDate
    then obtain s where v: "v = VText s" "is_real_date s" using t by (auto simp: scalar_type_def split: val.splits)
    have "trim_space s = s" "s \<noteq> []"
      using v(2) trim_date_chars [OF date_shape_chars] by (auto simp: is_real_date_def date_shape_def)
    then show ?thesis using real_date_kept [OF v(2)] TDate v by (simp add: coerce_scalar_def raw_of_def is_blank_raw_def)
  next
    case TToggle
    then show ?thesis using t
      by (auto simp: scalar_cases raw_of_def coerce_toggle_def is_blank_raw_def split: val.splits)
  next
    case TSelect
    then obtain s where "v = VText s" "s \<in> op_id ` set (at_options a)"
      using t by (auto simp: scalar_type_def split: val.splits)
    then show ?thesis using option_kept [OF _ assms(3), of s nm] TSelect
      by (auto simp: coerce_scalar_def raw_of_def is_blank_raw_def)
  next
    case TStatus
    then obtain s where "v = VText s" "s \<in> op_id ` set (at_options a)"
      using t by (auto simp: scalar_type_def split: val.splits)
    then show ?thesis using option_kept [OF _ assms(3), of s nm] TStatus
      by (auto simp: coerce_scalar_def raw_of_def is_blank_raw_def)
  next
    case TRelationship
    then show ?thesis using assms(1) by (simp add: coerce_scalar_def)
  next
    case TEmail
    then obtain s where "v = VText s" "coerce_string a r = Some s" "email_shape s"
      using assms(1) by (auto simp: coerce_scalar_def coerce_email_def split: option.splits if_splits)
    then show ?thesis using str [of s] TEmail
      by (simp add: coerce_scalar_def coerce_email_def coerce_string_def raw_of_def is_blank_raw_def)
  next
    case TUrl
    then obtain s where "v = VText s" "coerce_string a r = Some s" "nm_url nm s"
      using assms(1) by (auto simp: coerce_scalar_def coerce_url_def split: option.splits if_splits)
    then show ?thesis using str [of s] TUrl
      by (simp add: coerce_scalar_def coerce_url_def coerce_string_def raw_of_def is_blank_raw_def)
  next
    case TText
    then obtain s where "v = VText s" "coerce_string a r = Some s"
      using assms(1) by (auto simp: coerce_scalar_def)
    then show ?thesis using str [of s] TText
      by (simp add: coerce_scalar_def coerce_string_def raw_of_def is_blank_raw_def)
  next
    case TPhone
    then obtain s where "v = VText s" "coerce_string a r = Some s"
      using assms(1) by (auto simp: coerce_scalar_def)
    then show ?thesis using str [of s] TPhone
      by (simp add: coerce_scalar_def coerce_string_def raw_of_def is_blank_raw_def)
  next
    case (TOther k)
    then obtain s where "v = VText s" "coerce_string a r = Some s"
      using assms(1) by (auto simp: coerce_scalar_def)
    then show ?thesis using str [of s] TOther
      by (simp add: coerce_scalar_def coerce_string_def raw_of_def is_blank_raw_def)
  qed
qed

definition many_kept :: "'f numbers \<Rightarrow> attribute \<Rightarrow> string list \<Rightarrow> bool" where
  "many_kept nm a out \<longleftrightarrow> distinct (map (many_key a) out)
     \<and> list_all (\<lambda>x. coerce_scalar nm a (RStr x) = Some (VText x) \<and> trim_space x \<noteq> []) out"

lemma multi_scalar_text:
  assumes "coerce_scalar nm a r = Some v" "at_type a \<in> {TSelect, TEmail, TUrl}"
  shows "\<exists>s. v = VText s"
  using assms by (auto simp: coerce_scalar_def)

lemma many_kept_snoc:
  assumes "many_kept nm a out" "\<not> is_blank_raw r" "coerce_scalar nm a r = Some v" "options_clean a"
    and "at_type a \<in> {TSelect, TEmail, TUrl}" "many_key a (value_string nm v) \<notin> many_key a ` set out"
  shows "many_kept nm a (out @ [value_string nm v])"
proof -
  obtain s where v: "v = VText s" using multi_scalar_text [OF assms(3,5)] by blast
  have "coerce_scalar nm a (RStr s) = Some (VText s)" "trim_space s \<noteq> []"
    using scalar_kept [OF assms(3,2,4)] v by (simp_all add: raw_of_def is_blank_raw_def)
  then show ?thesis using assms(1,6) v by (auto simp: many_kept_def value_string_def)
qed

lemma many_loop_kept:
  assumes "many_kept nm a (out @ xs)"
  shows "many_loop nm a (map RStr xs) out = Some (out @ xs)"
  using assms
proof (induction xs arbitrary: out)
  case Nil
  then show ?case by simp
next
  case (Cons x xs)
  have c: "coerce_scalar nm a (RStr x) = Some (VText x)" and b: "trim_space x \<noteq> []"
    and n: "many_key a x \<notin> many_key a ` set out"
    using Cons.prems by (auto simp: many_kept_def)
  have "many_loop nm a (map RStr xs) (out @ [x]) = Some (out @ x # xs)"
    using Cons.IH [of "out @ [x]"] Cons.prems by simp
  then show ?case using c n b by (simp add: Let_def value_string_def is_blank_raw_def)
qed

text \<open>C27. Writing back what was read changes nothing.  A value the store has accepted is accepted again,
  unchanged, when a caller sends it back as it was stored: the coercion is idempotent on every attribute
  whose options have proper ids and that has several values only where the schema allows it.\<close>

theorem stored_value_stable:
  assumes "coerce_value nm a r = Some (Some v)" "options_clean a"
    and "at_multi a \<longrightarrow> at_type a \<in> {TSelect, TEmail, TUrl}"
  shows "coerce_value nm a (raw_of v) = Some (Some v)"
proof (cases "at_multi a")
  case True
  then have t: "at_type a \<in> {TSelect, TEmail, TUrl}" using assms(3) by simp
  obtain xs where xs: "many_loop nm a (case r of RList rs \<Rightarrow> rs | _ \<Rightarrow> [r]) [] = Some xs" "xs \<noteq> []" "v = VMany xs"
    using assms(1) True by (auto simp: coerce_value_def coerce_many_def split: if_splits)
  have z: "many_kept nm a []" by (simp add: many_kept_def)
  have "many_kept nm a xs"
  proof (rule many_loop_invariant [where kept = "many_kept nm a", OF _ xs(1) z])
    fix r v ys
    assume p: "\<not> is_blank_raw r" "coerce_scalar nm a r = Some v"
      "many_key a (value_string nm v) \<notin> many_key a ` set ys" "many_kept nm a ys"
    show "many_kept nm a (ys @ [value_string nm v])"
      by (rule many_kept_snoc [OF p(4) p(1,2) assms(2) t p(3)])
  qed
  then show ?thesis
    using many_loop_kept [of nm a "[]" xs] True xs by (simp add: coerce_value_def coerce_many_def raw_of_def)
next
  case False
  then have c: "coerce_scalar nm a r = Some v" "\<not> is_blank_raw r"
    using assms(1) by (auto simp: coerce_value_def split: raw.splits if_splits)
  have "\<exists>w. raw_of v = w \<and> (\<forall>rs. w \<noteq> RList rs)"
    using coerce_scalar_typed [OF c(1)]
    by (auto simp: raw_of_def scalar_type_def split: val.splits attr_type.splits)
  then show ?thesis
    using scalar_kept [OF c assms(2)] False by (cases "raw_of v") (simp_all add: coerce_value_def)
qed

theorem stored_value_stable_witness:
  "coerce_value whole_numbers tag_attribute (raw_of (VMany [''o1'', ''o2''])) = Some (Some (VMany [''o1'', ''o2'']))"
proof -
  have e: "coerce_value whole_numbers tag_attribute
      (RList [RStr '' hot LEAD'', RNull, RStr ''o2'', RStr ''o1'']) = Some (Some (VMany [''o1'', ''o2'']))"
    by code_simp
  have o: "options_clean tag_attribute" by code_simp
  have m: "at_multi tag_attribute \<longrightarrow> at_type tag_attribute \<in> {TSelect, TEmail, TUrl}"
    by (simp add: tag_attribute_def)
  show ?thesis by (rule stored_value_stable [OF e o m])
qed

end
