(* ===== verification/SpaceSchema.thy ===== *)
theory SpaceSchema
  imports SpaceValues "HOL-Library.Product_Lexorder"
begin

text \<open>
  Data spaces, part three: the database of one space and the operations on its schema
  (\<^verbatim>\<open>internal/dataspace\<close>: \<^verbatim>\<open>model.go\<close>, \<^verbatim>\<open>schema.go\<close>, \<^verbatim>\<open>attributes.go\<close>, and the statements of
  \<^verbatim>\<open>sqlite.go\<close> they run).

  A table is the list of its rows, an attribute row hangs off the row of its type.  An \<open>INSERT\<close> that
  breaks a \<open>PRIMARY KEY\<close> or \<open>UNIQUE\<close> constraint of the DDL is the fatal error it is in the code.  An
  operation returns its result with the state it leaves, also when it fails half way: undoing that is
  the business of \<open>savepoint\<close> and \<open>in_tx\<close>.
\<close>

section \<open>The database of a space\<close>

record obj_type =
  ty_id :: string
  ty_slug :: string
  ty_name :: string
  ty_plural :: string
  ty_icon :: string
  ty_description :: string
  ty_created_by :: string
  ty_created_at :: string
  ty_position :: nat
  ty_attrs :: "attribute list"

record relationship =
  re_id :: string
  re_source_type :: string
  re_source_attr :: string
  re_target_type :: string
  re_inverse :: string
  re_card :: cardinality

record rec_row =
  rw_id :: string
  rw_type :: string
  rw_created_by :: string
  rw_created_at :: string
  rw_updated_at :: string
  rw_seq :: nat

record 'f value_row =
  vr_record :: string
  vr_attr :: string
  vr_slug :: string
  vr_value :: "'f val"
  vr_key :: "string option"

record link_row =
  lk_rel :: string
  lk_source :: string
  lk_target :: string

record 'f space_db =
  db_types :: "obj_type list"
  db_rels :: "relationship list"
  db_records :: "rec_row list"
  db_values :: "'f value_row list"
  db_links :: "link_row list"
  db_draws :: nat

definition empty_db :: "'f space_db" where
  "empty_db = \<lparr>db_types = [], db_rels = [], db_records = [], db_values = [], db_links = [], db_draws = 0\<rparr>"

definition new_id :: "(nat \<Rightarrow> string) \<Rightarrow> string \<Rightarrow> 'f space_db \<Rightarrow> string \<times> 'f space_db" where
  "new_id rnd pre db = (pre @ ''_'' @ rnd (db_draws db), db\<lparr>db_draws := Suc (db_draws db)\<rparr>)"

definition type_by_id :: "'f space_db \<Rightarrow> string \<Rightarrow> obj_type option" where
  "type_by_id db i = find (\<lambda>t. ty_id t = i) (db_types db)"

definition attr_by_id :: "obj_type \<Rightarrow> string \<Rightarrow> attribute option" where
  "attr_by_id t i = find (\<lambda>a. at_id a = i) (ty_attrs t)"

definition attr_by_slug :: "obj_type \<Rightarrow> string \<Rightarrow> attribute option" where
  "attr_by_slug t s = find (\<lambda>a. at_slug a = s) (ty_attrs t)"

definition attr_by_name :: "obj_type \<Rightarrow> string \<Rightarrow> attribute option" where
  "attr_by_name t n = find (\<lambda>a. same_name (at_name a) n) (ty_attrs t)"

definition primary_attr :: "obj_type \<Rightarrow> attribute option" where
  "primary_attr t = find at_primary (ty_attrs t)"

definition slugs_taken :: "obj_type \<Rightarrow> string list" where
  "slugs_taken t = map at_slug (ty_attrs t)"

definition first_some :: "'a option \<Rightarrow> 'a option \<Rightarrow> 'a option" where
  "first_some x y = (case x of Some v \<Rightarrow> Some v | None \<Rightarrow> y)"

definition resolve_type :: "'f space_db \<Rightarrow> string \<Rightarrow> obj_type option" where
  "resolve_type db ref0 =
     (let ref = trim_space ref0 in
        if ref = [] then None
        else first_some (type_by_id db ref)
            (first_some (find (\<lambda>t. ty_slug t = to_lower ref) (db_types db))
              (first_some (find (\<lambda>t. same_name (ty_name t) ref) (db_types db))
                (find (\<lambda>t. same_name (ty_plural t) ref) (db_types db)))))"

definition require_type :: "'f space_db \<Rightarrow> string \<Rightarrow> ds_error + obj_type" where
  "require_type db ref = (case resolve_type db ref of Some t \<Rightarrow> Inr t | None \<Rightarrow> Inl DsNotFound)"

definition resolve_attribute_ref :: "obj_type \<Rightarrow> string \<Rightarrow> attribute option" where
  "resolve_attribute_ref t ref0 =
     (let ref = trim_space ref0 in
        if ref = [] then None
        else first_some (attr_by_id t ref)
            (first_some (attr_by_slug t (to_lower ref)) (attr_by_name t ref)))"

definition all_attrs :: "'f space_db \<Rightarrow> attribute list" where
  "all_attrs db = concat (map ty_attrs (db_types db))"

definition find_attribute :: "'f space_db \<Rightarrow> string \<Rightarrow> (obj_type \<times> attribute) option" where
  "find_attribute db i =
     (case find (\<lambda>t. attr_by_id t i \<noteq> None) (db_types db) of
        None \<Rightarrow> None
      | Some t \<Rightarrow> map_option (Pair t) (attr_by_id t i))"

definition flip_cardinality :: "cardinality \<Rightarrow> cardinality" where
  "flip_cardinality c = (case c of ManyToOne \<Rightarrow> OneToMany | OneToMany \<Rightarrow> ManyToOne | _ \<Rightarrow> c)"

text \<open>What \<open>loadSchema\<close> makes of the tables: the types and attributes in the order of their positions,
  the reference of each relationship attribute taken from the row of its relationship.\<close>

definition load_ref :: "relationship list \<Rightarrow> attribute \<Rightarrow> ds_error + attribute" where
  "load_ref rels a =
     (case at_rel a of
        None \<Rightarrow> Inr a
      | Some ref \<Rightarrow>
          (case find (\<lambda>r. re_id r = rr_id ref) rels of
             None \<Rightarrow> Inl DsFatal
           | Some r \<Rightarrow>
               if re_source_attr r = at_id a
               then Inr (a\<lparr>at_rel := Some \<lparr>rr_id = re_id r, rr_target = re_target_type r, rr_card = re_card r,
                                           rr_inverse = re_inverse r\<rparr>\<rparr>)
               else Inr (a\<lparr>at_rel := Some \<lparr>rr_id = re_id r, rr_target = re_source_type r,
                                           rr_card = flip_cardinality (re_card r),
                                           rr_inverse = re_source_attr r\<rparr>\<rparr>)))"

fun load_refs :: "relationship list \<Rightarrow> attribute list \<Rightarrow> ds_error + attribute list" where
  "load_refs rels [] = Inr []"
| "load_refs rels (a # as) =
     (case load_ref rels a of
        Inl k \<Rightarrow> Inl k
      | Inr b \<Rightarrow> (case load_refs rels as of Inl k \<Rightarrow> Inl k | Inr bs \<Rightarrow> Inr (b # bs)))"

fun load_types :: "relationship list \<Rightarrow> obj_type list \<Rightarrow> ds_error + obj_type list" where
  "load_types rels [] = Inr []"
| "load_types rels (t # ts) =
     (case load_refs rels (sort_key (\<lambda>a. (at_position a, at_id a)) (ty_attrs t)) of
        Inl k \<Rightarrow> Inl k
      | Inr as \<Rightarrow>
          (case load_types rels ts of Inl k \<Rightarrow> Inl k | Inr us \<Rightarrow> Inr (t\<lparr>ty_attrs := as\<rparr> # us)))"

definition load_schema :: "'f space_db \<Rightarrow> ds_error + 'f space_db" where
  "load_schema db =
     (case load_types (db_rels db) (sort_key (\<lambda>t. (ty_position t, ty_id t)) (db_types db)) of
        Inl k \<Rightarrow> Inl k
      | Inr ts \<Rightarrow> Inr (db\<lparr>db_types := ts\<rparr>))"

section \<open>Inputs\<close>

record rel_input =
  ri_target :: string
  ri_card :: cardinality
  ri_inverse :: string

record attr_input =
  ai_name :: string
  ai_type :: attr_type
  ai_slug :: string
  ai_description :: string
  ai_required :: bool
  ai_unique :: bool
  ai_multi :: bool
  ai_options :: "string list"
  ai_currency :: string
  ai_rel :: "rel_input option"

record type_input =
  ti_name :: string
  ti_plural :: string
  ti_icon :: string
  ti_description :: string
  ti_attrs :: "attr_input list"

record attr_patch =
  ap_name :: "string option"
  ap_description :: "string option"
  ap_required :: "bool option"
  ap_add :: "string list option"
  ap_rename :: "(string \<times> string) option"

record type_patch =
  tp_name :: "string option"
  tp_plural :: "string option"
  tp_icon :: "string option"
  tp_description :: "string option"

definition is_option_type :: "attr_type \<Rightarrow> bool" where
  "is_option_type k \<longleftrightarrow> k \<in> {TSelect, TStatus}"

definition is_multivalue_type :: "attr_type \<Rightarrow> bool" where
  "is_multivalue_type k \<longleftrightarrow> k \<in> {TSelect, TEmail, TUrl}"

definition is_attribute_type :: "attr_type \<Rightarrow> bool" where
  "is_attribute_type k \<longleftrightarrow> (case k of TOther _ \<Rightarrow> False | _ \<Rightarrow> True)"

definition is_cardinality :: "cardinality \<Rightarrow> bool" where
  "is_cardinality c \<longleftrightarrow> (case c of CardOther _ \<Rightarrow> False | _ \<Rightarrow> True)"

section \<open>Writing rows\<close>

definition set_type :: "string \<Rightarrow> (obj_type \<Rightarrow> obj_type) \<Rightarrow> 'f space_db \<Rightarrow> 'f space_db" where
  "set_type i f db = db\<lparr>db_types := map_first (\<lambda>t. ty_id t = i) f (db_types db)\<rparr>"

definition option_ids :: "'f space_db \<Rightarrow> string list" where
  "option_ids db = concat (map (\<lambda>a. map op_id (at_options a)) (all_attrs db))"

definition option_key :: "select_option \<Rightarrow> string" where
  "option_key x = name_key (op_name x)"

definition attr_key :: "attribute \<Rightarrow> string" where
  "attr_key a = name_key (at_name a)"

definition type_key :: "obj_type \<Rightarrow> string" where
  "type_key t = name_key (ty_name t)"

text \<open>\<open>insertOptions\<close>: the ids are new in the table, the names new for the attribute.\<close>

definition options_fit :: "'f space_db \<Rightarrow> select_option list \<Rightarrow> select_option list \<Rightarrow> bool" where
  "options_fit db old new \<longleftrightarrow>
     distinct (option_ids db @ map op_id new) \<and> distinct (map option_key (old @ new))"

definition insert_attribute ::
  "string \<Rightarrow> attribute \<Rightarrow> nat \<Rightarrow> 'f space_db \<Rightarrow> (ds_error + attribute) \<times> 'f space_db" where
  "insert_attribute tid a pos db =
     (case type_by_id db tid of
        None \<Rightarrow> (Inl DsFatal, db)
      | Some t \<Rightarrow>
          if at_id a \<in> at_id ` set (all_attrs db) \<or> at_slug a \<in> at_slug ` set (ty_attrs t)
             \<or> attr_key a \<in> attr_key ` set (ty_attrs t) \<or> \<not> options_fit db [] (at_options a)
          then (Inl DsFatal, db)
          else (Inr (a\<lparr>at_position := pos\<rparr>),
                set_type tid (\<lambda>t. t\<lparr>ty_attrs := ty_attrs t @ [a\<lparr>at_position := pos\<rparr>]\<rparr>) db))"

definition insert_type :: "obj_type \<Rightarrow> 'f space_db \<Rightarrow> (ds_error + unit) \<times> 'f space_db" where
  "insert_type t db =
     (if ty_id t \<in> ty_id ` set (db_types db) \<or> ty_slug t \<in> ty_slug ` set (db_types db)
         \<or> type_key t \<in> type_key ` set (db_types db)
      then (Inl DsFatal, db) else (Inr (), db\<lparr>db_types := db_types db @ [t]\<rparr>))"

definition insert_relationship :: "relationship \<Rightarrow> 'f space_db \<Rightarrow> (ds_error + unit) \<times> 'f space_db" where
  "insert_relationship r db =
     (if re_id r \<in> re_id ` set (db_rels db) then (Inl DsFatal, db)
      else (Inr (), db\<lparr>db_rels := db_rels db @ [r]\<rparr>))"

section \<open>Adding an attribute\<close>

definition name_taken :: "obj_type \<Rightarrow> string \<Rightarrow> string \<Rightarrow> bool" where
  "name_taken t name except \<longleftrightarrow> list_ex (\<lambda>a. at_id a \<noteq> except \<and> same_name (at_name a) name) (ty_attrs t)"

definition flags_ok :: "attr_input \<Rightarrow> bool" where
  "flags_ok inp \<longleftrightarrow>
     \<not> (ai_type inp = TStatus \<and> ai_multi inp)
     \<and> \<not> (ai_multi inp \<and> \<not> is_multivalue_type (ai_type inp))
     \<and> \<not> (ai_multi inp \<and> ai_unique inp)
     \<and> \<not> (ai_type inp = TToggle \<and> ai_unique inp)"

fun clean_option_names :: "string list \<Rightarrow> string list \<Rightarrow> ds_error + string list" where
  "clean_option_names [] seen = Inr seen"
| "clean_option_names (raw # rest) seen =
     (case clean_name raw of
        Inl k \<Rightarrow> Inl k
      | Inr name \<Rightarrow>
          if list_ex (\<lambda>s. same_name s name) seen then Inl (DsInvalid [])
          else clean_option_names rest (seen @ [name]))"

definition option_colors :: "string list" where
  "option_colors = [''neutral'', ''blue'', ''green'', ''yellow'', ''red'', ''purple'']"

fun mint_options ::
  "(nat \<Rightarrow> string) \<Rightarrow> string list \<Rightarrow> nat \<Rightarrow> 'f space_db \<Rightarrow> select_option list \<times> 'f space_db" where
  "mint_options rnd [] start db = ([], db)"
| "mint_options rnd (name # names) start db =
     (let (i, db1) = new_id rnd ''opt'' db; (rest, db2) = mint_options rnd names (Suc start) db1
      in (\<lparr>op_id = i, op_name = name, op_color = option_colors ! (start mod 6)\<rparr> # rest, db2))"

definition base_slug :: "obj_type \<Rightarrow> attr_input \<Rightarrow> string \<Rightarrow> string" where
  "base_slug t inp name =
     (let src = (if trim_space (ai_slug inp) = [] then name else trim_space (ai_slug inp))
      in unique_slug (slugify src ''field'') (slugs_taken t))"

definition upper_letter :: "char \<Rightarrow> bool" where
  "upper_letter c \<longleftrightarrow> CHR ''A'' \<le> c \<and> c \<le> CHR ''Z''"

definition currency_shape :: "string \<Rightarrow> bool" where
  "currency_shape s \<longleftrightarrow> length s = 3 \<and> list_all upper_letter s"

definition upper_char :: "char \<Rightarrow> char" where
  "upper_char c = (let n = (of_char c :: nat) in if 97 \<le> n \<and> n \<le> 122 then char_of (n - 32) else c)"

definition to_upper :: "string \<Rightarrow> string" where
  "to_upper s = map upper_char s"

definition default_status_options :: "string list" where
  "default_status_options = [''To do'', ''In progress'', ''Done'']"

definition currency_code :: "attr_input \<Rightarrow> string" where
  "currency_code inp =
     (if ai_type inp = TCurrency
      then (if trim_space (ai_currency inp) = [] then ''USD'' else to_upper (trim_space (ai_currency inp)))
      else [])"

definition build_value_attribute ::
  "(nat \<Rightarrow> string) \<Rightarrow> string \<Rightarrow> obj_type \<Rightarrow> attr_input \<Rightarrow> string \<Rightarrow> 'f space_db
     \<Rightarrow> (ds_error + attribute) \<times> 'f space_db" where
  "build_value_attribute rnd actor t inp name db =
     (if \<not> flags_ok inp \<or> ai_rel inp \<noteq> None then (Inl (DsInvalid []), db)
      else case clean_option_names (ai_options inp) [] of
             Inl k \<Rightarrow> (Inl k, db)
           | Inr names \<Rightarrow>
               if \<not> is_option_type (ai_type inp) \<and> names \<noteq> [] then (Inl (DsInvalid []), db)
               else if ai_type inp = TSelect \<and> names = [] then (Inl (DsInvalid []), db)
               else if ai_type inp = TCurrency \<and> \<not> currency_shape (currency_code inp)
               then (Inl (DsInvalid []), db)
               else let names1 = (if ai_type inp = TStatus \<and> names = [] then default_status_options else names);
                        (i, db1) = new_id rnd ''attr'' db;
                        (os, db2) = mint_options rnd names1 0 db1
                    in (Inr \<lparr>at_id = i, at_slug = base_slug t inp name, at_name = name, at_type = ai_type inp,
                             at_description = trim_space (ai_description inp), at_primary = False,
                             at_required = ai_required inp, at_unique = ai_unique inp,
                             at_multi = ai_multi inp, at_options = os, at_currency = currency_code inp,
                             at_rel = None, at_created_by = actor, at_position = 0\<rparr>, db2))"

text \<open>Two types are already related under this name.\<close>

definition related_already :: "'f space_db \<Rightarrow> string \<Rightarrow> string \<Rightarrow> string \<Rightarrow> bool" where
  "related_already db src tgt name \<longleftrightarrow>
     list_ex (\<lambda>r.
       ((re_source_type r = src \<and> re_target_type r = tgt) \<or> (re_source_type r = tgt \<and> re_target_type r = src))
       \<and> (case type_by_id db (re_source_type r) of
            None \<Rightarrow> False
          | Some t \<Rightarrow>
              (case attr_by_id t (re_source_attr r) of
                 None \<Rightarrow> False | Some a \<Rightarrow> same_name (at_name a) name)))
       (db_rels db)"

definition link_attribute :: "string \<Rightarrow> string \<Rightarrow> string \<Rightarrow> string \<Rightarrow> string \<Rightarrow> rel_ref \<Rightarrow> attribute" where
  "link_attribute i slug name desc actor ref =
     \<lparr>at_id = i, at_slug = slug, at_name = name, at_type = TRelationship, at_description = desc,
      at_primary = False, at_required = False, at_unique = False, at_multi = False, at_options = [],
      at_currency = [], at_rel = Some ref, at_created_by = actor, at_position = 0\<rparr>"

text \<open>The rows of a relationship: itself, the attribute that owns it, and the mirrored one if there is an
  inverse name.\<close>

definition write_relationship ::
  "obj_type \<Rightarrow> obj_type \<Rightarrow> relationship \<Rightarrow> attribute \<Rightarrow> attribute option \<Rightarrow> 'f space_db
     \<Rightarrow> (ds_error + attribute) \<times> 'f space_db" where
  "write_relationship t target r owning mirrored db =
     (case insert_relationship r db of
        (Inl k, db1) \<Rightarrow> (Inl k, db1)
      | (Inr _, db1) \<Rightarrow>
          (case insert_attribute (ty_id t) owning (length (ty_attrs t)) db1 of
             (Inl k, db2) \<Rightarrow> (Inl k, db2)
           | (Inr a, db2) \<Rightarrow>
               (case mirrored of
                  None \<Rightarrow> (Inr a, db2)
                | Some m \<Rightarrow>
                    (case insert_attribute (ty_id target) m (length (ty_attrs target)) db2 of
                       (Inl k, db3) \<Rightarrow> (Inl k, db3)
                     | (Inr _, db3) \<Rightarrow> (Inr a, db3)))))"

definition make_relationship ::
  "(nat \<Rightarrow> string) \<Rightarrow> string \<Rightarrow> obj_type \<Rightarrow> obj_type \<Rightarrow> attr_input \<Rightarrow> rel_input \<Rightarrow> string \<Rightarrow> 'f space_db
     \<Rightarrow> (ds_error + attribute) \<times> 'f space_db" where
  "make_relationship rnd actor t target inp rel name db =
     (let (rid, db1) = new_id rnd ''rel'' db; inv_name = trim_space (ri_inverse rel) in
        if inv_name = []
        then let (oid, db2) = new_id rnd ''attr'' db1;
                 r = \<lparr>re_id = rid, re_source_type = ty_id t, re_source_attr = oid, re_target_type = ty_id target,
                      re_inverse = [], re_card = ri_card rel\<rparr>
             in write_relationship t target r
                  (link_attribute oid (base_slug t inp name) name (trim_space (ai_description inp)) actor
                     \<lparr>rr_id = rid, rr_target = ty_id target, rr_card = ri_card rel, rr_inverse = []\<rparr>) None db2
        else if 100 \<le> length (ty_attrs target) \<or> name_taken target inv_name [] then (Inl (DsInvalid []), db1)
        else let (mid, db2) = new_id rnd ''attr'' db1; (oid, db3) = new_id rnd ''attr'' db2;
                 r = \<lparr>re_id = rid, re_source_type = ty_id t, re_source_attr = oid, re_target_type = ty_id target,
                      re_inverse = mid, re_card = ri_card rel\<rparr>
             in write_relationship t target r
                  (link_attribute oid (base_slug t inp name) name (trim_space (ai_description inp)) actor
                     \<lparr>rr_id = rid, rr_target = ty_id target, rr_card = ri_card rel, rr_inverse = mid\<rparr>)
                  (Some (link_attribute mid (unique_slug (slugify inv_name ''field'') (slugs_taken target)) inv_name
                     [] actor \<lparr>rr_id = rid, rr_target = ty_id t, rr_card = flip_cardinality (ri_card rel),
                               rr_inverse = oid\<rparr>)) db3)"

definition add_relationship ::
  "(nat \<Rightarrow> string) \<Rightarrow> string \<Rightarrow> obj_type \<Rightarrow> attr_input \<Rightarrow> string \<Rightarrow> 'f space_db
     \<Rightarrow> (ds_error + attribute) \<times> 'f space_db" where
  "add_relationship rnd actor t inp name db =
     (case ai_rel inp of
        None \<Rightarrow> (Inl (DsInvalid []), db)
      | Some rel \<Rightarrow>
          if ai_unique inp \<or> ai_multi inp \<or> ai_required inp \<or> ai_options inp \<noteq> []
             \<or> \<not> is_cardinality (ri_card rel) then (Inl (DsInvalid []), db)
          else case resolve_type db (ri_target rel) of
                 None \<Rightarrow> (Inl DsNotFound, db)
               | Some target \<Rightarrow>
                   if ty_id target = ty_id t \<or> related_already db (ty_id t) (ty_id target) name
                   then (Inl (DsInvalid []), db)
                   else make_relationship rnd actor t target inp rel name db)"

definition add_attribute ::
  "(nat \<Rightarrow> string) \<Rightarrow> string \<Rightarrow> string \<Rightarrow> attr_input \<Rightarrow> 'f space_db \<Rightarrow> (ds_error + attribute) \<times> 'f space_db" where
  "add_attribute rnd actor tid inp db =
     (case clean_name (ai_name inp) of
        Inl k \<Rightarrow> (Inl k, db)
      | Inr name \<Rightarrow>
          (case type_by_id db tid of
             None \<Rightarrow> (Inl DsFatal, db)
           | Some t \<Rightarrow>
               if \<not> is_attribute_type (ai_type inp) \<or> 100 \<le> length (ty_attrs t) \<or> name_taken t name []
               then (Inl (DsInvalid []), db)
               else if ai_type inp = TRelationship then add_relationship rnd actor t inp name db
               else case build_value_attribute rnd actor t inp name db of
                      (Inl k, db1) \<Rightarrow> (Inl k, db1)
                    | (Inr a, db1) \<Rightarrow> insert_attribute tid a (length (ty_attrs t)) db1))"

section \<open>Object types\<close>

fun add_attributes_in ::
  "(nat \<Rightarrow> string) \<Rightarrow> string \<Rightarrow> string \<Rightarrow> attr_input list \<Rightarrow> 'f space_db \<Rightarrow> (ds_error + unit) \<times> 'f space_db" where
  "add_attributes_in rnd actor tid [] db = (Inr (), db)"
| "add_attributes_in rnd actor tid (inp # inps) db =
     (case add_attribute rnd actor tid inp db of
        (Inl k, db1) \<Rightarrow> (Inl k, db1)
      | (Inr _, db1) \<Rightarrow> add_attributes_in rnd actor tid inps db1)"

definition text_or :: "string \<Rightarrow> string \<Rightarrow> string" where
  "text_or s d = (if trim_space s = [] then d else trim_space s)"

definition primary_attribute :: "string \<Rightarrow> string \<Rightarrow> attribute" where
  "primary_attribute i actor =
     \<lparr>at_id = i, at_slug = ''name'', at_name = ''Name'', at_type = TText, at_description = [],
      at_primary = True, at_required = True, at_unique = False, at_multi = False, at_options = [],
      at_currency = [], at_rel = None, at_created_by = actor, at_position = 0\<rparr>"

definition new_type_row :: "string \<Rightarrow> string \<Rightarrow> string \<Rightarrow> string \<Rightarrow> type_input \<Rightarrow> obj_type list \<Rightarrow> obj_type" where
  "new_type_row i name actor stamp inp ts =
     \<lparr>ty_id = i, ty_slug = unique_slug (slugify name ''object'') (map ty_slug ts),
      ty_name = name, ty_plural = text_or (ti_plural inp) (name @ ''s''),
      ty_icon = text_or (ti_icon inp) ''box'', ty_description = trim_space (ti_description inp),
      ty_created_by = actor, ty_created_at = stamp, ty_position = length ts, ty_attrs = []\<rparr>"

definition write_object_type ::
  "(nat \<Rightarrow> string) \<Rightarrow> string \<Rightarrow> obj_type \<Rightarrow> attr_input list \<Rightarrow> 'f space_db \<Rightarrow> (ds_error + obj_type) \<times> 'f space_db" where
  "write_object_type rnd actor t inps db =
     (case insert_type t db of
        (Inl k, db1) \<Rightarrow> (Inl k, db1)
      | (Inr _, db1) \<Rightarrow>
          (let (pid, db2) = new_id rnd ''attr'' db1 in
             case insert_attribute (ty_id t) (primary_attribute pid actor) 0 db2 of
               (Inl k, db3) \<Rightarrow> (Inl k, db3)
             | (Inr _, db3) \<Rightarrow>
                 (case add_attributes_in rnd actor (ty_id t) inps db3 of
                    (Inl k, db4) \<Rightarrow> (Inl k, db4)
                  | (Inr _, db4) \<Rightarrow> (Inr (the (type_by_id db4 (ty_id t))), db4))))"

definition create_object_type ::
  "(nat \<Rightarrow> string) \<Rightarrow> string \<Rightarrow> string \<Rightarrow> type_input \<Rightarrow> 'f space_db \<Rightarrow> (ds_error + obj_type) \<times> 'f space_db" where
  "create_object_type rnd actor stamp inp db =
     (case clean_name (ti_name inp) of
        Inl k \<Rightarrow> (Inl k, db)
      | Inr name \<Rightarrow>
          if 50 \<le> length (db_types db) \<or> list_ex (\<lambda>t. same_name (ty_name t) name) (db_types db)
          then (Inl (DsInvalid []), db)
          else let (i, db1) = new_id rnd ''type'' db
               in write_object_type rnd actor (new_type_row i name actor stamp inp (db_types db)) (ti_attrs inp) db1)"

text \<open>The edits of \<open>UpdateObjectType\<close>; the columns are written when all of them are accepted.\<close>

definition patch_text :: "string option \<Rightarrow> ds_error + string option" where
  "patch_text p =
     (case p of None \<Rightarrow> Inr None
      | Some raw \<Rightarrow> (case clean_name raw of Inl k \<Rightarrow> Inl k | Inr s \<Rightarrow> Inr (Some s)))"

definition if_given :: "'a option \<Rightarrow> 'a \<Rightarrow> 'a" where
  "if_given p d = (case p of Some v \<Rightarrow> v | None \<Rightarrow> d)"

definition update_object_type ::
  "string \<Rightarrow> type_patch \<Rightarrow> 'f space_db \<Rightarrow> (ds_error + obj_type) \<times> 'f space_db" where
  "update_object_type ref p db =
     (case require_type db ref of
        Inl k \<Rightarrow> (Inl k, db)
      | Inr t \<Rightarrow>
          (case patch_text (tp_name p) of
             Inl k \<Rightarrow> (Inl k, db)
           | Inr name \<Rightarrow>
               if name \<noteq> None
                  \<and> list_ex (\<lambda>u. ty_id u \<noteq> ty_id t \<and> same_name (ty_name u) (the name)) (db_types db)
               then (Inl (DsInvalid []), db)
               else case patch_text (tp_plural p) of
                      Inl k \<Rightarrow> (Inl k, db)
                    | Inr plural \<Rightarrow>
                        let edit = (\<lambda>u. u\<lparr>ty_name := if_given name (ty_name u),
                                          ty_plural := if_given plural (ty_plural u),
                                          ty_icon := if_given (map_option (\<lambda>s. text_or s ''box'') (tp_icon p)) (ty_icon u),
                                          ty_description :=
                                            if_given (map_option trim_space (tp_description p)) (ty_description u)\<rparr>)
                        in (Inr (edit t), set_type (ty_id t) edit db)))"

section \<open>Changing an attribute\<close>

definition required_change_ok :: "attribute \<Rightarrow> bool \<Rightarrow> bool" where
  "required_change_ok a req \<longleftrightarrow> \<not> (at_primary a \<and> \<not> req) \<and> \<not> (at_type a = TRelationship \<and> req)"

text \<open>The options added, an existing name being skipped.  \<open>opts\<close> is the local list of the code, the rows
  are written as they are minted.\<close>

definition add_option_row ::
  "string \<Rightarrow> string \<Rightarrow> select_option list \<Rightarrow> select_option list \<Rightarrow> 'f space_db \<Rightarrow> (ds_error + unit) \<times> 'f space_db" where
  "add_option_row tid aid old new db =
     (if \<not> options_fit db old new then (Inl DsFatal, db)
      else (Inr (), set_type tid (\<lambda>t. t\<lparr>ty_attrs := map_first (\<lambda>a. at_id a = aid)
              (\<lambda>a. a\<lparr>at_options := at_options a @ new\<rparr>) (ty_attrs t)\<rparr>) db))"

fun add_options ::
  "(nat \<Rightarrow> string) \<Rightarrow> string \<Rightarrow> string \<Rightarrow> string list \<Rightarrow> select_option list \<Rightarrow> 'f space_db
     \<Rightarrow> (ds_error + select_option list) \<times> 'f space_db" where
  "add_options rnd tid aid [] opts db = (Inr opts, db)"
| "add_options rnd tid aid (raw # rest) opts db =
     (case clean_name raw of
        Inl k \<Rightarrow> (Inl k, db)
      | Inr name \<Rightarrow>
          if list_ex (\<lambda>x. same_name (op_name x) name) opts then add_options rnd tid aid rest opts db
          else let (new, db1) = mint_options rnd [name] (length opts) db
               in case add_option_row tid aid opts new db1 of
                    (Inl k, db2) \<Rightarrow> (Inl k, db2)
                  | (Inr _, db2) \<Rightarrow> add_options rnd tid aid rest (opts @ new) db2)"

definition rename_option ::
  "string \<Rightarrow> string \<times> string \<Rightarrow> select_option list \<Rightarrow> ds_error + select_option list" where
  "rename_option slug p opts =
     (case clean_name (snd p) of
        Inl k \<Rightarrow> Inl k
      | Inr name \<Rightarrow>
          if fst p \<notin> op_id ` set opts then Inl (DsInvalid slug)
          else if list_ex (\<lambda>x. op_id x \<noteq> fst p \<and> same_name (op_name x) name) opts then Inl (DsInvalid slug)
          else Inr (map (\<lambda>x. if op_id x = fst p then x\<lparr>op_name := name\<rparr> else x) opts))"

definition patch_options ::
  "(nat \<Rightarrow> string) \<Rightarrow> string \<Rightarrow> attribute \<Rightarrow> attr_patch \<Rightarrow> 'f space_db
     \<Rightarrow> (ds_error + select_option list) \<times> 'f space_db" where
  "patch_options rnd tid a p db =
     (case add_options rnd tid (at_id a) (if_given (ap_add p) []) (at_options a) db of
        (Inl k, db1) \<Rightarrow> (Inl k, db1)
      | (Inr opts, db1) \<Rightarrow>
          (case ap_rename p of
             None \<Rightarrow> (Inr opts, db1)
           | Some q \<Rightarrow>
               (case rename_option (at_slug a) q opts of
                  Inl k \<Rightarrow> (Inl k, db1)
                | Inr opts1 \<Rightarrow> (Inr opts1, db1))))"

text \<open>The last statement of \<open>UpdateAttribute\<close>; the option rows hold the names the patch has left.\<close>

definition write_attribute_row ::
  "string \<Rightarrow> string \<Rightarrow> string option \<Rightarrow> string option \<Rightarrow> bool option \<Rightarrow> select_option list \<Rightarrow> 'f space_db \<Rightarrow> 'f space_db" where
  "write_attribute_row tid aid name desc req opts db =
     set_type tid (\<lambda>t. t\<lparr>ty_attrs := map_first (\<lambda>a. at_id a = aid)
        (\<lambda>a. a\<lparr>at_name := if_given name (at_name a),
               at_description := if_given (map_option trim_space desc) (at_description a),
               at_required := if_given req (at_required a), at_options := opts\<rparr>) (ty_attrs t)\<rparr>) db"

definition update_attribute ::
  "(nat \<Rightarrow> string) \<Rightarrow> string \<Rightarrow> string \<Rightarrow> attr_patch \<Rightarrow> 'f space_db \<Rightarrow> (ds_error + unit) \<times> 'f space_db" where
  "update_attribute rnd tref aref p db =
     (case require_type db tref of
        Inl k \<Rightarrow> (Inl k, db)
      | Inr t \<Rightarrow>
          (case resolve_attribute_ref t aref of
             None \<Rightarrow> (Inl DsNotFound, db)
           | Some a \<Rightarrow>
               (case patch_text (ap_name p) of
                  Inl k \<Rightarrow> (Inl k, db)
                | Inr name \<Rightarrow>
                    if name \<noteq> None \<and> name_taken t (the name) (at_id a) then (Inl (DsInvalid []), db)
                    else if ap_required p \<noteq> None \<and> \<not> required_change_ok a (the (ap_required p))
                    then (Inl (DsInvalid (at_slug a)), db)
                    else if ap_add p = None \<and> ap_rename p = None
                    then (Inr (), write_attribute_row (ty_id t) (at_id a) name (ap_description p) (ap_required p)
                                    (at_options a) db)
                    else if \<not> is_option_type (at_type a) then (Inl (DsInvalid (at_slug a)), db)
                    else case patch_options rnd (ty_id t) a p db of
                           (Inl k, db1) \<Rightarrow> (Inl k, db1)
                         | (Inr opts, db1) \<Rightarrow>
                             (Inr (), write_attribute_row (ty_id t) (at_id a) name (ap_description p)
                                        (ap_required p) opts db1))))"

section \<open>Batches and transactions\<close>

record ds_entry =
  de_index :: nat
  de_identifier :: string
  de_noop :: bool
  de_error :: "ds_error option"
  de_id :: string

record ds_result =
  rs_succeeded :: nat
  rs_failed :: nat
  rs_summary :: string
  rs_entries :: "ds_entry list"

definition is_fatal :: "ds_error \<Rightarrow> bool" where
  "is_fatal k \<longleftrightarrow> k = DsFatal"

definition part_text :: "nat \<Rightarrow> string \<Rightarrow> string list" where
  "part_text n word = (if n = 0 then [] else [itoa (int n) @ '' '' @ word])"

text \<open>The summary and counts of \<open>result()\<close>, from the entries the builder has counted.\<close>

definition build_result :: "string \<Rightarrow> string \<Rightarrow> ds_entry list \<Rightarrow> ds_result" where
  "build_result noun verb es =
     (let failed = length (filter (\<lambda>e. de_error e \<noteq> None) es);
          noop = length (filter (\<lambda>e. de_error e = None \<and> de_noop e) es);
          done = length (filter (\<lambda>e. de_error e = None \<and> \<not> de_noop e) es);
          parts = part_text done verb @ part_text noop ''unchanged'' @ part_text failed ''failed''
      in \<lparr>rs_succeeded = done + noop, rs_failed = failed,
          rs_summary = (if suffix ''s'' noun then noun else noun @ ''s'') @ '': ''
             @ join '', '' (if parts = [] then [''nothing to do''] else parts),
          rs_entries = es\<rparr>)"

text \<open>\<open>ROLLBACK TO\<close> the savepoint undoes the rows; what has been drawn from the generator stays drawn.\<close>

definition savepoint ::
  "('f space_db \<Rightarrow> (ds_error + 'a) \<times> 'f space_db) \<Rightarrow> 'f space_db \<Rightarrow> (ds_error + 'a) \<times> 'f space_db" where
  "savepoint f db =
     (case f db of
        (Inl k, db1) \<Rightarrow> (Inl k, db\<lparr>db_draws := db_draws db1\<rparr>)
      | (Inr x, db1) \<Rightarrow> (Inr x, db1))"

text \<open>The loop of a batch: an input that fails is reported under its index and leaves no row, a fatal error
  stops everything.  The step answers the identifier, whether nothing changed, and the id.\<close>

type_synonym ds_outcome = "string \<times> bool \<times> string"

fun run_batch ::
  "('i \<Rightarrow> 'f space_db \<Rightarrow> (ds_error + ds_outcome) \<times> 'f space_db) \<Rightarrow> ('i \<Rightarrow> string) \<Rightarrow> nat \<Rightarrow> 'i list \<Rightarrow> ds_entry list
     \<Rightarrow> 'f space_db \<Rightarrow> (ds_error + ds_entry list) \<times> 'f space_db" where
  "run_batch step ident k [] es db = (Inr es, db)"
| "run_batch step ident k (i # is) es db =
     (case savepoint (step i) db of
        (Inl err, db1) \<Rightarrow>
          if is_fatal err then (Inl err, db1)
          else run_batch step ident (Suc k) is
                 (es @ [\<lparr>de_index = k, de_identifier = ident i, de_noop = False, de_error = Some err, de_id = []\<rparr>]) db1
      | (Inr (name, noop, x), db1) \<Rightarrow>
          run_batch step ident (Suc k) is
            (es @ [\<lparr>de_index = k, de_identifier = name, de_noop = noop, de_error = None, de_id = x\<rparr>]) db1)"

definition type_step ::
  "(nat \<Rightarrow> string) \<Rightarrow> string \<Rightarrow> string \<Rightarrow> type_input \<Rightarrow> 'f space_db \<Rightarrow> (ds_error + ds_outcome) \<times> 'f space_db" where
  "type_step rnd actor stamp inp db =
     (case create_object_type rnd actor stamp inp db of
        (Inl k, db1) \<Rightarrow> (Inl k, db1)
      | (Inr t, db1) \<Rightarrow> (Inr (ty_name t, False, ty_id t), db1))"

definition attribute_step ::
  "(nat \<Rightarrow> string) \<Rightarrow> string \<Rightarrow> string \<Rightarrow> attr_input \<Rightarrow> 'f space_db \<Rightarrow> (ds_error + ds_outcome) \<times> 'f space_db" where
  "attribute_step rnd actor tid inp db =
     (case add_attribute rnd actor tid inp db of
        (Inl k, db1) \<Rightarrow> (Inl k, db1)
      | (Inr a, db1) \<Rightarrow> (Inr (at_name a, False, at_id a), db1))"

text \<open>The schema is loaded anew before every entry of a batch.\<close>

definition reloaded ::
  "('f space_db \<Rightarrow> (ds_error + 'a) \<times> 'f space_db) \<Rightarrow> 'f space_db \<Rightarrow> (ds_error + 'a) \<times> 'f space_db" where
  "reloaded f db = (case load_schema db of Inl k \<Rightarrow> (Inl k, db) | Inr db1 \<Rightarrow> f db1)"

definition create_types_tx ::
  "(nat \<Rightarrow> string) \<Rightarrow> string \<Rightarrow> string \<Rightarrow> type_input list \<Rightarrow> 'f space_db \<Rightarrow> (ds_error + ds_entry list) \<times> 'f space_db" where
  "create_types_tx rnd actor stamp inps db =
     run_batch (\<lambda>inp. reloaded (type_step rnd actor stamp inp)) (\<lambda>inp. trim_space (ti_name inp)) 0 inps [] db"

definition add_attributes_tx ::
  "(nat \<Rightarrow> string) \<Rightarrow> string \<Rightarrow> string \<Rightarrow> attr_input list \<Rightarrow> 'f space_db \<Rightarrow> (ds_error + ds_entry list) \<times> 'f space_db" where
  "add_attributes_tx rnd actor ref inps db =
     reloaded (\<lambda>db1.
       case require_type db1 ref of
         Inl k \<Rightarrow> (Inl k, db1)
       | Inr t \<Rightarrow>
           run_batch (\<lambda>inp. reloaded (attribute_step rnd actor (ty_id t) inp)) (\<lambda>inp. trim_space (ai_name inp))
             0 inps [] db1) db"

end
