(* ===== verification/SpaceSchemaProps.thy ===== *)
theory SpaceSchemaProps
  imports SpaceSchema
begin

text \<open>
  What holds of the schema of a space, whatever sequence of calls built it: the limits, one primary
  attribute per type, names and slugs that are told apart by the comparison the callers use, and
  attributes whose flags, options, currency and reference fit their type.
\<close>

section \<open>The invariant\<close>

definition attr_ok :: "attribute \<Rightarrow> bool" where
  "attr_ok a \<longleftrightarrow>
     is_attribute_type (at_type a)
     \<and> (at_multi a \<longrightarrow> is_multivalue_type (at_type a) \<and> \<not> at_unique a)
     \<and> (at_unique a \<longrightarrow> at_type a \<noteq> TToggle)
     \<and> (is_option_type (at_type a) \<longleftrightarrow> at_options a \<noteq> [])
     \<and> distinct (map option_key (at_options a))
     \<and> (if at_type a = TCurrency then currency_shape (at_currency a) else at_currency a = [])
     \<and> (at_type a = TRelationship \<longleftrightarrow> at_rel a \<noteq> None)
     \<and> (at_type a = TRelationship \<longrightarrow> \<not> at_required a \<and> \<not> at_unique a)"

definition is_primary_ok :: "attribute \<Rightarrow> bool" where
  "is_primary_ok a \<longleftrightarrow> at_slug a = ''name'' \<and> at_required a \<and> at_type a = TText"

definition type_ok :: "obj_type \<Rightarrow> bool" where
  "type_ok t \<longleftrightarrow>
     length (ty_attrs t) \<le> 100
     \<and> distinct (map at_slug (ty_attrs t)) \<and> distinct (map attr_key (ty_attrs t))
     \<and> list_all attr_ok (ty_attrs t)
     \<and> length (filter at_primary (ty_attrs t)) = 1 \<and> list_all is_primary_ok (filter at_primary (ty_attrs t))"

definition db_ok :: "'f space_db \<Rightarrow> bool" where
  "db_ok db \<longleftrightarrow>
     length (db_types db) \<le> 50
     \<and> distinct (map ty_id (db_types db)) \<and> distinct (map ty_slug (db_types db))
     \<and> distinct (map type_key (db_types db)) \<and> list_all type_ok (db_types db)
     \<and> distinct (map at_id (all_attrs db)) \<and> distinct (option_ids db)"

section \<open>Rows edited in place\<close>

lemma find_split:
  assumes "find p xs = Some x"
  obtains ys zs where "xs = ys @ x # zs" "\<forall>y\<in>set ys. \<not> p y" "p x" "\<And>f. map_first p f xs = ys @ f x # zs"
proof -
  have "\<exists>ys zs. xs = ys @ x # zs \<and> (\<forall>y\<in>set ys. \<not> p y) \<and> p x \<and> (\<forall>f. map_first p f xs = ys @ f x # zs)"
    using assms
  proof (induction xs)
    case (Cons a xs)
    show ?case
    proof (cases "p a")
      case True
      then have "x = a" using Cons.prems by simp
      then have "a # xs = [] @ x # xs \<and> (\<forall>y\<in>set []. \<not> p y) \<and> p x \<and> (\<forall>f. map_first p f (a # xs) = [] @ f x # xs)"
        using True by simp
      then show ?thesis by blast
    next
      case False
      then obtain ys zs where "xs = ys @ x # zs" "\<forall>y\<in>set ys. \<not> p y" "p x" "\<forall>f. map_first p f xs = ys @ f x # zs"
        using Cons.IH Cons.prems by auto
      then have "a # xs = (a # ys) @ x # zs \<and> (\<forall>y\<in>set (a # ys). \<not> p y) \<and> p x
          \<and> (\<forall>f. map_first p f (a # xs) = (a # ys) @ f x # zs)" using False by simp
      then show ?thesis by blast
    qed
  qed simp
  then show ?thesis using that by blast
qed

lemma db_ok_draws [simp]: "db_ok (db\<lparr>db_draws := n\<rparr>) = db_ok db"
  by (simp add: db_ok_def all_attrs_def option_ids_def)

lemma db_ok_rels [simp]: "db_ok (db\<lparr>db_rels := n\<rparr>) = db_ok db"
  by (simp add: db_ok_def all_attrs_def option_ids_def)

lemma all_attrs_append [simp]: "db_types db = ys @ t # zs \<Longrightarrow>
    all_attrs db = concat (map ty_attrs ys) @ ty_attrs t @ concat (map ty_attrs zs)"
  by (simp add: all_attrs_def)

definition ids_of :: "attribute list \<Rightarrow> string list" where
  "ids_of as = concat (map (\<lambda>a. map op_id (at_options a)) as)"

lemma ids_of_append [simp]: "ids_of (xs @ ys) = ids_of xs @ ids_of ys"
  and ids_of_Cons [simp]: "ids_of (a # ys) = map op_id (at_options a) @ ids_of ys"
  and ids_of_Nil [simp]: "ids_of [] = []"
  by (simp_all add: ids_of_def)

lemma option_ids_of: "option_ids db = ids_of (all_attrs db)"
  by (simp add: option_ids_def ids_of_def)

lemma distinct_by_mset: "mset xs = mset ys \<Longrightarrow> distinct xs \<longleftrightarrow> distinct ys"
  by (rule mset_eq_imp_distinct_iff)

lemma distinct_map_mid:
  "distinct (map g (ys @ x # zs)) \<longleftrightarrow> distinct (map g (ys @ zs)) \<and> (\<forall>u\<in>set ys \<union> set zs. g u \<noteq> g x)"
  by auto (metis imageI)+

text \<open>A type is replaced by one with the same id, slug and name whose attributes are fine.\<close>

lemma set_type_ok:
  assumes ok: "db_ok db" and t: "type_by_id db tid = Some t"
    and f: "ty_id (f t) = ty_id t" "ty_slug (f t) = ty_slug t" "type_ok (f t)"
    and key: "\<forall>u\<in>set (db_types db). ty_id u \<noteq> ty_id t \<longrightarrow> type_key u \<noteq> type_key (f t)"
    and attrs: "mset (map at_id (ty_attrs (f t))) = mset (map at_id (ty_attrs t)) + mset new"
      "distinct (map at_id (all_attrs db) @ new)"
    and opts: "mset (ids_of (ty_attrs (f t))) = mset (ids_of (ty_attrs t)) + mset new_opts"
      "distinct (option_ids db @ new_opts)"
  shows "db_ok (set_type tid f db)"
proof -
  obtain ys zs where s: "db_types db = ys @ t # zs"
    and m: "map_first (\<lambda>t. ty_id t = tid) f (db_types db) = ys @ f t # zs"
    using t unfolding type_by_id_def by (rule find_split) blast
  have types: "db_types (set_type tid f db) = ys @ f t # zs" using m by (simp add: set_type_def)
  have a: "mset (map at_id (all_attrs (set_type tid f db))) = mset (map at_id (all_attrs db) @ new)"
    using attrs(1) by (simp add: all_attrs_append [OF s] all_attrs_append [OF types])
  have o: "mset (option_ids (set_type tid f db)) = mset (option_ids db @ new_opts)"
    using opts(1) by (simp add: option_ids_of all_attrs_append [OF s] all_attrs_append [OF types])
  have i: "distinct (map ty_id (ys @ t # zs))" "distinct (map type_key (ys @ t # zs))"
    and sl: "distinct (map ty_slug (ys @ t # zs))"
    using ok s by (simp_all only: db_ok_def)
  have k: "distinct (map type_key (ys @ f t # zs))"
    using i key unfolding distinct_map_mid s by auto
  have i1: "distinct (map ty_id (ys @ f t # zs))" "distinct (map ty_slug (ys @ f t # zs))"
    using i sl f by simp_all
  show ?thesis
    unfolding db_ok_def types
    using ok f(3) k i1 distinct_by_mset [OF a] distinct_by_mset [OF o] attrs(2) opts(2)
    by (simp del: distinct_append add: db_ok_def s)
qed

lemma type_ok_of: "db_ok db \<Longrightarrow> type_by_id db i = Some t \<Longrightarrow> type_ok t \<and> ty_id t = i"
  by (auto simp: db_ok_def type_by_id_def list_all_iff dest: find_SomeD)

lemma db_ok_key:
  assumes "db_ok db" "type_by_id db i = Some t" "u \<in> set (db_types db)" "ty_id u \<noteq> ty_id t"
  shows "type_key u \<noteq> type_key t"
proof -
  have "t \<in> set (db_types db)" using assms(2) by (auto simp: type_by_id_def dest: find_SomeD)
  then show ?thesis using assms by (auto simp: db_ok_def distinct_map dest: inj_onD)
qed

section \<open>Adding an attribute\<close>

lemma insert_attribute_ok:
  assumes ok: "db_ok db" and r: "insert_attribute tid a pos db = (Inr b, db')"
    and a: "attr_ok a" "\<not> at_primary a" and room: "\<And>t. type_by_id db tid = Some t \<Longrightarrow> length (ty_attrs t) < 100"
  shows "db_ok db'"
proof -
  let ?a = "a\<lparr>at_position := pos\<rparr>"
  let ?f = "\<lambda>t. t\<lparr>ty_attrs := ty_attrs t @ [?a]\<rparr>"
  obtain t where t: "type_by_id db tid = Some t" using r by (auto simp: insert_attribute_def split: option.splits)
  have c: "at_id a \<notin> at_id ` set (all_attrs db)" "at_slug a \<notin> at_slug ` set (ty_attrs t)"
      "attr_key a \<notin> attr_key ` set (ty_attrs t)" "options_fit db [] (at_options a)"
    and db': "db' = set_type tid ?f db"
    using r t by (auto simp: insert_attribute_def split: if_splits)
  have ak: "attr_ok ?a" "attr_key ?a = attr_key a" using a(1) by (simp_all add: attr_ok_def attr_key_def)
  have "db_ok (set_type tid ?f db)"
  proof (rule set_type_ok [OF ok t, where new = "[at_id a]" and new_opts = "map op_id (at_options a)"])
    show "type_ok (?f t)"
      using type_ok_of [OF ok t] room [OF t] c(2,3) a ak by (auto simp: type_ok_def)
    show "\<forall>u\<in>set (db_types db). ty_id u \<noteq> ty_id t \<longrightarrow> type_key u \<noteq> type_key (?f t)"
      using db_ok_key [OF ok t] by (simp add: type_key_def)
    show "distinct (map at_id (all_attrs db) @ [at_id a])" using ok c(1) by (auto simp: db_ok_def)
    show "distinct (option_ids db @ map op_id (at_options a))" using c(4) by (simp add: options_fit_def)
  qed simp_all
  then show ?thesis using db' by simp
qed

lemma clean_name_ok: "clean_name raw = Inr n \<Longrightarrow> n \<noteq> [] \<and> trim_space n = n"
  by (auto simp: clean_name_def split: if_splits)

lemma clean_option_names_distinct:
  assumes "clean_option_names raws seen = Inr names" "distinct (map name_key seen)"
  shows "distinct (map name_key names)"
  using assms
proof (induction raws seen rule: clean_option_names.induct)
  case (2 raw rest seen)
  obtain n where n: "clean_name raw = Inr n" using "2.prems"(1) by (cases "clean_name raw") auto
  have e: "\<not> list_ex (\<lambda>s. same_name s n) seen" using "2.prems"(1) n by (auto split: if_splits)
  then have r: "clean_option_names rest (seen @ [n]) = Inr names" using "2.prems"(1) n by simp
  have "distinct (map name_key (seen @ [n]))"
    using e "2.prems"(2) by (auto simp: list_ex_iff same_name_key)
  then show ?case by (rule "2.IH" [OF n e r])
qed simp

lemma mint_options_names: "map op_name (fst (mint_options rnd names k db)) = names"
  by (induction names arbitrary: k db) (simp_all add: case_prod_beta Let_def)

lemma mint_options_db: "\<exists>n. snd (mint_options rnd names k db) = db\<lparr>db_draws := n\<rparr>"
proof (induction names arbitrary: k db)
  case Nil
  have "db = db\<lparr>db_draws := db_draws db\<rparr>" by simp
  then show ?case by (metis mint_options.simps(1) snd_conv)
next
  case (Cons name names)
  then obtain n where "snd (mint_options rnd names (Suc k) (snd (new_id rnd ''opt'' db)))
      = (snd (new_id rnd ''opt'' db))\<lparr>db_draws := n\<rparr>" by blast
  then show ?case by (auto simp: case_prod_beta Let_def new_id_def)
qed

lemma mint_options_keys: "map option_key (fst (mint_options rnd names k db)) = map name_key names"
proof -
  have "map option_key (fst (mint_options rnd names k db)) = map name_key (map op_name (fst (mint_options rnd names k db)))"
    by (simp add: option_key_def)
  then show ?thesis by (simp add: mint_options_names)
qed

lemma status_options_distinct: "distinct (map name_key default_status_options)"
  by code_simp

lemma currency_default: "currency_shape ''USD''"
  by code_simp

lemma build_value_attribute_ok:
  assumes "build_value_attribute rnd actor t inp name db = (Inr a, db')" "is_attribute_type (ai_type inp)"
    "ai_type inp \<noteq> TRelationship"
  shows "attr_ok a \<and> \<not> at_primary a \<and> (\<exists>n. db' = db\<lparr>db_draws := n\<rparr>)"
proof -
  obtain names where n: "clean_option_names (ai_options inp) [] = Inr names"
    using assms(1) by (auto simp: build_value_attribute_def split: if_splits sum.splits)
  let ?names = "if ai_type inp = TStatus \<and> names = [] then default_status_options else names"
  let ?db = "snd (new_id rnd ''attr'' db)"
  have d: "distinct (map name_key ?names)"
    using clean_option_names_distinct [OF n] status_options_distinct by simp
  have c: "flags_ok inp" "\<not> (\<not> is_option_type (ai_type inp) \<and> names \<noteq> [])" "\<not> (ai_type inp = TSelect \<and> names = [])"
      "\<not> (ai_type inp = TCurrency \<and> \<not> currency_shape (currency_code inp))"
    and e: "at_type a = ai_type inp" "at_multi a = ai_multi inp" "at_unique a = ai_unique inp" "\<not> at_primary a"
      "at_rel a = None" "at_currency a = currency_code inp"
      "at_options a = fst (mint_options rnd ?names 0 ?db)" "db' = snd (mint_options rnd ?names 0 ?db)"
    using assms(1) n
    by (auto simp: build_value_attribute_def case_prod_beta Let_def simp del: mint_options.simps split: if_splits)
  have o: "map option_key (at_options a) = map name_key ?names" "at_options a = [] \<longleftrightarrow> ?names = []"
    using mint_options_keys [of rnd ?names 0 ?db] mint_options_names [of rnd ?names 0 ?db] e(7)
    by (simp, metis map_is_Nil_conv)
  have s: "default_status_options \<noteq> []" by (simp add: default_status_options_def)
  have "is_option_type (at_type a) \<longleftrightarrow> at_options a \<noteq> []"
    unfolding o(2) e(1) using c(2,3) s by (auto simp: is_option_type_def)
  moreover have "distinct (map option_key (at_options a))" unfolding o(1) by (rule d)
  moreover have "at_multi a \<longrightarrow> is_multivalue_type (at_type a) \<and> \<not> at_unique a" "at_unique a \<longrightarrow> at_type a \<noteq> TToggle"
    using c(1) e(1-3) by (auto simp: flags_ok_def)
  moreover have "if at_type a = TCurrency then currency_shape (at_currency a) else at_currency a = []"
    using c(4) e(1,6) by (auto simp: currency_code_def)
  ultimately have "attr_ok a" using assms(2,3) e(1,5) by (simp add: attr_ok_def)
  moreover have "\<exists>n. db' = db\<lparr>db_draws := n\<rparr>"
    using mint_options_db [of rnd ?names 0 ?db] e(8) by (auto simp: new_id_def)
  ultimately show ?thesis using e(4) by simp
qed

lemma link_attribute_ok: "attr_ok (link_attribute i slug name desc actor ref) \<and> \<not> at_primary (link_attribute i slug name desc actor ref)"
  by (simp add: link_attribute_def attr_ok_def is_attribute_type_def is_multivalue_type_def is_option_type_def)

lemma insert_other_type:
  assumes r: "insert_attribute tid a pos db = (Inr b, db')" and n: "tid \<noteq> i"
  shows "type_by_id db' i = type_by_id db i"
proof -
  obtain f where f: "db' = set_type tid f db" "\<And>t. ty_id (f t) = ty_id t"
    using r by (auto simp: insert_attribute_def split: option.splits if_splits)
  have "find (\<lambda>t. ty_id t = i) (map_first (\<lambda>t. ty_id t = tid) f ts) = find (\<lambda>t. ty_id t = i) ts" for ts
    using f(2) n by (induction ts) auto
  then show ?thesis by (simp add: f(1) type_by_id_def set_type_def)
qed

lemma write_relationship_ok:
  assumes ok: "db_ok db" and r: "write_relationship t target rel owning mirrored db = (Inr a, db')"
    and t: "type_by_id db (ty_id t) = Some t" "type_by_id db (ty_id target) = Some target" "ty_id t \<noteq> ty_id target"
    and room: "length (ty_attrs t) < 100" "mirrored \<noteq> None \<Longrightarrow> length (ty_attrs target) < 100"
    and a: "attr_ok owning" "\<not> at_primary owning" "\<And>m. mirrored = Some m \<Longrightarrow> attr_ok m \<and> \<not> at_primary m"
  shows "db_ok db'"
proof -
  obtain u db1 where i: "insert_relationship rel db = (Inr u, db1)"
    using r by (cases "insert_relationship rel db") (auto simp: write_relationship_def split: sum.splits)
  then have ok1: "db_ok db1" and same: "\<And>i. type_by_id db1 i = type_by_id db i"
    using ok by (auto simp: insert_relationship_def type_by_id_def split: if_splits)
  obtain b db2 where o: "insert_attribute (ty_id t) owning (length (ty_attrs t)) db1 = (Inr b, db2)"
    using r i by (cases "insert_attribute (ty_id t) owning (length (ty_attrs t)) db1")
      (auto simp: write_relationship_def split: sum.splits)
  have ok2: "db_ok db2" by (rule insert_attribute_ok [OF ok1 o a(1,2)]) (use same t(1) room(1) in auto)
  have same2: "type_by_id db2 (ty_id target) = Some target"
    using insert_other_type [OF o t(3)] same t(2) by simp
  show ?thesis
  proof (cases mirrored)
    case None
    then show ?thesis using r i o ok2 by (simp add: write_relationship_def)
  next
    case (Some m)
    then obtain c where m: "insert_attribute (ty_id target) m (length (ty_attrs target)) db2 = (Inr c, db')"
      using r i o by (cases "insert_attribute (ty_id target) m (length (ty_attrs target)) db2")
        (auto simp: write_relationship_def split: sum.splits)
    show ?thesis
      by (rule insert_attribute_ok [OF ok2 m]) (use a(3) [OF Some] same2 room(2) Some in auto)
  qed
qed

definition steps_ok :: "('f space_db \<Rightarrow> (ds_error + 'a) \<times> 'f space_db) \<Rightarrow> bool" where
  "steps_ok f \<longleftrightarrow> (\<forall>db x db'. db_ok db \<longrightarrow> f db = (Inr x, db') \<longrightarrow> db_ok db')"

lemma steps_okD: "steps_ok f \<Longrightarrow> db_ok db \<Longrightarrow> f db = (Inr x, db') \<Longrightarrow> db_ok db'"
  by (auto simp: steps_ok_def)

lemma type_by_id_draws [simp]: "type_by_id (db\<lparr>db_draws := n\<rparr>) i = type_by_id db i"
  by (simp add: type_by_id_def)

lemma make_relationship_ok:
  assumes ok: "db_ok db" and r: "make_relationship rnd actor t target inp rel name db = (Inr a, db')"
    and t: "type_by_id db (ty_id t) = Some t" "type_by_id db (ty_id target) = Some target" "ty_id t \<noteq> ty_id target"
    and room: "length (ty_attrs t) < 100"
  shows "db_ok db'"
proof (cases "trim_space (ri_inverse rel) = []")
  case True
  have d: "db_ok (db\<lparr>db_draws := Suc (Suc (db_draws db))\<rparr>)" using ok by simp
  obtain rw own where w: "write_relationship t target rw own None (db\<lparr>db_draws := Suc (Suc (db_draws db))\<rparr>) = (Inr a, db')"
    and k: "attr_ok own \<and> \<not> at_primary own"
    using r True link_attribute_ok by (auto simp: make_relationship_def new_id_def Let_def)
  show ?thesis
    by (rule write_relationship_ok [OF d w]) (use t room k in auto)
next
  case False
  then have room2: "length (ty_attrs target) < 100"
    using r by (auto simp: make_relationship_def new_id_def Let_def split: if_splits)
  have d: "db_ok (db\<lparr>db_draws := Suc (Suc (Suc (db_draws db)))\<rparr>)" using ok by simp
  obtain rw own m where w: "write_relationship t target rw own (Some m) (db\<lparr>db_draws := Suc (Suc (Suc (db_draws db)))\<rparr>) = (Inr a, db')"
    and k: "attr_ok own \<and> \<not> at_primary own" "attr_ok m \<and> \<not> at_primary m"
    using r False link_attribute_ok by (auto simp: make_relationship_def new_id_def Let_def split: if_splits)
  show ?thesis
    by (rule write_relationship_ok [OF d w]) (use t room room2 k in auto)
qed

lemma resolve_type_found:
  assumes "resolve_type db ref = Some t" "distinct (map ty_id (db_types db))"
  shows "type_by_id db (ty_id t) = Some t"
proof -
  have m: "t \<in> set (db_types db)"
    using assms(1)
    by (auto simp: resolve_type_def first_some_def type_by_id_def Let_def dest: find_SomeD
        split: if_splits option.splits)
  have "find (\<lambda>u. ty_id u = ty_id t) ts = Some t" if "t \<in> set ts" "distinct (map ty_id ts)" for ts
    using that by (induction ts) auto
  then show ?thesis using m assms(2) by (simp add: type_by_id_def)
qed

lemma db_ok_ids: "db_ok db \<Longrightarrow> distinct (map ty_id (db_types db))"
  by (simp add: db_ok_def)

lemma add_attribute_ok: "steps_ok (add_attribute rnd actor tid inp)"
  unfolding steps_ok_def
proof (intro allI impI)
  fix db a db'
  assume ok: "db_ok db" and r: "add_attribute rnd actor tid inp db = (Inr a, db')"
  obtain name where n: "clean_name (ai_name inp) = Inr name"
    using r by (cases "clean_name (ai_name inp)") (auto simp: add_attribute_def)
  obtain t where t: "type_by_id db tid = Some t"
    using r n by (cases "type_by_id db tid") (auto simp: add_attribute_def)
  have id: "ty_id t = tid" using type_ok_of [OF ok t] by simp
  have c: "is_attribute_type (ai_type inp)" "length (ty_attrs t) < 100"
    using r n t by (auto simp: add_attribute_def split: if_splits)
  show "db_ok db'"
  proof (cases "ai_type inp = TRelationship")
    case True
    then have "add_relationship rnd actor t inp name db = (Inr a, db')"
      using r n t by (auto simp: add_attribute_def split: if_splits)
    then obtain rel target where m: "make_relationship rnd actor t target inp rel name db = (Inr a, db')"
      "resolve_type db (ri_target rel) = Some target" "ty_id target \<noteq> ty_id t"
      by (auto simp: add_relationship_def split: option.splits if_splits)
    show ?thesis
      by (rule make_relationship_ok [OF ok m(1)])
        (use t id m(3) c(2) resolve_type_found [OF m(2) db_ok_ids [OF ok]] in auto)
  next
    case False
    then obtain b db1 where b: "build_value_attribute rnd actor t inp name db = (Inr b, db1)"
      "insert_attribute tid b (length (ty_attrs t)) db1 = (Inr a, db')"
      using r n t by (auto simp: add_attribute_def split: if_splits prod.splits sum.splits)
    then have k: "attr_ok b" "\<not> at_primary b" and "\<exists>n. db1 = db\<lparr>db_draws := n\<rparr>"
      using build_value_attribute_ok [OF b(1) c(1) False] by auto
    then have "db_ok db1" "type_by_id db1 tid = Some t" using ok t by auto
    then show ?thesis using insert_attribute_ok [OF _ b(2) k] c(2) by auto
  qed
qed

lemma add_attributes_in_ok: "steps_ok (add_attributes_in rnd actor tid inps)"
proof (induction inps)
  case Nil
  then show ?case by (simp add: steps_ok_def)
next
  case (Cons inp inps)
  then show ?case using add_attribute_ok [of rnd actor tid inp]
    by (fastforce simp: steps_ok_def split: prod.splits sum.splits)
qed

section \<open>Creating and changing a type\<close>

lemma primary_attribute_ok:
  "attr_ok (primary_attribute i actor\<lparr>at_position := p\<rparr>) \<and> at_primary (primary_attribute i actor)
    \<and> is_primary_ok (primary_attribute i actor\<lparr>at_position := p\<rparr>)"
  by (simp add: primary_attribute_def attr_ok_def is_attribute_type_def is_option_type_def is_primary_ok_def)

lemma new_type_ok:
  assumes ok: "db_ok db" and room: "length (db_types db) < 50" and attrs: "ty_attrs t = []"
    and i: "insert_type t db = (Inr u, db1)"
    and p: "insert_attribute (ty_id t) (primary_attribute pid actor) 0 (db1\<lparr>db_draws := n\<rparr>) = (Inr b, db2)"
  shows "db_ok db2"
proof -
  let ?p = "primary_attribute pid actor\<lparr>at_position := 0\<rparr>"
  have c: "ty_id t \<notin> ty_id ` set (db_types db)" "ty_slug t \<notin> ty_slug ` set (db_types db)"
      "type_key t \<notin> type_key ` set (db_types db)" and db1: "db1 = db\<lparr>db_types := db_types db @ [t]\<rparr>"
    using i by (auto simp: insert_type_def split: if_splits)
  have new: "pid \<notin> at_id ` set (all_attrs db)"
    using p attrs by (auto simp: insert_attribute_def all_attrs_def db1 primary_attribute_def split: option.splits if_splits)
  have mf: "map_first (\<lambda>u. ty_id u = ty_id t) f (db_types db @ [t]) = db_types db @ [f t]" for f
  proof -
    have "\<not> (\<exists>u\<in>set (db_types db). ty_id u = ty_id t)" using c(1) by (metis imageI)
    then show ?thesis by (simp add: map_first_append)
  qed
  have "db_types db2 = db_types db @ [t\<lparr>ty_attrs := [?p]\<rparr>]"
    using p attrs by (auto simp: insert_attribute_def set_type_def db1 mf split: option.splits if_splits)
  moreover have "option_ids db2 = option_ids db" "map at_id (all_attrs db2) = map at_id (all_attrs db) @ [pid]"
    using calculation by (simp_all add: option_ids_def all_attrs_def primary_attribute_def)
  moreover have "type_ok (t\<lparr>ty_attrs := [?p]\<rparr>)"
    using primary_attribute_ok [where i = pid and actor = actor and p = 0] by (simp add: type_ok_def)
  ultimately show ?thesis
    using ok c new room by (auto simp: db_ok_def type_key_def)
qed

lemma write_object_type_ok:
  assumes ok: "db_ok db" and room: "length (db_types db) < 50" and attrs: "ty_attrs t = []"
    and r: "write_object_type rnd actor t inps db = (Inr t', db')"
  shows "db_ok db'"
proof -
  obtain u db1 where i: "insert_type t db = (Inr u, db1)"
    using r by (cases "insert_type t db") (auto simp: write_object_type_def split: sum.splits)
  let ?pid = "fst (new_id rnd ''attr'' db1)" and ?db2 = "snd (new_id rnd ''attr'' db1)"
  obtain b db3 where p: "insert_attribute (ty_id t) (primary_attribute ?pid actor) 0 ?db2 = (Inr b, db3)"
    using r i by (cases "insert_attribute (ty_id t) (primary_attribute ?pid actor) 0 ?db2")
      (auto simp: write_object_type_def case_prod_beta split: sum.splits)
  obtain x where a: "add_attributes_in rnd actor (ty_id t) inps db3 = (Inr x, db')"
    using r i p by (cases "add_attributes_in rnd actor (ty_id t) inps db3")
      (auto simp: write_object_type_def case_prod_beta split: sum.splits)
  have "?db2 = db1\<lparr>db_draws := Suc (db_draws db1)\<rparr>" by (simp add: new_id_def)
  with p have "db_ok db3" using new_type_ok [OF ok room attrs i] by metis
  then show ?thesis by (rule steps_okD [OF add_attributes_in_ok _ a])
qed

lemma create_object_type_ok: "steps_ok (create_object_type rnd actor stamp inp)"
  unfolding steps_ok_def
proof (intro allI impI)
  fix db t' db'
  assume ok: "db_ok db" and r: "create_object_type rnd actor stamp inp db = (Inr t', db')"
  obtain name where n: "clean_name (ti_name inp) = Inr name"
    using r by (cases "clean_name (ti_name inp)") (auto simp: create_object_type_def)
  have room: "length (db_types db) < 50" using r n by (auto simp: create_object_type_def split: if_splits)
  have w: "write_object_type rnd actor
      (new_type_row (fst (new_id rnd ''type'' db)) name actor stamp inp (db_types db)) (ti_attrs inp)
      (snd (new_id rnd ''type'' db)) = (Inr t', db')"
    using r n by (auto simp: create_object_type_def case_prod_beta Let_def split: if_splits)
  have "db_ok (snd (new_id rnd ''type'' db))" "length (db_types (snd (new_id rnd ''type'' db))) < 50"
    using ok room by (simp_all add: new_id_def)
  then show "db_ok db'" by (rule write_object_type_ok [OF _ _ _ w]) (simp add: new_type_row_def)
qed

lemma patch_text_ok: "patch_text p = Inr q \<Longrightarrow> q = Some n \<Longrightarrow> trim_space n = n \<and> n \<noteq> []"
  by (auto simp: patch_text_def clean_name_def split: option.splits if_splits)

lemma update_object_type_ok: "steps_ok (update_object_type ref p)"
  unfolding steps_ok_def
proof (intro allI impI)
  fix db t' db'
  assume ok: "db_ok db" and r: "update_object_type ref p db = (Inr t', db')"
  obtain t where t: "resolve_type db ref = Some t"
    using r by (auto simp: update_object_type_def require_type_def split: option.splits)
  obtain name where n: "patch_text (tp_name p) = Inr name"
    using r t by (auto simp: update_object_type_def require_type_def split: sum.splits)
  obtain plural where pl: "patch_text (tp_plural p) = Inr plural"
    using r t n by (auto simp: update_object_type_def require_type_def split: sum.splits if_splits)
  let ?f = "\<lambda>u. u\<lparr>ty_name := if_given name (ty_name u), ty_plural := if_given plural (ty_plural u),
      ty_icon := if_given (map_option (\<lambda>s. text_or s ''box'') (tp_icon p)) (ty_icon u),
      ty_description := if_given (map_option trim_space (tp_description p)) (ty_description u)\<rparr>"
  have db': "db' = set_type (ty_id t) ?f db"
    and free: "name \<noteq> None \<Longrightarrow> \<forall>u\<in>set (db_types db). ty_id u \<noteq> ty_id t \<longrightarrow> \<not> same_name (ty_name u) (the name)"
    using r t n pl by (auto simp: update_object_type_def require_type_def Let_def list_ex_iff split: if_splits)
  have b: "type_by_id db (ty_id t) = Some t" by (rule resolve_type_found [OF t db_ok_ids [OF ok]])
  have "db_ok (set_type (ty_id t) ?f db)"
  proof (rule set_type_ok [OF ok b, where new = "[]" and new_opts = "[]"])
    show "\<forall>u\<in>set (db_types db). ty_id u \<noteq> ty_id t \<longrightarrow> type_key u \<noteq> type_key (?f t)"
      using free db_ok_key [OF ok b] by (cases name) (auto simp: type_key_def if_given_def same_name_key)
    show "type_ok (?f t)" using type_ok_of [OF ok b] by (simp add: type_ok_def)
  qed (use ok in \<open>simp_all add: db_ok_def\<close>)
  then show "db_ok db'" using db' by simp
qed

section \<open>Loading\<close>

definition strip_ref :: "attribute \<Rightarrow> attribute" where
  "strip_ref a = a\<lparr>at_rel := None\<rparr>"

lemma strip_refE:
  assumes "strip_ref b = strip_ref a"
  obtains r where "b = a\<lparr>at_rel := r\<rparr>"
  using assms by (cases a; cases b) (auto simp: strip_ref_def)

lemma load_ref_strip:
  assumes "load_ref rels a = Inr b"
  shows "strip_ref b = strip_ref a \<and> (at_rel b = None \<longleftrightarrow> at_rel a = None)"
  using assms by (auto simp: load_ref_def strip_ref_def split: option.splits if_splits)

lemma strip_fields:
  assumes "strip_ref b = strip_ref a"
  shows "at_id b = at_id a" "at_slug b = at_slug a" "attr_key b = attr_key a" "at_primary b = at_primary a"
    "at_options b = at_options a" "is_primary_ok b = is_primary_ok a"
    "(at_rel b = None \<longleftrightarrow> at_rel a = None) \<Longrightarrow> attr_ok b = attr_ok a"
  by (rule strip_refE [OF assms]; simp add: attr_key_def is_primary_ok_def attr_ok_def)+

definition same_attrs :: "attribute list \<Rightarrow> attribute list \<Rightarrow> bool" where
  "same_attrs as bs \<longleftrightarrow> list_all2 (\<lambda>a b. strip_ref b = strip_ref a \<and> (at_rel b = None \<longleftrightarrow> at_rel a = None)) as bs"

lemma load_refs_same: "load_refs rels as = Inr bs \<Longrightarrow> same_attrs as bs"
  by (induction as arbitrary: bs) (auto simp: same_attrs_def load_ref_strip split: sum.splits)

lemma same_attrs_fields:
  assumes "same_attrs as bs"
  shows "length bs = length as" "map at_id bs = map at_id as" "map at_slug bs = map at_slug as"
    "map attr_key bs = map attr_key as" "ids_of bs = ids_of as"
    "list_all attr_ok as \<Longrightarrow> list_all attr_ok bs"
    "length (filter at_primary bs) = length (filter at_primary as)"
    "list_all is_primary_ok (filter at_primary bs) = list_all is_primary_ok (filter at_primary as)"
proof -
  have "length bs = length as \<and> map at_id bs = map at_id as \<and> map at_slug bs = map at_slug as
    \<and> map attr_key bs = map attr_key as \<and> ids_of bs = ids_of as \<and> (list_all attr_ok as \<longrightarrow> list_all attr_ok bs)
    \<and> length (filter at_primary bs) = length (filter at_primary as)
    \<and> list_all is_primary_ok (filter at_primary bs) = list_all is_primary_ok (filter at_primary as)"
    using assms unfolding same_attrs_def
  proof (induction rule: list_all2_induct)
    case Nil
    then show ?case by simp
  next
    case (Cons a as b bs)
    then have k: "strip_ref b = strip_ref a" "at_rel b = None \<longleftrightarrow> at_rel a = None" by auto
    note f = strip_fields(1-6) [OF k(1)] strip_fields(7) [OF k]
    show ?case using Cons.IH by (simp add: f)
  qed
  then show "length bs = length as" "map at_id bs = map at_id as" "map at_slug bs = map at_slug as"
    "map attr_key bs = map attr_key as" "ids_of bs = ids_of as"
    "list_all attr_ok as \<Longrightarrow> list_all attr_ok bs"
    "length (filter at_primary bs) = length (filter at_primary as)"
    "list_all is_primary_ok (filter at_primary bs) = list_all is_primary_ok (filter at_primary as)"
    by blast+
qed

lemma mset_ids_of: "mset (ids_of xs) = (\<Sum>a\<in>#mset xs. mset (map op_id (at_options a)))"
  by (induction xs) simp_all

lemma mset_attrs_of: "mset (concat (map ty_attrs xs)) = (\<Sum>t\<in>#mset xs. mset (ty_attrs t))"
  by (induction xs) simp_all

lemma ids_of_permuted: "mset as = mset bs \<Longrightarrow> mset (ids_of as) = mset (ids_of bs)"
  by (simp only: mset_ids_of)

lemma attrs_of_permuted: "mset ts = mset us \<Longrightarrow> mset (concat (map ty_attrs ts)) = mset (concat (map ty_attrs us))"
  by (simp only: mset_attrs_of)

lemma type_ok_permuted:
  assumes "type_ok t" "mset as = mset (ty_attrs t)" "same_attrs as bs"
  shows "type_ok (t\<lparr>ty_attrs := bs\<rparr>)"
proof -
  have d: "distinct (map g as) = distinct (map g (ty_attrs t))" for g :: "attribute \<Rightarrow> string"
    by (rule distinct_by_mset) (simp add: assms(2))
  have s: "set as = set (ty_attrs t)" by (metis assms(2) set_mset_mset)
  have "mset (filter at_primary as) = mset (filter at_primary (ty_attrs t))" using assms(2) by simp
  then have f: "length (filter at_primary as) = length (filter at_primary (ty_attrs t))" by (metis size_mset)
  have "length as = length (ty_attrs t)" by (metis assms(2) size_mset)
  moreover have "list_all is_primary_ok (filter at_primary as)"
    using assms(1) s by (auto simp: type_ok_def list_all_iff)
  moreover have "list_all attr_ok as" using assms(1) s by (simp add: type_ok_def list_all_iff)
  ultimately show ?thesis
    using assms(1) d f same_attrs_fields [OF assms(3)] by (simp add: type_ok_def)
qed

definition same_type :: "obj_type \<Rightarrow> obj_type \<Rightarrow> bool" where
  "same_type t u \<longleftrightarrow> (\<exists>as. mset as = mset (ty_attrs t) \<and> same_attrs as (ty_attrs u)) \<and> u = t\<lparr>ty_attrs := ty_attrs u\<rparr>"

definition same_types :: "obj_type list \<Rightarrow> obj_type list \<Rightarrow> bool" where
  "same_types ts us \<longleftrightarrow> list_all2 same_type ts us"

lemma load_types_same: "load_types rels ts = Inr us \<Longrightarrow> same_types ts us"
proof (induction ts arbitrary: us)
  case Nil
  then show ?case by (simp add: same_types_def)
next
  case (Cons t ts)
  obtain bs where b: "load_refs rels (sort_key (\<lambda>a. (at_position a, at_id a)) (ty_attrs t)) = Inr bs"
    using Cons.prems by (cases "load_refs rels (sort_key (\<lambda>a. (at_position a, at_id a)) (ty_attrs t))") auto
  obtain vs where v: "load_types rels ts = Inr vs" using Cons.prems b by (cases "load_types rels ts") auto
  have u: "us = t\<lparr>ty_attrs := bs\<rparr> # vs" using Cons.prems b v by simp
  have "same_type t (t\<lparr>ty_attrs := bs\<rparr>)"
    using load_refs_same [OF b] unfolding same_type_def
    by (auto intro!: exI [of _ "sort_key (\<lambda>a. (at_position a, at_id a)) (ty_attrs t)"])
  then show ?case using Cons.IH [OF v] u by (simp add: same_types_def)
qed

lemma same_types_fields:
  assumes "same_types ts us"
  shows "length us = length ts" "map ty_id us = map ty_id ts" "map ty_slug us = map ty_slug ts"
    "map type_key us = map type_key ts"
    "mset (map at_id (concat (map ty_attrs us))) = mset (map at_id (concat (map ty_attrs ts)))"
    "mset (ids_of (concat (map ty_attrs us))) = mset (ids_of (concat (map ty_attrs ts)))"
    "list_all type_ok ts \<Longrightarrow> list_all type_ok us"
proof -
  have "length us = length ts \<and> map ty_id us = map ty_id ts \<and> map ty_slug us = map ty_slug ts
      \<and> map type_key us = map type_key ts
      \<and> mset (map at_id (concat (map ty_attrs us))) = mset (map at_id (concat (map ty_attrs ts)))
      \<and> mset (ids_of (concat (map ty_attrs us))) = mset (ids_of (concat (map ty_attrs ts)))
      \<and> (list_all type_ok ts \<longrightarrow> list_all type_ok us)"
    using assms unfolding same_types_def
  proof (induction rule: list_all2_induct)
    case Nil
    then show ?case by simp
  next
    case (Cons t ts u us)
    then obtain as bs where m: "mset as = mset (ty_attrs t)" "same_attrs as bs" "u = t\<lparr>ty_attrs := bs\<rparr>"
      by (auto simp: same_type_def)
    have a: "mset (map at_id bs) = mset (map at_id (ty_attrs t))"
      using same_attrs_fields(2) [OF m(2)] m(1) by (metis mset_map)
    have o: "mset (ids_of bs) = mset (ids_of (ty_attrs t))"
      using same_attrs_fields(5) [OF m(2)] ids_of_permuted [OF m(1)] by simp
    have k: "type_key u = type_key t" "type_ok t \<longrightarrow> type_ok u"
      using type_ok_permuted [OF _ m(1,2)] m(3) by (simp_all add: type_key_def)
    show ?case using Cons.IH a o k m(3) by simp
  qed
  then show "length us = length ts" "map ty_id us = map ty_id ts" "map ty_slug us = map ty_slug ts"
    "map type_key us = map type_key ts"
    "mset (map at_id (concat (map ty_attrs us))) = mset (map at_id (concat (map ty_attrs ts)))"
    "mset (ids_of (concat (map ty_attrs us))) = mset (ids_of (concat (map ty_attrs ts)))"
    "list_all type_ok ts \<Longrightarrow> list_all type_ok us"
    by blast+
qed

lemma load_schema_ok:
  assumes ok: "db_ok db" and l: "load_schema db = Inr db1"
  shows "db_ok db1"
proof -
  let ?ts = "sort_key (\<lambda>t. (ty_position t, ty_id t)) (db_types db)"
  obtain us where u: "load_types (db_rels db) ?ts = Inr us" and db1: "db1 = db\<lparr>db_types := us\<rparr>"
    using l by (auto simp: load_schema_def split: sum.splits)
  note f = same_types_fields [OF load_types_same [OF u]]
  have m: "mset ?ts = mset (db_types db)" by simp
  have c: "mset (concat (map ty_attrs ?ts)) = mset (all_attrs db)"
    unfolding all_attrs_def by (rule attrs_of_permuted) simp
  note i = ids_of_permuted [OF c]
  have d: "distinct (map g ?ts) = distinct (map g (db_types db))" for g :: "obj_type \<Rightarrow> string"
    by (rule distinct_by_mset) simp
  have a: "mset (map at_id (all_attrs db1)) = mset (map at_id (all_attrs db))"
  proof -
    have "mset (map at_id (all_attrs db1)) = mset (map at_id (concat (map ty_attrs ?ts)))"
      using f(5) by (simp add: db1 all_attrs_def)
    also have "\<dots> = mset (map at_id (all_attrs db))" using c by (simp only: mset_map)
    finally show ?thesis .
  qed
  have o: "mset (option_ids db1) = mset (option_ids db)"
    using f(6) i by (simp add: option_ids_of db1 all_attrs_def)
  have t: "list_all type_ok ?ts" using ok by (simp add: db_ok_def list_all_iff)
  show ?thesis
    using ok f(1-4) f(7) [OF t] d distinct_by_mset [OF a] distinct_by_mset [OF o]
    unfolding db_ok_def db1 by simp
qed

lemma reloaded_ok: "steps_ok f \<Longrightarrow> steps_ok (reloaded f)"
  by (auto simp: steps_ok_def reloaded_def split: sum.splits dest: load_schema_ok)

lemma savepoint_ok: "steps_ok f \<Longrightarrow> db_ok db \<Longrightarrow> savepoint f db = (r, db1) \<Longrightarrow> db_ok db1"
  by (auto simp: savepoint_def split: prod.splits sum.splits dest: steps_okD)

lemma run_batch_ok:
  assumes "\<And>i. steps_ok (step i)" "db_ok db" "run_batch step ident k is es db = (r, db')"
  shows "db_ok db'"
  using assms(2,3)
proof (induction "is" arbitrary: k es db)
  case Nil
  then show ?case by simp
next
  case (Cons i "is")
  obtain q db1 where s: "savepoint (step i) db = (q, db1)" by (cases "savepoint (step i) db")
  have ok1: "db_ok db1" by (rule savepoint_ok [OF assms(1) Cons.prems(1) s])
  show ?case using Cons.IH [OF ok1] Cons.prems(2) s ok1
    by (auto split: sum.splits if_splits prod.splits)
qed

section \<open>Changing an attribute\<close>

text \<open>An attribute is replaced by one that keeps its identity; its options may have grown.\<close>

lemma edit_attribute_ok:
  assumes ok: "db_ok db" and t: "type_by_id db tid = Some t" and a: "find (\<lambda>a. at_id a = aid) (ty_attrs t) = Some a"
    and f: "at_id (f a) = at_id a" "at_slug (f a) = at_slug a" "at_primary (f a) = at_primary a"
      "attr_ok (f a)" "at_primary a \<longrightarrow> is_primary_ok (f a)"
    and key: "\<forall>b\<in>set (ty_attrs t). at_id b \<noteq> aid \<longrightarrow> attr_key b \<noteq> attr_key (f a)"
    and opts: "map op_id (at_options (f a)) = map op_id (at_options a) @ new" "distinct (option_ids db @ new)"
  shows "db_ok (set_type tid (\<lambda>t. t\<lparr>ty_attrs := map_first (\<lambda>a. at_id a = aid) f (ty_attrs t)\<rparr>) db)"
proof -
  let ?g = "\<lambda>t. t\<lparr>ty_attrs := map_first (\<lambda>a. at_id a = aid) f (ty_attrs t)\<rparr>"
  obtain ys zs where s: "ty_attrs t = ys @ a # zs" and p: "at_id a = aid"
    and m: "map_first (\<lambda>a. at_id a = aid) f (ty_attrs t) = ys @ f a # zs"
    using a by (rule find_split) blast
  have tk: "type_ok t" using type_ok_of [OF ok t] by simp
  have id: "distinct (map at_id (ty_attrs t))"
  proof -
    have "t \<in> set (db_types db)" using t by (auto simp: type_by_id_def dest: find_SomeD)
    then obtain us vs where "db_types db = us @ t # vs" by (meson split_list)
    then show ?thesis using ok by (simp add: db_ok_def all_attrs_def)
  qed
  have k: "distinct (map attr_key (ys @ f a # zs))"
  proof -
    have "at_id u \<noteq> aid" if "u \<in> set ys \<union> set zs" for u
      using id that p unfolding s distinct_map_mid by auto
    then have "attr_key u \<noteq> attr_key (f a)" if "u \<in> set ys \<union> set zs" for u using key s that by auto
    then show ?thesis using tk unfolding type_ok_def s distinct_map_mid by auto
  qed
  have tr: "ty_attrs (?g t) = ys @ f a # zs" using m by simp
  have "type_ok v" if v: "ty_attrs v = ys @ f a # zs" for v
    using tk k f unfolding type_ok_def s v by (auto simp del: distinct_append)
  from this [OF tr] have "type_ok (?g t)" .
  then show ?thesis
  proof (intro set_type_ok [OF ok t, where f = ?g and new = "[]" and new_opts = new])
    show "\<forall>u\<in>set (db_types db). ty_id u \<noteq> ty_id t \<longrightarrow> type_key u \<noteq> type_key (?g t)"
      using db_ok_key [OF ok t] by (simp add: type_key_def)
    show "mset (map at_id (ty_attrs (?g t))) = mset (map at_id (ty_attrs t)) + mset []"
      unfolding tr using f(1) s by simp
    show "mset (ids_of (ty_attrs (?g t))) = mset (ids_of (ty_attrs t)) + mset new"
      unfolding tr using opts(1) s by simp
  qed (use ok opts in \<open>simp_all add: db_ok_def\<close>)
qed

text \<open>The row of an attribute in the state reached so far.\<close>

definition holds_options :: "string \<Rightarrow> attribute \<Rightarrow> obj_type \<Rightarrow> select_option list \<Rightarrow> 'f space_db \<Rightarrow> bool" where
  "holds_options tid a t opts db \<longleftrightarrow>
     (\<exists>u. type_by_id db tid = Some u \<and> map attr_key (ty_attrs u) = map attr_key (ty_attrs t)
        \<and> map at_id (ty_attrs u) = map at_id (ty_attrs t)
        \<and> find (\<lambda>b. at_id b = at_id a) (ty_attrs u) = Some (a\<lparr>at_options := opts\<rparr>))"

lemma map_map_first_eq: "(\<And>x. g (f x) = g x) \<Longrightarrow> map g (map_first p f xs) = map g xs"
  by (rule map_map_first)

lemma find_type_set:
  assumes "type_by_id db tid = Some u" "ty_id (f u) = ty_id u"
  shows "type_by_id (set_type tid f db) tid = Some (f u)"
proof -
  have "ty_id u = tid" using assms(1) by (auto simp: type_by_id_def dest: find_SomeD)
  then have "ty_id (f u) = tid" using assms(2) by simp
  then show ?thesis using assms(1) by (simp add: type_by_id_def set_type_def find_map_first)
qed

lemma attr_key_other:
  assumes ok: "db_ok db" and u: "type_by_id db tid = Some u" and a: "find (\<lambda>b. at_id b = aid) (ty_attrs u) = Some a"
    and b: "b \<in> set (ty_attrs u)" "at_id b \<noteq> aid"
  shows "attr_key b \<noteq> attr_key a"
proof -
  have "a \<in> set (ty_attrs u)" "at_id a = aid" using a by (auto dest: find_SomeD)
  moreover have "distinct (map attr_key (ty_attrs u))" using type_ok_of [OF ok u] by (simp add: type_ok_def)
  ultimately show ?thesis using b by (auto simp: distinct_map dest: inj_onD)
qed

lemma attr_ok_found:
  assumes ok: "db_ok db" and u: "type_by_id db tid = Some u" and a: "find (\<lambda>b. at_id b = aid) (ty_attrs u) = Some a"
  shows "attr_ok a \<and> (at_primary a \<longrightarrow> is_primary_ok a) \<and> at_id a = aid"
proof -
  have "a \<in> set (ty_attrs u)" "at_id a = aid" using a by (auto dest: find_SomeD)
  then show ?thesis using type_ok_of [OF ok u] by (auto simp: type_ok_def list_all_iff)
qed

lemma add_option_row_ok:
  assumes ok: "db_ok db" and h: "holds_options tid a t opts db" and o: "is_option_type (at_type a)"
    and r: "add_option_row tid (at_id a) opts new db = (Inr x, db')"
  shows "db_ok db' \<and> holds_options tid a t (opts @ new) db'"
proof -
  let ?f = "\<lambda>a. a\<lparr>at_options := at_options a @ new\<rparr>"
  let ?g = "\<lambda>u. u\<lparr>ty_attrs := map_first (\<lambda>b. at_id b = at_id a) ?f (ty_attrs u)\<rparr>"
  obtain u where u: "type_by_id db tid = Some u" and m: "map attr_key (ty_attrs u) = map attr_key (ty_attrs t)"
      "map at_id (ty_attrs u) = map at_id (ty_attrs t)"
    and a: "find (\<lambda>b. at_id b = at_id a) (ty_attrs u) = Some (a\<lparr>at_options := opts\<rparr>)"
    using h by (auto simp: holds_options_def)
  have fit: "options_fit db opts new" and db': "db' = set_type tid ?g db"
    using r by (auto simp: add_option_row_def split: if_splits)
  have n: "attr_ok (a\<lparr>at_options := opts\<rparr>)" "at_primary a \<longrightarrow> is_primary_ok (a\<lparr>at_options := opts\<rparr>)"
    using attr_ok_found [OF ok u a] by auto
  have "db_ok (set_type tid ?g db)"
  proof (rule edit_attribute_ok [OF ok u a, where new = "map op_id new"])
    show "attr_ok (?f (a\<lparr>at_options := opts\<rparr>))" "at_primary (a\<lparr>at_options := opts\<rparr>) \<longrightarrow> is_primary_ok (?f (a\<lparr>at_options := opts\<rparr>))"
      using n o fit by (auto simp: attr_ok_def options_fit_def is_primary_ok_def)
    show "\<forall>b\<in>set (ty_attrs u). at_id b \<noteq> at_id a \<longrightarrow> attr_key b \<noteq> attr_key (?f (a\<lparr>at_options := opts\<rparr>))"
      using attr_key_other [OF ok u a] by (simp add: attr_key_def)
  qed (use fit in \<open>simp_all add: options_fit_def\<close>)
  moreover have "type_by_id (set_type tid ?g db) tid = Some (?g u)" by (rule find_type_set [OF u]) simp
  moreover have "find (\<lambda>b. at_id b = at_id a) (ty_attrs (?g u)) = Some (a\<lparr>at_options := opts @ new\<rparr>)"
    using find_map_first [OF a, of ?f] by simp
  ultimately show ?thesis
    using m unfolding db' holds_options_def by (auto simp: map_map_first_eq attr_key_def)
qed

lemma holds_options_draws [simp]: "holds_options tid a t opts (db\<lparr>db_draws := n\<rparr>) = holds_options tid a t opts db"
  by (simp add: holds_options_def)

lemma add_options_ok:
  assumes "add_options rnd tid (at_id a) raws opts db = (Inr opts', db')"
    and "db_ok db" "holds_options tid a t opts db" "is_option_type (at_type a)"
  shows "db_ok db' \<and> holds_options tid a t opts' db'"
  using assms(1,2,3)
proof (induction raws arbitrary: opts db)
  case Nil
  then show ?case by simp
next
  case (Cons raw raws)
  obtain name where n: "clean_name raw = Inr name"
    using Cons.prems(1) by (cases "clean_name raw") auto
  show ?case
  proof (cases "list_ex (\<lambda>x. same_name (op_name x) name) opts")
    case True
    then show ?thesis using Cons.IH [OF _ Cons.prems(2,3)] Cons.prems(1) n by simp
  next
    case False
    let ?m = "mint_options rnd [name] (length opts) db"
    obtain k where k: "snd ?m = db\<lparr>db_draws := k\<rparr>" using mint_options_db by blast
    obtain q db2 where q: "add_option_row tid (at_id a) opts (fst ?m) (snd ?m) = (q, db2)" by fastforce
    then obtain x where r: "add_option_row tid (at_id a) opts (fst ?m) (snd ?m) = (Inr x, db2)"
      and rest: "add_options rnd tid (at_id a) raws (opts @ fst ?m) db2 = (Inr opts', db')"
      using Cons.prems(1) n False
      by (cases q) (auto simp: case_prod_beta simp del: mint_options.simps)
    have "db_ok db2 \<and> holds_options tid a t (opts @ fst ?m) db2"
      by (rule add_option_row_ok [OF _ _ assms(4) r]) (use Cons.prems(2,3) k in simp_all)
    then show ?thesis using Cons.IH [OF rest] by simp
  qed
qed

lemma rename_option_ok:
  assumes "rename_option slug p opts = Inr opts'" "distinct (map option_key opts)" "distinct (map op_id opts)"
  shows "map op_id opts' = map op_id opts \<and> distinct (map option_key opts') \<and> (opts' = [] \<longleftrightarrow> opts = [])"
proof -
  obtain n where n: "clean_name (snd p) = Inr n"
    using assms(1) by (cases "clean_name (snd p)") (auto simp: rename_option_def)
  let ?f = "\<lambda>x. if op_id x = fst p then x\<lparr>op_name := n\<rparr> else x"
  have o: "opts' = map ?f opts"
    and free: "\<forall>x\<in>set opts. op_id x \<noteq> fst p \<longrightarrow> option_key x \<noteq> name_key n"
    using assms(1) n by (auto simp: rename_option_def list_ex_iff same_name_key option_key_def split: if_splits)
  have i: "inj_on option_key (set opts)" "inj_on op_id (set opts)" "distinct opts"
    using assms(2,3) by (simp_all add: distinct_map)
  have "inj_on (option_key \<circ> ?f) (set opts)"
  proof (rule inj_onI)
    fix x y
    assume xy: "x \<in> set opts" "y \<in> set opts" "(option_key \<circ> ?f) x = (option_key \<circ> ?f) y"
    have kx: "option_key (?f z) = (if op_id z = fst p then name_key n else option_key z)" for z
      by (simp add: option_key_def)
    have e: "(if op_id x = fst p then name_key n else option_key x) = (if op_id y = fst p then name_key n else option_key y)"
      using xy(3) unfolding o_def kx .
    show "x = y"
    proof (cases "op_id x = fst p \<longleftrightarrow> op_id y = fst p")
      case True
      have "op_id x = op_id y \<or> option_key x = option_key y" using e True by (auto split: if_splits)
      then show ?thesis using inj_onD [OF i(1)] inj_onD [OF i(2)] xy(1,2) by blast
    next
      case False
      then show ?thesis using e free xy(1,2) by (auto split: if_splits)
    qed
  qed
  then have "distinct (map (option_key \<circ> ?f) opts)" using i(3) by (simp add: distinct_map)
  moreover have "map op_id opts' = map op_id opts" by (simp add: o)
  ultimately show ?thesis by (simp add: o)
qed

lemma resolve_ref_found:
  assumes "resolve_attribute_ref t aref = Some a"
  shows "a \<in> set (ty_attrs t)"
  using assms by (auto simp: resolve_attribute_ref_def first_some_def attr_by_id_def attr_by_slug_def attr_by_name_def
      Let_def dest: find_SomeD split: if_splits option.splits)

lemma find_self: "a \<in> set as \<Longrightarrow> distinct (map at_id as) \<Longrightarrow> find (\<lambda>b. at_id b = at_id a) as = Some a"
  by (induction as) auto

lemma type_attr_ids:
  assumes "db_ok db" "type_by_id db tid = Some t"
  shows "distinct (map at_id (ty_attrs t))"
proof -
  have "t \<in> set (db_types db)" using assms(2) by (auto simp: type_by_id_def dest: find_SomeD)
  then obtain us vs where "db_types db = us @ t # vs" by (meson split_list)
  then show ?thesis using assms(1) by (simp add: db_ok_def all_attrs_def)
qed

lemma attr_option_ids:
  assumes "db_ok db" "type_by_id db tid = Some t" "find (\<lambda>b. at_id b = aid) (ty_attrs t) = Some a"
  shows "distinct (map op_id (at_options a))"
proof -
  have "t \<in> set (db_types db)" using assms(2) by (auto simp: type_by_id_def dest: find_SomeD)
  then obtain us vs where t: "db_types db = us @ t # vs" by (meson split_list)
  have "a \<in> set (ty_attrs t)" using assms(3) by (auto dest: find_SomeD)
  then obtain xs ys where "ty_attrs t = xs @ a # ys" by (meson split_list)
  then show ?thesis using assms(1) t by (simp add: db_ok_def option_ids_of all_attrs_def)
qed

lemma keys_transfer:
  assumes "map attr_key us = map attr_key ts" "map at_id us = map at_id ts" "b \<in> set us"
  shows "\<exists>c\<in>set ts. attr_key c = attr_key b \<and> at_id c = at_id b"
proof -
  obtain i where i: "i < length us" "b = us ! i" using assms(3) by (auto simp: in_set_conv_nth)
  then have "i < length ts" using assms(1) by (metis length_map)
  moreover have "attr_key (ts ! i) = attr_key b" "at_id (ts ! i) = at_id b"
    using assms(1,2) i calculation by (metis nth_map)+
  ultimately show ?thesis by auto
qed

lemma write_attribute_row_ok:
  assumes ok: "db_ok db" and h: "holds_options tid a t opts db"
    and o: "map op_id opts' = map op_id opts" "distinct (map option_key opts')" "opts' = [] \<longleftrightarrow> opts = []"
    and name: "\<And>n. name = Some n \<Longrightarrow> \<forall>b\<in>set (ty_attrs t). at_id b \<noteq> at_id a \<longrightarrow> attr_key b \<noteq> name_key n"
    and req: "\<And>q. req = Some q \<Longrightarrow> required_change_ok a q"
  shows "db_ok (write_attribute_row tid (at_id a) name desc req opts' db)"
proof -
  let ?f = "\<lambda>a. a\<lparr>at_name := if_given name (at_name a), at_description := if_given (map_option trim_space desc) (at_description a),
      at_required := if_given req (at_required a), at_options := opts'\<rparr>"
  obtain u where u: "type_by_id db tid = Some u" and m: "map attr_key (ty_attrs u) = map attr_key (ty_attrs t)"
      "map at_id (ty_attrs u) = map at_id (ty_attrs t)"
    and a: "find (\<lambda>b. at_id b = at_id a) (ty_attrs u) = Some (a\<lparr>at_options := opts\<rparr>)"
    using h by (auto simp: holds_options_def)
  have n: "attr_ok (a\<lparr>at_options := opts\<rparr>)" "at_primary a \<longrightarrow> is_primary_ok (a\<lparr>at_options := opts\<rparr>)"
    using attr_ok_found [OF ok u a] by auto
  show ?thesis
    unfolding write_attribute_row_def
  proof (rule edit_attribute_ok [OF ok u a, where new = "[]"])
    show "attr_ok (?f (a\<lparr>at_options := opts\<rparr>))"
      using n(1) o(2,3) req by (cases req) (auto simp: attr_ok_def if_given_def required_change_ok_def)
    show "at_primary (a\<lparr>at_options := opts\<rparr>) \<longrightarrow> is_primary_ok (?f (a\<lparr>at_options := opts\<rparr>))"
      using n(2) req by (cases req) (auto simp: is_primary_ok_def if_given_def required_change_ok_def)
    show "\<forall>b\<in>set (ty_attrs u). at_id b \<noteq> at_id a \<longrightarrow> attr_key b \<noteq> attr_key (?f (a\<lparr>at_options := opts\<rparr>))"
    proof (cases name)
      case None
      then show ?thesis using attr_key_other [OF ok u a] by (simp add: attr_key_def if_given_def)
    next
      case (Some n)
      have "\<forall>b\<in>set (ty_attrs u). at_id b \<noteq> at_id a \<longrightarrow> attr_key b \<noteq> name_key n"
      proof (intro ballI impI)
        fix b assume b: "b \<in> set (ty_attrs u)" "at_id b \<noteq> at_id a"
        obtain c where "c \<in> set (ty_attrs t)" "attr_key c = attr_key b" "at_id c = at_id b"
          using keys_transfer [OF m b(1)] by auto
        then show "attr_key b \<noteq> name_key n" using name [OF Some] b(2) by auto
      qed
      then show ?thesis using Some by (simp add: attr_key_def if_given_def)
    qed
  qed (use ok o(1) in \<open>simp_all add: db_ok_def\<close>)
qed

lemma update_attribute_ok: "steps_ok (update_attribute rnd tref aref p)"
  unfolding steps_ok_def
proof (intro allI impI)
  fix db x db'
  assume ok: "db_ok db" and r: "update_attribute rnd tref aref p db = (Inr x, db')"
  obtain t where t: "resolve_type db tref = Some t"
    using r by (auto simp: update_attribute_def require_type_def split: option.splits)
  obtain a where a: "resolve_attribute_ref t aref = Some a"
    using r t by (cases "resolve_attribute_ref t aref") (auto simp: update_attribute_def require_type_def)
  obtain name where n: "patch_text (ap_name p) = Inr name"
    using r t a by (cases "patch_text (ap_name p)") (auto simp: update_attribute_def require_type_def)
  have free: "\<not> (name \<noteq> None \<and> name_taken t (the name) (at_id a))"
    and req: "\<not> (ap_required p \<noteq> None \<and> \<not> required_change_ok a (the (ap_required p)))"
    using r t a n by (auto simp: update_attribute_def require_type_def split: if_splits)
  have b: "type_by_id db (ty_id t) = Some t" by (rule resolve_type_found [OF t db_ok_ids [OF ok]])
  have f: "find (\<lambda>b. at_id b = at_id a) (ty_attrs t) = Some a"
    by (rule find_self [OF resolve_ref_found [OF a] type_attr_ids [OF ok b]])
  have h: "holds_options (ty_id t) a t (at_options a) db" using b f by (simp add: holds_options_def)
  have name: "\<forall>b\<in>set (ty_attrs t). at_id b \<noteq> at_id a \<longrightarrow> attr_key b \<noteq> name_key m" if "name = Some m" for m
    using free that by (auto simp: name_taken_def list_ex_iff same_name_key attr_key_def)
  have rq: "required_change_ok a q" if "ap_required p = Some q" for q using req that by simp
  have ak: "attr_ok a" using attr_ok_found [OF ok b f] by simp
  have written: "db_ok (write_attribute_row (ty_id t) (at_id a) name (ap_description p) (ap_required p) opts' db1)"
    if "db_ok db1" "holds_options (ty_id t) a t opts db1" "map op_id opts' = map op_id opts"
      "distinct (map option_key opts')" "opts' = [] \<longleftrightarrow> opts = []" for db1 opts opts'
    by (rule write_attribute_row_ok [OF that]) (use name rq in auto)
  show "db_ok db'"
  proof (cases "ap_add p = None \<and> ap_rename p = None")
    case True
    then have "db' = write_attribute_row (ty_id t) (at_id a) name (ap_description p) (ap_required p) (at_options a) db"
      using r t a n free req by (auto simp: update_attribute_def require_type_def split: if_splits)
    then show ?thesis using written [OF ok h refl] ak by (simp add: attr_ok_def)
  next
    case False
    then have o: "is_option_type (at_type a)"
      using r t a n free req by (auto simp: update_attribute_def require_type_def split: if_splits)
    obtain q db1 where q: "patch_options rnd (ty_id t) a p db = (q, db1)" by fastforce
    then obtain opts' where po: "patch_options rnd (ty_id t) a p db = (Inr opts', db1)"
      and db': "db' = write_attribute_row (ty_id t) (at_id a) name (ap_description p) (ap_required p) opts' db1"
      using r t a n free req False o
      by (cases q) (auto simp: update_attribute_def require_type_def split: if_splits)
    obtain q2 db2 where q2: "add_options rnd (ty_id t) (at_id a) (if_given (ap_add p) []) (at_options a) db = (q2, db2)"
      by fastforce
    then obtain opts where ao: "add_options rnd (ty_id t) (at_id a) (if_given (ap_add p) []) (at_options a) db = (Inr opts, db1)"
      and rn: "(case ap_rename p of None \<Rightarrow> Inr opts | Some s \<Rightarrow> rename_option (at_slug a) s opts) = Inr opts'"
      using po by (cases q2) (auto simp: patch_options_def split: option.splits sum.splits)
    have ok1: "db_ok db1" and h1: "holds_options (ty_id t) a t opts db1"
      using add_options_ok [OF ao ok h o] by auto
    obtain u where u: "type_by_id db1 (ty_id t) = Some u"
      and au: "find (\<lambda>b. at_id b = at_id a) (ty_attrs u) = Some (a\<lparr>at_options := opts\<rparr>)"
      using h1 by (auto simp: holds_options_def)
    have d: "distinct (map option_key opts)" "distinct (map op_id opts)"
      using attr_ok_found [OF ok1 u au] attr_option_ids [OF ok1 u au] by (auto simp: attr_ok_def)
    have "map op_id opts' = map op_id opts \<and> distinct (map option_key opts') \<and> (opts' = [] \<longleftrightarrow> opts = [])"
      using rn d rename_option_ok [OF _ d] by (auto split: option.splits)
    then show ?thesis using written [OF ok1 h1] db' by simp
  qed
qed

end
