(* ===== verification/SpaceRecords.thy ===== *)
theory SpaceRecords
  imports SpaceSchema
begin

text \<open>
  Data spaces, part four: records and links (\<^verbatim>\<open>internal/dataspace\<close>: \<^verbatim>\<open>records.go\<close>,
  \<^verbatim>\<open>records_read.go\<close> and \<^verbatim>\<open>links.go\<close>).

  The values of a call are an association list in the order in which Go happens to range over the map.
  A stored value is kept decoded; the JSON text it is written as only matters for its length.
\<close>

section \<open>Building a patch\<close>

definition unique_key :: "'f numbers \<Rightarrow> 'f val \<Rightarrow> string" where
  "unique_key nm v = to_lower (trim_space (value_string nm v))"

definition resolve_value_key :: "obj_type \<Rightarrow> string \<Rightarrow> attribute option" where
  "resolve_value_key t key =
     first_some (attr_by_slug t key)
       (first_some (attr_by_slug t (to_lower (trim_space key))) (attr_by_name t key))"

definition resolve_value_attribute :: "obj_type \<Rightarrow> string \<Rightarrow> ds_error + attribute" where
  "resolve_value_attribute t key =
     (case resolve_value_key t key of
        None \<Rightarrow> Inl (DsInvalid key)
      | Some a \<Rightarrow> if at_type a = TRelationship then Inl (DsInvalid (at_slug a)) else Inr a)"

text \<open>Another record holds the key of this unique value.\<close>

definition key_clash :: "'f space_db \<Rightarrow> string \<Rightarrow> string \<Rightarrow> string \<Rightarrow> bool" where
  "key_clash db aid key self \<longleftrightarrow>
     list_ex (\<lambda>r. vr_attr r = aid \<and> vr_key r = Some key \<and> vr_record r \<noteq> self) (db_values db)"

type_synonym 'f patch = "(attribute \<times> 'f val option) list"

definition sorted_copy :: "string list \<Rightarrow> string list" where
  "sorted_copy ids = sort (remdups ids)"

definition patch_item ::
  "'f numbers \<Rightarrow> 'f space_db \<Rightarrow> string option \<Rightarrow> attribute \<Rightarrow> 'f raw \<Rightarrow> ds_error + 'f val option" where
  "patch_item nm db existing a raw =
     (case coerce_value nm a raw of
        None \<Rightarrow> Inl (DsInvalid (at_slug a))
      | Some None \<Rightarrow>
          if at_required a \<and> existing \<noteq> None then Inl (DsInvalid (at_slug a)) else Inr None
      | Some (Some v) \<Rightarrow>
          if at_unique a \<and> key_clash db (at_id a) (unique_key nm v) (if_given existing [])
          then Inl (DsInvalid (at_slug a)) else Inr (Some v))"

fun patch_items ::
  "'f numbers \<Rightarrow> 'f space_db \<Rightarrow> obj_type \<Rightarrow> string option \<Rightarrow> (string \<times> 'f raw) list \<Rightarrow> string list \<Rightarrow> 'f patch
     \<Rightarrow> ds_error + 'f patch" where
  "patch_items nm db t existing values [] out = Inr out"
| "patch_items nm db t existing values (key # keys) out =
     (case resolve_value_attribute t key of
        Inl k \<Rightarrow> Inl k
      | Inr a \<Rightarrow>
          (case patch_item nm db existing a (the (map_of values key)) of
             Inl k \<Rightarrow> Inl k
           | Inr v \<Rightarrow> patch_items nm db t existing values keys (out @ [(a, v)])))"

text \<open>The slugs a create has given a value: a cleared one does not count, wherever it stands.\<close>

definition touched :: "'f patch \<Rightarrow> string \<Rightarrow> bool" where
  "touched out slug \<longleftrightarrow>
     slug \<in> (at_slug \<circ> fst) ` set out \<and> slug \<notin> (at_slug \<circ> fst) ` set (filter (\<lambda>p. snd p = None) out)"

definition build_patch ::
  "'f numbers \<Rightarrow> 'f space_db \<Rightarrow> obj_type \<Rightarrow> (string \<times> 'f raw) list \<Rightarrow> string option \<Rightarrow> ds_error + 'f patch" where
  "build_patch nm db t values existing =
     (case patch_items nm db t existing values (sorted_copy (map fst values)) [] of
        Inl k \<Rightarrow> Inl k
      | Inr out \<Rightarrow>
          (case (if existing = None
                 then find (\<lambda>a. at_required a \<and> \<not> touched out (at_slug a)) (ty_attrs t) else None) of
             Some a \<Rightarrow> Inl (DsInvalid (at_slug a))
           | None \<Rightarrow> Inr out))"

section \<open>Writing a patch\<close>

definition max_value_bytes :: int where
  "max_value_bytes = 65536"

definition clear_value :: "string \<Rightarrow> string \<Rightarrow> 'f space_db \<Rightarrow> 'f space_db" where
  "clear_value rid aid db =
     db\<lparr>db_values := filter (\<lambda>r. \<not> (vr_record r = rid \<and> vr_attr r = aid)) (db_values db)\<rparr>"

text \<open>The upsert of \<open>record_values\<close>; a row that breaks the unique index is reported against the
  attribute.\<close>

definition put_value :: "'f value_row \<Rightarrow> 'f space_db \<Rightarrow> 'f space_db" where
  "put_value row db =
     (if \<exists>r\<in>set (db_values db). vr_record r = vr_record row \<and> vr_attr r = vr_attr row
      then db\<lparr>db_values := map (\<lambda>r. if vr_record r = vr_record row \<and> vr_attr r = vr_attr row then row else r)
                             (db_values db)\<rparr>
      else db\<lparr>db_values := db_values db @ [row]\<rparr>)"

definition write_value ::
  "'f numbers \<Rightarrow> string \<Rightarrow> attribute \<Rightarrow> 'f val \<Rightarrow> 'f space_db \<Rightarrow> (ds_error + unit) \<times> 'f space_db" where
  "write_value nm rid a v db =
     (let key = (if at_unique a then Some (unique_key nm v) else None);
          row = \<lparr>vr_record = rid, vr_attr = at_id a, vr_slug = at_slug a, vr_value = v, vr_key = key\<rparr>
      in if max_value_bytes < int (nm_bytes nm v) then (Inl (DsInvalid (at_slug a)), db)
         else if at_unique a \<and> key_clash db (at_id a) (unique_key nm v) rid then (Inl (DsInvalid (at_slug a)), db)
         else (Inr (), put_value row db))"

fun write_patch ::
  "'f numbers \<Rightarrow> string \<Rightarrow> 'f patch \<Rightarrow> 'f space_db \<Rightarrow> (ds_error + unit) \<times> 'f space_db" where
  "write_patch nm rid [] db = (Inr (), db)"
| "write_patch nm rid ((a, None) # items) db = write_patch nm rid items (clear_value rid (at_id a) db)"
| "write_patch nm rid ((a, Some v) # items) db =
     (case write_value nm rid a v db of
        (Inl k, db1) \<Rightarrow> (Inl k, db1)
      | (Inr _, db1) \<Rightarrow> write_patch nm rid items db1)"

section \<open>Creating and updating a record\<close>

record cursor =
  cu_total :: nat
  cu_seq :: nat

definition next_position :: "nat list \<Rightarrow> nat" where
  "next_position ns = (if ns = [] then 0 else Suc (Max (set ns)))"

definition new_cursor :: "'f space_db \<Rightarrow> cursor" where
  "new_cursor db = \<lparr>cu_total = length (db_records db), cu_seq = next_position (map rw_seq (db_records db))\<rparr>"

definition max_records_per_space :: int where
  "max_records_per_space = 100000"

definition insert_record :: "rec_row \<Rightarrow> 'f space_db \<Rightarrow> (ds_error + unit) \<times> 'f space_db" where
  "insert_record r db =
     (if rw_id r \<in> rw_id ` set (db_records db) then (Inl DsFatal, db)
      else (Inr (), db\<lparr>db_records := db_records db @ [r]\<rparr>))"

definition create_record ::
  "'f numbers \<Rightarrow> (nat \<Rightarrow> string) \<Rightarrow> string \<Rightarrow> string \<Rightarrow> obj_type \<Rightarrow> (string \<times> 'f raw) list \<Rightarrow> cursor \<Rightarrow> 'f space_db
     \<Rightarrow> (ds_error + string \<times> cursor) \<times> 'f space_db" where
  "create_record nm rnd actor stamp t values cur db =
     (if max_records_per_space \<le> int (cu_total cur) then (Inl (DsInvalid []), db)
      else case build_patch nm db t values None of
             Inl k \<Rightarrow> (Inl k, db)
           | Inr patch \<Rightarrow>
               (let (i, db1) = new_id rnd ''rec'' db in
                  case insert_record \<lparr>rw_id = i, rw_type = ty_id t, rw_created_by = actor, rw_created_at = stamp,
                                      rw_updated_at = stamp, rw_seq = cu_seq cur\<rparr> db1 of
                    (Inl k, db2) \<Rightarrow> (Inl k, db2)
                  | (Inr _, db2) \<Rightarrow>
                      (case write_patch nm i patch db2 of
                         (Inl k, db3) \<Rightarrow> (Inl k, db3)
                       | (Inr _, db3) \<Rightarrow>
                           (Inr (i, \<lparr>cu_total = Suc (cu_total cur), cu_seq = Suc (cu_seq cur)\<rparr>), db3))))"

definition record_by_id :: "'f space_db \<Rightarrow> string \<Rightarrow> rec_row option" where
  "record_by_id db i = find (\<lambda>r. rw_id r = i) (db_records db)"

definition touch_record :: "string \<Rightarrow> string \<Rightarrow> 'f space_db \<Rightarrow> 'f space_db" where
  "touch_record stamp i db =
     db\<lparr>db_records := map (\<lambda>r. if rw_id r = i then r\<lparr>rw_updated_at := stamp\<rparr> else r) (db_records db)\<rparr>"

definition update_record_values ::
  "'f numbers \<Rightarrow> string \<Rightarrow> obj_type \<Rightarrow> string \<Rightarrow> (string \<times> 'f raw) list \<Rightarrow> 'f space_db
     \<Rightarrow> (ds_error + unit) \<times> 'f space_db" where
  "update_record_values nm stamp t rid values db =
     (case record_by_id db rid of
        None \<Rightarrow> (Inl DsNotFound, db)
      | Some r \<Rightarrow>
          (case build_patch nm db t values (Some (rw_id r)) of
             Inl k \<Rightarrow> (Inl k, db)
           | Inr patch \<Rightarrow>
               (case write_patch nm rid patch db of
                  (Inl k, db1) \<Rightarrow> (Inl k, db1)
                | (Inr _, db1) \<Rightarrow> (Inr (), touch_record stamp rid db1))))"

definition update_record_tx ::
  "'f numbers \<Rightarrow> string \<Rightarrow> string \<Rightarrow> (string \<times> 'f raw) list \<Rightarrow> 'f space_db \<Rightarrow> (ds_error + unit) \<times> 'f space_db" where
  "update_record_tx nm stamp rid values db =
     reloaded (\<lambda>db1.
       case record_by_id db1 rid of
         None \<Rightarrow> (Inl DsNotFound, db1)
       | Some r \<Rightarrow>
           (case type_by_id db1 (rw_type r) of
              None \<Rightarrow> (Inl DsFatal, db1)
            | Some t \<Rightarrow> update_record_values nm stamp t rid values db1)) db"

section \<open>Batches of records\<close>

definition lookup_value :: "obj_type \<Rightarrow> (string \<times> 'f raw) list \<Rightarrow> attribute \<Rightarrow> 'f raw option" where
  "lookup_value t values a =
     first_some (map_of values (at_slug a))
       (map_option snd (find (\<lambda>p. map_option at_id (resolve_value_key t (fst p)) = Some (at_id a)) values))"

definition find_by_unique_value :: "'f numbers \<Rightarrow> 'f space_db \<Rightarrow> attribute \<Rightarrow> 'f val \<Rightarrow> string option" where
  "find_by_unique_value nm db a v =
     map_option vr_record (find (\<lambda>r. vr_attr r = at_id a \<and> vr_key r = Some (unique_key nm v)) (db_values db))"

definition without_nils :: "(string \<times> 'f raw) list \<Rightarrow> (string \<times> 'f raw) list" where
  "without_nils values = filter (\<lambda>p. case snd p of RNull \<Rightarrow> False | _ \<Rightarrow> True) values"

definition require_match_attribute :: "obj_type \<Rightarrow> string \<Rightarrow> ds_error + attribute" where
  "require_match_attribute t ref =
     (case resolve_attribute_ref t ref of
        None \<Rightarrow> Inl DsNotFound
      | Some a \<Rightarrow> if at_unique a then Inr a else Inl (DsInvalid (at_slug a)))"

definition write_one_record ::
  "'f numbers \<Rightarrow> (nat \<Rightarrow> string) \<Rightarrow> string \<Rightarrow> string \<Rightarrow> obj_type \<Rightarrow> attribute option \<Rightarrow> (string \<times> 'f raw) list
     \<Rightarrow> cursor \<Rightarrow> 'f space_db \<Rightarrow> (ds_error + string \<times> cursor) \<times> 'f space_db" where
  "write_one_record nm rnd actor stamp t match values cur db =
     (case match of
        None \<Rightarrow> create_record nm rnd actor stamp t values cur db
      | Some a \<Rightarrow>
          (case lookup_value t values a of
             None \<Rightarrow> (Inl (DsInvalid (at_slug a)), db)
           | Some raw \<Rightarrow>
               if is_blank_raw raw then (Inl (DsInvalid (at_slug a)), db)
               else case coerce_value nm a raw of
                      None \<Rightarrow> (Inl (DsInvalid (at_slug a)), db)
                    | Some None \<Rightarrow> (Inl (DsInvalid (at_slug a)), db)
                    | Some (Some v) \<Rightarrow>
                        (case find_by_unique_value nm db a v of
                           None \<Rightarrow> create_record nm rnd actor stamp t (without_nils values) cur db
                         | Some rid \<Rightarrow>
                             (case update_record_values nm stamp t rid (without_nils values) db of
                                (Inl k, db1) \<Rightarrow> (Inl k, db1)
                              | (Inr _, db1) \<Rightarrow> (Inr (rid, cur), db1)))))"

definition identify_input :: "'f numbers \<Rightarrow> obj_type \<Rightarrow> (string \<times> 'f raw) list \<Rightarrow> string" where
  "identify_input nm t values =
     (case primary_attr t of
        None \<Rightarrow> []
      | Some p \<Rightarrow>
          (case find (\<lambda>q. equal_fold (fst q) (at_slug p) \<or> same_name (fst q) (at_name p)) values of
             None \<Rightarrow> []
           | Some (_, RStr s) \<Rightarrow> trim_space s
           | Some (_, raw) \<Rightarrow> raw_string nm raw))"

text \<open>The loop of \<open>writeRecords\<close>; the cursor is read once and carried forward.\<close>

fun write_loop ::
  "'f numbers \<Rightarrow> (nat \<Rightarrow> string) \<Rightarrow> string \<Rightarrow> string \<Rightarrow> obj_type \<Rightarrow> attribute option \<Rightarrow> nat
     \<Rightarrow> (string \<times> 'f raw) list list \<Rightarrow> ds_entry list \<Rightarrow> cursor \<Rightarrow> 'f space_db
     \<Rightarrow> (ds_error + ds_entry list) \<times> 'f space_db" where
  "write_loop nm rnd actor stamp t match k [] es cur db = (Inr es, db)"
| "write_loop nm rnd actor stamp t match k (values # rest) es cur db =
     (case savepoint (write_one_record nm rnd actor stamp t match values cur) db of
        (Inl err, db1) \<Rightarrow>
          if is_fatal err then (Inl err, db1)
          else write_loop nm rnd actor stamp t match (Suc k) rest
                 (es @ [\<lparr>de_index = k, de_identifier = identify_input nm t values, de_noop = False,
                         de_error = Some err, de_id = []\<rparr>]) cur db1
      | (Inr (i, cur1), db1) \<Rightarrow>
          write_loop nm rnd actor stamp t match (Suc k) rest
            (es @ [\<lparr>de_index = k, de_identifier = identify_input nm t values, de_noop = False,
                    de_error = None, de_id = i\<rparr>]) cur1 db1)"

text \<open>One transaction of \<open>CreateRecords\<close> (no matching attribute) or \<open>UpsertRecords\<close>.\<close>

definition write_records_tx ::
  "'f numbers \<Rightarrow> (nat \<Rightarrow> string) \<Rightarrow> string \<Rightarrow> string \<Rightarrow> string \<Rightarrow> string \<Rightarrow> (string \<times> 'f raw) list list \<Rightarrow> 'f space_db
     \<Rightarrow> (ds_error + ds_entry list) \<times> 'f space_db" where
  "write_records_tx nm rnd actor stamp tref mref inputs db =
     reloaded (\<lambda>db1.
       case require_type db1 tref of
         Inl k \<Rightarrow> (Inl k, db1)
       | Inr t \<Rightarrow>
           (case (if mref = [] then Inr None else map_sum id Some (require_match_attribute t mref)) of
              Inl k \<Rightarrow> (Inl k, db1)
            | Inr match \<Rightarrow> write_loop nm rnd actor stamp t match 0 inputs [] (new_cursor db1) db1)) db"

section \<open>Links\<close>

record link_input =
  li_record :: string
  li_attribute :: string
  li_target :: string
  li_replace :: bool

record resolved_link =
  rl_attr :: attribute
  rl_rel :: relationship
  rl_link :: link_row

definition resolve_link :: "'f space_db \<Rightarrow> link_input \<Rightarrow> ds_error + resolved_link" where
  "resolve_link db inp =
     (case record_by_id db (li_record inp) of
        None \<Rightarrow> Inl DsNotFound
      | Some r \<Rightarrow>
          (case type_by_id db (rw_type r) of
             None \<Rightarrow> Inl DsFatal
           | Some t \<Rightarrow>
               (case resolve_attribute_ref t (li_attribute inp) of
                  None \<Rightarrow> Inl (DsInvalid (li_attribute inp))
                | Some a \<Rightarrow>
                    (case (if at_type a = TRelationship then at_rel a else None) of
                       None \<Rightarrow> Inl (DsInvalid (at_slug a))
                     | Some ref \<Rightarrow>
                         (case record_by_id db (li_target inp) of
                            None \<Rightarrow> Inl DsNotFound
                          | Some g \<Rightarrow>
                              (case type_by_id db (rr_target ref) of
                                 None \<Rightarrow> Inl DsFatal
                               | Some gt \<Rightarrow>
                                   if rw_type g \<noteq> ty_id gt then Inl (DsInvalid (at_slug a))
                                   else case find (\<lambda>x. re_id x = rr_id ref) (db_rels db) of
                                          None \<Rightarrow> Inl DsFatal
                                        | Some rel \<Rightarrow>
                                            Inr \<lparr>rl_attr = a, rl_rel = rel,
                                                 rl_link =
                                                   (if re_source_attr rel = at_id a
                                                    then \<lparr>lk_rel = re_id rel, lk_source = rw_id r, lk_target = rw_id g\<rparr>
                                                    else \<lparr>lk_rel = re_id rel, lk_source = rw_id g,
                                                          lk_target = rw_id r\<rparr>)\<rparr>))))))"

definition source_holds_one :: "cardinality \<Rightarrow> bool" where
  "source_holds_one c \<longleftrightarrow> c = ManyToOne \<or> c = OneToOne"

definition target_holds_one :: "cardinality \<Rightarrow> bool" where
  "target_holds_one c \<longleftrightarrow> c = OneToMany \<or> c = OneToOne"

text \<open>The links of the relationship that stand in the way of this one.\<close>

definition link_conflicts :: "'f space_db \<Rightarrow> cardinality \<Rightarrow> link_row \<Rightarrow> link_row list" where
  "link_conflicts db c l =
     sort_key (\<lambda>k. (lk_source k, lk_target k))
       (filter (\<lambda>k. lk_rel k = lk_rel l
          \<and> ((source_holds_one c \<and> lk_source k = lk_source l) \<or> (target_holds_one c \<and> lk_target k = lk_target l)))
         (db_links db))"

definition touch_records :: "string \<Rightarrow> string list \<Rightarrow> 'f space_db \<Rightarrow> 'f space_db" where
  "touch_records stamp ids db =
     db\<lparr>db_records := map (\<lambda>r. if rw_id r \<in> set ids then r\<lparr>rw_updated_at := stamp\<rparr> else r) (db_records db)\<rparr>"

definition ends_of :: "link_row \<Rightarrow> string list" where
  "ends_of l = [lk_source l, lk_target l]"

text \<open>Answers whether anything changed.\<close>

definition apply_link :: "string \<Rightarrow> bool \<Rightarrow> link_input \<Rightarrow> 'f space_db \<Rightarrow> (ds_error + bool) \<times> 'f space_db" where
  "apply_link stamp link inp db =
     (case resolve_link db inp of
        Inl k \<Rightarrow> (Inl k, db)
      | Inr rl \<Rightarrow>
          let l = rl_link rl; present = l \<in> set (db_links db) in
          if \<not> link
          then (if \<not> present then (Inr False, db)
                else (Inr True, touch_records stamp (ends_of l)
                        (db\<lparr>db_links := filter (\<lambda>k. k \<noteq> l) (db_links db)\<rparr>)))
          else if present then (Inr False, db)
          else let conflicts = link_conflicts db (re_card (rl_rel rl)) l in
               if conflicts \<noteq> [] \<and> \<not> li_replace inp then (Inl (DsInvalid (at_slug (rl_attr rl))), db)
               else (Inr True, touch_records stamp (ends_of l @ concat (map ends_of conflicts))
                       (db\<lparr>db_links := filter (\<lambda>k. k \<notin> set conflicts) (db_links db) @ [l]\<rparr>)))"

definition link_step :: "string \<Rightarrow> bool \<Rightarrow> link_input \<Rightarrow> 'f space_db \<Rightarrow> (ds_error + ds_outcome) \<times> 'f space_db" where
  "link_step stamp link inp db =
     (case apply_link stamp link inp db of
        (Inl k, db1) \<Rightarrow> (Inl k, db1)
      | (Inr changed, db1) \<Rightarrow>
          (Inr (li_record inp @ '' '' @ li_attribute inp @ '' '' @ li_target inp, \<not> changed, li_record inp), db1))"

definition change_links_tx ::
  "string \<Rightarrow> bool \<Rightarrow> link_input list \<Rightarrow> 'f space_db \<Rightarrow> (ds_error + ds_entry list) \<times> 'f space_db" where
  "change_links_tx stamp link inps db =
     reloaded (run_batch (link_step stamp link)
       (\<lambda>inp. li_record inp @ '' '' @ li_attribute inp @ '' '' @ li_target inp) 0 inps []) db"

section \<open>What a reader sees\<close>

record rec_ref =
  rf_id :: string
  rf_type :: string
  rf_name :: string

record 'f rec_view =
  vw_id :: string
  vw_type :: string
  vw_values :: "(string \<times> 'f val) list"
  vw_links :: "(string \<times> rec_ref list) list"
  vw_created_by :: string
  vw_created_at :: string
  vw_updated_at :: string

definition record_values :: "'f space_db \<Rightarrow> string \<Rightarrow> (string \<times> 'f val) list" where
  "record_values db rid = map (\<lambda>r. (vr_slug r, vr_value r)) (filter (\<lambda>r. vr_record r = rid) (db_values db))"

text \<open>The joins of \<open>refsFor\<close> for one id.\<close>

definition ref_for :: "'f numbers \<Rightarrow> 'f space_db \<Rightarrow> string \<Rightarrow> rec_ref option" where
  "ref_for nm db rid =
     (case record_by_id db rid of
        None \<Rightarrow> None
      | Some r \<Rightarrow>
          Some \<lparr>rf_id = rid, rf_type = rw_type r,
                rf_name =
                  (case Option.bind (type_by_id db (rw_type r)) primary_attr of
                     None \<Rightarrow> []
                   | Some p \<Rightarrow>
                       (case find (\<lambda>v. vr_record v = rid \<and> vr_attr v = at_id p) (db_values db) of
                          Some v \<Rightarrow> value_string nm (vr_value v) | None \<Rightarrow> []))\<rparr>)"

definition linked_ids :: "'f space_db \<Rightarrow> relationship \<Rightarrow> bool \<Rightarrow> string \<Rightarrow> string list" where
  "linked_ids db rel is_source rid =
     concat (map (\<lambda>l. if is_source \<and> lk_source l = rid then [lk_target l]
                      else if \<not> is_source \<and> lk_target l = rid then [lk_source l] else [])
       (filter (\<lambda>l. lk_rel l = re_id rel) (db_links db)))"

definition view_links :: "'f numbers \<Rightarrow> 'f space_db \<Rightarrow> rec_row \<Rightarrow> (string \<times> rec_ref list) list" where
  "view_links nm db r =
     (case type_by_id db (rw_type r) of
        None \<Rightarrow> []
      | Some t \<Rightarrow>
          concat (map (\<lambda>a.
            (case at_rel a of
               None \<Rightarrow> []
             | Some ref \<Rightarrow>
                 (case find (\<lambda>x. re_id x = rr_id ref) (db_rels db) of
                    None \<Rightarrow> []
                  | Some rel \<Rightarrow>
                      [(at_slug a, concat (map (\<lambda>i. case ref_for nm db i of Some f \<Rightarrow> [f] | None \<Rightarrow> [])
                         (linked_ids db rel (re_source_attr rel = at_id a) (rw_id r))))])))
            (ty_attrs t)))"

definition view_record :: "'f numbers \<Rightarrow> 'f space_db \<Rightarrow> rec_row \<Rightarrow> 'f rec_view" where
  "view_record nm db r =
     \<lparr>vw_id = rw_id r, vw_type = rw_type r, vw_values = record_values db (rw_id r),
      vw_links = view_links nm db r, vw_created_by = rw_created_by r, vw_created_at = rw_created_at r,
      vw_updated_at = rw_updated_at r\<rparr>"

definition stored_records :: "'f space_db \<Rightarrow> (rec_row \<Rightarrow> bool) \<Rightarrow> rec_row list" where
  "stored_records db p = sort_key (\<lambda>r. (rw_seq r, rw_id r)) (filter p (db_records db))"

definition get_record :: "'f numbers \<Rightarrow> 'f space_db \<Rightarrow> string \<Rightarrow> ds_error + 'f rec_view" where
  "get_record nm db rid =
     (case load_schema db of
        Inl k \<Rightarrow> Inl k
      | Inr db1 \<Rightarrow>
          (case stored_records db1 (\<lambda>r. rw_id r = rid) of
             [] \<Rightarrow> Inl DsNotFound
           | r # _ \<Rightarrow> Inr (view_record nm db1 r)))"

end
