(* ===== verification/SpaceStore.thy ===== *)
theory SpaceStore
  imports SpaceRecords
begin

text \<open>
  Data spaces, part five: deletes in two steps and the store as its callers see it
  (\<^verbatim>\<open>internal/dataspace\<close>: \<^verbatim>\<open>delete.go\<close>, the entry points of \<^verbatim>\<open>schema.go\<close>, \<^verbatim>\<open>attributes.go\<close>,
  \<^verbatim>\<open>records.go\<close> and \<^verbatim>\<open>links.go\<close>, and \<^verbatim>\<open>lockSpace\<close>, \<^verbatim>\<open>inTx\<close>, \<^verbatim>\<open>touchSpace\<close>, \<^verbatim>\<open>removeSpace\<close>).

  The store is the index, one database per space and the live delete tokens.  The clock is the number of
  nanoseconds since the epoch.  A call runs under the lock of its space, so it is one step; a
  transaction that fails leaves its database as it was.
\<close>

section \<open>What a delete takes with it\<close>

datatype delete_kind = DelSpace | DelObjectType | DelAttribute | DelRecords | DelRecordsOfType | DelOther string

record impact =
  im_types :: nat
  im_attrs :: nat
  im_records :: nat
  im_links :: nat

record delete_plan =
  dp_space :: bool
  dp_types :: "string list"
  dp_attrs :: "string list"
  dp_rels :: "string list"
  dp_records :: "string list"
  dp_impact :: impact

definition new_plan :: delete_plan where
  "new_plan =
     \<lparr>dp_space = False, dp_types = [], dp_attrs = [], dp_rels = [], dp_records = [],
      dp_impact = \<lparr>im_types = 0, im_attrs = 0, im_records = 0, im_links = 0\<rparr>\<rparr>"

definition count_links_for :: "'f space_db \<Rightarrow> string list \<Rightarrow> string list \<Rightarrow> nat" where
  "count_links_for db rels recs =
     length (filter (\<lambda>l. lk_rel l \<in> set rels \<or> lk_source l \<in> set recs \<or> lk_target l \<in> set recs) (db_links db))"

definition plan_records :: "'f space_db \<Rightarrow> string list \<Rightarrow> ds_error + delete_plan" where
  "plan_records db ids =
     (if list_ex (\<lambda>i. record_by_id db i = None) ids then Inl DsNotFound
      else Inr (new_plan\<lparr>dp_records := ids,
                  dp_impact := \<lparr>im_types = 0, im_attrs = 0, im_records = length ids,
                                im_links = count_links_for db [] ids\<rparr>\<rparr>))"

text \<open>The loop of \<open>planAttributes\<close> over the sets of attributes, relationships and records losing a value.\<close>

fun plan_attr_loop ::
  "'f space_db \<Rightarrow> string list \<Rightarrow> string list \<times> string list \<times> string list
     \<Rightarrow> ds_error + (string list \<times> string list \<times> string list)" where
  "plan_attr_loop db [] acc = Inr acc"
| "plan_attr_loop db (i # is) (as, rs, losing) =
     (case find_attribute db i of
        None \<Rightarrow> Inl DsNotFound
      | Some (t, a) \<Rightarrow>
          if at_primary a then Inl (DsInvalid (at_slug a))
          else case at_rel a of
                 Some ref \<Rightarrow>
                   plan_attr_loop db is
                     (as @ [at_id a] @ (if rr_inverse ref = [] then [] else [rr_inverse ref]),
                      rs @ [rr_id ref], losing)
               | None \<Rightarrow>
                   plan_attr_loop db is
                     (as @ [at_id a], rs,
                      losing @ map vr_record (filter (\<lambda>r. vr_attr r = at_id a) (db_values db))))"

definition plan_attributes :: "'f space_db \<Rightarrow> string list \<Rightarrow> ds_error + delete_plan" where
  "plan_attributes db ids =
     (case plan_attr_loop db ids ([], [], []) of
        Inl k \<Rightarrow> Inl k
      | Inr (as, rs, losing) \<Rightarrow>
          Inr (new_plan\<lparr>dp_attrs := sorted_copy as, dp_rels := sorted_copy rs,
                dp_impact := \<lparr>im_types = 0, im_attrs = length (sorted_copy as),
                              im_records = length (sorted_copy losing),
                              im_links = count_links_for db (sorted_copy rs) []\<rparr>\<rparr>))"

definition record_ids_of_types :: "'f space_db \<Rightarrow> string list \<Rightarrow> string list" where
  "record_ids_of_types db ts = map rw_id (filter (\<lambda>r. rw_type r \<in> set ts) (db_records db))"

definition plan_types :: "'f space_db \<Rightarrow> string list \<Rightarrow> ds_error + delete_plan" where
  "plan_types db ids =
     (if list_ex (\<lambda>i. type_by_id db i = None) ids then Inl DsNotFound
      else let rels = map re_id (filter (\<lambda>r. re_source_type r \<in> set ids \<or> re_target_type r \<in> set ids) (db_rels db));
               attrs = concat (map (\<lambda>t. map at_id (filter (\<lambda>a.
                         ty_id t \<in> set ids
                         \<or> (case at_rel a of None \<Rightarrow> False | Some ref \<Rightarrow> rr_id ref \<in> set rels)) (ty_attrs t)))
                         (db_types db));
               recs = record_ids_of_types db ids
           in Inr (new_plan\<lparr>dp_types := sorted_copy ids, dp_attrs := sorted_copy attrs,
                     dp_rels := sorted_copy rels, dp_records := sorted_copy recs,
                     dp_impact := \<lparr>im_types = length (sorted_copy ids), im_attrs = length (sorted_copy attrs),
                                   im_records = length (sorted_copy recs),
                                   im_links = count_links_for db (sorted_copy rels) []\<rparr>\<rparr>))"

definition plan_records_of_type :: "'f space_db \<Rightarrow> string list \<Rightarrow> ds_error + delete_plan" where
  "plan_records_of_type db refs =
     (if list_ex (\<lambda>i. resolve_type db i = None) refs then Inl DsNotFound
      else let recs = sorted_copy (record_ids_of_types db (map (\<lambda>i. ty_id (the (resolve_type db i))) refs))
           in Inr (new_plan\<lparr>dp_records := recs,
                     dp_impact := \<lparr>im_types = 0, im_attrs = 0, im_records = length recs,
                                   im_links = count_links_for db [] recs\<rparr>\<rparr>))"

definition plan_delete :: "'f space_db \<Rightarrow> string \<Rightarrow> delete_kind \<Rightarrow> string list \<Rightarrow> ds_error + delete_plan" where
  "plan_delete db sid kind raw =
     (let ids = sorted_copy raw in
        case kind of
          DelOther _ \<Rightarrow> Inl (DsInvalid [])
        | _ \<Rightarrow>
            if ids = [] then Inl (DsInvalid [])
            else case kind of
                   DelRecords \<Rightarrow> plan_records db ids
                 | DelAttribute \<Rightarrow> plan_attributes db ids
                 | DelObjectType \<Rightarrow> plan_types db ids
                 | DelRecordsOfType \<Rightarrow> plan_records_of_type db ids
                 | _ \<Rightarrow>
                     if ids \<noteq> [sid] then Inl (DsInvalid [])
                     else case (if db_types db = [] then Inr new_plan
                                else plan_types db (map ty_id (db_types db))) of
                            Inl k \<Rightarrow> Inl k
                          | Inr p \<Rightarrow> Inr (p\<lparr>dp_space := True\<rparr>))"

text \<open>The statements of \<open>applyDelete\<close> with the cascades of the DDL.\<close>

definition delete_links_where :: "(link_row \<Rightarrow> bool) \<Rightarrow> 'f space_db \<Rightarrow> 'f space_db" where
  "delete_links_where p db = db\<lparr>db_links := filter (\<lambda>l. \<not> p l) (db_links db)\<rparr>"

definition delete_values_where :: "('f value_row \<Rightarrow> bool) \<Rightarrow> 'f space_db \<Rightarrow> 'f space_db" where
  "delete_values_where p db = db\<lparr>db_values := filter (\<lambda>r. \<not> p r) (db_values db)\<rparr>"

definition delete_rels :: "string list \<Rightarrow> 'f space_db \<Rightarrow> 'f space_db" where
  "delete_rels rs db =
     delete_links_where (\<lambda>l. lk_rel l \<in> set rs) (db\<lparr>db_rels := filter (\<lambda>r. re_id r \<notin> set rs) (db_rels db)\<rparr>)"

definition drop_attrs :: "string list \<Rightarrow> obj_type \<Rightarrow> obj_type" where
  "drop_attrs as t = t\<lparr>ty_attrs := filter (\<lambda>a. at_id a \<notin> set as) (ty_attrs t)\<rparr>"

definition delete_attrs :: "string list \<Rightarrow> 'f space_db \<Rightarrow> 'f space_db" where
  "delete_attrs as db =
     delete_values_where (\<lambda>r. vr_attr r \<in> set as) (db\<lparr>db_types := map (drop_attrs as) (db_types db)\<rparr>)"

definition delete_records :: "string list \<Rightarrow> 'f space_db \<Rightarrow> 'f space_db" where
  "delete_records is db =
     delete_links_where (\<lambda>l. lk_source l \<in> set is \<or> lk_target l \<in> set is)
       (delete_values_where (\<lambda>r. vr_record r \<in> set is)
         (db\<lparr>db_records := filter (\<lambda>r. rw_id r \<notin> set is) (db_records db)\<rparr>))"

definition delete_types :: "string list \<Rightarrow> 'f space_db \<Rightarrow> 'f space_db" where
  "delete_types ts db =
     (let gone = filter (\<lambda>t. ty_id t \<in> set ts) (db_types db);
          db1 = delete_attrs (map at_id (concat (map ty_attrs gone))) db;
          db2 = delete_records (record_ids_of_types db ts) db1
      in db2\<lparr>db_types := filter (\<lambda>t. ty_id t \<notin> set ts) (db_types db2)\<rparr>)"

definition apply_delete :: "delete_plan \<Rightarrow> 'f space_db \<Rightarrow> 'f space_db" where
  "apply_delete p db =
     delete_types (dp_types p) (delete_records (dp_records p) (delete_attrs (dp_attrs p) (delete_rels (dp_rels p) db)))"

section \<open>The store\<close>

record delete_binding =
  bd_space :: string
  bd_kind :: delete_kind
  bd_ids :: "string list"
  bd_impact :: impact
  bd_expires :: int

record 'f ds_store =
  st_index :: space_index
  st_dbs :: "string \<Rightarrow> 'f space_db"
  st_tokens :: "(string \<times> delete_binding) list"

definition in_tx ::
  "string \<Rightarrow> ('f space_db \<Rightarrow> (ds_error + 'a) \<times> 'f space_db) \<Rightarrow> 'f ds_store \<Rightarrow> (ds_error + 'a) \<times> 'f ds_store" where
  "in_tx i f st =
     (let (r, db) = savepoint f ((st_dbs st i)\<lparr>db_draws := ix_draws (st_index st)\<rparr>)
      in (r, st\<lparr>st_dbs := (st_dbs st)(i := db), st_index := (st_index st)\<lparr>ix_draws := db_draws db\<rparr>\<rparr>))"

definition touch_space :: "string \<Rightarrow> space \<Rightarrow> 'f ds_store \<Rightarrow> 'f ds_store" where
  "touch_space stamp sp st =
     (let db = st_dbs st (sp_id sp);
          sp1 = sp\<lparr>sp_type_count := length (db_types db), sp_record_count := length (db_records db)\<rparr>
      in st\<lparr>st_index := snd (save_space_row stamp sp1 (st_index st))\<rparr>)"

text \<open>A call that changes a space: the caller may write, the transaction runs, the cached counts follow.\<close>

definition write_call ::
  "string \<Rightarrow> string \<Rightarrow> string \<Rightarrow> bool \<Rightarrow> ('f space_db \<Rightarrow> (ds_error + 'a) \<times> 'f space_db) \<Rightarrow> 'f ds_store
     \<Rightarrow> (ds_error + 'a) \<times> 'f ds_store" where
  "write_call stamp actor i fits f st =
     (case authorize (st_index st) actor i True of
        Inl k \<Rightarrow> (Inl k, st)
      | Inr sp \<Rightarrow>
          if \<not> fits then (Inl (DsInvalid []), st)
          else case in_tx i f st of
                 (Inl k, st1) \<Rightarrow> (Inl k, st1)
               | (Inr x, st1) \<Rightarrow> (Inr x, touch_space stamp sp st1))"

definition with_result ::
  "string \<Rightarrow> string \<Rightarrow> (ds_error + ds_entry list) \<times> 'f ds_store \<Rightarrow> (ds_error + ds_result) \<times> 'f ds_store" where
  "with_result noun verb p = (map_sum id (build_result noun verb) (fst p), snd p)"

definition create_object_types ::
  "(nat \<Rightarrow> string) \<Rightarrow> string \<Rightarrow> string \<Rightarrow> string \<Rightarrow> type_input list \<Rightarrow> 'f ds_store \<Rightarrow> (ds_error + ds_result) \<times> 'f ds_store" where
  "create_object_types rnd stamp actor i inps st =
     with_result ''object type'' ''created''
       (write_call stamp actor i (length inps \<le> 50)
          (create_types_tx rnd (normalize_ds_actor actor) stamp inps) st)"

definition add_attributes ::
  "(nat \<Rightarrow> string) \<Rightarrow> string \<Rightarrow> string \<Rightarrow> string \<Rightarrow> string \<Rightarrow> attr_input list \<Rightarrow> 'f ds_store
     \<Rightarrow> (ds_error + ds_result) \<times> 'f ds_store" where
  "add_attributes rnd stamp actor i tref inps st =
     with_result ''attribute'' ''created''
       (write_call stamp actor i (length inps \<le> 100)
          (add_attributes_tx rnd (normalize_ds_actor actor) tref inps) st)"

definition change_object_type ::
  "string \<Rightarrow> string \<Rightarrow> string \<Rightarrow> string \<Rightarrow> type_patch \<Rightarrow> 'f ds_store \<Rightarrow> (ds_error + obj_type) \<times> 'f ds_store" where
  "change_object_type stamp actor i tref p st =
     write_call stamp actor i True (reloaded (update_object_type tref p)) st"

definition change_attribute ::
  "(nat \<Rightarrow> string) \<Rightarrow> string \<Rightarrow> string \<Rightarrow> string \<Rightarrow> string \<Rightarrow> string \<Rightarrow> attr_patch \<Rightarrow> 'f ds_store
     \<Rightarrow> (ds_error + unit) \<times> 'f ds_store" where
  "change_attribute rnd stamp actor i tref aref p st =
     write_call stamp actor i True (reloaded (update_attribute rnd tref aref p)) st"

definition write_records ::
  "'f numbers \<Rightarrow> (nat \<Rightarrow> string) \<Rightarrow> string \<Rightarrow> string \<Rightarrow> string \<Rightarrow> string \<Rightarrow> string \<Rightarrow> (string \<times> 'f raw) list list
     \<Rightarrow> 'f ds_store \<Rightarrow> (ds_error + ds_result) \<times> 'f ds_store" where
  "write_records nm rnd stamp actor i tref mref inps st =
     with_result ''record'' (if mref = [] then ''created'' else ''written'')
       (write_call stamp actor i (int (length inps) \<le> 1000)
          (write_records_tx nm rnd (normalize_ds_actor actor) stamp tref mref inps) st)"

definition create_records ::
  "'f numbers \<Rightarrow> (nat \<Rightarrow> string) \<Rightarrow> string \<Rightarrow> string \<Rightarrow> string \<Rightarrow> string \<Rightarrow> (string \<times> 'f raw) list list
     \<Rightarrow> 'f ds_store \<Rightarrow> (ds_error + ds_result) \<times> 'f ds_store" where
  "create_records nm rnd stamp actor i tref inps st = write_records nm rnd stamp actor i tref [] inps st"

definition upsert_records ::
  "'f numbers \<Rightarrow> (nat \<Rightarrow> string) \<Rightarrow> string \<Rightarrow> string \<Rightarrow> string \<Rightarrow> string \<Rightarrow> string \<Rightarrow> (string \<times> 'f raw) list list
     \<Rightarrow> 'f ds_store \<Rightarrow> (ds_error + ds_result) \<times> 'f ds_store" where
  "upsert_records nm rnd stamp actor i tref mref inps st =
     (if trim_space mref = [] then (Inl (DsInvalid []), st)
      else write_records nm rnd stamp actor i tref mref inps st)"

definition update_record ::
  "'f numbers \<Rightarrow> string \<Rightarrow> string \<Rightarrow> string \<Rightarrow> string \<Rightarrow> (string \<times> 'f raw) list \<Rightarrow> 'f ds_store
     \<Rightarrow> (ds_error + unit) \<times> 'f ds_store" where
  "update_record nm stamp actor i rid values st =
     write_call stamp actor i True (update_record_tx nm stamp rid values) st"

definition change_links ::
  "string \<Rightarrow> string \<Rightarrow> string \<Rightarrow> bool \<Rightarrow> link_input list \<Rightarrow> 'f ds_store \<Rightarrow> (ds_error + ds_result) \<times> 'f ds_store" where
  "change_links stamp actor i link inps st =
     with_result ''link'' (if link then ''linked'' else ''unlinked'')
       (write_call stamp actor i (length inps \<le> 100) (change_links_tx stamp link inps) st)"

section \<open>Deleting in two steps\<close>

definition max_live_tokens :: int where
  "max_live_tokens = 1000"

definition delete_token_ttl :: int where
  "delete_token_ttl = 15 * 60 * 1000000000"

text \<open>Expired previews go; if the cap is still reached, so do the oldest, until one more fits.\<close>

definition prune_tokens :: "int \<Rightarrow> (string \<times> delete_binding) list \<Rightarrow> (string \<times> delete_binding) list" where
  "prune_tokens now ts =
     (let kept = filter (\<lambda>p. now \<le> bd_expires (snd p)) ts in
        if int (length kept) < max_live_tokens then kept
        else let oldest = take (nat (int (length kept) - max_live_tokens + 1)) (sort_key (\<lambda>p. bd_expires (snd p)) kept)
             in filter (\<lambda>p. fst p \<notin> fst ` set oldest) kept)"

definition put_token :: "string \<Rightarrow> delete_binding \<Rightarrow> (string \<times> delete_binding) list \<Rightarrow> (string \<times> delete_binding) list" where
  "put_token i b ts = filter (\<lambda>p. fst p \<noteq> i) ts @ [(i, b)]"

definition preview_tx ::
  "string \<Rightarrow> delete_kind \<Rightarrow> string list \<Rightarrow> 'f space_db \<Rightarrow> (ds_error + impact) \<times> 'f space_db" where
  "preview_tx sid kind ids =
     reloaded (\<lambda>db. (map_sum id dp_impact (plan_delete db sid kind ids), db))"

definition preview_delete ::
  "(nat \<Rightarrow> string) \<Rightarrow> int \<Rightarrow> string \<Rightarrow> string \<Rightarrow> delete_kind \<Rightarrow> string list \<Rightarrow> 'f ds_store
     \<Rightarrow> (ds_error + string \<times> impact) \<times> 'f ds_store" where
  "preview_delete rnd now actor i kind ids st =
     (case authorize (st_index st) actor i True of
        Inl k \<Rightarrow> (Inl k, st)
      | Inr sp \<Rightarrow>
          if kind = DelSpace \<and> \<not> owner_only actor sp then (Inl DsForbidden, st)
          else case in_tx i (preview_tx i kind ids) st of
                 (Inl k, st1) \<Rightarrow> (Inl k, st1)
               | (Inr im, st1) \<Rightarrow>
                   let token = ''del_'' @ rnd (ix_draws (st_index st1));
                       b = \<lparr>bd_space = i, bd_kind = kind, bd_ids = sorted_copy ids, bd_impact = im,
                            bd_expires = now + delete_token_ttl\<rparr>
                   in (Inr (token, im),
                       st1\<lparr>st_index := (st_index st1)\<lparr>ix_draws := Suc (ix_draws (st_index st1))\<rparr>,
                           st_tokens := put_token token b (prune_tokens now (st_tokens st1))\<rparr>))"

definition execute_tx ::
  "string \<Rightarrow> delete_binding \<Rightarrow> 'f space_db \<Rightarrow> (ds_error + delete_plan) \<times> 'f space_db" where
  "execute_tx sid b =
     reloaded (\<lambda>db.
       case plan_delete db sid (bd_kind b) (bd_ids b) of
         Inl k \<Rightarrow> (Inl k, db)
       | Inr p \<Rightarrow>
           if dp_impact p \<noteq> bd_impact b then (Inl (DsInvalid []), db) else (Inr p, apply_delete p db))"

text \<open>The space is gone: its row from the index, its file from the disk.\<close>

definition remove_space :: "string \<Rightarrow> 'f ds_store \<Rightarrow> 'f ds_store" where
  "remove_space i st =
     st\<lparr>st_dbs := (st_dbs st)(i := empty_db),
        st_index := (st_index st)\<lparr>ix_spaces := filter (\<lambda>sp. sp_id sp \<noteq> i) (ix_spaces (st_index st))\<rparr>\<rparr>"

definition execute_delete ::
  "string \<Rightarrow> int \<Rightarrow> string \<Rightarrow> string \<Rightarrow> string \<Rightarrow> 'f ds_store \<Rightarrow> (ds_error + impact) \<times> 'f ds_store" where
  "execute_delete stamp now actor i token st =
     (case authorize (st_index st) actor i True of
        Inl k \<Rightarrow> (Inl k, st)
      | Inr sp \<Rightarrow>
          (case map_of (st_tokens st) token of
             None \<Rightarrow> (Inl (DsInvalid []), st)
           | Some b \<Rightarrow>
               if bd_space b \<noteq> i then (Inl (DsInvalid []), st)
               else if bd_kind b = DelSpace \<and> \<not> owner_only actor sp then (Inl DsForbidden, st)
               else let st1 = st\<lparr>st_tokens := filter (\<lambda>p. fst p \<noteq> token) (st_tokens st)\<rparr> in
                    if bd_expires b < now then (Inl (DsInvalid []), st1)
                    else case in_tx i (execute_tx i b) st1 of
                           (Inl k, st2) \<Rightarrow> (Inl k, st2)
                         | (Inr p, st2) \<Rightarrow>
                             (Inr (dp_impact p),
                              if dp_space p then remove_space i st2 else touch_space stamp sp st2)))"

section \<open>Reading\<close>

definition get_schema ::
  "string \<Rightarrow> string \<Rightarrow> 'f ds_store \<Rightarrow> ds_error + space \<times> (obj_type \<times> nat) list \<times> relationship list" where
  "get_schema actor i st =
     (case authorize (st_index st) actor i False of
        Inl k \<Rightarrow> Inl k
      | Inr sp \<Rightarrow>
          (case load_schema (st_dbs st i) of
             Inl k \<Rightarrow> Inl k
           | Inr db \<Rightarrow>
               Inr (sp\<lparr>sp_type_count := length (db_types db), sp_record_count := length (db_records db)\<rparr>,
                    map (\<lambda>t. (t, length (filter (\<lambda>r. rw_type r = ty_id t) (db_records db)))) (db_types db),
                    sort_key re_id (db_rels db))))"

definition read_record ::
  "'f numbers \<Rightarrow> string \<Rightarrow> string \<Rightarrow> string \<Rightarrow> 'f ds_store \<Rightarrow> ds_error + 'f rec_view" where
  "read_record nm actor i rid st =
     (case authorize (st_index st) actor i False of
        Inl k \<Rightarrow> Inl k
      | Inr _ \<Rightarrow> get_record nm (st_dbs st i) rid)"

section \<open>All calls\<close>

text \<open>The calls that change the store, for the properties that hold of every sequence of them.\<close>

datatype 'f ds_call =
    CallCreateSpace string string string access
  | CallUpdateSpace string string space_patch
  | CallChangeApps bool string string string
  | CallCreateTypes string string "type_input list"
  | CallAddAttributes string string string "attr_input list"
  | CallUpdateType string string string type_patch
  | CallUpdateAttribute string string string string attr_patch
  | CallCreateRecords string string string "(string \<times> 'f raw) list list"
  | CallUpsertRecords string string string string "(string \<times> 'f raw) list list"
  | CallUpdateRecord string string string "(string \<times> 'f raw) list"
  | CallChangeLinks string string bool "link_input list"
  | CallPreview string string delete_kind "string list"
  | CallExecute string string string

record 'f call_env =
  ce_nm :: "'f numbers"
  ce_rnd :: "nat \<Rightarrow> string"
  ce_now :: int
  ce_stamp :: string
  ce_opens :: "string \<Rightarrow> bool"

definition on_index :: "(space_index \<Rightarrow> 'a \<times> space_index) \<Rightarrow> 'f ds_store \<Rightarrow> 'f ds_store" where
  "on_index f st = st\<lparr>st_index := snd (f (st_index st))\<rparr>"

definition run_call :: "'f call_env \<Rightarrow> 'f ds_call \<Rightarrow> 'f ds_store \<Rightarrow> 'f ds_store" where
  "run_call e c st =
     (case c of
        CallCreateSpace actor name desc acc \<Rightarrow>
          on_index (create_space (ce_rnd e) (ce_opens e) (ce_stamp e) actor name desc acc) st
      | CallUpdateSpace actor i p \<Rightarrow> on_index (update_space (ce_stamp e) actor i p) st
      | CallChangeApps attach actor i app \<Rightarrow> on_index (change_apps attach (ce_stamp e) actor i app) st
      | CallCreateTypes actor i inps \<Rightarrow> snd (create_object_types (ce_rnd e) (ce_stamp e) actor i inps st)
      | CallAddAttributes actor i t inps \<Rightarrow> snd (add_attributes (ce_rnd e) (ce_stamp e) actor i t inps st)
      | CallUpdateType actor i t p \<Rightarrow> snd (change_object_type (ce_stamp e) actor i t p st)
      | CallUpdateAttribute actor i t a p \<Rightarrow> snd (change_attribute (ce_rnd e) (ce_stamp e) actor i t a p st)
      | CallCreateRecords actor i t inps \<Rightarrow> snd (create_records (ce_nm e) (ce_rnd e) (ce_stamp e) actor i t inps st)
      | CallUpsertRecords actor i t m inps \<Rightarrow>
          snd (upsert_records (ce_nm e) (ce_rnd e) (ce_stamp e) actor i t m inps st)
      | CallUpdateRecord actor i r vs \<Rightarrow> snd (update_record (ce_nm e) (ce_stamp e) actor i r vs st)
      | CallChangeLinks actor i l inps \<Rightarrow> snd (change_links (ce_stamp e) actor i l inps st)
      | CallPreview actor i k ids \<Rightarrow> snd (preview_delete (ce_rnd e) (ce_now e) actor i k ids st)
      | CallExecute actor i token \<Rightarrow> snd (execute_delete (ce_stamp e) (ce_now e) actor i token st))"

inductive ds_step :: "'f numbers \<Rightarrow> 'f ds_store \<Rightarrow> 'f ds_store \<Rightarrow> bool" for nm where
  "ce_nm e = nm \<Longrightarrow> ds_step nm st (run_call e c st)"

inductive ds_reachable :: "'f numbers \<Rightarrow> 'f ds_store \<Rightarrow> bool" for nm where
  start: "ds_reachable nm \<lparr>st_index = \<lparr>ix_spaces = [], ix_draws = 0\<rparr>, st_dbs = (\<lambda>_. empty_db), st_tokens = []\<rparr>"
| step: "ds_reachable nm st \<Longrightarrow> ds_step nm st st' \<Longrightarrow> ds_reachable nm st'"

end
