(* ===== verification/SpaceInv.thy ===== *)
theory SpaceInv
  imports SpaceSchemaProps SpaceStore
begin

text \<open>
  What holds of the database of a space besides its schema: relationships and the attributes that carry
  them agree, stored values have the type of their attribute and unique ones a single holder, every record
  has a name, and links join records of the right types within the cardinality of their relationship.
\<close>

section \<open>The invariants\<close>

definition ty_ids :: "'f space_db \<Rightarrow> string set" where
  "ty_ids db = ty_id ` set (db_types db)"

definition attr_rows :: "'f space_db \<Rightarrow> (string \<times> attribute) set" where
  "attr_rows db = {(ty_id t, a) | t a. t \<in> set (db_types db) \<and> a \<in> set (ty_attrs t)}"

definition source_ref :: "relationship \<Rightarrow> rel_ref" where
  "source_ref r = \<lparr>rr_id = re_id r, rr_target = re_target_type r, rr_card = re_card r, rr_inverse = re_inverse r\<rparr>"

definition target_ref :: "relationship \<Rightarrow> rel_ref" where
  "target_ref r = \<lparr>rr_id = re_id r, rr_target = re_source_type r, rr_card = flip_cardinality (re_card r),
                   rr_inverse = re_source_attr r\<rparr>"

definition source_side :: "relationship \<Rightarrow> string \<times> attribute \<Rightarrow> bool" where
  "source_side r p \<longleftrightarrow> re_source_type r = fst p \<and> re_source_attr r = at_id (snd p) \<and> at_rel (snd p) = Some (source_ref r)"

definition target_side :: "relationship \<Rightarrow> string \<times> attribute \<Rightarrow> bool" where
  "target_side r p \<longleftrightarrow> re_inverse r \<noteq> [] \<and> re_target_type r = fst p \<and> re_inverse r = at_id (snd p)
     \<and> at_rel (snd p) = Some (target_ref r)"

definition rel_fits :: "'f space_db \<Rightarrow> relationship \<Rightarrow> bool" where
  "rel_fits db r \<longleftrightarrow>
     re_source_type r \<noteq> re_target_type r \<and> re_source_attr r \<noteq> [] \<and> re_target_type r \<in> ty_ids db
     \<and> (\<exists>p\<in>attr_rows db. source_side r p)
     \<and> (re_inverse r \<noteq> [] \<longrightarrow> (\<exists>p\<in>attr_rows db. target_side r p))"

definition rels_ok :: "'f space_db \<Rightarrow> bool" where
  "rels_ok db \<longleftrightarrow>
     distinct (map re_id (db_rels db)) \<and> (\<forall>r\<in>set (db_rels db). rel_fits db r)
     \<and> (\<forall>p\<in>attr_rows db. at_rel (snd p) \<noteq> None \<longrightarrow>
          (\<exists>r\<in>set (db_rels db). source_side r p \<or> target_side r p))"

definition value_fits :: "'f numbers \<Rightarrow> 'f space_db \<Rightarrow> 'f value_row \<Rightarrow> bool" where
  "value_fits nm db v \<longleftrightarrow>
     (\<exists>r\<in>set (db_records db). \<exists>a. rw_id r = vr_record v \<and> (rw_type r, a) \<in> attr_rows db \<and> at_id a = vr_attr v
        \<and> at_slug a = vr_slug v \<and> value_type nm a (vr_value v)
        \<and> vr_key v = (if at_unique a then Some (unique_key nm (vr_value v)) else None))"

definition keys_unique :: "'f space_db \<Rightarrow> bool" where
  "keys_unique db \<longleftrightarrow>
     (\<forall>v\<in>set (db_values db). \<forall>w\<in>set (db_values db).
        vr_attr v = vr_attr w \<longrightarrow> vr_key v \<noteq> None \<longrightarrow> vr_key v = vr_key w \<longrightarrow> vr_record v = vr_record w)"

definition records_named :: "'f space_db \<Rightarrow> bool" where
  "records_named db \<longleftrightarrow>
     (\<forall>r\<in>set (db_records db). \<forall>a. (rw_type r, a) \<in> attr_rows db \<longrightarrow> at_primary a \<longrightarrow>
        (\<exists>v\<in>set (db_values db). vr_record v = rw_id r \<and> vr_attr v = at_id a))"

definition value_slot :: "'f value_row \<Rightarrow> string \<times> string" where
  "value_slot v = (vr_record v, vr_attr v)"

definition records_ok :: "'f numbers \<Rightarrow> 'f space_db \<Rightarrow> bool" where
  "records_ok nm db \<longleftrightarrow>
     distinct (map rw_id (db_records db)) \<and> (\<forall>r\<in>set (db_records db). rw_type r \<in> ty_ids db)
     \<and> distinct (map value_slot (db_values db)) \<and> (\<forall>v\<in>set (db_values db). value_fits nm db v)
     \<and> keys_unique db \<and> records_named db"

definition link_fits :: "'f space_db \<Rightarrow> link_row \<Rightarrow> bool" where
  "link_fits db l \<longleftrightarrow>
     (\<exists>r\<in>set (db_rels db). re_id r = lk_rel l
        \<and> (\<exists>s\<in>set (db_records db). rw_id s = lk_source l \<and> rw_type s = re_source_type r)
        \<and> (\<exists>g\<in>set (db_records db). rw_id g = lk_target l \<and> rw_type g = re_target_type r))"

definition cardinality_ok :: "'f space_db \<Rightarrow> bool" where
  "cardinality_ok db \<longleftrightarrow>
     (\<forall>r\<in>set (db_rels db). \<forall>k\<in>set (db_links db). \<forall>l\<in>set (db_links db).
        lk_rel k = re_id r \<longrightarrow> lk_rel l = re_id r \<longrightarrow>
        (source_holds_one (re_card r) \<and> lk_source k = lk_source l)
          \<or> (target_holds_one (re_card r) \<and> lk_target k = lk_target l) \<longrightarrow> k = l)"

definition links_ok :: "'f space_db \<Rightarrow> bool" where
  "links_ok db \<longleftrightarrow> distinct (db_links db) \<and> (\<forall>l\<in>set (db_links db). link_fits db l) \<and> cardinality_ok db"

definition space_ok :: "'f numbers \<Rightarrow> 'f space_db \<Rightarrow> bool" where
  "space_ok nm db \<longleftrightarrow> db_ok db \<and> rels_ok db \<and> records_ok nm db \<and> links_ok db"

lemmas inv_defs = rels_ok_def rel_fits_def records_ok_def value_fits_def keys_unique_def records_named_def
  links_ok_def link_fits_def cardinality_ok_def

lemma db_ok_empty: "db_ok empty_db"
  by (simp add: db_ok_def empty_db_def all_attrs_def option_ids_def)

lemma space_ok_empty: "space_ok nm empty_db"
  using db_ok_empty by (simp add: space_ok_def inv_defs empty_db_def attr_rows_def)

lemma draws_rows [simp]: "attr_rows (db\<lparr>db_draws := n\<rparr>) = attr_rows db" "ty_ids (db\<lparr>db_draws := n\<rparr>) = ty_ids db"
  by (simp_all add: attr_rows_def ty_ids_def)

lemma space_ok_draws [simp]: "space_ok nm (db\<lparr>db_draws := n\<rparr>) = space_ok nm db"
  by (simp add: space_ok_def inv_defs)

definition keeps :: "('f space_db \<Rightarrow> bool) \<Rightarrow> ('f space_db \<Rightarrow> (ds_error + 'a) \<times> 'f space_db) \<Rightarrow> bool" where
  "keeps I f \<longleftrightarrow> (\<forall>db x db'. I db \<longrightarrow> f db = (Inr x, db') \<longrightarrow> I db')"

lemma keepsD: "keeps I f \<Longrightarrow> I db \<Longrightarrow> f db = (Inr x, db') \<Longrightarrow> I db'"
  by (auto simp: keeps_def)

section \<open>Growing a schema\<close>

text \<open>The attribute has become \<open>b\<close>: nothing a stored value depends on is lost.\<close>

definition attr_grows :: "attribute \<Rightarrow> attribute \<Rightarrow> bool" where
  "attr_grows a b \<longleftrightarrow>
     at_id b = at_id a \<and> at_slug b = at_slug a \<and> at_type b = at_type a \<and> at_multi b = at_multi a
     \<and> at_unique b = at_unique a \<and> at_primary b = at_primary a
     \<and> op_id ` set (at_options a) \<subseteq> op_id ` set (at_options b)"

definition grows :: "'f space_db \<Rightarrow> 'f space_db \<Rightarrow> bool" where
  "grows db db' \<longleftrightarrow>
     db_records db' = db_records db \<and> db_values db' = db_values db \<and> db_links db' = db_links db
     \<and> ty_ids db \<subseteq> ty_ids db' \<and> set (db_rels db) \<subseteq> set (db_rels db')
     \<and> (\<forall>t a. (t, a) \<in> attr_rows db \<longrightarrow> (\<exists>b. (t, b) \<in> attr_rows db' \<and> attr_grows a b))
     \<and> (\<forall>t b. (t, b) \<in> attr_rows db' \<longrightarrow> t \<in> ty_ids db \<longrightarrow> at_primary b \<longrightarrow>
          (\<exists>a. (t, a) \<in> attr_rows db \<and> at_id a = at_id b \<and> at_primary a))"

lemma grows_row: "grows db db' \<Longrightarrow> (t, a) \<in> attr_rows db \<Longrightarrow> \<exists>b. (t, b) \<in> attr_rows db' \<and> attr_grows a b"
  unfolding grows_def by blast

lemma grows_primary:
  "grows db db' \<Longrightarrow> (t, b) \<in> attr_rows db' \<Longrightarrow> t \<in> ty_ids db \<Longrightarrow> at_primary b \<Longrightarrow>
     \<exists>a. (t, a) \<in> attr_rows db \<and> at_id a = at_id b \<and> at_primary a"
  unfolding grows_def by blast

lemma grows_same:
  assumes "grows db db'"
  shows "db_records db' = db_records db" "db_values db' = db_values db" "db_links db' = db_links db"
    "ty_ids db \<subseteq> ty_ids db'" "set (db_rels db) \<subseteq> set (db_rels db')"
  using assms unfolding grows_def by blast+

lemma attr_grows_refl [simp]: "attr_grows a a"
  by (simp add: attr_grows_def)

lemma attr_grows_trans: "attr_grows a b \<Longrightarrow> attr_grows b c \<Longrightarrow> attr_grows a c"
  by (auto simp: attr_grows_def)

lemma grows_refl: "grows db db"
  unfolding grows_def using attr_grows_refl by blast

lemma grows_trans:
  assumes "grows a b" "grows b c"
  shows "grows a c"
proof -
  have "\<exists>z. (t, z) \<in> attr_rows c \<and> attr_grows x z" if x: "(t, x) \<in> attr_rows a" for t x
  proof -
    obtain y where y: "(t, y) \<in> attr_rows b" "attr_grows x y" using grows_row [OF assms(1) x] by blast
    obtain z where "(t, z) \<in> attr_rows c" "attr_grows y z" using grows_row [OF assms(2) y(1)] by blast
    then show ?thesis using attr_grows_trans [OF y(2)] by blast
  qed
  moreover have "\<exists>x. (t, x) \<in> attr_rows a \<and> at_id x = at_id z \<and> at_primary x"
    if z: "(t, z) \<in> attr_rows c" "t \<in> ty_ids a" "at_primary z" for t z
  proof -
    have "t \<in> ty_ids b" using grows_same(4) [OF assms(1)] z(2) by blast
    then obtain y where y: "(t, y) \<in> attr_rows b" "at_id y = at_id z" "at_primary y"
      using grows_primary [OF assms(2) z(1) _ z(3)] by blast
    then obtain x where "(t, x) \<in> attr_rows a" "at_id x = at_id y" "at_primary x"
      using grows_primary [OF assms(1) y(1) z(2) y(3)] by blast
    then show ?thesis using y by auto
  qed
  moreover have "ty_ids a \<subseteq> ty_ids c" "set (db_rels a) \<subseteq> set (db_rels c)" using assms by (auto simp: grows_def)
  ultimately show ?thesis using assms unfolding grows_def by simp
qed

lemma scalar_type_grows:
  assumes "attr_grows a b" "scalar_type nm a v"
  shows "scalar_type nm b v"
proof -
  have t: "at_type b = at_type a" and o: "op_id ` set (at_options a) \<subseteq> op_id ` set (at_options b)"
    using assms(1) by (simp_all add: attr_grows_def)
  show ?thesis using assms(2) o
    unfolding scalar_type_def t by (cases "at_type a"; cases v) auto
qed

lemma value_type_grows:
  assumes g: "attr_grows a b" and v: "value_type nm a v"
  shows "value_type nm b v"
proof (cases "at_multi a")
  case True
  have t: "at_type b = at_type a" "at_multi b" using g True by (simp_all add: attr_grows_def)
  have k: "many_key b = many_key a" using t by (simp add: many_key_def fun_eq_iff)
  obtain xs where "v = VMany xs" "xs \<noteq> []" "distinct (map (many_key a) xs)"
    "\<forall>x\<in>set xs. \<exists>w. scalar_type nm a w \<and> value_string nm w = x"
    using v True by (auto simp: value_type_def split: val.splits)
  moreover have "\<forall>x\<in>set xs. \<exists>w. scalar_type nm b w \<and> value_string nm w = x"
    using calculation(4) scalar_type_grows [OF g] by blast
  ultimately show ?thesis using t k by (simp add: value_type_def)
next
  case False
  then show ?thesis using g v scalar_type_grows [OF g] by (simp add: value_type_def attr_grows_def)
qed

lemma grows_records_ok:
  assumes g: "grows db db'" and r: "records_ok nm db"
  shows "records_ok nm db'"
proof -
  have s: "db_records db' = db_records db" "db_values db' = db_values db" "ty_ids db \<subseteq> ty_ids db'"
    using grows_same [OF g] by simp_all
  have "value_fits nm db' v" if "v \<in> set (db_values db)" for v
  proof -
    obtain r a where ra: "r \<in> set (db_records db)" "rw_id r = vr_record v" "(rw_type r, a) \<in> attr_rows db"
      "at_id a = vr_attr v" "at_slug a = vr_slug v" "value_type nm a (vr_value v)"
      "vr_key v = (if at_unique a then Some (unique_key nm (vr_value v)) else None)"
      using r \<open>v \<in> set (db_values db)\<close> by (auto simp: records_ok_def value_fits_def)
    obtain b where b: "(rw_type r, b) \<in> attr_rows db'" "attr_grows a b" using grows_row [OF g ra(3)] by blast
    have "at_id b = vr_attr v" "at_slug b = vr_slug v" "at_unique b = at_unique a"
      using b(2) ra by (simp_all add: attr_grows_def)
    then show ?thesis unfolding value_fits_def s
      using ra(1,2,7) b(1) value_type_grows [OF b(2) ra(6)] by (intro bexI [of _ r] exI [of _ b]) auto
  qed
  moreover have "records_named db'"
    unfolding records_named_def s
  proof (intro ballI allI impI)
    fix w b
    assume w: "w \<in> set (db_records db)" "(rw_type w, b) \<in> attr_rows db'" "at_primary b"
    have "rw_type w \<in> ty_ids db" using r w(1) by (auto simp: records_ok_def)
    then obtain a where a: "(rw_type w, a) \<in> attr_rows db" "at_id a = at_id b" "at_primary a"
      using grows_primary [OF g w(2) _ w(3)] by blast
    have "records_named db" using r by (simp add: records_ok_def)
    then have "\<exists>v\<in>set (db_values db). vr_record v = rw_id w \<and> vr_attr v = at_id a"
      using w(1) a(1,3) unfolding records_named_def by blast
    then show "\<exists>v\<in>set (db_values db). vr_record v = rw_id w \<and> vr_attr v = at_id b" using a(2) by simp
  qed
  ultimately show ?thesis using r s by (auto simp: records_ok_def keys_unique_def)
qed

text \<open>A relationship keeps its row, so the links keep theirs.\<close>

lemma grows_links_ok:
  assumes g: "grows db db'" and l: "links_ok db" and d: "distinct (map re_id (db_rels db'))"
  shows "links_ok db'"
proof -
  note s = grows_same [OF g]
  have "link_fits db' k" if "k \<in> set (db_links db)" for k
  proof -
    have "link_fits db k" using l that by (simp add: links_ok_def)
    then show ?thesis using s(1,5) unfolding link_fits_def by (simp, blast)
  qed
  moreover have "cardinality_ok db'"
    unfolding cardinality_ok_def s
  proof (intro ballI impI)
    fix r k m
    assume r: "r \<in> set (db_rels db')" and km: "k \<in> set (db_links db)" "m \<in> set (db_links db)"
      and e: "lk_rel k = re_id r" "lk_rel m = re_id r"
      and c: "(source_holds_one (re_card r) \<and> lk_source k = lk_source m)
        \<or> (target_holds_one (re_card r) \<and> lk_target k = lk_target m)"
    have "link_fits db k" using l km(1) by (simp add: links_ok_def)
    then obtain q where q: "q \<in> set (db_rels db)" "re_id q = lk_rel k" unfolding link_fits_def by blast
    have "q \<in> set (db_rels db')" using q(1) s(5) by blast
    then have "q = r" using d r q(2) e(1) by (auto simp: distinct_map dest: inj_onD)
    moreover have "cardinality_ok db" using l by (simp add: links_ok_def)
    ultimately show "k = m" using km e c q(1) unfolding cardinality_ok_def by blast
  qed
  ultimately show ?thesis using l s by (simp add: links_ok_def)
qed

lemma grows_space_ok:
  "grows db db' \<Longrightarrow> space_ok nm db \<Longrightarrow> db_ok db' \<Longrightarrow> rels_ok db' \<Longrightarrow> space_ok nm db'"
  using grows_records_ok grows_links_ok by (auto simp: space_ok_def rels_ok_def)

section \<open>The rows an operation leaves\<close>

lemma attr_rows_split:
  assumes s: "db_types db = ys @ t # zs"
  shows "attr_rows db = attr_rows (db\<lparr>db_types := ys @ zs\<rparr>) \<union> Pair (ty_id t) ` set (ty_attrs t)"
  by (auto simp: attr_rows_def s)

lemma attr_rows_set_type:
  assumes d: "distinct (map ty_id (db_types db))" and t: "type_by_id db tid = Some t" and f: "ty_id (f t) = ty_id t"
  shows "attr_rows (set_type tid f db) = {p \<in> attr_rows db. fst p \<noteq> tid} \<union> Pair tid ` set (ty_attrs (f t))"
    and "{p \<in> attr_rows db. fst p = tid} = Pair tid ` set (ty_attrs t)"
    and "ty_ids (set_type tid f db) = ty_ids db"
proof -
  obtain ys zs where s: "db_types db = ys @ t # zs" and id: "ty_id t = tid"
    and m: "map_first (\<lambda>t. ty_id t = tid) f (db_types db) = ys @ f t # zs"
    using t unfolding type_by_id_def by (rule find_split) blast
  have o: "ty_id u \<noteq> tid" if "u \<in> set ys \<union> set zs" for u
    using d that id unfolding s distinct_map_mid by auto
  have n: "db_types (set_type tid f db) = ys @ f t # zs" using m by (simp add: set_type_def)
  let ?r = "attr_rows (db\<lparr>db_types := ys @ zs\<rparr>)"
  have r: "\<forall>p\<in>?r. fst p \<noteq> tid" using o by (auto simp: attr_rows_def)
  have a: "attr_rows db = ?r \<union> Pair tid ` set (ty_attrs t)" using attr_rows_split [OF s] id by simp
  have b: "attr_rows (set_type tid f db) = ?r \<union> Pair tid ` set (ty_attrs (f t))"
    using attr_rows_split [OF n] id f by (simp add: attr_rows_def)
  show "attr_rows (set_type tid f db) = {p \<in> attr_rows db. fst p \<noteq> tid} \<union> Pair tid ` set (ty_attrs (f t))"
    and "{p \<in> attr_rows db. fst p = tid} = Pair tid ` set (ty_attrs t)"
    unfolding a b using r by auto
  show "ty_ids (set_type tid f db) = ty_ids db" using f by (auto simp: ty_ids_def n s)
qed

lemma attr_rows_of: "db_ok db \<Longrightarrow> type_by_id db tid = Some t \<Longrightarrow> (tid, a) \<in> attr_rows db \<longleftrightarrow> a \<in> set (ty_attrs t)"
  using attr_rows_set_type(2) [of db tid t id] by (auto simp: db_ok_ids)

lemma attr_rows_ids: "at_id ` set (all_attrs db) = (at_id \<circ> snd) ` attr_rows db"
  by (force simp: all_attrs_def attr_rows_def)

lemma attr_rows_inj:
  assumes ok: "db_ok db" and p: "p \<in> attr_rows db" "q \<in> attr_rows db" and e: "at_id (snd p) = at_id (snd q)"
  shows "p = q"
proof -
  obtain t a u b where pq: "p = (ty_id t, a)" "q = (ty_id u, b)" "t \<in> set (db_types db)" "u \<in> set (db_types db)"
    "a \<in> set (ty_attrs t)" "b \<in> set (ty_attrs u)" using p by (auto simp: attr_rows_def)
  obtain xs ys where s: "db_types db = xs @ t # ys" using pq(3) by (meson split_list)
  have d: "distinct (map at_id (all_attrs db))" using ok by (simp add: db_ok_def)
  have ab: "a = b"
  proof -
    have "a \<in> set (all_attrs db)" "b \<in> set (all_attrs db)" using pq by (auto simp: all_attrs_def)
    then show ?thesis using d e pq by (auto simp: distinct_map dest: inj_onD)
  qed
  have "u = t"
  proof (rule ccontr)
    assume "u \<noteq> t"
    then have "u \<in> set xs \<union> set ys" using pq(4) s by auto
    then show False using d pq(5,6) ab unfolding all_attrs_append [OF s] by fastforce
  qed
  then show ?thesis using pq ab by simp
qed

lemma insert_attribute_rows:
  assumes ok: "db_ok db" and r: "insert_attribute tid a pos db = (Inr b, db')"
  shows "attr_rows db' = insert (tid, a\<lparr>at_position := pos\<rparr>) (attr_rows db)" "ty_ids db' = ty_ids db"
    "db_rels db' = db_rels db" "db_records db' = db_records db" "db_values db' = db_values db"
    "db_links db' = db_links db" "tid \<in> ty_ids db" "at_id a \<notin> (at_id \<circ> snd) ` attr_rows db"
proof -
  let ?f = "\<lambda>t. t\<lparr>ty_attrs := ty_attrs t @ [a\<lparr>at_position := pos\<rparr>]\<rparr>"
  obtain t where t: "type_by_id db tid = Some t" using r by (auto simp: insert_attribute_def split: option.splits)
  then have db': "db' = set_type tid ?f db" and n: "at_id a \<notin> at_id ` set (all_attrs db)"
    using r by (auto simp: insert_attribute_def split: if_splits)
  note e = attr_rows_set_type [OF db_ok_ids [OF ok] t, of ?f]
  show "attr_rows db' = insert (tid, a\<lparr>at_position := pos\<rparr>) (attr_rows db)"
    using e(1,2) db' by auto
  show "ty_ids db' = ty_ids db" using e(3) db' by simp
  show "db_rels db' = db_rels db" "db_records db' = db_records db" "db_values db' = db_values db"
    "db_links db' = db_links db" by (simp_all add: db' set_type_def)
  show "tid \<in> ty_ids db" using t by (auto simp: type_by_id_def ty_ids_def dest: find_SomeD)
  show "at_id a \<notin> (at_id \<circ> snd) ` attr_rows db" using n by (simp add: attr_rows_ids)
qed

definition same_side :: "string \<times> attribute \<Rightarrow> string \<times> attribute \<Rightarrow> bool" where
  "same_side p q \<longleftrightarrow> fst q = fst p \<and> at_id (snd q) = at_id (snd p) \<and> at_rel (snd q) = at_rel (snd p)"

lemma side_transfer:
  "same_side p q \<Longrightarrow> source_side r q = source_side r p"
  "same_side p q \<Longrightarrow> target_side r q = target_side r p"
  by (simp_all add: same_side_def source_side_def target_side_def)

lemma rel_fits_transfer:
  assumes "rel_fits db r" "ty_ids db \<subseteq> ty_ids db'" "\<And>p. p \<in> attr_rows db \<Longrightarrow> \<exists>q\<in>attr_rows db'. same_side p q"
  shows "rel_fits db' r"
proof -
  obtain p where p: "p \<in> attr_rows db" "source_side r p" using assms(1) by (auto simp: rel_fits_def)
  obtain q where q: "q \<in> attr_rows db'" "same_side p q" using assms(3) [OF p(1)] by blast
  have "\<exists>q\<in>attr_rows db'. target_side r q" if i: "re_inverse r \<noteq> []"
  proof -
    obtain p where p: "p \<in> attr_rows db" "target_side r p" using assms(1) i unfolding rel_fits_def by blast
    obtain q where q: "q \<in> attr_rows db'" "same_side p q" using assms(3) [OF p(1)] by blast
    then show ?thesis using p(2) side_transfer(2) by blast
  qed
  moreover have "source_side r q" using q(2) p(2) side_transfer(1) by blast
  ultimately show ?thesis using q(1) assms(1,2) by (auto simp: rel_fits_def)
qed

lemma rels_ok_transfer:
  assumes ok: "rels_ok db" and r: "db_rels db' = db_rels db" and t: "ty_ids db \<subseteq> ty_ids db'"
    and p: "\<And>p. p \<in> attr_rows db \<Longrightarrow> \<exists>q\<in>attr_rows db'. same_side p q"
    and q: "\<And>q. q \<in> attr_rows db' \<Longrightarrow> at_rel (snd q) \<noteq> None \<Longrightarrow> \<exists>p\<in>attr_rows db. same_side p q"
  shows "rels_ok db'"
  unfolding rels_ok_def r
proof (intro conjI ballI impI)
  show "distinct (map re_id (db_rels db))" using ok by (simp add: rels_ok_def)
  fix x assume "x \<in> set (db_rels db)"
  then show "rel_fits db' x" using rel_fits_transfer [OF _ t p] ok by (auto simp: rels_ok_def)
next
  fix b assume b: "b \<in> attr_rows db'" "at_rel (snd b) \<noteq> None"
  obtain a where a: "a \<in> attr_rows db" "same_side a b" using q [OF b] by blast
  then have "at_rel (snd a) \<noteq> None" using b(2) by (simp add: same_side_def)
  then obtain x where "x \<in> set (db_rels db)" "source_side x a \<or> target_side x a"
    using ok a(1) unfolding rels_ok_def by blast
  then show "\<exists>x\<in>set (db_rels db). source_side x b \<or> target_side x b" using side_transfer [OF a(2)] by blast
qed

lemma same_side_refl [simp]: "same_side p p"
  by (simp add: same_side_def)

lemma insert_attribute_grows:
  assumes ok: "db_ok db" and r: "insert_attribute tid a pos db = (Inr b, db')" and a: "\<not> at_primary a"
  shows "grows db db'"
proof -
  note e = insert_attribute_rows [OF ok r]
  show ?thesis unfolding grows_def e using a attr_grows_refl by auto
qed

lemma insert_plain_rels_ok:
  assumes ok: "db_ok db" "rels_ok db" and r: "insert_attribute tid a pos db = (Inr b, db')" and a: "at_rel a = None"
  shows "rels_ok db'"
proof -
  note e = insert_attribute_rows [OF ok(1) r]
  show ?thesis
  proof (rule rels_ok_transfer [OF ok(2) e(3)])
    show "\<exists>q\<in>attr_rows db'. same_side p q" if "p \<in> attr_rows db" for p
      using that e(1) by (auto intro!: bexI [of _ p])
    show "\<exists>p\<in>attr_rows db. same_side p q" if "q \<in> attr_rows db'" "at_rel (snd q) \<noteq> None" for q
      using that a e(1) by (auto intro!: bexI [of _ q])
  qed (simp add: e(2))
qed

text \<open>The rows of a new relationship: one or two attributes that refer to it.\<close>

lemma write_relationship_rows:
  assumes ok: "db_ok db" and r: "write_relationship t target rel owning mirrored db = (Inr a, db')"
    and t: "type_by_id db (ty_id t) = Some t" "type_by_id db (ty_id target) = Some target" "ty_id t \<noteq> ty_id target"
    and room: "length (ty_attrs t) < 100" "mirrored \<noteq> None \<Longrightarrow> length (ty_attrs target) < 100"
    and a: "attr_ok owning" "\<not> at_primary owning" "\<And>m. mirrored = Some m \<Longrightarrow> attr_ok m \<and> \<not> at_primary m"
  shows "\<exists>p q. attr_rows db' = attr_rows db \<union> {(ty_id t, owning\<lparr>at_position := p\<rparr>)}
        \<union> (case mirrored of None \<Rightarrow> {} | Some m \<Rightarrow> {(ty_id target, m\<lparr>at_position := q\<rparr>)})
      \<and> db_rels db' = db_rels db @ [rel] \<and> re_id rel \<notin> re_id ` set (db_rels db) \<and> ty_ids db' = ty_ids db \<and> grows db db'"
proof -
  obtain u db1 where i: "insert_relationship rel db = (Inr u, db1)"
    using r by (cases "insert_relationship rel db") (auto simp: write_relationship_def split: sum.splits)
  then have db1: "db1 = db\<lparr>db_rels := db_rels db @ [rel]\<rparr>" and n: "re_id rel \<notin> re_id ` set (db_rels db)"
    by (auto simp: insert_relationship_def split: if_splits)
  have ok1: "db_ok db1" and same: "\<And>i. type_by_id db1 i = type_by_id db i" and rows1: "attr_rows db1 = attr_rows db"
    and ids1: "ty_ids db1 = ty_ids db"
    using ok by (simp_all add: db1 type_by_id_def attr_rows_def ty_ids_def)
  have g1: "grows db db1" unfolding grows_def rows1 ids1 using attr_grows_refl by (auto simp: db1)
  let ?p = "length (ty_attrs t)" and ?q = "length (ty_attrs target)"
  obtain b db2 where o: "insert_attribute (ty_id t) owning ?p db1 = (Inr b, db2)"
    using r i by (cases "insert_attribute (ty_id t) owning ?p db1")
      (auto simp: write_relationship_def split: sum.splits)
  note e = insert_attribute_rows [OF ok1 o]
  have ok2: "db_ok db2" by (rule insert_attribute_ok [OF ok1 o a(1,2)]) (use same t(1) room(1) in auto)
  have g2: "grows db db2" using grows_trans [OF g1 insert_attribute_grows [OF ok1 o a(2)]] .
  show ?thesis
  proof (cases mirrored)
    case None
    then have "db' = db2" using r i o by (simp add: write_relationship_def)
    then show ?thesis using None e rows1 ids1 g2 n by (intro exI [of _ ?p]) (auto simp: db1)
  next
    case (Some m)
    then obtain c where m: "insert_attribute (ty_id target) m ?q db2 = (Inr c, db')"
      using r i o by (cases "insert_attribute (ty_id target) m ?q db2")
        (auto simp: write_relationship_def split: sum.splits)
    note f = insert_attribute_rows [OF ok2 m]
    have g: "grows db db'" using grows_trans [OF g2 insert_attribute_grows [OF ok2 m]] a(3) [OF Some] by simp
    have "attr_rows db' = attr_rows db \<union> {(ty_id t, owning\<lparr>at_position := ?p\<rparr>)}
        \<union> {(ty_id target, m\<lparr>at_position := ?q\<rparr>)}"
      unfolding f(1) e(1) rows1 by blast
    moreover have "db_rels db' = db_rels db @ [rel]" "ty_ids db' = ty_ids db"
      unfolding f(2,3) e(2,3) ids1 by (simp_all add: db1)
    ultimately show ?thesis unfolding Some option.case using g n by blast
  qed
qed

lemma write_relationship_rels_ok:
  assumes ok: "db_ok db" "rels_ok db" and r: "write_relationship t target rel owning mirrored db = (Inr a, db')"
    and t: "type_by_id db (ty_id t) = Some t" "type_by_id db (ty_id target) = Some target" "ty_id t \<noteq> ty_id target"
    and room: "length (ty_attrs t) < 100" "mirrored \<noteq> None \<Longrightarrow> length (ty_attrs target) < 100"
    and a: "attr_ok owning" "\<not> at_primary owning" "\<And>m. mirrored = Some m \<Longrightarrow> attr_ok m \<and> \<not> at_primary m"
    and rel: "source_side rel (ty_id t, owning)" "at_id owning \<noteq> []" "re_target_type rel = ty_id target"
      "\<And>m. mirrored = Some m \<Longrightarrow> target_side rel (ty_id target, m)" "mirrored = None \<Longrightarrow> re_inverse rel = []"
  shows "rels_ok db' \<and> grows db db'"
proof -
  obtain p q where rows: "attr_rows db' = attr_rows db \<union> {(ty_id t, owning\<lparr>at_position := p\<rparr>)}
        \<union> (case mirrored of None \<Rightarrow> {} | Some m \<Rightarrow> {(ty_id target, m\<lparr>at_position := q\<rparr>)})"
    and rels: "db_rels db' = db_rels db @ [rel]" and n: "re_id rel \<notin> re_id ` set (db_rels db)"
    and ids: "ty_ids db' = ty_ids db" and g: "grows db db'"
    using write_relationship_rows [OF ok(1) r t room a] by blast
  have old: "rel_fits db' x" if "x \<in> set (db_rels db)" for x
  proof (rule rel_fits_transfer [of db])
    show "rel_fits db x" using ok(2) that by (simp add: rels_ok_def)
    show "\<exists>q\<in>attr_rows db'. same_side p q" if "p \<in> attr_rows db" for p
      using that unfolding rows by (intro bexI [of _ p]) auto
  qed (simp add: ids)
  have s: "source_side rel (ty_id t, owning\<lparr>at_position := p\<rparr>)" using rel(1) by (simp add: source_side_def)
  have m: "target_side rel (ty_id target, x\<lparr>at_position := q\<rparr>)" if "mirrored = Some x" for x
    using rel(4) [OF that] by (auto simp: target_side_def)
  have tg: "ty_id target \<in> ty_ids db'"
    using t(2) unfolding ids by (auto simp: type_by_id_def ty_ids_def dest: find_SomeD)
  have "rel_fits db' rel"
    unfolding rel_fits_def
  proof (intro conjI impI)
    show "re_source_type rel \<noteq> re_target_type rel" "re_source_attr rel \<noteq> []" "re_target_type rel \<in> ty_ids db'"
      using rel(1-3) t(3) tg by (simp_all add: source_side_def)
    show "\<exists>p\<in>attr_rows db'. source_side rel p" using s unfolding rows by blast
    show "\<exists>p\<in>attr_rows db'. target_side rel p" if "re_inverse rel \<noteq> []"
      using that rel(5) m unfolding rows by (cases mirrored) auto
  qed
  moreover have "\<exists>x\<in>set (db_rels db'). source_side x z \<or> target_side x z"
    if "z \<in> attr_rows db'" "at_rel (snd z) \<noteq> None" for z
  proof (cases "z \<in> attr_rows db")
    case True
    then show ?thesis using ok(2) that(2) unfolding rels_ok_def rels by auto
  next
    case False
    then have "source_side rel z \<or> target_side rel z"
      using that(1) s m unfolding rows by (cases mirrored) auto
    then show ?thesis unfolding rels by auto
  qed
  ultimately show ?thesis using ok(2) old n g unfolding rels_ok_def rels by auto
qed

section \<open>Schema operations\<close>

definition schema_step :: "('f space_db \<Rightarrow> (ds_error + 'a) \<times> 'f space_db) \<Rightarrow> bool" where
  "schema_step f \<longleftrightarrow>
     (\<forall>db x db'. db_ok db \<longrightarrow> rels_ok db \<longrightarrow> f db = (Inr x, db') \<longrightarrow> db_ok db' \<and> rels_ok db' \<and> grows db db')"

lemma schema_stepD:
  "schema_step f \<Longrightarrow> db_ok db \<Longrightarrow> rels_ok db \<Longrightarrow> f db = (Inr x, db') \<Longrightarrow> db_ok db' \<and> rels_ok db' \<and> grows db db'"
  unfolding schema_step_def by blast

lemma schema_step_keeps: "schema_step f \<Longrightarrow> keeps (space_ok nm) f"
  unfolding keeps_def
proof (intro allI impI)
  fix db x db'
  assume f: "schema_step f" "space_ok nm db" "f db = (Inr x, db')"
  then have "db_ok db' \<and> rels_ok db' \<and> grows db db'"
    using schema_stepD [OF f(1) _ _ f(3)] by (simp add: space_ok_def)
  then show "space_ok nm db'" using grows_space_ok [of db db'] f(2) by simp
qed

lemma rels_ok_draws [simp]: "rels_ok (db\<lparr>db_draws := n\<rparr>) = rels_ok db"
  by (simp add: rels_ok_def rel_fits_def)

lemma grows_draws [simp]: "grows (db\<lparr>db_draws := n\<rparr>) db' = grows db db'" "grows db (db'\<lparr>db_draws := n\<rparr>) = grows db db'"
  by (simp_all add: grows_def)

lemma make_relationship_rels_ok:
  assumes ok: "db_ok db" "rels_ok db" and r: "make_relationship rnd actor t target inp rel name db = (Inr a, db')"
    and t: "type_by_id db (ty_id t) = Some t" "type_by_id db (ty_id target) = Some target" "ty_id t \<noteq> ty_id target"
    and room: "length (ty_attrs t) < 100"
  shows "rels_ok db' \<and> grows db db'"
proof (cases "trim_space (ri_inverse rel) = []")
  case True
  let ?db = "db\<lparr>db_draws := Suc (Suc (db_draws db))\<rparr>"
  let ?rid = "''rel_'' @ rnd (db_draws db)" and ?oid = "''attr_'' @ rnd (Suc (db_draws db))"
  let ?r = "\<lparr>re_id = ?rid, re_source_type = ty_id t, re_source_attr = ?oid, re_target_type = ty_id target,
      re_inverse = [], re_card = ri_card rel\<rparr>"
  let ?o = "link_attribute ?oid (base_slug t inp name) name (trim_space (ai_description inp)) actor
      \<lparr>rr_id = ?rid, rr_target = ty_id target, rr_card = ri_card rel, rr_inverse = []\<rparr>"
  have w: "write_relationship t target ?r ?o None ?db = (Inr a, db')"
    using r True by (simp add: make_relationship_def new_id_def Let_def)
  have d: "db_ok ?db" "rels_ok ?db" using ok by simp_all
  have "rels_ok db' \<and> grows ?db db'"
    by (rule write_relationship_rels_ok [OF d w])
      (use t room link_attribute_ok [of ?oid] in \<open>simp_all add: source_side_def source_ref_def link_attribute_def\<close>)
  then show ?thesis by simp
next
  case False
  then have room2: "length (ty_attrs target) < 100"
    using r by (auto simp: make_relationship_def new_id_def Let_def split: if_splits)
  let ?db = "db\<lparr>db_draws := Suc (Suc (Suc (db_draws db)))\<rparr>"
  let ?rid = "''rel_'' @ rnd (db_draws db)" and ?mid = "''attr_'' @ rnd (Suc (db_draws db))"
    and ?oid = "''attr_'' @ rnd (Suc (Suc (db_draws db)))" and ?inv = "trim_space (ri_inverse rel)"
  let ?r = "\<lparr>re_id = ?rid, re_source_type = ty_id t, re_source_attr = ?oid, re_target_type = ty_id target,
      re_inverse = ?mid, re_card = ri_card rel\<rparr>"
  let ?o = "link_attribute ?oid (base_slug t inp name) name (trim_space (ai_description inp)) actor
      \<lparr>rr_id = ?rid, rr_target = ty_id target, rr_card = ri_card rel, rr_inverse = ?mid\<rparr>"
  let ?m = "link_attribute ?mid (unique_slug (slugify ?inv ''field'') (slugs_taken target)) ?inv [] actor
      \<lparr>rr_id = ?rid, rr_target = ty_id t, rr_card = flip_cardinality (ri_card rel), rr_inverse = ?oid\<rparr>"
  have w: "write_relationship t target ?r ?o (Some ?m) ?db = (Inr a, db')"
    using r False by (auto simp: make_relationship_def new_id_def Let_def split: if_splits)
  have d: "db_ok ?db" "rels_ok ?db" using ok by simp_all
  have m: "attr_ok ?m \<and> \<not> at_primary ?m" by (rule link_attribute_ok)
  have k: "attr_ok ?o" "\<not> at_primary ?o" using link_attribute_ok by auto
  have sides: "source_side ?r (ty_id t, ?o)" "target_side ?r (ty_id target, ?m)" "at_id ?o \<noteq> []"
    by (simp_all add: source_side_def source_ref_def target_side_def target_ref_def link_attribute_def)
  have "rels_ok db' \<and> grows ?db db'"
    by (rule write_relationship_rels_ok [OF d w]) (use t room room2 m k sides in simp_all)
  then show ?thesis by simp
qed

lemma add_attribute_step: "schema_step (add_attribute rnd actor tid inp)"
  unfolding schema_step_def
proof (intro allI impI)
  fix db a db'
  assume ok: "db_ok db" "rels_ok db" and r: "add_attribute rnd actor tid inp db = (Inr a, db')"
  have ok': "db_ok db'" by (rule steps_okD [OF add_attribute_ok ok(1) r])
  obtain name where n: "clean_name (ai_name inp) = Inr name"
    using r by (cases "clean_name (ai_name inp)") (auto simp: add_attribute_def)
  obtain t where t: "type_by_id db tid = Some t"
    using r n by (cases "type_by_id db tid") (auto simp: add_attribute_def)
  have id: "ty_id t = tid" using type_ok_of [OF ok(1) t] by simp
  have c: "is_attribute_type (ai_type inp)" "length (ty_attrs t) < 100"
    using r n t by (auto simp: add_attribute_def split: if_splits)
  show "db_ok db' \<and> rels_ok db' \<and> grows db db'"
  proof (cases "ai_type inp = TRelationship")
    case True
    then have "add_relationship rnd actor t inp name db = (Inr a, db')"
      using r n t by (auto simp: add_attribute_def split: if_splits)
    then obtain rel target where m: "make_relationship rnd actor t target inp rel name db = (Inr a, db')"
      "resolve_type db (ri_target rel) = Some target" "ty_id target \<noteq> ty_id t"
      by (auto simp: add_relationship_def split: option.splits if_splits)
    have "rels_ok db' \<and> grows db db'"
      by (rule make_relationship_rels_ok [OF ok m(1)])
        (use t id m(3) c(2) resolve_type_found [OF m(2) db_ok_ids [OF ok(1)]] in auto)
    then show ?thesis using ok' by simp
  next
    case False
    then obtain b db1 where b: "build_value_attribute rnd actor t inp name db = (Inr b, db1)"
      "insert_attribute tid b (length (ty_attrs t)) db1 = (Inr a, db')"
      using r n t by (auto simp: add_attribute_def split: if_splits prod.splits sum.splits)
    then have k: "attr_ok b" "\<not> at_primary b" and "\<exists>n. db1 = db\<lparr>db_draws := n\<rparr>"
      using build_value_attribute_ok [OF b(1) c(1) False] by auto
    then obtain n where db1: "db1 = db\<lparr>db_draws := n\<rparr>" by blast
    have "at_rel b = None"
      using b(1) by (auto simp: build_value_attribute_def case_prod_beta Let_def split: if_splits sum.splits)
    then have "rels_ok db'" using insert_plain_rels_ok [OF _ _ b(2)] ok db1 by simp
    moreover have "grows db db'" using insert_attribute_grows [OF _ b(2) k(2)] ok(1) db1 by simp
    ultimately show ?thesis using ok' by simp
  qed
qed

lemma add_attributes_in_step:
  "schema_step (add_attributes_in rnd actor tid inps :: 'f space_db \<Rightarrow> (ds_error + unit) \<times> 'f space_db)"
proof (induction inps)
  case Nil
  then show ?case by (simp add: schema_step_def grows_refl)
next
  case (Cons inp inps)
  show ?case
    unfolding schema_step_def
  proof (intro allI impI)
    fix db x and db' :: "'f space_db"
    assume ok: "db_ok db" "rels_ok db" and r: "add_attributes_in rnd actor tid (inp # inps) db = (Inr x, db')"
    obtain q db1 where q: "add_attribute rnd actor tid inp db = (q, db1)" by fastforce
    then obtain a where a: "add_attribute rnd actor tid inp db = (Inr a, db1)"
      and rest: "add_attributes_in rnd actor tid inps db1 = (Inr x, db')" using r by (cases q) auto
    have 1: "db_ok db1 \<and> rels_ok db1 \<and> grows db db1" by (rule schema_stepD [OF add_attribute_step ok a])
    then have "db_ok db' \<and> rels_ok db' \<and> grows db1 db'" using schema_stepD [OF Cons.IH _ _ rest] by blast
    then show "db_ok db' \<and> rels_ok db' \<and> grows db db'" using 1 grows_trans by blast
  qed
qed

lemma attr_rows_union: "attr_rows db = (\<Union>t\<in>set (db_types db). Pair (ty_id t) ` set (ty_attrs t))"
  unfolding attr_rows_def by blast

lemma new_type_rows:
  assumes attrs: "ty_attrs t = []" and i: "insert_type t db = (Inr u, db1)"
    and p: "insert_attribute (ty_id t) (primary_attribute pid actor) 0 (db1\<lparr>db_draws := n\<rparr>) = (Inr b, db2)"
  shows "attr_rows db2 = insert (ty_id t, primary_attribute pid actor\<lparr>at_position := 0\<rparr>) (attr_rows db)"
    "ty_ids db2 = insert (ty_id t) (ty_ids db)" "ty_id t \<notin> ty_ids db" "db_rels db2 = db_rels db"
    "db_records db2 = db_records db" "db_values db2 = db_values db" "db_links db2 = db_links db"
proof -
  let ?p = "primary_attribute pid actor\<lparr>at_position := 0\<rparr>"
  have c: "ty_id t \<notin> ty_id ` set (db_types db)" and db1: "db1 = db\<lparr>db_types := db_types db @ [t]\<rparr>"
    using i by (auto simp: insert_type_def split: if_splits)
  have "\<not> (\<exists>u\<in>set (db_types db). ty_id u = ty_id t)" using c by (metis imageI)
  then have mf: "map_first (\<lambda>u. ty_id u = ty_id t) f (db_types db @ [t]) = db_types db @ [f t]" for f
    by (simp add: map_first_append)
  have t: "db_types db2 = db_types db @ [t\<lparr>ty_attrs := [?p]\<rparr>]"
    using p attrs by (auto simp: insert_attribute_def set_type_def db1 mf split: option.splits if_splits)
  show "attr_rows db2 = insert (ty_id t, ?p) (attr_rows db)" by (simp add: attr_rows_union t)
  show "ty_ids db2 = insert (ty_id t) (ty_ids db)" by (auto simp: ty_ids_def t)
  show "ty_id t \<notin> ty_ids db" using c by (simp add: ty_ids_def)
  show "db_rels db2 = db_rels db" "db_records db2 = db_records db" "db_values db2 = db_values db"
    "db_links db2 = db_links db"
    using p by (auto simp: insert_attribute_def set_type_def db1 split: option.splits if_splits)
qed

lemma new_type_grows:
  assumes ok: "rels_ok db" and n: "ty_attrs t = []" "insert_type t db = (Inr u, db1)"
    "insert_attribute (ty_id t) (primary_attribute pid actor) 0 (db1\<lparr>db_draws := n\<rparr>) = (Inr b, db2)"
  shows "rels_ok db2 \<and> grows db db2"
proof
  note e = new_type_rows [OF n]
  show "rels_ok db2"
  proof (rule rels_ok_transfer [OF ok e(4)])
    show "\<exists>q\<in>attr_rows db2. same_side p q" if "p \<in> attr_rows db" for p
      using that e(1) by (auto intro!: bexI [of _ p])
    show "\<exists>p\<in>attr_rows db. same_side p q" if "q \<in> attr_rows db2" "at_rel (snd q) \<noteq> None" for q
      using that e(1) by (auto intro!: bexI [of _ q] simp: primary_attribute_def)
  qed (simp add: e(2) subset_insertI)
  show "grows db db2"
    unfolding grows_def e using e(3) attr_grows_refl by auto
qed

lemma write_object_type_step:
  assumes ok: "db_ok db" "rels_ok db" and room: "length (db_types db) < 50" and attrs: "ty_attrs t = []"
    and r: "write_object_type rnd actor t inps db = (Inr t', db')"
  shows "db_ok db' \<and> rels_ok db' \<and> grows db db'"
proof -
  obtain q db1 where q: "insert_type t db = (q, db1)" by fastforce
  then obtain u where i: "insert_type t db = (Inr u, db1)" using r by (cases q) (auto simp: write_object_type_def)
  let ?pid = "fst (new_id rnd ''attr'' db1)" and ?db2 = "snd (new_id rnd ''attr'' db1)"
  obtain q2 db3 where q2: "insert_attribute (ty_id t) (primary_attribute ?pid actor) 0 ?db2 = (q2, db3)" by fastforce
  then obtain b where p: "insert_attribute (ty_id t) (primary_attribute ?pid actor) 0 ?db2 = (Inr b, db3)"
    using r i by (cases q2) (auto simp: write_object_type_def case_prod_beta)
  obtain q3 db4 where q3: "add_attributes_in rnd actor (ty_id t) inps db3 = (q3, db4)" by fastforce
  then obtain x where a: "add_attributes_in rnd actor (ty_id t) inps db3 = (Inr x, db')"
    using r i p by (cases q3) (auto simp: write_object_type_def case_prod_beta)
  have p': "insert_attribute (ty_id t) (primary_attribute ?pid actor) 0 (db1\<lparr>db_draws := Suc (db_draws db1)\<rparr>) = (Inr b, db3)"
    using p by (simp add: new_id_def)
  have 1: "db_ok db3" by (rule new_type_ok [OF ok(1) room attrs i p'])
  have 2: "rels_ok db3 \<and> grows db db3" by (rule new_type_grows [OF ok(2) attrs i p'])
  have "db_ok db' \<and> rels_ok db' \<and> grows db3 db'"
    using schema_stepD [OF add_attributes_in_step 1 _ a] 2 by blast
  then show ?thesis using 2 grows_trans by blast
qed

lemma create_object_type_step:
  "schema_step (create_object_type rnd actor stamp inp :: 'f space_db \<Rightarrow> (ds_error + obj_type) \<times> 'f space_db)"
  unfolding schema_step_def
proof (intro allI impI)
  fix db t' and db' :: "'f space_db"
  assume ok: "db_ok db" "rels_ok db" and r: "create_object_type rnd actor stamp inp db = (Inr t', db')"
  obtain name where n: "clean_name (ti_name inp) = Inr name"
    using r by (cases "clean_name (ti_name inp)") (auto simp: create_object_type_def)
  have room: "length (db_types db) < 50" using r n by (auto simp: create_object_type_def split: if_splits)
  let ?db = "db\<lparr>db_draws := Suc (db_draws db)\<rparr>"
  have w: "write_object_type rnd actor
      (new_type_row (fst (new_id rnd ''type'' db)) name actor stamp inp (db_types db)) (ti_attrs inp) ?db = (Inr t', db')"
    using r n by (auto simp: create_object_type_def case_prod_beta Let_def new_id_def split: if_splits)
  have d: "db_ok ?db" "rels_ok ?db" "length (db_types ?db) < 50" using ok room by simp_all
  have "db_ok db' \<and> rels_ok db' \<and> grows ?db db'"
    by (rule write_object_type_step [OF d _ w]) (simp add: new_type_row_def)
  then show "db_ok db' \<and> rels_ok db' \<and> grows db db'" by simp
qed

section \<open>Loading changes nothing\<close>

text \<open>Under the invariant the reference an attribute has in memory is the one the load computes.\<close>

lemma find_rel:
  assumes "distinct (map re_id rels)" "r \<in> set rels" "re_id r = i"
  shows "find (\<lambda>x. re_id x = i) rels = Some r"
  using assms by (induction rels) auto

lemma load_ref_id:
  assumes ok: "db_ok db" "rels_ok db" and p: "(t, a) \<in> attr_rows db"
  shows "load_ref (db_rels db) a = Inr a"
proof (cases "at_rel a")
  case None
  then show ?thesis by (simp add: load_ref_def)
next
  case (Some ref)
  then have "at_rel (snd (t, a)) \<noteq> None" by simp
  then obtain r where r: "r \<in> set (db_rels db)" "source_side r (t, a) \<or> target_side r (t, a)"
    using ok(2) p unfolding rels_ok_def by blast
  have d: "distinct (map re_id (db_rels db))" and f: "rel_fits db r" using ok(2) r(1) by (simp_all add: rels_ok_def)
  have i: "rr_id ref = re_id r"
    using r(2) Some by (auto simp: source_side_def target_side_def source_ref_def target_ref_def)
  have e: "find (\<lambda>x. re_id x = rr_id ref) (db_rels db) = Some r" using find_rel [OF d r(1)] i by simp
  show ?thesis
  proof (cases "source_side r (t, a)")
    case True
    then show ?thesis using Some e by (simp add: load_ref_def source_side_def source_ref_def)
  next
    case False
    then have t: "target_side r (t, a)" using r(2) by simp
    obtain q where q: "q \<in> attr_rows db" "source_side r q" using f by (auto simp: rel_fits_def)
    have "re_source_attr r \<noteq> at_id a"
    proof
      assume "re_source_attr r = at_id a"
      then have "at_id (snd q) = at_id (snd (t, a))" using q(2) by (simp add: source_side_def)
      then have "q = (t, a)" using attr_rows_inj [OF ok(1) q(1) p] by simp
      then show False using q(2) False by simp
    qed
    then show ?thesis using Some e t by (simp add: load_ref_def target_side_def target_ref_def)
  qed
qed

lemma load_refs_id: "\<forall>a\<in>set as. load_ref rels a = Inr a \<Longrightarrow> load_refs rels as = Inr as"
  by (induction as) auto

definition by_position :: "obj_type \<Rightarrow> obj_type" where
  "by_position t = t\<lparr>ty_attrs := sort_key (\<lambda>a. (at_position a, at_id a)) (ty_attrs t)\<rparr>"

lemma load_types_id:
  "\<forall>t\<in>set ts. \<forall>a\<in>set (ty_attrs t). load_ref rels a = Inr a \<Longrightarrow> load_types rels ts = Inr (map by_position ts)"
  by (induction ts) (auto simp: load_refs_id by_position_def)

lemma load_schema_rows:
  assumes ok: "db_ok db" "rels_ok db"
  obtains db1 where "load_schema db = Inr db1" "attr_rows db1 = attr_rows db" "ty_ids db1 = ty_ids db"
    "db_rels db1 = db_rels db" "db_records db1 = db_records db" "db_values db1 = db_values db"
    "db_links db1 = db_links db" "db_draws db1 = db_draws db"
proof -
  let ?ts = "sort_key (\<lambda>t. (ty_position t, ty_id t)) (db_types db)"
  have "\<forall>t\<in>set ?ts. \<forall>a\<in>set (ty_attrs t). load_ref (db_rels db) a = Inr a"
    using load_ref_id [OF ok] by (auto simp: attr_rows_def)
  then have l: "load_schema db = Inr (db\<lparr>db_types := map by_position ?ts\<rparr>)"
    using load_types_id by (simp add: load_schema_def)
  have rows: "attr_rows (db\<lparr>db_types := map by_position ?ts\<rparr>) = attr_rows db"
    by (simp add: attr_rows_union by_position_def)
  have ids: "ty_ids (db\<lparr>db_types := map by_position ?ts\<rparr>) = ty_ids db"
    by (simp add: ty_ids_def by_position_def image_image)
  show ?thesis by (rule that [OF l rows ids]) simp_all
qed

lemma load_schema_step:
  assumes ok: "db_ok db" "rels_ok db" and l: "load_schema db = Inr db1"
  shows "db_ok db1 \<and> rels_ok db1 \<and> grows db db1"
proof -
  have e: "attr_rows db1 = attr_rows db" "ty_ids db1 = ty_ids db" "db_rels db1 = db_rels db"
    "db_records db1 = db_records db" "db_values db1 = db_values db" "db_links db1 = db_links db"
    using load_schema_rows [OF ok] l by auto
  have "rels_ok db1"
  proof (rule rels_ok_transfer [OF ok(2) e(3)])
    show "\<exists>q\<in>attr_rows db1. same_side p q" if "p \<in> attr_rows db" for p
      unfolding e using that same_side_refl by blast
    show "\<exists>p\<in>attr_rows db. same_side p q" if "q \<in> attr_rows db1" "at_rel (snd q) \<noteq> None" for q
      using that(1) same_side_refl unfolding e by blast
  qed (simp add: e)
  moreover have "grows db db1" unfolding grows_def e using attr_grows_refl by auto
  ultimately show ?thesis using load_schema_ok [OF ok(1) l] by simp
qed

lemma load_space_ok: "space_ok nm db \<Longrightarrow> load_schema db = Inr db1 \<Longrightarrow> space_ok nm db1"
  using load_schema_step [of db db1] grows_space_ok [of db db1 nm] by (simp add: space_ok_def)

end
