(* ===== verification/SpaceKeeps.thy ===== *)
theory SpaceKeeps
  imports SpaceInv
begin

text \<open>
  Every transaction on the database of a space keeps what \<^verbatim>\<open>SpaceInv\<close> states of it: the edits of a schema, the
  writes of records, the changes of links and the deletes.
\<close>

section \<open>Editing a schema in place\<close>

lemma edit_rows:
  assumes ok: "db_ok db" and t: "type_by_id db tid = Some t" and a: "find (\<lambda>a. at_id a = aid) (ty_attrs t) = Some a"
    and db': "db' = set_type tid (\<lambda>t. t\<lparr>ty_attrs := map_first (\<lambda>a. at_id a = aid) f (ty_attrs t)\<rparr>) db"
  shows "attr_rows db' \<subseteq> insert (tid, f a) (attr_rows db)" "attr_rows db \<subseteq> insert (tid, a) (attr_rows db')"
    "(tid, f a) \<in> attr_rows db'" "(tid, a) \<in> attr_rows db" "ty_ids db' = ty_ids db"
    "db_rels db' = db_rels db" "db_records db' = db_records db" "db_values db' = db_values db" "db_links db' = db_links db"
proof -
  let ?g = "\<lambda>t. t\<lparr>ty_attrs := map_first (\<lambda>a. at_id a = aid) f (ty_attrs t)\<rparr>"
  obtain ys zs where s: "ty_attrs t = ys @ a # zs" "map_first (\<lambda>a. at_id a = aid) f (ty_attrs t) = ys @ f a # zs"
    using a by (rule find_split) blast
  note e = attr_rows_set_type [OF db_ok_ids [OF ok] t, of ?g]
  have b: "{p \<in> attr_rows db. fst p = tid} = Pair tid ` (set ys \<union> {a} \<union> set zs)" using e(2) s(1) by simp
  have c: "attr_rows db' = {p \<in> attr_rows db. fst p \<noteq> tid} \<union> Pair tid ` (set ys \<union> {f a} \<union> set zs)"
    using e(1) s(2) db' by simp
  show "attr_rows db' \<subseteq> insert (tid, f a) (attr_rows db)" unfolding c using b by blast
  show "attr_rows db \<subseteq> insert (tid, a) (attr_rows db')" unfolding c using b by blast
  show "(tid, f a) \<in> attr_rows db'" unfolding c by blast
  show "(tid, a) \<in> attr_rows db" using b by blast
  show "ty_ids db' = ty_ids db" using e(3) db' by simp
  show "db_rels db' = db_rels db" "db_records db' = db_records db" "db_values db' = db_values db"
    "db_links db' = db_links db" by (simp_all add: db' set_type_def)
qed

lemma edit_step:
  assumes ok: "db_ok db" "rels_ok db" and t: "type_by_id db tid = Some t"
    and a: "find (\<lambda>a. at_id a = aid) (ty_attrs t) = Some a"
    and f: "attr_grows a (f a)" "at_rel (f a) = at_rel a"
    and db': "db' = set_type tid (\<lambda>t. t\<lparr>ty_attrs := map_first (\<lambda>a. at_id a = aid) f (ty_attrs t)\<rparr>) db"
  shows "rels_ok db' \<and> grows db db'"
proof
  note e = edit_rows [OF ok(1) t a db']
  have s: "same_side (tid, a) (tid, f a)" using f by (simp add: same_side_def attr_grows_def)
  show "rels_ok db'"
  proof (rule rels_ok_transfer [OF ok(2) e(6)])
    show "ty_ids db \<subseteq> ty_ids db'" by (simp add: e(5))
    show "\<exists>q\<in>attr_rows db'. same_side p q" if "p \<in> attr_rows db" for p
      using that e(2,3) s same_side_refl by blast
    show "\<exists>p\<in>attr_rows db. same_side p q" if q: "q \<in> attr_rows db'" "at_rel (snd q) \<noteq> None" for q
      using q(1) e(1,4) s same_side_refl by blast
  qed
  have 1: "\<exists>b. (u, b) \<in> attr_rows db' \<and> attr_grows x b" if "(u, x) \<in> attr_rows db" for u x
    using that e(2,3) f(1) attr_grows_refl by blast
  have pf: "at_id (f a) = at_id a" "at_primary (f a) = at_primary a" using f(1) by (simp_all add: attr_grows_def)
  have 2: "\<exists>x. (u, x) \<in> attr_rows db \<and> at_id x = at_id b \<and> at_primary x"
    if b: "(u, b) \<in> attr_rows db'" "at_primary b" for u b
  proof (cases "(u, b) \<in> attr_rows db")
    case True
    then show ?thesis using b(2) by blast
  next
    case False
    then have "u = tid" "b = f a" using b(1) e(1) by blast+
    then show ?thesis using e(4) pf b(2) by metis
  qed
  show "grows db db'"
    unfolding grows_def e(5-9) using 1 2 by blast
qed

lemma update_object_type_step:
  "schema_step (update_object_type ref p :: 'f space_db \<Rightarrow> (ds_error + obj_type) \<times> 'f space_db)"
  unfolding schema_step_def
proof (intro allI impI)
  fix db t' and db' :: "'f space_db"
  assume ok: "db_ok db" "rels_ok db" and r: "update_object_type ref p db = (Inr t', db')"
  obtain t where t: "resolve_type db ref = Some t"
    using r by (auto simp: update_object_type_def require_type_def split: option.splits)
  obtain name where n: "patch_text (tp_name p) = Inr name"
    using r t by (cases "patch_text (tp_name p)") (auto simp: update_object_type_def require_type_def)
  obtain plural where pl: "patch_text (tp_plural p) = Inr plural"
    using r t n by (cases "patch_text (tp_plural p)") (auto simp: update_object_type_def require_type_def split: if_splits)
  obtain f where db': "db' = set_type (ty_id t) f db" and f: "\<And>u. ty_id (f u) = ty_id u" "\<And>u. ty_attrs (f u) = ty_attrs u"
    using r t n pl by (auto simp: update_object_type_def require_type_def Let_def split: if_splits)
  have b: "type_by_id db (ty_id t) = Some t" by (rule resolve_type_found [OF t db_ok_ids [OF ok(1)]])
  note e = attr_rows_set_type [OF db_ok_ids [OF ok(1)] b, of f]
  have rows: "attr_rows db' = attr_rows db" using e(1,2) f db' by auto
  have o: "db_rels db' = db_rels db" "db_records db' = db_records db" "db_values db' = db_values db"
    "db_links db' = db_links db" by (simp_all add: db' set_type_def)
  have ids: "ty_ids db' = ty_ids db" using e(3) f db' by simp
  have "rels_ok db'" using ok(2) by (simp add: rels_ok_def rel_fits_def rows o ids)
  moreover have "grows db db'" using grows_refl [of db] by (simp add: grows_def rows o ids)
  ultimately show "db_ok db' \<and> rels_ok db' \<and> grows db db'"
    using steps_okD [OF update_object_type_ok ok(1) r] by simp
qed

lemma add_option_row_step:
  assumes ok: "db_ok db" "rels_ok db" and h: "holds_options tid a t opts db"
    and r: "add_option_row tid (at_id a) opts new db = (Inr x, db')"
  shows "rels_ok db' \<and> grows db db'"
proof -
  obtain u where u: "type_by_id db tid = Some u"
    and a: "find (\<lambda>b. at_id b = at_id a) (ty_attrs u) = Some (a\<lparr>at_options := opts\<rparr>)"
    using h by (auto simp: holds_options_def)
  have db': "db' = set_type tid (\<lambda>t. t\<lparr>ty_attrs := map_first (\<lambda>b. at_id b = at_id a)
              (\<lambda>a. a\<lparr>at_options := at_options a @ new\<rparr>) (ty_attrs t)\<rparr>) db"
    using r by (auto simp: add_option_row_def split: if_splits)
  show ?thesis by (rule edit_step [OF ok u a _ _ db']) (auto simp: attr_grows_def)
qed

lemma add_options_step:
  assumes "add_options rnd tid (at_id a) raws opts db = (Inr opts', db')"
    and "db_ok db" "rels_ok db" "holds_options tid a t opts db" "is_option_type (at_type a)"
  shows "rels_ok db' \<and> grows db db' \<and> set opts \<subseteq> set opts'"
  using assms(1-4)
proof (induction raws arbitrary: opts db)
  case Nil
  then show ?case by (simp add: grows_refl)
next
  case (Cons raw raws)
  obtain name where n: "clean_name raw = Inr name"
    using Cons.prems(1) by (cases "clean_name raw") auto
  show ?case
  proof (cases "list_ex (\<lambda>x. same_name (op_name x) name) opts")
    case True
    then show ?thesis using Cons.IH [OF _ Cons.prems(2,3,4)] Cons.prems(1) n by simp
  next
    case False
    let ?m = "mint_options rnd [name] (length opts) db"
    obtain k where k: "snd ?m = db\<lparr>db_draws := k\<rparr>" using mint_options_db by blast
    obtain q db2 where q: "add_option_row tid (at_id a) opts (fst ?m) (snd ?m) = (q, db2)" by fastforce
    then obtain x where r: "add_option_row tid (at_id a) opts (fst ?m) (snd ?m) = (Inr x, db2)"
      and rest: "add_options rnd tid (at_id a) raws (opts @ fst ?m) db2 = (Inr opts', db')"
      using Cons.prems(1) n False
      by (cases q) (auto simp: case_prod_beta simp del: mint_options.simps)
    have d: "db_ok (snd ?m)" "rels_ok (snd ?m)" "holds_options tid a t opts (snd ?m)"
      using Cons.prems(2-4) k by simp_all
    have 1: "db_ok db2 \<and> holds_options tid a t (opts @ fst ?m) db2"
      by (rule add_option_row_ok [OF d(1,3) assms(5) r])
    have 2: "rels_ok db2 \<and> grows db db2" using add_option_row_step [OF d r] k by simp
    have "rels_ok db' \<and> grows db2 db' \<and> set (opts @ fst ?m) \<subseteq> set opts'"
      by (rule Cons.IH [OF rest]) (use 1 2 in simp_all)
    then show ?thesis using 2 grows_trans by auto
  qed
qed

lemma write_attribute_row_step:
  assumes ok: "db_ok db" "rels_ok db" and h: "holds_options tid a t opts db"
    and o: "op_id ` set opts \<subseteq> op_id ` set opts'"
  shows "rels_ok (write_attribute_row tid (at_id a) name desc req opts' db)
    \<and> grows db (write_attribute_row tid (at_id a) name desc req opts' db)"
proof -
  obtain u where u: "type_by_id db tid = Some u"
    and a: "find (\<lambda>b. at_id b = at_id a) (ty_attrs u) = Some (a\<lparr>at_options := opts\<rparr>)"
    using h by (auto simp: holds_options_def)
  show ?thesis by (rule edit_step [OF ok u a _ _ write_attribute_row_def]) (use o in \<open>auto simp: attr_grows_def\<close>)
qed

lemma rename_option_ids:
  assumes "rename_option slug p opts = Inr opts'"
  shows "op_id ` set opts' = op_id ` set opts"
proof -
  obtain n where n: "clean_name (snd p) = Inr n"
    using assms by (cases "clean_name (snd p)") (auto simp: rename_option_def)
  then have "opts' = map (\<lambda>x. if op_id x = fst p then x\<lparr>op_name := n\<rparr> else x) opts"
    using assms by (auto simp: rename_option_def split: if_splits)
  then have "map op_id opts' = map op_id opts" by simp
  then show ?thesis by (metis list.set_map)
qed

lemma update_attribute_step:
  "schema_step (update_attribute rnd tref aref p :: 'f space_db \<Rightarrow> (ds_error + unit) \<times> 'f space_db)"
  unfolding schema_step_def
proof (intro allI impI)
  fix db x and db' :: "'f space_db"
  assume ok: "db_ok db" "rels_ok db" and r: "update_attribute rnd tref aref p db = (Inr x, db')"
  obtain t where t: "resolve_type db tref = Some t"
    using r by (auto simp: update_attribute_def require_type_def split: option.splits)
  obtain a where a: "resolve_attribute_ref t aref = Some a"
    using r t by (cases "resolve_attribute_ref t aref") (auto simp: update_attribute_def require_type_def)
  obtain name where n: "patch_text (ap_name p) = Inr name"
    using r t a by (cases "patch_text (ap_name p)") (auto simp: update_attribute_def require_type_def)
  have b: "type_by_id db (ty_id t) = Some t" by (rule resolve_type_found [OF t db_ok_ids [OF ok(1)]])
  have f: "find (\<lambda>b. at_id b = at_id a) (ty_attrs t) = Some a"
    by (rule find_self [OF resolve_ref_found [OF a] type_attr_ids [OF ok(1) b]])
  have h: "holds_options (ty_id t) a t (at_options a) db" using b f by (simp add: holds_options_def)
  have "rels_ok db' \<and> grows db db'"
  proof (cases "ap_add p = None \<and> ap_rename p = None")
    case True
    then have "db' = write_attribute_row (ty_id t) (at_id a) name (ap_description p) (ap_required p) (at_options a) db"
      using r t a n by (auto simp: update_attribute_def require_type_def split: if_splits)
    then show ?thesis using write_attribute_row_step [OF ok h subset_refl] by simp
  next
    case False
    then have o: "is_option_type (at_type a)"
      using r t a n by (auto simp: update_attribute_def require_type_def split: if_splits)
    obtain q db1 where q: "patch_options rnd (ty_id t) a p db = (q, db1)" by fastforce
    then obtain opts' where po: "patch_options rnd (ty_id t) a p db = (Inr opts', db1)"
      and db': "db' = write_attribute_row (ty_id t) (at_id a) name (ap_description p) (ap_required p) opts' db1"
      using r t a n False o
      by (cases q) (auto simp: update_attribute_def require_type_def split: if_splits)
    obtain q2 db2 where q2: "add_options rnd (ty_id t) (at_id a) (if_given (ap_add p) []) (at_options a) db = (q2, db2)"
      by fastforce
    then obtain opts where ao: "add_options rnd (ty_id t) (at_id a) (if_given (ap_add p) []) (at_options a) db = (Inr opts, db1)"
      and rn: "(case ap_rename p of None \<Rightarrow> Inr opts | Some s \<Rightarrow> rename_option (at_slug a) s opts) = Inr opts'"
      using po by (cases q2; cases "ap_rename p") (auto simp: patch_options_def split: sum.splits)
    have 1: "db_ok db1 \<and> holds_options (ty_id t) a t opts db1" by (rule add_options_ok [OF ao ok(1) h o])
    have 2: "rels_ok db1 \<and> grows db db1" using add_options_step [OF ao ok h o] by blast
    have "op_id ` set opts' = op_id ` set opts"
    proof (cases "ap_rename p")
      case None
      then show ?thesis using rn by simp
    next
      case (Some s)
      then have "rename_option (at_slug a) s opts = Inr opts'" using rn by simp
      then show ?thesis by (rule rename_option_ids)
    qed
    then have s: "op_id ` set opts \<subseteq> op_id ` set opts'" by simp
    have "rels_ok db' \<and> grows db1 db'" unfolding db'
      by (rule write_attribute_row_step [where t = t, OF _ _ _ s]) (use 1 2 in simp_all)
    then show ?thesis using 2 grows_trans by blast
  qed
  then show "db_ok db' \<and> rels_ok db' \<and> grows db db'" using steps_okD [OF update_attribute_ok ok(1) r] by simp
qed

end
