(* ===== verification/SpaceWrites.thy ===== *)
theory SpaceWrites
  imports SpaceKeeps
begin

text \<open>
  The writes of records and the changes of links keep the invariants of \<^verbatim>\<open>SpaceInv\<close>.
\<close>

section \<open>What the invariants read of a database\<close>

definition rec_slot :: "rec_row \<Rightarrow> string \<times> string" where
  "rec_slot r = (rw_id r, rw_type r)"

definition rec_slots :: "'f space_db \<Rightarrow> (string \<times> string) set" where
  "rec_slots db = rec_slot ` set (db_records db)"

definition val_slots :: "'f space_db \<Rightarrow> (string \<times> string) set" where
  "val_slots db = value_slot ` set (db_values db)"

definition same_schema :: "'f space_db \<Rightarrow> 'f space_db \<Rightarrow> bool" where
  "same_schema db db' \<longleftrightarrow> db_types db' = db_types db \<and> db_rels db' = db_rels db"

lemma same_schema_refl [simp]: "same_schema db db"
  by (simp add: same_schema_def)

lemma same_schema_trans: "same_schema a b \<Longrightarrow> same_schema b c \<Longrightarrow> same_schema a c"
  by (simp add: same_schema_def)

lemma same_schemaD:
  assumes "same_schema db db'"
  shows "attr_rows db' = attr_rows db" "ty_ids db' = ty_ids db" "db_rels db' = db_rels db"
    "db_types db' = db_types db" "db_ok db' = db_ok db" "rels_ok db' = rels_ok db"
  using assms
  by (simp_all add: same_schema_def attr_rows_def ty_ids_def db_ok_def all_attrs_def option_ids_def rels_ok_def rel_fits_def)

lemma rec_slots_iff: "(i, t) \<in> rec_slots db \<longleftrightarrow> (\<exists>r\<in>set (db_records db). rw_id r = i \<and> rw_type r = t)"
  by (auto simp: rec_slots_def rec_slot_def)

lemma val_slots_iff: "(i, k) \<in> val_slots db \<longleftrightarrow> (\<exists>v\<in>set (db_values db). vr_record v = i \<and> vr_attr v = k)"
  by (auto simp: val_slots_def value_slot_def)

lemma value_fits_slots:
  "value_fits nm db v \<longleftrightarrow>
     (\<exists>t a. (vr_record v, t) \<in> rec_slots db \<and> (t, a) \<in> attr_rows db \<and> at_id a = vr_attr v
        \<and> at_slug a = vr_slug v \<and> value_type nm a (vr_value v)
        \<and> vr_key v = (if at_unique a then Some (unique_key nm (vr_value v)) else None))"
  unfolding value_fits_def rec_slots_iff by blast

lemma records_named_slots:
  "records_named db \<longleftrightarrow>
     (\<forall>i t a. (i, t) \<in> rec_slots db \<longrightarrow> (t, a) \<in> attr_rows db \<longrightarrow> at_primary a \<longrightarrow> (i, at_id a) \<in> val_slots db)"
  unfolding records_named_def rec_slots_iff val_slots_iff by blast

lemma link_fits_slots:
  "link_fits db l \<longleftrightarrow>
     (\<exists>r\<in>set (db_rels db). re_id r = lk_rel l \<and> (lk_source l, re_source_type r) \<in> rec_slots db
        \<and> (lk_target l, re_target_type r) \<in> rec_slots db)"
  unfolding link_fits_def rec_slots_iff by blast

text \<open>The invariant of the records but for their names, which a new record lacks until its patch is
  written.\<close>

definition records_core :: "'f numbers \<Rightarrow> 'f space_db \<Rightarrow> bool" where
  "records_core nm db \<longleftrightarrow>
     distinct (map rw_id (db_records db)) \<and> snd ` rec_slots db \<subseteq> ty_ids db
     \<and> distinct (map value_slot (db_values db)) \<and> (\<forall>v\<in>set (db_values db). value_fits nm db v) \<and> keys_unique db"

lemma records_ok_core: "records_ok nm db \<longleftrightarrow> records_core nm db \<and> records_named db"
  by (auto simp: records_ok_def records_core_def rec_slots_def rec_slot_def image_subset_iff)

lemma record_types_core: "records_core nm db \<Longrightarrow> (i, t) \<in> rec_slots db \<Longrightarrow> t \<in> ty_ids db"
  unfolding records_core_def by force

lemma record_slot_unique:
  assumes "records_core nm db" "(i, t) \<in> rec_slots db" "(i, u) \<in> rec_slots db"
  shows "t = u"
  using assms by (auto simp: records_core_def rec_slots_def rec_slot_def distinct_map dest: inj_onD)

lemma keys_uniqueD:
  "keys_unique db \<Longrightarrow> v \<in> set (db_values db) \<Longrightarrow> w \<in> set (db_values db) \<Longrightarrow> vr_attr v = vr_attr w \<Longrightarrow>
     vr_key v \<noteq> None \<Longrightarrow> vr_key v = vr_key w \<Longrightarrow> vr_record v = vr_record w"
  unfolding keys_unique_def by blast

section \<open>Values\<close>

lemma clear_value_core:
  assumes "records_core nm db"
  shows "records_core nm (clear_value rid aid db)"
proof -
  let ?db = "clear_value rid aid db"
  have s: "same_schema db ?db" "rec_slots ?db = rec_slots db" "db_records ?db = db_records db"
    by (simp_all add: clear_value_def same_schema_def rec_slots_def)
  have sub: "set (db_values ?db) \<subseteq> set (db_values db)" by (auto simp: clear_value_def)
  have "value_fits nm ?db v = value_fits nm db v" for v
    by (simp add: value_fits_slots same_schemaD [OF s(1)] s(2))
  moreover have "keys_unique ?db"
    using keys_uniqueD assms sub unfolding keys_unique_def records_core_def by blast
  moreover have "distinct (map value_slot (db_values ?db))"
    using assms by (simp add: records_core_def clear_value_def distinct_map_filter)
  ultimately show ?thesis
    using assms sub by (auto simp: records_core_def s same_schemaD [OF s(1)])
qed

lemma clear_value_slots: "val_slots (clear_value rid aid db) = val_slots db - {(rid, aid)}"
  by (auto simp: val_slots_def value_slot_def clear_value_def)

lemma put_value_set:
  "set (db_values (put_value row db)) = {r \<in> set (db_values db). value_slot r \<noteq> value_slot row} \<union> {row}"
proof (cases "\<exists>r\<in>set (db_values db). vr_record r = vr_record row \<and> vr_attr r = vr_attr row")
  case True
  then show ?thesis by (auto simp: put_value_def value_slot_def)
next
  case False
  then show ?thesis by (auto simp: put_value_def value_slot_def)
qed

lemma put_value_slots: "val_slots (put_value row db) = insert (value_slot row) (val_slots db)"
  unfolding val_slots_def put_value_set by auto

lemma put_value_distinct:
  assumes "distinct (map value_slot (db_values db))"
  shows "distinct (map value_slot (db_values (put_value row db)))"
proof (cases "\<exists>r\<in>set (db_values db). vr_record r = vr_record row \<and> vr_attr r = vr_attr row")
  case True
  then have "map value_slot (db_values (put_value row db)) = map value_slot (db_values db)"
    by (auto simp: put_value_def value_slot_def)
  then show ?thesis using assms by simp
next
  case False
  then have "value_slot row \<notin> value_slot ` set (db_values db)" by (auto simp: value_slot_def)
  moreover have "db_values (put_value row db) = db_values db @ [row]" unfolding put_value_def if_not_P [OF False] by simp
  ultimately show ?thesis using assms by simp
qed

lemma put_value_fields:
  "db_records (put_value row db) = db_records db" "db_links (put_value row db) = db_links db"
  "same_schema db (put_value row db)" "rec_slots (put_value row db) = rec_slots db"
  by (simp_all add: put_value_def same_schema_def rec_slots_def)

lemma put_value_core:
  assumes core: "records_core nm db" and fits: "value_fits nm db row"
    and key: "\<forall>r\<in>set (db_values db). vr_attr r = vr_attr row \<longrightarrow> vr_key row \<noteq> None \<longrightarrow> vr_key r = vr_key row
                \<longrightarrow> vr_record r = vr_record row"
  shows "records_core nm (put_value row db)"
proof -
  note s = same_schemaD [OF put_value_fields(3) [of db row]]
  have f: "value_fits nm (put_value row db) v = value_fits nm db v" for v
    by (simp add: value_fits_slots s put_value_fields)
  have "keys_unique (put_value row db)"
    unfolding keys_unique_def put_value_set
  proof (intro ballI impI)
    fix v w
    assume v: "v \<in> {r \<in> set (db_values db). value_slot r \<noteq> value_slot row} \<union> {row}"
      and w: "w \<in> {r \<in> set (db_values db). value_slot r \<noteq> value_slot row} \<union> {row}"
      and e: "vr_attr v = vr_attr w" "vr_key v \<noteq> None" "vr_key v = vr_key w"
    have u: "keys_unique db" using core by (simp add: records_core_def)
    consider "v = row" "w = row" | "v = row" "w \<in> set (db_values db)" | "w = row" "v \<in> set (db_values db)"
      | "v \<in> set (db_values db)" "w \<in> set (db_values db)" using v w by blast
    then show "vr_record v = vr_record w"
    proof cases
      case 2
      then show ?thesis using key e by metis
    next
      case 3
      then show ?thesis using key e by metis
    next
      case 4
      then show ?thesis using keys_uniqueD [OF u _ _ e] by blast
    qed simp
  qed
  moreover have "\<forall>v\<in>set (db_values (put_value row db)). value_fits nm (put_value row db) v"
    using core fits by (auto simp: put_value_set f records_core_def)
  moreover have "distinct (map value_slot (db_values (put_value row db)))"
    using core put_value_distinct unfolding records_core_def by blast
  ultimately show ?thesis using core by (simp add: records_core_def put_value_fields s)
qed

lemma write_value_core:
  assumes core: "records_core nm db" and w: "write_value nm rid a v db = (Inr u, db')"
    and a: "(rid, t) \<in> rec_slots db" "(t, a) \<in> attr_rows db" "value_type nm a v"
  shows "records_core nm db'" "val_slots db' = insert (rid, at_id a) (val_slots db)" "same_schema db db'"
    "db_records db' = db_records db" "db_links db' = db_links db"
proof -
  let ?row = "\<lparr>vr_record = rid, vr_attr = at_id a, vr_slug = at_slug a, vr_value = v,
               vr_key = (if at_unique a then Some (unique_key nm v) else None)\<rparr>"
  have db': "db' = put_value ?row db" and c: "\<not> (at_unique a \<and> key_clash db (at_id a) (unique_key nm v) rid)"
    using w by (auto simp: write_value_def Let_def split: if_splits)
  have "value_fits nm db ?row" unfolding value_fits_slots using a by auto
  moreover have "\<forall>r\<in>set (db_values db). vr_attr r = vr_attr ?row \<longrightarrow> vr_key ?row \<noteq> None \<longrightarrow> vr_key r = vr_key ?row
                \<longrightarrow> vr_record r = vr_record ?row"
    using c by (auto simp: key_clash_def list_ex_iff)
  ultimately show "records_core nm db'" unfolding db' by (rule put_value_core [OF core])
  show "val_slots db' = insert (rid, at_id a) (val_slots db)" by (simp add: db' put_value_slots value_slot_def)
  show "same_schema db db'" "db_records db' = db_records db" "db_links db' = db_links db"
    by (simp_all add: db' put_value_fields)
qed

text \<open>An item of a patch: an attribute of the type, with a value of its type if it has one.\<close>

definition item_fits :: "'f numbers \<Rightarrow> 'f space_db \<Rightarrow> string \<Rightarrow> attribute \<times> 'f val option \<Rightarrow> bool" where
  "item_fits nm db t p \<longleftrightarrow>
     (t, fst p) \<in> attr_rows db \<and> (case snd p of None \<Rightarrow> True | Some v \<Rightarrow> value_type nm (fst p) v)"

lemma write_patch_core:
  assumes "write_patch nm rid items db = (Inr u, db')" "records_core nm db" "(rid, t) \<in> rec_slots db"
    "\<forall>p\<in>set items. item_fits nm db t p"
  shows "records_core nm db' \<and> same_schema db db' \<and> db_records db' = db_records db \<and> db_links db' = db_links db"
  using assms
proof (induction nm rid items db rule: write_patch.induct)
  case (1 nm rid db)
  then show ?case by simp
next
  case (2 nm rid a items db)
  let ?db = "clear_value rid (at_id a) db"
  have s: "same_schema db ?db" "rec_slots ?db = rec_slots db" "db_records ?db = db_records db" "db_links ?db = db_links db"
    by (simp_all add: clear_value_def same_schema_def rec_slots_def)
  have i: "item_fits nm ?db t p = item_fits nm db t p" for p
    by (simp add: item_fits_def same_schemaD [OF s(1)])
  have "records_core nm db' \<and> same_schema ?db db' \<and> db_records db' = db_records ?db \<and> db_links db' = db_links ?db"
    by (rule "2.IH") (use "2.prems" clear_value_core s(2) i in simp_all)
  then show ?case using same_schema_trans [OF s(1)] s(3,4) by simp
next
  case (3 nm rid a v items db)
  obtain q db1 where q: "write_value nm rid a v db = (q, db1)" by fastforce
  then obtain x where w: "write_value nm rid a v db = (Inr x, db1)" and rest: "write_patch nm rid items db1 = (Inr u, db')"
    using "3.prems"(1) by (cases q) auto
  have a: "(t, a) \<in> attr_rows db" "value_type nm a v" using "3.prems"(4) by (auto simp: item_fits_def)
  note c = write_value_core [OF "3.prems"(2) w "3.prems"(3) a]
  have i: "item_fits nm db1 t p = item_fits nm db t p" for p by (simp add: item_fits_def same_schemaD [OF c(3)])
  have s: "rec_slots db1 = rec_slots db" by (simp add: rec_slots_def c(4))
  have "records_core nm db' \<and> same_schema db1 db' \<and> db_records db' = db_records db1 \<and> db_links db' = db_links db1"
    by (rule "3.IH" [OF w [symmetric] refl rest]) (use "3.prems" c(1) s i in simp_all)
  then show ?case using same_schema_trans [OF c(3)] c(4,5) by simp
qed

lemma write_patch_slots:
  assumes "write_patch nm rid items db = (Inr u, db')"
  shows "\<forall>i. i \<noteq> rid \<longrightarrow> (i, k) \<in> val_slots db' \<longleftrightarrow> (i, k) \<in> val_slots db"
    "\<forall>p\<in>set items. at_id (fst p) = k \<longrightarrow> snd p \<noteq> None \<Longrightarrow>
     (rid, k) \<in> val_slots db \<or> k \<in> (at_id \<circ> fst) ` set items \<Longrightarrow> (rid, k) \<in> val_slots db'"
proof -
  have step: "val_slots db2 = insert (rid, at_id a) (val_slots db1)"
    if "write_value nm rid a v db1 = (Inr x, db2)" for a v db1 x db2
    using that by (auto simp: write_value_def Let_def put_value_slots value_slot_def split: if_splits)
  have "(\<forall>i. i \<noteq> rid \<longrightarrow> (i, k) \<in> val_slots db' \<longleftrightarrow> (i, k) \<in> val_slots db)
    \<and> ((\<forall>p\<in>set items. at_id (fst p) = k \<longrightarrow> snd p \<noteq> None) \<longrightarrow>
       (rid, k) \<in> val_slots db \<or> k \<in> (at_id \<circ> fst) ` set items \<longrightarrow> (rid, k) \<in> val_slots db')"
    using assms
  proof (induction items arbitrary: db)
    case Nil
    then show ?case by simp
  next
    case (Cons p items)
    obtain a ov where p: "p = (a, ov)" by fastforce
    show ?case
    proof (cases ov)
      case None
      have "write_patch nm rid items (clear_value rid (at_id a) db) = (Inr u, db')" using Cons.prems p None by simp
      from Cons.IH [OF this] show ?thesis by (auto simp: p None clear_value_slots)
    next
      case (Some v)
      obtain q db1 where q: "write_value nm rid a v db = (q, db1)" by fastforce
      then obtain x where w: "write_value nm rid a v db = (Inr x, db1)"
        and rest: "write_patch nm rid items db1 = (Inr u, db')"
        using Cons.prems p Some by (cases q) auto
      from Cons.IH [OF rest] show ?thesis by (auto simp: p Some step [OF w])
    qed
  qed
  then show "\<forall>i. i \<noteq> rid \<longrightarrow> (i, k) \<in> val_slots db' \<longleftrightarrow> (i, k) \<in> val_slots db"
    "\<forall>p\<in>set items. at_id (fst p) = k \<longrightarrow> snd p \<noteq> None \<Longrightarrow>
     (rid, k) \<in> val_slots db \<or> k \<in> (at_id \<circ> fst) ` set items \<Longrightarrow> (rid, k) \<in> val_slots db'" by blast+
qed

section \<open>Patches\<close>

lemma resolve_value_found:
  assumes "resolve_value_attribute t key = Inr a"
  shows "a \<in> set (ty_attrs t)"
proof -
  have "resolve_value_key t key = Some a"
    using assms by (auto simp: resolve_value_attribute_def split: option.splits if_splits)
  then show ?thesis
    by (auto simp: resolve_value_key_def first_some_def attr_by_slug_def attr_by_name_def dest: find_SomeD
        split: option.splits)
qed

definition patch_fits :: "'f numbers \<Rightarrow> obj_type \<Rightarrow> string option \<Rightarrow> attribute \<times> 'f val option \<Rightarrow> bool" where
  "patch_fits nm t existing p \<longleftrightarrow>
     fst p \<in> set (ty_attrs t)
     \<and> (case snd p of None \<Rightarrow> existing \<noteq> None \<longrightarrow> \<not> at_required (fst p) | Some x \<Rightarrow> value_type nm (fst p) x)"

lemma patch_item_typed:
  assumes "patch_item nm db existing a raw = Inr v"
  shows "case v of None \<Rightarrow> existing \<noteq> None \<longrightarrow> \<not> at_required a | Some x \<Rightarrow> value_type nm a x"
proof -
  obtain c where c: "coerce_value nm a raw = Some c"
    using assms by (cases "coerce_value nm a raw") (auto simp: patch_item_def)
  show ?thesis
  proof (cases c)
    case None
    then show ?thesis using assms c by (auto simp: patch_item_def split: if_splits)
  next
    case (Some x)
    then have "v = Some x" using assms c by (auto simp: patch_item_def split: if_splits)
    then show ?thesis using coerced_value_typed c Some by simp
  qed
qed

lemma patch_items_typed:
  assumes "patch_items nm db t existing values keys out = Inr out'"
    "\<forall>p\<in>set out. patch_fits nm t existing p"
  shows "\<forall>p\<in>set out'. patch_fits nm t existing p"
  using assms
proof (induction keys arbitrary: out)
  case Nil
  then show ?case by simp
next
  case (Cons key keys)
  obtain a where a: "resolve_value_attribute t key = Inr a"
    using Cons.prems(1) by (cases "resolve_value_attribute t key") auto
  obtain v where v: "patch_item nm db existing a (the (map_of values key)) = Inr v"
    using Cons.prems(1) a by (cases "patch_item nm db existing a (the (map_of values key))") auto
  show ?case
  proof (rule Cons.IH)
    show "patch_items nm db t existing values keys (out @ [(a, v)]) = Inr out'" using Cons.prems(1) a v by simp
    show "\<forall>p\<in>set (out @ [(a, v)]). patch_fits nm t existing p"
    proof -
      have "patch_fits nm t existing (a, v)"
        using resolve_value_found [OF a] patch_item_typed [OF v] by (cases v) (simp_all add: patch_fits_def)
      then show ?thesis using Cons.prems(2) by simp
    qed
  qed
qed

lemma build_patch_typed:
  assumes "build_patch nm db t values existing = Inr patch"
  shows "\<forall>p\<in>set patch. patch_fits nm t existing p"
    "existing = None \<Longrightarrow> a \<in> set (ty_attrs t) \<Longrightarrow> at_required a \<Longrightarrow> touched patch (at_slug a)"
proof -
  obtain out where out: "patch_items nm db t existing values (sorted_copy (map fst values)) [] = Inr out"
    using assms by (cases "patch_items nm db t existing values (sorted_copy (map fst values)) []")
      (auto simp: build_patch_def)
  have e: "patch = out" and f: "(if existing = None
                 then find (\<lambda>a. at_required a \<and> \<not> touched out (at_slug a)) (ty_attrs t) else None) = None"
    using assms out by (auto simp: build_patch_def split: option.splits)
  show "\<forall>p\<in>set patch. patch_fits nm t existing p"
    unfolding e by (rule patch_items_typed [OF out]) simp
  show "touched patch (at_slug a)" if "existing = None" "a \<in> set (ty_attrs t)" "at_required a"
    using f that e by (auto simp: find_None_iff)
qed

text \<open>The type of a record, as the schema has it.\<close>

definition known_type :: "'f space_db \<Rightarrow> obj_type \<Rightarrow> bool" where
  "known_type db t \<longleftrightarrow> t \<in> set (db_types db)"

lemma known_type_rows: "known_type db t \<Longrightarrow> a \<in> set (ty_attrs t) \<Longrightarrow> (ty_id t, a) \<in> attr_rows db"
  by (auto simp: known_type_def attr_rows_def)

lemma known_type_found:
  assumes "db_ok db" "known_type db t"
  shows "type_by_id db (ty_id t) = Some t"
proof -
  have "find (\<lambda>u. ty_id u = ty_id t) ts = Some t" if "t \<in> set ts" "distinct (map ty_id ts)" for ts
    using that by (induction ts) auto
  then show ?thesis using assms by (simp add: known_type_def type_by_id_def db_ok_ids)
qed

lemma known_attr:
  assumes "db_ok db" "known_type db t" "(ty_id t, a) \<in> attr_rows db"
  shows "a \<in> set (ty_attrs t)"
  using attr_rows_of [OF assms(1) known_type_found [OF assms(1,2)]] assms(3) by simp

lemma known_primary:
  assumes "db_ok db" "known_type db t" "a \<in> set (ty_attrs t)" "at_primary a"
  shows "at_required a" "at_slug a = ''name''" "at_type a = TText"
  using assms by (auto simp: db_ok_def known_type_def list_all_iff type_ok_def is_primary_ok_def)

lemma known_slug:
  assumes "db_ok db" "known_type db t" "a \<in> set (ty_attrs t)" "b \<in> set (ty_attrs t)" "at_slug a = at_slug b"
  shows "a = b"
proof -
  have "distinct (map at_slug (ty_attrs t))" using assms(1,2) by (simp add: db_ok_def known_type_def list_all_iff type_ok_def)
  then show ?thesis using assms(3-5) by (auto simp: distinct_map dest: inj_onD)
qed

lemma known_id:
  assumes "db_ok db" "known_type db t" "a \<in> set (ty_attrs t)" "b \<in> set (ty_attrs t)" "at_id a = at_id b"
  shows "a = b"
  using attr_rows_inj [OF assms(1), of "(ty_id t, a)" "(ty_id t, b)"] known_type_rows [OF assms(2)] assms(3-5) by simp

lemma known_type_same: "same_schema db db' \<Longrightarrow> known_type db' t = known_type db t"
  by (simp add: known_type_def same_schema_def)

lemma patch_fits_items: "known_type db t \<Longrightarrow> patch_fits nm t existing p \<Longrightarrow> item_fits nm db (ty_id t) p"
  using known_type_rows [of db t "fst p"] by (cases "snd p") (simp_all add: patch_fits_def item_fits_def)

section \<open>Creating and updating records\<close>

text \<open>What a write of records leaves: the invariant of the records, the schema and the links.\<close>

definition written :: "'f numbers \<Rightarrow> 'f space_db \<Rightarrow> 'f space_db \<Rightarrow> bool" where
  "written nm db db' \<longleftrightarrow>
     records_ok nm db' \<and> same_schema db db' \<and> db_links db' = db_links db \<and> rec_slots db \<subseteq> rec_slots db'"

lemma written_trans: "written nm a b \<Longrightarrow> written nm b c \<Longrightarrow> written nm a c"
  by (auto simp: written_def same_schema_def)

lemma written_space_ok:
  assumes "written nm db db'" "space_ok nm db"
  shows "space_ok nm db'"
proof -
  have sc: "same_schema db db'" and r: "records_ok nm db'" "db_links db' = db_links db" "rec_slots db \<subseteq> rec_slots db'"
    using assms(1) by (simp_all add: written_def)
  note s = same_schemaD [OF sc]
  have "link_fits db' l" if "link_fits db l" for l
    using that r(3) unfolding link_fits_slots s by blast
  then have "links_ok db'" using assms(2) by (simp add: space_ok_def links_ok_def cardinality_ok_def r(2) s)
  then show ?thesis using assms(2) r(1) s by (simp add: space_ok_def)
qed

lemma touch_rows: "map rec_slot (db_records (touch_record stamp i db)) = map rec_slot (db_records db)"
  by (simp add: touch_record_def rec_slot_def)

lemma same_rows_records_ok:
  assumes "map rec_slot (db_records db') = map rec_slot (db_records db)" "same_schema db db'"
    "db_values db' = db_values db"
  shows "records_ok nm db' = records_ok nm db" "rec_slots db' = rec_slots db"
proof -
  show r: "rec_slots db' = rec_slots db" unfolding rec_slots_def using assms(1) by (metis list.set_map)
  have "map fst (map rec_slot (db_records db')) = map fst (map rec_slot (db_records db))" using assms(1) by simp
  then have "map rw_id (db_records db') = map rw_id (db_records db)" by (simp add: rec_slot_def o_def)
  then show "records_ok nm db' = records_ok nm db"
    using assms(3) r same_schemaD [OF assms(2)]
    by (simp add: records_ok_core records_core_def value_fits_slots keys_unique_def records_named_slots val_slots_def)
qed

lemma record_by_id_slot: "record_by_id db i = Some r \<Longrightarrow> (i, rw_type r) \<in> rec_slots db \<and> rw_id r = i"
  by (auto simp: record_by_id_def rec_slots_iff dest: find_SomeD)

lemma update_record_values_written:
  assumes ok: "db_ok db" "records_ok nm db" and t: "known_type db t" "(rid, ty_id t) \<in> rec_slots db"
    and r: "update_record_values nm stamp t rid values db = (Inr u, db')"
  shows "written nm db db'"
proof -
  obtain row where row: "record_by_id db rid = Some row"
    using r by (cases "record_by_id db rid") (auto simp: update_record_values_def)
  have id: "rw_id row = rid" using record_by_id_slot [OF row] by simp
  obtain patch where p: "build_patch nm db t values (Some rid) = Inr patch"
    using r row id by (cases "build_patch nm db t values (Some rid)") (auto simp: update_record_values_def)
  obtain q db1 where q: "write_patch nm rid patch db = (q, db1)" by fastforce
  then obtain x where w: "write_patch nm rid patch db = (Inr x, db1)" and db': "db' = touch_record stamp rid db1"
    using r row id p by (cases q) (auto simp: update_record_values_def)
  note f = build_patch_typed(1) [OF p]
  have items: "\<forall>p\<in>set patch. item_fits nm db (ty_id t) p" using f patch_fits_items [OF t(1)] by blast
  have core: "records_core nm db" "records_named db" using ok(2) by (simp_all add: records_ok_core)
  note c = write_patch_core [OF w core(1) t(2) items]
  have slots: "rec_slots db1 = rec_slots db" using c by (simp add: rec_slots_def)
  have sc: "same_schema db db1" using c by simp
  have "records_named db1"
    unfolding records_named_slots
  proof (intro allI impI)
    fix i k a
    assume i: "(i, k) \<in> rec_slots db1" and a: "(k, a) \<in> attr_rows db1" "at_primary a"
    have ik: "(i, k) \<in> rec_slots db" "(k, a) \<in> attr_rows db" using i a slots by (simp_all add: same_schemaD [OF sc])
    have n: "(i, at_id a) \<in> val_slots db" using core(2) ik a(2) unfolding records_named_slots by blast
    show "(i, at_id a) \<in> val_slots db1"
    proof (cases "i = rid")
      case False
      then show ?thesis using write_patch_slots(1) [OF w] n by blast
    next
      case True
      then have k: "k = ty_id t" using record_slot_unique [OF core(1)] ik(1) t(2) by blast
      then have at: "a \<in> set (ty_attrs t)" using known_attr [OF ok(1) t(1)] ik(2) by simp
      have "at_id (fst p) = at_id a \<longrightarrow> snd p \<noteq> None" if "p \<in> set patch" for p
      proof
        assume e: "at_id (fst p) = at_id a"
        have pf: "patch_fits nm t (Some rid) p" using f that by blast
        then have "fst p = a" using known_id [OF ok(1) t(1)] at e by (simp add: patch_fits_def)
        then show "snd p \<noteq> None" using pf known_primary(1) [OF ok(1) t(1) at a(2)] by (cases "snd p") (simp_all add: patch_fits_def)
      qed
      then show ?thesis using write_patch_slots(2) [OF w, of "at_id a"] n True by blast
    qed
  qed
  then have ok1: "records_ok nm db1" using c by (simp add: records_ok_core)
  have s: "same_schema db1 db'" "db_values db' = db_values db1" "db_links db' = db_links db1"
    by (simp_all add: db' touch_record_def same_schema_def)
  have e: "map rec_slot (db_records db') = map rec_slot (db_records db1)" unfolding db' by (rule touch_rows)
  note m = same_rows_records_ok [OF e s(1,2)]
  have "same_schema db db'" by (rule same_schema_trans [OF sc s(1)])
  then show ?thesis using ok1 m slots s(3) c by (simp add: written_def)
qed

lemma create_record_written:
  assumes ok: "db_ok db" "records_ok nm db" and t: "known_type db t"
    and r: "create_record nm rnd actor stamp t values cur db = (Inr u, db')"
  shows "written nm db db' \<and> (fst u, ty_id t) \<in> rec_slots db'"
proof -
  let ?i = "fst (new_id rnd ''rec'' db)" and ?d = "snd (new_id rnd ''rec'' db)"
  let ?row = "\<lparr>rw_id = ?i, rw_type = ty_id t, rw_created_by = actor, rw_created_at = stamp,
                                      rw_updated_at = stamp, rw_seq = cu_seq cur\<rparr>"
  obtain patch where p: "build_patch nm db t values None = Inr patch"
    using r by (cases "build_patch nm db t values None") (auto simp: create_record_def split: if_splits)
  obtain q1 db2 where q1: "insert_record ?row ?d = (q1, db2)" by fastforce
  then obtain x where i: "insert_record ?row ?d = (Inr x, db2)"
    using r p by (cases q1) (auto simp: create_record_def case_prod_beta Let_def split: if_splits)
  obtain q2 db3 where q2: "write_patch nm ?i patch db2 = (q2, db3)" by fastforce
  then obtain y where w: "write_patch nm ?i patch db2 = (Inr y, db')" and u: "fst u = ?i"
    using r p i by (cases q2) (auto simp: create_record_def case_prod_beta Let_def split: if_splits)
  have new: "?i \<notin> rw_id ` set (db_records db)" and db2: "db2 = ?d\<lparr>db_records := db_records db @ [?row]\<rparr>"
    using i by (auto simp: insert_record_def new_id_def split: if_splits)
  have s: "same_schema db db2" "db_values db2 = db_values db" "db_links db2 = db_links db"
    by (simp_all add: db2 new_id_def same_schema_def)
  have slots: "rec_slots db2 = insert (?i, ty_id t) (rec_slots db)" by (simp add: rec_slots_def db2 rec_slot_def)
  have core: "records_core nm db" "records_named db" using ok(2) by (simp_all add: records_ok_core)
  have known: "ty_id t \<in> ty_ids db" using t by (simp add: known_type_def ty_ids_def)
  have "value_fits nm db2 v" if "value_fits nm db v" for v
    using that unfolding value_fits_slots slots same_schemaD [OF s(1)] by blast
  moreover have "distinct (map rw_id (db_records db2))" using core(1) new by (simp add: records_core_def db2)
  moreover have "keys_unique db2 = keys_unique db" by (simp add: keys_unique_def s(2))
  ultimately have core2: "records_core nm db2"
    using core(1) known by (simp add: records_core_def slots same_schemaD [OF s(1)] s(2))
  have f: "\<forall>p\<in>set patch. patch_fits nm t None p" by (rule build_patch_typed(1) [OF p])
  have items: "\<forall>p\<in>set patch. item_fits nm db2 (ty_id t) p"
    using f patch_fits_items known_type_same [OF s(1)] t by blast
  have here: "(?i, ty_id t) \<in> rec_slots db2" by (simp add: slots)
  note c = write_patch_core [OF w core2 here items]
  have slots': "rec_slots db' = rec_slots db2" using c by (simp add: rec_slots_def)
  have sc: "same_schema db db'" using same_schema_trans [OF s(1)] c by blast
  have "records_named db'"
    unfolding records_named_slots
  proof (intro allI impI)
    fix i k a
    assume i: "(i, k) \<in> rec_slots db'" and a: "(k, a) \<in> attr_rows db'" "at_primary a"
    have ka: "(k, a) \<in> attr_rows db" using a(1) same_schemaD [OF sc] by simp
    show "(i, at_id a) \<in> val_slots db'"
    proof (cases "i = ?i")
      case False
      then have "(i, k) \<in> rec_slots db" using i slots slots' by simp
      then have "(i, at_id a) \<in> val_slots db" using core(2) ka a(2) unfolding records_named_slots by blast
      then have "(i, at_id a) \<in> val_slots db2" by (simp add: val_slots_def s(2))
      then show ?thesis using write_patch_slots(1) [OF w] False by blast
    next
      case True
      then have "k = ty_id t" using record_slot_unique [OF core2] i here slots' by blast
      then have at: "a \<in> set (ty_attrs t)" using known_attr [OF ok(1) t] ka by simp
      have tch: "touched patch (at_slug a)"
        by (rule build_patch_typed(2) [OF p refl at known_primary(1) [OF ok(1) t at a(2)]])
      have "at_id (fst p) = at_id a \<longrightarrow> snd p \<noteq> None" if "p \<in> set patch" for p
      proof
        assume e: "at_id (fst p) = at_id a"
        have "fst p = a" using known_id [OF ok(1) t] at e f that by (simp add: patch_fits_def)
        then show "snd p \<noteq> None" using tch that by (auto simp: touched_def)
      qed
      moreover obtain p where pp: "p \<in> set patch" "at_slug (fst p) = at_slug a" using tch by (auto simp: touched_def)
      have "fst p = a" using known_slug [OF ok(1) t _ at pp(2)] f pp(1) by (simp add: patch_fits_def)
      then have "at_id a \<in> (at_id \<circ> fst) ` set patch" using pp(1) by force
      ultimately show ?thesis using write_patch_slots(2) [OF w, of "at_id a"] True by blast
    qed
  qed
  then have "records_ok nm db'" using c by (simp add: records_ok_core)
  then show ?thesis using sc c s(3) slots slots' u by (auto simp: written_def)
qed

section \<open>Batches of records\<close>

text \<open>A key that is taken belongs to a record of the same type: the attribute is that of one type only.\<close>

lemma found_record_type:
  assumes ok: "db_ok db" "records_ok nm db" and t: "known_type db t" "a \<in> set (ty_attrs t)"
    and f: "find_by_unique_value nm db a v = Some rid"
  shows "(rid, ty_id t) \<in> rec_slots db"
proof -
  obtain r where r: "r \<in> set (db_values db)" "vr_attr r = at_id a" "vr_record r = rid"
    using f by (auto simp: find_by_unique_value_def dest: find_SomeD)
  have "value_fits nm db r" using ok(2) r(1) by (simp add: records_ok_def)
  then obtain k b where b: "(rid, k) \<in> rec_slots db" "(k, b) \<in> attr_rows db" "at_id b = at_id a"
    using r(2,3) by (auto simp: value_fits_slots)
  have "(k, b) = (ty_id t, a)" using attr_rows_inj [OF ok(1) b(2) known_type_rows [OF t]] b(3) by simp
  then show ?thesis using b(1) by simp
qed

lemma write_one_record_written:
  assumes ok: "db_ok db" "records_ok nm db" and t: "known_type db t" "\<forall>a. match = Some a \<longrightarrow> a \<in> set (ty_attrs t)"
    and r: "write_one_record nm rnd actor stamp t match values cur db = (Inr u, db')"
  shows "written nm db db'"
proof (cases match)
  case None
  then have "create_record nm rnd actor stamp t values cur db = (Inr u, db')" using r by (simp add: write_one_record_def)
  then show ?thesis using create_record_written [OF ok t(1)] by blast
next
  case (Some a)
  obtain raw where raw: "lookup_value t values a = Some raw" "\<not> is_blank_raw raw"
    using r Some by (auto simp: write_one_record_def split: option.splits if_splits)
  obtain v where v: "coerce_value nm a raw = Some (Some v)"
    using r Some raw by (auto simp: write_one_record_def split: option.splits)
  show ?thesis
  proof (cases "find_by_unique_value nm db a v")
    case None
    then have "create_record nm rnd actor stamp t (without_nils values) cur db = (Inr u, db')"
      using r Some raw v by (simp add: write_one_record_def)
    then show ?thesis using create_record_written [OF ok t(1)] by blast
  next
    case (Some rid)
    obtain q db1 where q: "update_record_values nm stamp t rid (without_nils values) db = (q, db1)" by fastforce
    then obtain x where w: "update_record_values nm stamp t rid (without_nils values) db = (Inr x, db')"
      using r \<open>match = Some a\<close> raw v Some by (cases q) (auto simp: write_one_record_def)
    have "(rid, ty_id t) \<in> rec_slots db"
      using found_record_type [OF ok t(1) _ Some] t(2) \<open>match = Some a\<close> by simp
    then show ?thesis using update_record_values_written [OF ok t(1) _ w] by blast
  qed
qed

lemma written_draws: "records_ok nm db \<Longrightarrow> written nm db (db\<lparr>db_draws := n\<rparr>)"
  using same_rows_records_ok [of "db\<lparr>db_draws := n\<rparr>" db] by (simp add: written_def same_schema_def)

lemma write_loop_written:
  assumes "write_loop nm rnd actor stamp t match k inps es cur db = (r, db')"
    "db_ok db" "records_ok nm db" "known_type db t" "\<forall>a. match = Some a \<longrightarrow> a \<in> set (ty_attrs t)"
  shows "written nm db db'"
  using assms(1-4)
proof (induction inps arbitrary: k es cur db)
  case Nil
  then show ?case by (simp add: written_def)
next
  case (Cons inp rest)
  let ?f = "write_one_record nm rnd actor stamp t match inp cur"
  obtain q db1 where q: "savepoint ?f db = (q, db1)" by fastforce
  have w: "written nm db db1"
  proof -
    obtain p d where p: "?f db = (p, d)" by fastforce
    show ?thesis
    proof (cases p)
      case (Inl e)
      then have "db1 = db\<lparr>db_draws := db_draws d\<rparr>" using q p by (simp add: savepoint_def)
      then show ?thesis using written_draws Cons.prems(3) by simp
    next
      case (Inr x)
      then have "?f db = (Inr x, db1)" using q p by (simp add: savepoint_def)
      then show ?thesis by (rule write_one_record_written [OF Cons.prems(2,3,4) assms(5)])
    qed
  qed
  have 1: "db_ok db1" "records_ok nm db1" "known_type db1 t"
    using w Cons.prems same_schemaD(5) known_type_same unfolding written_def by blast+
  have go: "written nm db db'" if "write_loop nm rnd actor stamp t match k2 rest es2 cur2 db1 = (r, db')" for k2 es2 cur2
    by (rule written_trans [OF w Cons.IH [OF that 1]])
  show ?case
  proof (cases q)
    case (Inl e)
    show ?thesis
    proof (cases "is_fatal e")
      case True
      then show ?thesis using Cons.prems(1) q Inl w by simp
    next
      case False
      then show ?thesis using Cons.prems(1) q Inl go by simp
    qed
  next
    case (Inr p)
    obtain i c where "p = (i, c)" by fastforce
    then show ?thesis using Cons.prems(1) q Inr go by simp
  qed
qed

section \<open>Transactions\<close>

lemma reloaded_keeps:
  assumes "keeps (space_ok nm) f"
  shows "keeps (space_ok nm) (reloaded f)"
  unfolding keeps_def
proof (intro allI impI)
  fix db x db'
  assume ok: "space_ok nm db" and r: "reloaded f db = (Inr x, db')"
  obtain db1 where l: "load_schema db = Inr db1" and f: "f db1 = (Inr x, db')"
    using r by (cases "load_schema db") (auto simp: reloaded_def)
  show "space_ok nm db'" by (rule keepsD [OF assms load_space_ok [OF ok l] f])
qed

lemma savepoint_keeps:
  assumes "keeps (space_ok nm) f" "space_ok nm db" "savepoint f db = (r, db')"
  shows "space_ok nm db'"
proof -
  obtain q d where q: "f db = (q, d)" by fastforce
  show ?thesis
  proof (cases q)
    case (Inl e)
    then show ?thesis using assms q by (auto simp: savepoint_def)
  next
    case (Inr x)
    then show ?thesis using keepsD [OF assms(1,2)] assms(3) q by (auto simp: savepoint_def)
  qed
qed

lemma run_batch_keeps:
  assumes "\<And>i. keeps (space_ok nm) (step i)" "run_batch step ident k is es db = (r, db')" "space_ok nm db"
  shows "space_ok nm db'"
  using assms(2,3)
proof (induction "is" arbitrary: k es db)
  case Nil
  then show ?case by simp
next
  case (Cons i "is")
  obtain q db1 where q: "savepoint (step i) db = (q, db1)" by fastforce
  have 1: "space_ok nm db1" by (rule savepoint_keeps [OF assms(1) Cons.prems(2) q])
  show ?case
  proof (cases q)
    case (Inl e)
    then show ?thesis using Cons.prems(1) Cons.IH [OF _ 1] q 1 by (auto split: if_splits)
  next
    case (Inr p)
    obtain a b c where "p = (a, b, c)" by (cases p) auto
    then show ?thesis using Cons.prems(1) Cons.IH [OF _ 1] q Inr by auto
  qed
qed

lemma batch_keeps: "(\<And>i. keeps (space_ok nm) (step i)) \<Longrightarrow> keeps (space_ok nm) (run_batch step ident k is es)"
  unfolding keeps_def [of _ "run_batch step ident k is es"] using run_batch_keeps by blast

lemma keeps_known_type:
  assumes "require_type db ref = Inr t" "db_ok db"
  shows "known_type db t"
proof -
  have "resolve_type db ref = Some t" using assms(1) by (auto simp: require_type_def split: option.splits)
  then have "type_by_id db (ty_id t) = Some t" by (rule resolve_type_found [OF _ db_ok_ids [OF assms(2)]])
  then show ?thesis by (auto simp: known_type_def type_by_id_def dest: find_SomeD)
qed

lemma write_records_tx_keeps: "keeps (space_ok nm) (write_records_tx nm rnd actor stamp tref mref inps)"
proof -
  let ?f = "\<lambda>db1. case require_type db1 tref of
         Inl k \<Rightarrow> (Inl k, db1)
       | Inr t \<Rightarrow>
           (case (if mref = [] then Inr None else map_sum id Some (require_match_attribute t mref)) of
              Inl k \<Rightarrow> (Inl k, db1)
            | Inr match \<Rightarrow> write_loop nm rnd actor stamp t match 0 inps [] (new_cursor db1) db1)"
  have "keeps (space_ok nm) ?f"
    unfolding keeps_def
  proof (intro allI impI)
    fix db x db'
    assume ok: "space_ok nm db" and r: "?f db = (Inr x, db')"
    obtain t where t: "require_type db tref = Inr t" using r by (cases "require_type db tref") auto
    let ?m = "if mref = [] then Inr None else map_sum id Some (require_match_attribute t mref)"
    obtain match where m: "?m = Inr match" using r t by (cases ?m) auto
    have w: "write_loop nm rnd actor stamp t match 0 inps [] (new_cursor db) db = (Inr x, db')" using r t m by simp
    have "a \<in> set (ty_attrs t)" if "match = Some a" for a
    proof -
      have "require_match_attribute t mref = Inr a"
        using m that by (cases "require_match_attribute t mref") (auto split: if_splits)
      then have "resolve_attribute_ref t mref = Some a"
        by (auto simp: require_match_attribute_def split: option.splits if_splits)
      then show ?thesis by (rule resolve_ref_found)
    qed
    then have "written nm db db'"
      using write_loop_written [OF w] keeps_known_type [OF t] ok unfolding space_ok_def by blast
    then show "space_ok nm db'" using written_space_ok ok by blast
  qed
  then show ?thesis using reloaded_keeps by (simp add: write_records_tx_def [abs_def])
qed

lemma update_record_tx_keeps: "keeps (space_ok nm) (update_record_tx nm stamp rid values)"
proof -
  let ?f = "\<lambda>db1. case record_by_id db1 rid of
         None \<Rightarrow> (Inl DsNotFound, db1)
       | Some r \<Rightarrow>
           (case type_by_id db1 (rw_type r) of
              None \<Rightarrow> (Inl DsFatal, db1)
            | Some t \<Rightarrow> update_record_values nm stamp t rid values db1)"
  have "keeps (space_ok nm) ?f"
    unfolding keeps_def
  proof (intro allI impI)
    fix db x db'
    assume ok: "space_ok nm db" and r: "?f db = (Inr x, db')"
    obtain row where row: "record_by_id db rid = Some row" using r by (cases "record_by_id db rid") auto
    obtain t where t: "type_by_id db (rw_type row) = Some t" using r row by (cases "type_by_id db (rw_type row)") auto
    have w: "update_record_values nm stamp t rid values db = (Inr x, db')" using r row t by simp
    have "known_type db t" "ty_id t = rw_type row" using t by (auto simp: known_type_def type_by_id_def dest: find_SomeD)
    then have "written nm db db'"
      using update_record_values_written [OF _ _ _ _ w] record_by_id_slot [OF row] ok unfolding space_ok_def by simp
    then show "space_ok nm db'" using written_space_ok ok by blast
  qed
  then show ?thesis using reloaded_keeps by (simp add: update_record_tx_def [abs_def])
qed

section \<open>Links\<close>

lemma rel_of_id:
  assumes "rels_ok db" "r \<in> set (db_rels db)" "q \<in> set (db_rels db)" "re_id r = re_id q"
  shows "r = q"
  using assms by (auto simp: rels_ok_def distinct_map dest: inj_onD)

text \<open>The link a call names joins records of the types its relationship relates.\<close>

lemma resolve_link_fits:
  assumes ok: "db_ok db" "rels_ok db" and r: "resolve_link db inp = Inr rl"
  shows "link_fits db (rl_link rl) \<and> rl_rel rl \<in> set (db_rels db) \<and> lk_rel (rl_link rl) = re_id (rl_rel rl)"
proof -
  obtain row where row: "record_by_id db (li_record inp) = Some row"
    using r by (cases "record_by_id db (li_record inp)") (auto simp: resolve_link_def)
  obtain t where t: "type_by_id db (rw_type row) = Some t"
    using r row by (cases "type_by_id db (rw_type row)") (auto simp: resolve_link_def)
  obtain a where a: "resolve_attribute_ref t (li_attribute inp) = Some a"
    using r row t by (cases "resolve_attribute_ref t (li_attribute inp)") (auto simp: resolve_link_def)
  obtain ref where ref: "at_type a = TRelationship" "at_rel a = Some ref"
    using r row t a by (cases "at_type a = TRelationship"; cases "at_rel a") (auto simp: resolve_link_def)
  obtain g where g: "record_by_id db (li_target inp) = Some g"
    using r row t a ref by (cases "record_by_id db (li_target inp)") (auto simp: resolve_link_def)
  obtain gt where gt: "type_by_id db (rr_target ref) = Some gt"
    using r row t a ref g by (cases "type_by_id db (rr_target ref)") (auto simp: resolve_link_def)
  have same: "rw_type g = ty_id gt" using r row t a ref g gt by (auto simp: resolve_link_def split: if_splits)
  obtain rel where rel: "find (\<lambda>x. re_id x = rr_id ref) (db_rels db) = Some rel"
    using r row t a ref g gt same by (cases "find (\<lambda>x. re_id x = rr_id ref) (db_rels db)") (auto simp: resolve_link_def)
  have rl: "rl_rel rl = rel" "rl_link rl = (if re_source_attr rel = at_id a
                then \<lparr>lk_rel = re_id rel, lk_source = rw_id row, lk_target = rw_id g\<rparr>
                else \<lparr>lk_rel = re_id rel, lk_source = rw_id g, lk_target = rw_id row\<rparr>)"
    using r row t a ref g gt same rel by (auto simp: resolve_link_def)
  have rm: "rel \<in> set (db_rels db)" "re_id rel = rr_id ref" using rel by (auto dest: find_SomeD)
  have id: "ty_id t = rw_type row" "ty_id gt = rr_target ref" using t gt by (auto simp: type_by_id_def dest: find_SomeD)
  have p: "(ty_id t, a) \<in> attr_rows db" using attr_rows_of [OF ok(1) t] resolve_ref_found [OF a] id by simp
  have slots: "(rw_id row, rw_type row) \<in> rec_slots db" "(rw_id g, rw_type g) \<in> rec_slots db"
    using record_by_id_slot [OF row] record_by_id_slot [OF g] by simp_all
  obtain q where q: "q \<in> set (db_rels db)" "source_side q (ty_id t, a) \<or> target_side q (ty_id t, a)"
    using ok(2) p ref(2) unfolding rels_ok_def by force
  have "re_id q = re_id rel" using q(2) ref(2) rm(2) by (auto simp: source_side_def target_side_def source_ref_def target_ref_def)
  then have e: "q = rel" using rel_of_id [OF ok(2) q(1) rm(1)] by simp
  have "link_fits db (rl_link rl)"
  proof (cases "source_side rel (ty_id t, a)")
    case True
    then have "rl_link rl = \<lparr>lk_rel = re_id rel, lk_source = rw_id row, lk_target = rw_id g\<rparr>"
      "rw_type row = re_source_type rel" "rw_type g = re_target_type rel"
      using rl(2) ref(2) id same by (auto simp: source_side_def source_ref_def)
    then show ?thesis using rm(1) slots unfolding link_fits_slots by auto
  next
    case False
    then have tgt: "target_side rel (ty_id t, a)" using q(2) e by simp
    have "re_source_attr rel \<noteq> at_id a"
    proof
      assume s: "re_source_attr rel = at_id a"
      have "rel_fits db rel" using ok(2) rm(1) by (simp add: rels_ok_def)
      then obtain x where x: "x \<in> attr_rows db" "source_side rel x" unfolding rel_fits_def by blast
      have "at_id (snd x) = at_id (snd (ty_id t, a))" using x(2) s by (simp add: source_side_def)
      then have "x = (ty_id t, a)" by (rule attr_rows_inj [OF ok(1) x(1) p])
      then show False using x(2) False by simp
    qed
    then have "rl_link rl = \<lparr>lk_rel = re_id rel, lk_source = rw_id g, lk_target = rw_id row\<rparr>"
      "rw_type row = re_target_type rel" "rw_type g = re_source_type rel"
      using rl(2) ref(2) id same tgt by (auto simp: target_side_def target_ref_def)
    then show ?thesis using rm(1) slots unfolding link_fits_slots by auto
  qed
  then show ?thesis using rl rm(1) by (simp split: if_splits)
qed

lemma touch_records_rows:
  "map rec_slot (db_records (touch_records stamp ids db)) = map rec_slot (db_records db)"
  "same_schema db (touch_records stamp ids db)" "db_values (touch_records stamp ids db) = db_values db"
  "db_links (touch_records stamp ids db) = db_links db"
  by (simp_all add: touch_records_def rec_slot_def same_schema_def)

text \<open>A change of the links that leaves the rest: what is to be shown of the links alone.\<close>

lemma relinked_space_ok:
  assumes ok: "space_ok nm db" and sub: "\<forall>l\<in>set ls. link_fits db l" "distinct ls"
    and card: "cardinality_ok (db\<lparr>db_links := ls\<rparr>)"
  shows "space_ok nm (touch_records stamp ids (db\<lparr>db_links := ls\<rparr>))"
proof -
  let ?db = "touch_records stamp ids (db\<lparr>db_links := ls\<rparr>)"
  have s: "same_schema db ?db" "db_links ?db = ls" "db_values ?db = db_values db"
    by (simp_all add: touch_records_def same_schema_def)
  have rows: "map rec_slot (db_records ?db) = map rec_slot (db_records db)"
    by (simp add: touch_records_def rec_slot_def)
  note m = same_rows_records_ok [OF rows s(1,3)]
  note d = same_schemaD [OF s(1)]
  have "link_fits ?db l = link_fits db l" for l unfolding link_fits_slots m(2) d ..
  moreover have "cardinality_ok ?db" using card by (simp add: cardinality_ok_def s(2) d)
  ultimately have "links_ok ?db" using sub by (simp add: links_ok_def s(2))
  then show ?thesis using ok m(1) d by (simp add: space_ok_def)
qed

lemma cardinality_subset:
  assumes "cardinality_ok db" "set ls \<subseteq> set (db_links db)"
  shows "cardinality_ok (db\<lparr>db_links := ls\<rparr>)"
  using assms unfolding cardinality_ok_def by simp blast

lemma cardinality_okD:
  "cardinality_ok db \<Longrightarrow> r \<in> set (db_rels db) \<Longrightarrow> k \<in> set (db_links db) \<Longrightarrow> l \<in> set (db_links db) \<Longrightarrow>
     lk_rel k = re_id r \<Longrightarrow> lk_rel l = re_id r \<Longrightarrow>
     (source_holds_one (re_card r) \<and> lk_source k = lk_source l)
       \<or> (target_holds_one (re_card r) \<and> lk_target k = lk_target l) \<Longrightarrow> k = l"
  unfolding cardinality_ok_def by blast

lemma cardinality_add:
  assumes rels: "rels_ok db" and c: "cardinality_ok (db\<lparr>db_links := ls\<rparr>)"
    and r: "r \<in> set (db_rels db)" "lk_rel l = re_id r"
    and free: "\<forall>k\<in>set ls. lk_rel k = lk_rel l \<longrightarrow>
      \<not> ((source_holds_one (re_card r) \<and> lk_source k = lk_source l) \<or> (target_holds_one (re_card r) \<and> lk_target k = lk_target l))"
  shows "cardinality_ok (db\<lparr>db_links := ls @ [l]\<rparr>)"
  unfolding cardinality_ok_def
proof (intro ballI impI)
  fix x k m
  assume x: "x \<in> set (db_rels (db\<lparr>db_links := ls @ [l]\<rparr>))"
    and k: "k \<in> set (db_links (db\<lparr>db_links := ls @ [l]\<rparr>))" and m: "m \<in> set (db_links (db\<lparr>db_links := ls @ [l]\<rparr>))"
    and e: "lk_rel k = re_id x" "lk_rel m = re_id x"
    and h: "(source_holds_one (re_card x) \<and> lk_source k = lk_source m) \<or> (target_holds_one (re_card x) \<and> lk_target k = lk_target m)"
  have xr: "x \<in> set (db_rels db)" using x by simp
  have same: "x = r" if "re_id x = re_id r" using rel_of_id [OF rels xr r(1) that] .
  consider "k = m" | "k = l" "m \<in> set ls" | "m = l" "k \<in> set ls" | "k \<in> set ls" "m \<in> set ls" using k m by auto
  then show "k = m"
  proof cases
    case 2
    have id: "re_id x = re_id r" using 2(1) e(1) r(2) by metis
    then have xr: "x = r" by (rule same)
    have rel: "lk_rel m = lk_rel l" using id e(2) r(2) by metis
    note n = bspec [OF free 2(2), THEN mp, OF rel]
    from h show ?thesis unfolding xr 2(1) using n by presburger
  next
    case 3
    have id: "re_id x = re_id r" using 3(1) e(2) r(2) by metis
    then have xr: "x = r" by (rule same)
    have rel: "lk_rel k = lk_rel l" using id e(1) r(2) by metis
    note n = bspec [OF free 3(2), THEN mp, OF rel]
    from h show ?thesis unfolding xr 3(1) using n by presburger
  next
    case 4
    show ?thesis by (rule cardinality_okD [OF c _ _ _ e h]) (use 4 xr in simp_all)
  qed
qed

lemma apply_link_keeps: "keeps (space_ok nm) (apply_link stamp link inp)"
  unfolding keeps_def
proof (intro allI impI)
  fix db x db'
  assume ok: "space_ok nm db" and r: "apply_link stamp link inp db = (Inr x, db')"
  obtain rl where rl: "resolve_link db inp = Inr rl"
    using r by (cases "resolve_link db inp") (auto simp: apply_link_def)
  have o: "db_ok db" "rels_ok db" "links_ok db" using ok by (simp_all add: space_ok_def)
  let ?l = "rl_link rl" and ?c = "link_conflicts db (re_card (rl_rel rl)) (rl_link rl)"
  note f = resolve_link_fits [OF o(1,2) rl]
  have lk: "\<forall>l\<in>set (db_links db). link_fits db l" "distinct (db_links db)" "cardinality_ok db"
    using o(3) by (simp_all add: links_ok_def)
  consider (same) "db' = db" | (cut) "db' = touch_records stamp (ends_of ?l) (db\<lparr>db_links := filter (\<lambda>k. k \<noteq> ?l) (db_links db)\<rparr>)"
    | (add) "?l \<notin> set (db_links db)"
        "db' = touch_records stamp (ends_of ?l @ concat (map ends_of ?c))
                 (db\<lparr>db_links := filter (\<lambda>k. k \<notin> set ?c) (db_links db) @ [?l]\<rparr>)"
    using r rl by (auto simp: apply_link_def Let_def split: if_splits)
  then show "space_ok nm db'"
  proof cases
    case same
    then show ?thesis using ok by simp
  next
    case cut
    show ?thesis unfolding cut
      by (rule relinked_space_ok [OF ok _ _ cardinality_subset [OF lk(3)]]) (use lk in auto)
  next
    case add
    let ?ls = "filter (\<lambda>k. k \<notin> set ?c) (db_links db)"
    have c: "cardinality_ok (db\<lparr>db_links := ?ls\<rparr>)" by (rule cardinality_subset [OF lk(3)]) auto
    show ?thesis unfolding add(2)
    proof (rule relinked_space_ok [OF ok])
      show "cardinality_ok (db\<lparr>db_links := ?ls @ [?l]\<rparr>)"
        by (rule cardinality_add [OF o(2) c]) (use f in \<open>auto simp: link_conflicts_def\<close>)
    qed (use lk add(1) f in auto)
  qed
qed

lemma link_step_keeps: "keeps (space_ok nm) (link_step stamp link inp)"
  unfolding keeps_def
proof (intro allI impI)
  fix db x db'
  assume ok: "space_ok nm db" and r: "link_step stamp link inp db = (Inr x, db')"
  obtain q db1 where q: "apply_link stamp link inp db = (q, db1)" by fastforce
  then obtain c where "apply_link stamp link inp db = (Inr c, db')" using r by (cases q) (auto simp: link_step_def)
  then show "space_ok nm db'" using keepsD [OF apply_link_keeps ok] by blast
qed

lemma change_links_tx_keeps: "keeps (space_ok nm) (change_links_tx stamp link inps)"
proof -
  have "keeps (space_ok nm) (reloaded (run_batch (link_step stamp link)
       (\<lambda>inp. li_record inp @ '' '' @ li_attribute inp @ '' '' @ li_target inp) 0 inps []))"
    by (intro reloaded_keeps batch_keeps link_step_keeps)
  then show ?thesis by (simp add: change_links_tx_def [abs_def])
qed

section \<open>Schema transactions\<close>

lemma type_step_keeps: "keeps (space_ok nm) (type_step rnd actor stamp inp)"
  unfolding keeps_def
proof (intro allI impI)
  fix db x db'
  assume ok: "space_ok nm db" and r: "type_step rnd actor stamp inp db = (Inr x, db')"
  obtain q db1 where q: "create_object_type rnd actor stamp inp db = (q, db1)" by fastforce
  then obtain t where "create_object_type rnd actor stamp inp db = (Inr t, db')" using r by (cases q) (auto simp: type_step_def)
  then show "space_ok nm db'" using keepsD [OF schema_step_keeps [OF create_object_type_step] ok] by blast
qed

lemma attribute_step_keeps: "keeps (space_ok nm) (attribute_step rnd actor tid inp)"
  unfolding keeps_def
proof (intro allI impI)
  fix db x db'
  assume ok: "space_ok nm db" and r: "attribute_step rnd actor tid inp db = (Inr x, db')"
  obtain q db1 where q: "add_attribute rnd actor tid inp db = (q, db1)" by fastforce
  then obtain a where "add_attribute rnd actor tid inp db = (Inr a, db')" using r by (cases q) (auto simp: attribute_step_def)
  then show "space_ok nm db'" using keepsD [OF schema_step_keeps [OF add_attribute_step] ok] by blast
qed

lemma create_types_tx_keeps: "keeps (space_ok nm) (create_types_tx rnd actor stamp inps)"
proof -
  have "keeps (space_ok nm) (run_batch (\<lambda>inp. reloaded (type_step rnd actor stamp inp)) (\<lambda>inp. trim_space (ti_name inp)) 0 inps [])"
    by (intro batch_keeps reloaded_keeps type_step_keeps)
  then show ?thesis by (simp add: create_types_tx_def [abs_def])
qed

lemma add_attributes_tx_keeps: "keeps (space_ok nm) (add_attributes_tx rnd actor ref inps)"
proof -
  let ?b = "\<lambda>t. run_batch (\<lambda>inp. reloaded (attribute_step rnd actor (ty_id t) inp)) (\<lambda>inp. trim_space (ai_name inp)) 0 inps []"
  let ?f = "\<lambda>db1. case require_type db1 ref of Inl k \<Rightarrow> (Inl k, db1) | Inr t \<Rightarrow> ?b t db1"
  have "keeps (space_ok nm) ?f"
    unfolding keeps_def
  proof (intro allI impI)
    fix db x db'
    assume ok: "space_ok nm db" and r: "?f db = (Inr x, db')"
    obtain t where "require_type db ref = Inr t" using r by (cases "require_type db ref") auto
    then have b: "?b t db = (Inr x, db')" using r by simp
    have k: "keeps (space_ok nm) (?b t)" by (intro batch_keeps reloaded_keeps attribute_step_keeps)
    show "space_ok nm db'" by (rule keepsD [OF k ok b])
  qed
  then show ?thesis using reloaded_keeps by (simp add: add_attributes_tx_def [abs_def])
qed

end
