(* ===== verification/SpaceDeletes.thy ===== *)
theory SpaceDeletes
  imports SpaceWrites
begin

text \<open>
  The deletes of a space keep the invariants of \<^verbatim>\<open>SpaceInv\<close>, and remove exactly the rows the preview has
  counted.
\<close>

section \<open>Removing a set of rows that nothing else refers to\<close>

text \<open>The rows left when the types \<open>T\<close>, attributes \<open>A\<close>, relationships \<open>R\<close> and records \<open>I\<close> are gone.\<close>

definition without :: "string set \<Rightarrow> string set \<Rightarrow> string set \<Rightarrow> string set \<Rightarrow> 'f space_db \<Rightarrow> 'f space_db" where
  "without T A R I db =
     db\<lparr>db_types := map (\<lambda>t. t\<lparr>ty_attrs := filter (\<lambda>a. at_id a \<notin> A) (ty_attrs t)\<rparr>)
                      (filter (\<lambda>t. ty_id t \<notin> T) (db_types db)),
        db_rels := filter (\<lambda>r. re_id r \<notin> R) (db_rels db),
        db_records := filter (\<lambda>r. rw_id r \<notin> I) (db_records db),
        db_values := filter (\<lambda>v. vr_record v \<notin> I \<and> vr_attr v \<notin> A) (db_values db),
        db_links := filter (\<lambda>l. lk_rel l \<notin> R \<and> lk_source l \<notin> I \<and> lk_target l \<notin> I) (db_links db)\<rparr>"

text \<open>The sets are closed: a relationship goes with its types, its attributes go with it and it with them,
  the records go with their type, and a type that stays keeps its name attribute.\<close>

definition closed_delete :: "string set \<Rightarrow> string set \<Rightarrow> string set \<Rightarrow> string set \<Rightarrow> 'f space_db \<Rightarrow> bool" where
  "closed_delete T A R I db \<longleftrightarrow>
     (\<forall>r\<in>set (db_rels db). re_id r \<notin> R \<longrightarrow>
        re_source_type r \<notin> T \<and> re_target_type r \<notin> T \<and> re_source_attr r \<notin> A \<and> re_inverse r \<notin> A - {[]})
     \<and> (\<forall>t a. (t, a) \<in> attr_rows db \<longrightarrow>
          (at_primary a \<longrightarrow> t \<notin> T \<longrightarrow> at_id a \<notin> A)
          \<and> (case at_rel a of None \<Rightarrow> True | Some ref \<Rightarrow> rr_id ref \<in> R \<longrightarrow> at_id a \<in> A)
          \<and> (t \<in> T \<longrightarrow> at_id a \<in> A))
     \<and> (\<forall>i t. (i, t) \<in> rec_slots db \<longrightarrow> t \<in> T \<longrightarrow> i \<in> I)"

lemma without_fields:
  "attr_rows (without T A R I db) = {p \<in> attr_rows db. fst p \<notin> T \<and> at_id (snd p) \<notin> A}"
  "ty_ids (without T A R I db) = ty_ids db - T"
  "rec_slots (without T A R I db) = {p \<in> rec_slots db. fst p \<notin> I}"
  "val_slots (without T A R I db) = {p \<in> val_slots db. fst p \<notin> I \<and> snd p \<notin> A}"
  "db_rels (without T A R I db) = filter (\<lambda>r. re_id r \<notin> R) (db_rels db)"
  "db_records (without T A R I db) = filter (\<lambda>r. rw_id r \<notin> I) (db_records db)"
  "db_values (without T A R I db) = filter (\<lambda>v. vr_record v \<notin> I \<and> vr_attr v \<notin> A) (db_values db)"
  "db_links (without T A R I db) = filter (\<lambda>l. lk_rel l \<notin> R \<and> lk_source l \<notin> I \<and> lk_target l \<notin> I) (db_links db)"
proof -
  show "attr_rows (without T A R I db) = {p \<in> attr_rows db. fst p \<notin> T \<and> at_id (snd p) \<notin> A}"
    by (auto simp: attr_rows_union without_def)
  show "ty_ids (without T A R I db) = ty_ids db - T" by (auto simp: ty_ids_def without_def image_image)
  show "rec_slots (without T A R I db) = {p \<in> rec_slots db. fst p \<notin> I}"
    by (auto simp: rec_slots_def rec_slot_def without_def)
  show "val_slots (without T A R I db) = {p \<in> val_slots db. fst p \<notin> I \<and> snd p \<notin> A}"
    by (auto simp: val_slots_def value_slot_def without_def)
qed (simp_all add: without_def)

lemma type_ok_drop:
  assumes "type_ok t" "\<forall>a\<in>set (ty_attrs t). at_primary a \<longrightarrow> at_id a \<notin> A"
  shows "type_ok (t\<lparr>ty_attrs := filter (\<lambda>a. at_id a \<notin> A) (ty_attrs t)\<rparr>)"
proof -
  have f: "filter at_primary (filter (\<lambda>a. at_id a \<notin> A) (ty_attrs t)) = filter at_primary (ty_attrs t)"
    using assms(2) by (auto intro: filter_cong)
  have "length (filter (\<lambda>a. at_id a \<notin> A) (ty_attrs t)) \<le> 100"
    using length_filter_le [of _ "ty_attrs t"] assms(1) by (metis type_ok_def le_trans)
  moreover have "list_all attr_ok (filter (\<lambda>a. at_id a \<notin> A) (ty_attrs t))"
    using assms(1) by (auto simp: type_ok_def list_all_iff)
  ultimately show ?thesis using assms(1) by (simp add: type_ok_def distinct_map_filter f del: filter_filter)
qed

lemma map_drop_fields:
  fixes ts :: "obj_type list"
  defines "d \<equiv> \<lambda>A. map (\<lambda>t. t\<lparr>ty_attrs := filter (\<lambda>a. at_id a \<notin> A) (ty_attrs t)\<rparr>)"
  shows "map ty_id (d A ts) = map ty_id ts" "map ty_slug (d A ts) = map ty_slug ts"
    "map type_key (d A ts) = map type_key ts"
    "concat (map ty_attrs (d A ts)) = filter (\<lambda>a. at_id a \<notin> A) (concat (map ty_attrs ts))"
  by (simp_all add: d_def type_key_def filter_concat o_def)

lemma distinct_sublist_concat:
  "distinct (concat (map g (concat (map f ts)))) \<Longrightarrow> distinct (concat (map g (filter Q (concat (map f (filter P ts))))))"
proof -
  have "subseq (concat (map g (filter Q (concat (map f (filter P ts)))))) (concat (map g (concat (map f ts))))"
  proof -
    have s: "subseq (concat (map h xs)) (concat (map h ys))" if "subseq xs ys" for xs ys :: "'z list" and h :: "'z \<Rightarrow> 'y list"
      using that by (induction rule: list_emb.induct) (auto intro: list_emb_append_mono)
    have "subseq (concat (map f (filter P ts))) (concat (map f ts))" by (rule s) simp
    then have "subseq (filter Q (concat (map f (filter P ts)))) (concat (map f ts))"
      using subseq_order.order_trans subseq_filter_left by blast
    then show ?thesis by (rule s)
  qed
  then show "distinct (concat (map g (concat (map f ts)))) \<Longrightarrow> distinct (concat (map g (filter Q (concat (map f (filter P ts))))))"
    by (auto simp: subseq_conv_nths intro: distinct_nthsI)
qed

lemma without_db_ok:
  assumes ok: "db_ok db" and c: "closed_delete T A R I db"
  shows "db_ok (without T A R I db)"
proof -
  let ?db = "without T A R I db"
  let ?ts = "filter (\<lambda>t. ty_id t \<notin> T) (db_types db)"
  have ts: "db_types ?db = map (\<lambda>t. t\<lparr>ty_attrs := filter (\<lambda>a. at_id a \<notin> A) (ty_attrs t)\<rparr>) ?ts"
    by (simp add: without_def)
  note f = map_drop_fields [of A ?ts, folded ts]
  have attrs: "all_attrs ?db = filter (\<lambda>a. at_id a \<notin> A) (concat (map ty_attrs ?ts))"
    using f(4) by (simp add: all_attrs_def)
  have "length (db_types ?db) \<le> 50"
    using ok le_trans [OF length_filter_le [of "\<lambda>t. ty_id t \<notin> T" "db_types db"]] unfolding ts by (simp add: db_ok_def)
  moreover have "distinct (map ty_id (db_types ?db))" "distinct (map ty_slug (db_types ?db))" "distinct (map type_key (db_types ?db))"
    using ok f(1-3) by (simp_all add: db_ok_def distinct_map_filter)
  moreover have "list_all type_ok (db_types ?db)"
    unfolding ts list_all_iff
  proof
    fix u assume "u \<in> set (map (\<lambda>t. t\<lparr>ty_attrs := filter (\<lambda>a. at_id a \<notin> A) (ty_attrs t)\<rparr>) ?ts)"
    then obtain t where t: "t \<in> set (db_types db)" "ty_id t \<notin> T"
      and u: "u = t\<lparr>ty_attrs := filter (\<lambda>a. at_id a \<notin> A) (ty_attrs t)\<rparr>" by auto
    have "at_id a \<notin> A" if "a \<in> set (ty_attrs t)" "at_primary a" for a
    proof -
      have "(ty_id t, a) \<in> attr_rows db" using t(1) that(1) by (auto simp: attr_rows_def)
      then show ?thesis using c t(2) that(2) unfolding closed_delete_def by blast
    qed
    then show "type_ok u" unfolding u using type_ok_drop [of t A] ok t(1) by (simp add: db_ok_def list_all_iff)
  qed
  moreover have "distinct (map at_id (all_attrs ?db))"
  proof -
    have m: "map at_id xs = concat (map (\<lambda>a. [at_id a]) xs)" for xs by (induction xs) auto
    have "distinct (map at_id (concat (map ty_attrs (db_types db))))" using ok by (simp only: db_ok_def all_attrs_def)
    then have d: "distinct (concat (map (\<lambda>a. [at_id a]) (concat (map ty_attrs (db_types db)))))" unfolding m .
    show ?thesis unfolding attrs m by (rule distinct_sublist_concat [OF d])
  qed
  moreover have "distinct (option_ids ?db)"
  proof -
    have d: "distinct (concat (map (\<lambda>a. map op_id (at_options a)) (concat (map ty_attrs (db_types db)))))"
      using ok by (simp only: db_ok_def option_ids_def all_attrs_def)
    show ?thesis unfolding option_ids_def attrs by (rule distinct_sublist_concat [OF d])
  qed
  ultimately show ?thesis unfolding db_ok_def by blast
qed

lemma without_rels_ok:
  assumes ok: "rels_ok db" and c: "closed_delete T A R I db"
  shows "rels_ok (without T A R I db)"
  unfolding rels_ok_def
proof (intro conjI ballI impI)
  let ?db = "without T A R I db"
  note w = without_fields [of T A R I db]
  show "distinct (map re_id (db_rels ?db))" using ok by (simp add: w rels_ok_def distinct_map_filter)
  show "rel_fits ?db r" if r: "r \<in> set (db_rels ?db)" for r
  proof -
    have r1: "r \<in> set (db_rels db)" "re_id r \<notin> R" using r by (auto simp: w)
    have f: "rel_fits db r" using ok r1(1) by (simp add: rels_ok_def)
    have k: "re_source_type r \<notin> T" "re_target_type r \<notin> T" "re_source_attr r \<notin> A" "re_inverse r \<notin> A - {[]}"
      using c r1 unfolding closed_delete_def by blast+
    have s: "\<exists>p\<in>attr_rows ?db. source_side r p"
    proof -
      obtain p where p: "p \<in> attr_rows db" "source_side r p" using f unfolding rel_fits_def by blast
      then have "p \<in> attr_rows ?db" using k unfolding w source_side_def by simp
      then show ?thesis using p(2) by blast
    qed
    have t: "\<exists>p\<in>attr_rows ?db. target_side r p" if i: "re_inverse r \<noteq> []"
    proof -
      obtain p where p: "p \<in> attr_rows db" "target_side r p" using f i unfolding rel_fits_def by blast
      then have "p \<in> attr_rows ?db" using k i unfolding w target_side_def by simp
      then show ?thesis using p(2) by blast
    qed
    show ?thesis using f s t k unfolding rel_fits_def w(2) by blast
  qed
  show "\<exists>r\<in>set (db_rels ?db). source_side r p \<or> target_side r p"
    if p: "p \<in> attr_rows ?db" "at_rel (snd p) \<noteq> None" for p
  proof -
    obtain t a ref where pa: "p = (t, a)" "at_rel a = Some ref" using p(2) by (cases p) auto
    have old: "(t, a) \<in> attr_rows db" "t \<notin> T" "at_id a \<notin> A" using p(1) pa by (auto simp: w)
    obtain r where r: "r \<in> set (db_rels db)" "source_side r p \<or> target_side r p"
      using ok old(1) p(2) pa(1) unfolding rels_ok_def by blast
    have "re_id r = rr_id ref" using r(2) pa by (auto simp: source_side_def target_side_def source_ref_def target_ref_def)
    moreover have "rr_id ref \<notin> R"
    proof -
      have "case at_rel a of None \<Rightarrow> True | Some ref \<Rightarrow> rr_id ref \<in> R \<longrightarrow> at_id a \<in> A"
        using c old(1) unfolding closed_delete_def by blast
      then show ?thesis using pa(2) old(3) by auto
    qed
    ultimately show ?thesis using r by (auto simp: w)
  qed
qed

lemma without_records_ok:
  assumes ok: "records_ok nm db" and c: "closed_delete T A R I db"
  shows "records_ok nm (without T A R I db)"
  unfolding records_ok_core
proof
  let ?db = "without T A R I db"
  note w = without_fields [of T A R I db]
  have core: "records_core nm db" "records_named db" using ok by (simp_all add: records_ok_core)
  have staying: "t \<notin> T" if "(i, t) \<in> rec_slots db" "i \<notin> I" for i t using c that unfolding closed_delete_def by blast
  have sub: "set (db_values ?db) \<subseteq> set (db_values db)" by (auto simp: w)
  have "value_fits nm ?db v" if v: "v \<in> set (db_values ?db)" for v
  proof -
    have i: "vr_record v \<notin> I" "vr_attr v \<notin> A" using v by (auto simp: w)
    have "value_fits nm db v" using core(1) v sub unfolding records_core_def by blast
    then obtain t a where ta: "(vr_record v, t) \<in> rec_slots db" "(t, a) \<in> attr_rows db" "at_id a = vr_attr v"
        "at_slug a = vr_slug v \<and> value_type nm a (vr_value v)
          \<and> vr_key v = (if at_unique a then Some (unique_key nm (vr_value v)) else None)"
      unfolding value_fits_slots by blast
    have "(vr_record v, t) \<in> rec_slots ?db" "(t, a) \<in> attr_rows ?db"
      using ta(1-3) i staying by (simp_all add: w)
    then show ?thesis unfolding value_fits_slots using ta(3,4) by blast
  qed
  moreover have "snd ` rec_slots ?db \<subseteq> ty_ids ?db"
    using core(1) staying by (force simp: w records_core_def)
  moreover have "keys_unique ?db"
    using keys_uniqueD core(1) sub unfolding keys_unique_def records_core_def by blast
  ultimately show "records_core nm ?db"
    using core(1) by (simp add: records_core_def w(6,7) distinct_map_filter)
  show "records_named ?db"
    unfolding records_named_slots
  proof (intro allI impI)
    fix i t a
    assume s: "(i, t) \<in> rec_slots ?db" "(t, a) \<in> attr_rows ?db" "at_primary a"
    have "(i, at_id a) \<in> val_slots db" using core(2) s unfolding records_named_slots w by blast
    then show "(i, at_id a) \<in> val_slots ?db" using s unfolding w by simp
  qed
qed

lemma without_links_ok:
  assumes ok: "links_ok db"
  shows "links_ok (without T A R I db)"
proof -
  let ?db = "without T A R I db"
  note w = without_fields [of T A R I db]
  have "link_fits ?db l" if l: "l \<in> set (db_links ?db)" for l
  proof -
    have "link_fits db l" using ok l unfolding w links_ok_def by simp
    then obtain r where "r \<in> set (db_rels db)" "re_id r = lk_rel l" "(lk_source l, re_source_type r) \<in> rec_slots db"
      "(lk_target l, re_target_type r) \<in> rec_slots db" unfolding link_fits_slots by blast
    then show ?thesis using l unfolding link_fits_slots w by auto
  qed
  moreover have "cardinality_ok ?db"
    unfolding cardinality_ok_def
  proof (intro ballI impI)
    fix r k l
    assume m: "r \<in> set (db_rels ?db)" "k \<in> set (db_links ?db)" "l \<in> set (db_links ?db)"
      and e: "lk_rel k = re_id r" "lk_rel l = re_id r"
      and h: "(source_holds_one (re_card r) \<and> lk_source k = lk_source l) \<or> (target_holds_one (re_card r) \<and> lk_target k = lk_target l)"
    have c: "cardinality_ok db" using ok by (simp add: links_ok_def)
    show "k = l" by (rule cardinality_okD [OF c _ _ _ e h]) (use m in \<open>simp_all add: w\<close>)
  qed
  ultimately show ?thesis using ok by (simp add: links_ok_def w(8))
qed

lemma without_space_ok: "space_ok nm db \<Longrightarrow> closed_delete T A R I db \<Longrightarrow> space_ok nm (without T A R I db)"
  by (simp add: space_ok_def without_db_ok without_rels_ok without_records_ok without_links_ok)

section \<open>What a plan removes\<close>

lemma set_sorted_copy [simp]: "set (sorted_copy xs) = set xs" "distinct (sorted_copy xs)"
  by (simp_all add: sorted_copy_def)

lemma delete_types_none:
  assumes t: "\<forall>t a. (t, a) \<in> attr_rows db \<longrightarrow> t \<notin> set ts" and r: "\<forall>i t. (i, t) \<in> rec_slots db \<longrightarrow> t \<notin> set ts"
  shows "delete_types ts db = db\<lparr>db_types := filter (\<lambda>t. ty_id t \<notin> set ts) (db_types db)\<rparr>"
proof -
  have "ty_attrs u = []" if u: "u \<in> set (db_types db)" "ty_id u \<in> set ts" for u
  proof (cases "ty_attrs u")
    case (Cons a as)
    then have "(ty_id u, a) \<in> attr_rows db" using u(1) by (auto simp: attr_rows_def)
    then show ?thesis using t u(2) by blast
  qed simp
  then have a: "concat (map ty_attrs (filter (\<lambda>t. ty_id t \<in> set ts) (db_types db))) = []" by simp
  have b: "record_ids_of_types db ts = []"
    using r by (auto simp: record_ids_of_types_def rec_slots_def rec_slot_def filter_empty_conv)
  have "map (drop_attrs []) (db_types db) = db_types db" by (rule map_idI) (simp add: drop_attrs_def)
  then have "delete_attrs [] db = db" by (simp add: delete_attrs_def delete_values_where_def)
  moreover have "delete_records [] db = db" by (simp add: delete_records_def delete_links_where_def delete_values_where_def)
  ultimately show ?thesis unfolding delete_types_def Let_def a b by simp
qed

lemma apply_delete_without:
  assumes a: "\<forall>t a. (t, a) \<in> attr_rows db \<longrightarrow> t \<in> set (dp_types p) \<longrightarrow> at_id a \<in> set (dp_attrs p)"
    and r: "\<forall>i t. (i, t) \<in> rec_slots db \<longrightarrow> t \<in> set (dp_types p) \<longrightarrow> i \<in> set (dp_records p)"
  shows "apply_delete p db = without (set (dp_types p)) (set (dp_attrs p)) (set (dp_rels p)) (set (dp_records p)) db"
proof -
  let ?d = "delete_records (dp_records p) (delete_attrs (dp_attrs p) (delete_rels (dp_rels p) db))"
  have rows: "attr_rows ?d = {q \<in> attr_rows db. at_id (snd q) \<notin> set (dp_attrs p)}"
    by (auto simp: attr_rows_union delete_records_def delete_attrs_def delete_rels_def delete_links_where_def
        delete_values_where_def drop_attrs_def)
  have slots: "rec_slots ?d = {q \<in> rec_slots db. fst q \<notin> set (dp_records p)}"
    by (auto simp: rec_slots_def rec_slot_def delete_records_def delete_attrs_def delete_rels_def delete_links_where_def
        delete_values_where_def)
  have "delete_types (dp_types p) ?d = ?d\<lparr>db_types := filter (\<lambda>t. ty_id t \<notin> set (dp_types p)) (db_types ?d)\<rparr>"
    by (rule delete_types_none) (use a r in \<open>auto simp: rows slots\<close>)
  moreover have "filter (\<lambda>t. ty_id t \<notin> set (dp_types p)) (map (drop_attrs as) ts)
      = map (\<lambda>t. t\<lparr>ty_attrs := filter (\<lambda>a. at_id a \<notin> set as) (ty_attrs t)\<rparr>) (filter (\<lambda>t. ty_id t \<notin> set (dp_types p)) ts)" for as ts
    by (induction ts) (simp_all add: drop_attrs_def)
  ultimately show ?thesis
    unfolding apply_delete_def
    by (simp add: without_def delete_records_def delete_attrs_def delete_rels_def delete_links_where_def
        delete_values_where_def conj_commute conj_left_commute)
qed

text \<open>The attributes that carry a relationship are those that refer to it.\<close>

definition carries :: "relationship \<Rightarrow> string \<Rightarrow> bool" where
  "carries r i \<longleftrightarrow> i = re_source_attr r \<or> (re_inverse r \<noteq> [] \<and> i = re_inverse r)"

definition refers :: "attribute \<Rightarrow> string \<Rightarrow> bool" where
  "refers a i \<longleftrightarrow> (case at_rel a of None \<Rightarrow> False | Some ref \<Rightarrow> rr_id ref = i)"

lemma side_refers: "source_side r p \<or> target_side r p \<Longrightarrow> refers (snd p) (re_id r) \<and> carries r (at_id (snd p))"
  by (auto simp: source_side_def target_side_def refers_def carries_def source_ref_def target_ref_def)

lemma refers_side:
  assumes ok: "rels_ok db" and p: "p \<in> attr_rows db" "refers (snd p) i"
  shows "\<exists>r\<in>set (db_rels db). re_id r = i \<and> (source_side r p \<or> target_side r p)"
proof -
  have "at_rel (snd p) \<noteq> None" using p(2) by (cases "at_rel (snd p)") (simp_all add: refers_def)
  then obtain r where r: "r \<in> set (db_rels db)" "source_side r p \<or> target_side r p"
    using ok p(1) unfolding rels_ok_def by blast
  have "re_id r = i" using side_refers [OF r(2)] p(2) by (auto simp: refers_def split: option.splits)
  then show ?thesis using r by blast
qed

lemma carries_row:
  assumes ok: "rels_ok db" and r: "r \<in> set (db_rels db)" and c: "carries r i"
  shows "\<exists>p\<in>attr_rows db. at_id (snd p) = i \<and> (source_side r p \<or> target_side r p)"
proof -
  have f: "rel_fits db r" using ok r by (simp add: rels_ok_def)
  show ?thesis
  proof (cases "i = re_source_attr r")
    case True
    obtain p where "p \<in> attr_rows db" "source_side r p" using f unfolding rel_fits_def by blast
    then show ?thesis using True by (auto simp: source_side_def)
  next
    case False
    then have "re_inverse r \<noteq> []" "i = re_inverse r" using c by (auto simp: carries_def)
    then obtain p where "p \<in> attr_rows db" "target_side r p" using f unfolding rel_fits_def by blast
    then show ?thesis using \<open>i = re_inverse r\<close> by (auto simp: target_side_def)
  qed
qed

lemma carries_refers:
  assumes ok: "db_ok db" "rels_ok db" and r: "r \<in> set (db_rels db)" and p: "p \<in> attr_rows db"
  shows "carries r (at_id (snd p)) \<longleftrightarrow> refers (snd p) (re_id r)"
proof
  assume "carries r (at_id (snd p))"
  then obtain q where q: "q \<in> attr_rows db" "at_id (snd q) = at_id (snd p)" "source_side r q \<or> target_side r q"
    using carries_row [OF ok(2) r] by blast
  have "q = p" by (rule attr_rows_inj [OF ok(1) q(1) p q(2)])
  then show "refers (snd p) (re_id r)" using side_refers [OF q(3)] by simp
next
  assume "refers (snd p) (re_id r)"
  then obtain q where q: "q \<in> set (db_rels db)" "re_id q = re_id r" "source_side q p \<or> target_side q p"
    using refers_side [OF ok(2) p] by blast
  have "q = r" by (rule rel_of_id [OF ok(2) q(1) r q(2)])
  then show "carries r (at_id (snd p))" using side_refers [OF q(3)] by simp
qed

lemma refers_plain:
  assumes ok: "db_ok db" and p: "p \<in> attr_rows db" "refers (snd p) i"
  shows "\<not> at_primary (snd p)"
proof
  assume pr: "at_primary (snd p)"
  obtain t where t: "t \<in> set (db_types db)" "snd p \<in> set (ty_attrs t)" using p(1) by (auto simp: attr_rows_def)
  have "type_ok t" using ok t(1) by (simp add: db_ok_def list_all_iff)
  then have "attr_ok (snd p)" "is_primary_ok (snd p)" using t(2) pr by (auto simp: type_ok_def list_all_iff)
  then show False using p(2) by (auto simp: attr_ok_def is_primary_ok_def refers_def split: option.splits)
qed

section \<open>Every plan is closed\<close>

lemma find_attribute_row:
  assumes "find_attribute db i = Some (t, a)"
  shows "(ty_id t, a) \<in> attr_rows db \<and> at_id a = i"
proof -
  obtain u where u: "find (\<lambda>t. attr_by_id t i \<noteq> None) (db_types db) = Some u" "attr_by_id u i = Some a" "u = t"
    using assms by (auto simp: find_attribute_def split: option.splits)
  have "t \<in> set (db_types db)" using u by (auto dest: find_SomeD)
  moreover have "a \<in> set (ty_attrs t)" "at_id a = i" using u by (auto simp: attr_by_id_def dest: find_SomeD)
  ultimately show ?thesis by (auto simp: attr_rows_def)
qed

text \<open>The sets a plan for attributes has built: none names a type, a relationship comes with both its
  attributes and they with it.\<close>

definition attrs_closed :: "'f space_db \<Rightarrow> string set \<Rightarrow> string set \<Rightarrow> bool" where
  "attrs_closed db as rs \<longleftrightarrow>
     (\<forall>p\<in>attr_rows db. at_id (snd p) \<in> as \<longrightarrow> \<not> at_primary (snd p) \<and> (\<forall>i. refers (snd p) i \<longrightarrow> i \<in> rs))
     \<and> (\<forall>p\<in>attr_rows db. \<forall>i\<in>rs. refers (snd p) i \<longrightarrow> at_id (snd p) \<in> as)"

lemma attrs_closed_delete:
  assumes ok: "db_ok db" "rels_ok db" and c: "attrs_closed db as rs"
  shows "closed_delete {} as rs {} db"
proof -
  have out: "\<not> (carries r i \<and> i \<in> as)" if r: "r \<in> set (db_rels db)" "re_id r \<notin> rs" for r i
  proof
    assume ca: "carries r i \<and> i \<in> as"
    then obtain p where p: "p \<in> attr_rows db" "at_id (snd p) = i" "source_side r p \<or> target_side r p"
      using carries_row [OF ok(2) r(1)] by blast
    have "refers (snd p) (re_id r)" using side_refers [OF p(3)] by simp
    then show False using c p(1,2) ca r(2) unfolding attrs_closed_def by blast
  qed
  have in_as: "case at_rel a of None \<Rightarrow> True | Some ref \<Rightarrow> rr_id ref \<in> rs \<longrightarrow> at_id a \<in> as"
    if "(t, a) \<in> attr_rows db" for t a
  proof (cases "at_rel a")
    case (Some ref)
    have "refers (snd (t, a)) (rr_id ref)" using Some by (simp add: refers_def)
    then have "rr_id ref \<in> rs \<longrightarrow> at_id a \<in> as" using c that unfolding attrs_closed_def by fastforce
    then show ?thesis using Some by simp
  qed simp
  have pri: "at_primary a \<longrightarrow> at_id a \<notin> as" if "(t, a) \<in> attr_rows db" for t a
    using c that unfolding attrs_closed_def by fastforce
  have rel: "re_source_attr r \<notin> as \<and> re_inverse r \<notin> as - {[]}" if "r \<in> set (db_rels db)" "re_id r \<notin> rs" for r
    using out [OF that] by (auto simp: carries_def)
  show ?thesis unfolding closed_delete_def using rel in_as pri by simp
qed

text \<open>One attribute more, with the other side of its relationship.\<close>

lemma attrs_closed_plain:
  assumes ok: "db_ok db" and c: "attrs_closed db as rs" and p: "p \<in> attr_rows db" "\<not> at_primary (snd p)" "at_rel (snd p) = None"
  shows "attrs_closed db (insert (at_id (snd p)) as) rs"
proof -
  have "q = p" if "q \<in> attr_rows db" "at_id (snd q) = at_id (snd p)" for q
    by (rule attr_rows_inj [OF ok that(1) p(1) that(2)])
  moreover have "\<not> refers (snd p) i" for i using p(3) by (simp add: refers_def)
  ultimately show ?thesis using c p(2) unfolding attrs_closed_def by blast
qed

lemma attrs_closed_rel:
  assumes ok: "db_ok db" "rels_ok db" and c: "attrs_closed db as rs" and r: "r \<in> set (db_rels db)"
  shows "attrs_closed db (as \<union> {i. carries r i}) (insert (re_id r) rs)"
proof -
  have k: "carries r (at_id (snd q)) \<longleftrightarrow> refers (snd q) (re_id r)" if "q \<in> attr_rows db" for q
    by (rule carries_refers [OF ok r that])
  have pl: "\<not> at_primary (snd q)" if "q \<in> attr_rows db" "refers (snd q) i" for q i
    by (rule refers_plain [OF ok(1) that])
  have one: "i = j" if "refers a i" "refers a j" for a i j
    using that by (cases "at_rel a") (simp_all add: refers_def)
  show ?thesis
    unfolding attrs_closed_def
  proof (intro conjI ballI impI allI)
    fix q assume q: "q \<in> attr_rows db" "at_id (snd q) \<in> as \<union> {i. carries r i}"
    show "\<not> at_primary (snd q)" using q c k [OF q(1)] pl [OF q(1)] unfolding attrs_closed_def by blast
    show "i \<in> insert (re_id r) rs" if "refers (snd q) i" for i
      using q c k [OF q(1)] one that unfolding attrs_closed_def by blast
  next
    fix q i assume q: "q \<in> attr_rows db" "i \<in> insert (re_id r) rs" "refers (snd q) i"
    show "at_id (snd q) \<in> as \<union> {i. carries r i}" using q c k [OF q(1)] unfolding attrs_closed_def by blast
  qed
qed

lemma ref_sides:
  assumes "source_side r p \<or> target_side r p" "re_source_attr r \<noteq> []" "at_rel (snd p) = Some ref"
  shows "{at_id (snd p)} \<union> (if rr_inverse ref = [] then {} else {rr_inverse ref}) = {i. carries r i}" "rr_id ref = re_id r"
  using assms by (auto simp: source_side_def target_side_def source_ref_def target_ref_def carries_def)

lemma plan_attr_loop_closed:
  assumes "plan_attr_loop db is (as, rs, ls) = Inr (as', rs', ls')" "db_ok db" "rels_ok db" "attrs_closed db (set as) (set rs)"
  shows "attrs_closed db (set as') (set rs')"
  using assms(1,4)
proof (induction "is" arbitrary: as rs ls)
  case Nil
  then show ?case by simp
next
  case (Cons i "is")
  obtain t a where f: "find_attribute db i = Some (t, a)"
    using Cons.prems(1) by (cases "find_attribute db i") auto
  have np: "\<not> at_primary a" using Cons.prems(1) f by (auto split: if_splits)
  let ?p = "(ty_id t, a)"
  have row: "?p \<in> attr_rows db" using find_attribute_row [OF f] by simp
  show ?case
  proof (cases "at_rel a")
    case None
    have c: "attrs_closed db (set (as @ [at_id a])) (set rs)"
      using attrs_closed_plain [OF assms(2) Cons.prems(2) row] np None by simp
    show ?thesis by (rule Cons.IH [OF _ c]) (use Cons.prems(1) f np None in simp)
  next
    case (Some ref)
    have "refers (snd ?p) (rr_id ref)" using Some by (simp add: refers_def)
    then obtain r where r: "r \<in> set (db_rels db)" "source_side r ?p \<or> target_side r ?p"
      using refers_side [OF assms(3) row] by blast
    have "re_source_attr r \<noteq> []" using assms(3) r(1) by (auto simp: rels_ok_def rel_fits_def)
    note s = ref_sides [OF r(2) this, unfolded snd_conv, OF Some]
    have e: "set (as @ [at_id a] @ (if rr_inverse ref = [] then [] else [rr_inverse ref])) = set as \<union> {i. carries r i}"
      (is "?x = _")
    proof -
      have "?x = set as \<union> ({at_id a} \<union> (if rr_inverse ref = [] then {} else {rr_inverse ref}))" by simp
      then show ?thesis by (simp only: s(1))
    qed
    have c: "attrs_closed db (set (as @ [at_id a] @ (if rr_inverse ref = [] then [] else [rr_inverse ref]))) (set (rs @ [rr_id ref]))"
      unfolding e using attrs_closed_rel [OF assms(2,3) Cons.prems(2) r(1)] s(2) by simp
    show ?thesis by (rule Cons.IH [OF _ c]) (use Cons.prems(1) f np Some in simp)
  qed
qed

text \<open>What is said of every plan.\<close>

definition plan_fits :: "'f space_db \<Rightarrow> delete_plan \<Rightarrow> bool" where
  "plan_fits db p \<longleftrightarrow>
     closed_delete (set (dp_types p)) (set (dp_attrs p)) (set (dp_rels p)) (set (dp_records p)) db
     \<and> apply_delete p db = without (set (dp_types p)) (set (dp_attrs p)) (set (dp_rels p)) (set (dp_records p)) db"

lemma closed_plan_fits:
  assumes "closed_delete (set (dp_types p)) (set (dp_attrs p)) (set (dp_rels p)) (set (dp_records p)) db"
  shows "plan_fits db p"
  using assms apply_delete_without [of db p] unfolding plan_fits_def closed_delete_def by blast

lemma closed_records: "closed_delete {} {} {} I db"
  by (simp add: closed_delete_def split: option.splits)

lemma closed_types:
  assumes ok: "db_ok db" "rels_ok db"
    and R: "R = {re_id r | r. r \<in> set (db_rels db) \<and> (re_source_type r \<in> T \<or> re_target_type r \<in> T)}"
    and A: "A = {at_id (snd p) | p. p \<in> attr_rows db \<and> (fst p \<in> T \<or> (\<exists>i\<in>R. refers (snd p) i))}"
    and I: "I = {i. \<exists>t\<in>T. (i, t) \<in> rec_slots db}"
  shows "closed_delete T A R I db"
proof -
  have row: "fst p \<in> T \<or> (\<exists>i\<in>R. refers (snd p) i)" if p: "p \<in> attr_rows db" "at_id (snd p) \<in> A" for p
  proof -
    obtain q where q: "at_id (snd p) = at_id (snd q)" "q \<in> attr_rows db" "fst q \<in> T \<or> (\<exists>i\<in>R. refers (snd q) i)"
      using p(2) unfolding A by blast
    have "p = q" by (rule attr_rows_inj [OF ok(1) p(1) q(2,1)])
    then show ?thesis using q(3) by simp
  qed
  have one: "i = j" if "refers a i" "refers a j" for a i j
    using that by (cases "at_rel a") (simp_all add: refers_def)
  have rel: "re_source_type r \<notin> T \<and> re_target_type r \<notin> T \<and> re_source_attr r \<notin> A \<and> re_inverse r \<notin> A - {[]}"
    if r: "r \<in> set (db_rels db)" "re_id r \<notin> R" for r
  proof -
    have t: "re_source_type r \<notin> T" "re_target_type r \<notin> T" using r unfolding R by blast+
    have "i \<notin> A" if ca: "carries r i" for i
    proof
      assume i: "i \<in> A"
      obtain p where p: "p \<in> attr_rows db" "at_id (snd p) = i" "source_side r p \<or> target_side r p"
        using carries_row [OF ok(2) r(1) ca] by blast
      have "fst p \<notin> T" using p(3) t by (auto simp: source_side_def target_side_def)
      then obtain j where "j \<in> R" "refers (snd p) j" using row [OF p(1)] p(2) i by blast
      then show False using one side_refers [OF p(3)] r(2) by blast
    qed
    then show ?thesis using t by (auto simp: carries_def)
  qed
  have pri: "at_primary a \<longrightarrow> t \<notin> T \<longrightarrow> at_id a \<notin> A" if p: "(t, a) \<in> attr_rows db" for t a
  proof (intro impI notI)
    assume h: "at_primary a" "t \<notin> T" "at_id a \<in> A"
    obtain j where j: "refers a j" using row [OF p] h(2,3) by auto
    then have "refers (snd (t, a)) j" by simp
    from refers_plain [OF ok(1) p this] show False using h(1) by simp
  qed
  have att: "(case at_rel a of None \<Rightarrow> True | Some ref \<Rightarrow> rr_id ref \<in> R \<longrightarrow> at_id a \<in> A) \<and> (t \<in> T \<longrightarrow> at_id a \<in> A)"
    if p: "(t, a) \<in> attr_rows db" for t a
  proof
    have here: "t \<in> T \<or> (\<exists>i\<in>R. refers a i) \<Longrightarrow> at_id a \<in> A" unfolding A using p by force
    then show "t \<in> T \<longrightarrow> at_id a \<in> A" by blast
    show "case at_rel a of None \<Rightarrow> True | Some ref \<Rightarrow> rr_id ref \<in> R \<longrightarrow> at_id a \<in> A"
    proof (cases "at_rel a")
      case (Some ref)
      then have "refers a (rr_id ref)" by (simp add: refers_def)
      then show ?thesis using Some here by auto
    qed simp
  qed
  have rec: "i \<in> I" if "(i, t) \<in> rec_slots db" "t \<in> T" for i t using that unfolding I by blast
  show ?thesis unfolding closed_delete_def using rel pri att rec by blast
qed

lemma plan_records_fits: "plan_records db ids = Inr p \<Longrightarrow> plan_fits db p"
  by (rule closed_plan_fits) (auto simp: plan_records_def new_plan_def closed_records split: if_splits)

lemma plan_records_of_type_fits: "plan_records_of_type db ids = Inr p \<Longrightarrow> plan_fits db p"
  by (rule closed_plan_fits) (auto simp: plan_records_of_type_def new_plan_def closed_records Let_def split: if_splits)

lemma plan_attributes_loop:
  assumes "plan_attributes db ids = Inr p"
  obtains as rs ls where "plan_attr_loop db ids ([], [], []) = Inr (as, rs, ls)"
    "p = new_plan\<lparr>dp_attrs := sorted_copy as, dp_rels := sorted_copy rs,
                dp_impact := \<lparr>im_types = 0, im_attrs = length (sorted_copy as),
                              im_records = length (sorted_copy ls),
                              im_links = count_links_for db (sorted_copy rs) []\<rparr>\<rparr>"
  using assms by (auto simp: plan_attributes_def split: sum.splits)

lemma plan_attributes_fits:
  assumes ok: "db_ok db" "rels_ok db" and p: "plan_attributes db ids = Inr p"
  shows "plan_fits db p"
proof -
  obtain as rs ls where l: "plan_attr_loop db ids ([], [], []) = Inr (as, rs, ls)"
    and e: "p = new_plan\<lparr>dp_attrs := sorted_copy as, dp_rels := sorted_copy rs,
                dp_impact := \<lparr>im_types = 0, im_attrs = length (sorted_copy as),
                              im_records = length (sorted_copy ls),
                              im_links = count_links_for db (sorted_copy rs) []\<rparr>\<rparr>"
    using plan_attributes_loop [OF p] by blast
  have c: "attrs_closed db (set as) (set rs)" by (rule plan_attr_loop_closed [OF l ok]) (simp add: attrs_closed_def)
  show ?thesis by (rule closed_plan_fits) (use attrs_closed_delete [OF ok c] in \<open>simp add: e new_plan_def\<close>)
qed

lemma plan_types_sets:
  assumes "plan_types db ids = Inr p"
  shows "set (dp_types p) = set ids"
    "set (dp_rels p) = {re_id r | r. r \<in> set (db_rels db) \<and> (re_source_type r \<in> set ids \<or> re_target_type r \<in> set ids)}"
    "set (dp_attrs p) = {at_id (snd q) | q. q \<in> attr_rows db \<and> (fst q \<in> set ids \<or> (\<exists>i\<in>set (dp_rels p). refers (snd q) i))}"
    "set (dp_records p) = {i. \<exists>t\<in>set ids. (i, t) \<in> rec_slots db}"
proof -
  let ?rels = "map re_id (filter (\<lambda>r. re_source_type r \<in> set ids \<or> re_target_type r \<in> set ids) (db_rels db))"
  let ?q = "\<lambda>t a. ty_id t \<in> set ids \<or> (case at_rel a of None \<Rightarrow> False | Some ref \<Rightarrow> rr_id ref \<in> set ?rels)"
  let ?attrs = "concat (map (\<lambda>t. map at_id (filter (?q t) (ty_attrs t))) (db_types db))"
  have f: "dp_types p = sorted_copy ids" "dp_rels p = sorted_copy ?rels" "dp_attrs p = sorted_copy ?attrs"
    "dp_records p = sorted_copy (record_ids_of_types db ids)"
    using assms by (auto simp: plan_types_def new_plan_def Let_def split: if_splits)
  show "set (dp_types p) = set ids" by (simp add: f)
  show r: "set (dp_rels p) = {re_id r | r. r \<in> set (db_rels db) \<and> (re_source_type r \<in> set ids \<or> re_target_type r \<in> set ids)}"
    by (auto simp: f)
  have q: "?q t a \<longleftrightarrow> ty_id t \<in> set ids \<or> (\<exists>i\<in>set (dp_rels p). refers a i)" for t a
    by (cases "at_rel a") (simp_all add: refers_def f)
  have "set (dp_attrs p) = (\<Union>t\<in>set (db_types db). at_id ` {a \<in> set (ty_attrs t). ?q t a})"
    unfolding f(3) set_sorted_copy by simp
  also have "\<dots> = {at_id (snd q) | q. q \<in> attr_rows db \<and> (fst q \<in> set ids \<or> (\<exists>i\<in>set (dp_rels p). refers (snd q) i))}"
    unfolding q attr_rows_def by force
  finally show "set (dp_attrs p) = {at_id (snd q) | q. q \<in> attr_rows db \<and> (fst q \<in> set ids \<or> (\<exists>i\<in>set (dp_rels p). refers (snd q) i))}" .
  show "set (dp_records p) = {i. \<exists>t\<in>set ids. (i, t) \<in> rec_slots db}"
    by (auto simp: f record_ids_of_types_def rec_slots_def rec_slot_def)
qed

lemma plan_types_fits:
  assumes "db_ok db" "rels_ok db" "plan_types db ids = Inr p"
  shows "plan_fits db p"
proof -
  note s = plan_types_sets [OF assms(3)]
  have "closed_delete (set ids) (set (dp_attrs p)) (set (dp_rels p)) (set (dp_records p)) db"
    by (rule closed_types [OF assms(1,2) s(2-4)])
  then show ?thesis by (intro closed_plan_fits) (simp only: s(1))
qed

text \<open>The plan of a call, by its kind.\<close>

lemma plan_deleteE:
  assumes "plan_delete db sid kind raw = Inr p"
  obtains (records) "kind = DelRecords" "plan_records db (sorted_copy raw) = Inr p"
    | (attributes) "kind = DelAttribute" "plan_attributes db (sorted_copy raw) = Inr p"
    | (types) "kind = DelObjectType" "plan_types db (sorted_copy raw) = Inr p"
    | (of_type) "kind = DelRecordsOfType" "plan_records_of_type db (sorted_copy raw) = Inr p"
    | (empty_space) "kind = DelSpace" "db_types db = []" "p = new_plan\<lparr>dp_space := True\<rparr>"
    | (space) q where "kind = DelSpace" "plan_types db (map ty_id (db_types db)) = Inr q" "p = q\<lparr>dp_space := True\<rparr>"
proof (cases kind)
  case DelSpace
  show ?thesis
  proof (cases "db_types db = []")
    case True
    then show ?thesis using assms DelSpace empty_space by (auto simp: plan_delete_def Let_def split: if_splits)
  next
    case False
    obtain q where "plan_types db (map ty_id (db_types db)) = Inr q"
      using assms DelSpace False
      by (cases "plan_types db (map ty_id (db_types db))") (auto simp: plan_delete_def Let_def split: if_splits)
    then show ?thesis using assms DelSpace False space by (auto simp: plan_delete_def Let_def split: if_splits)
  qed
qed (use assms that in \<open>auto simp: plan_delete_def Let_def split: if_splits\<close>)

lemma plan_space_fits: "plan_fits db (q\<lparr>dp_space := b\<rparr>) = plan_fits db q"
  by (simp add: plan_fits_def apply_delete_def)

lemma plan_delete_fits:
  assumes ok: "db_ok db" "rels_ok db" and p: "plan_delete db sid kind raw = Inr p"
  shows "plan_fits db p"
  using p
proof (cases rule: plan_deleteE)
  case empty_space
  have "closed_delete {} {} {} {} db" by (rule closed_records)
  then have "plan_fits db new_plan" by (intro closed_plan_fits) (simp add: new_plan_def)
  then show ?thesis using empty_space plan_space_fits by blast
qed (use plan_records_fits plan_attributes_fits [OF ok] plan_types_fits [OF ok] plan_records_of_type_fits plan_space_fits in blast)+

lemma plan_space_ok:
  assumes "space_ok nm db" "plan_delete db sid kind raw = Inr p"
  shows "space_ok nm (apply_delete p db)"
proof -
  have "plan_fits db p" using plan_delete_fits [OF _ _ assms(2)] assms(1) by (simp add: space_ok_def)
  then show ?thesis using without_space_ok [OF assms(1)] by (simp add: plan_fits_def)
qed

lemma execute_tx_keeps: "keeps (space_ok nm) (execute_tx sid b)"
proof -
  let ?f = "\<lambda>db. case plan_delete db sid (bd_kind b) (bd_ids b) of
         Inl k \<Rightarrow> (Inl k, db)
       | Inr p \<Rightarrow>
           if dp_impact p \<noteq> bd_impact b then (Inl (DsInvalid []), db) else (Inr p, apply_delete p db)"
  have "keeps (space_ok nm) ?f"
    unfolding keeps_def
  proof (intro allI impI)
    fix db x db'
    assume ok: "space_ok nm db" and r: "?f db = (Inr x, db')"
    obtain p where p: "plan_delete db sid (bd_kind b) (bd_ids b) = Inr p"
      using r by (cases "plan_delete db sid (bd_kind b) (bd_ids b)") auto
    then have "db' = apply_delete p db" using r by (auto split: if_splits)
    then show "space_ok nm db'" using plan_space_ok [OF ok p] by simp
  qed
  then show ?thesis using reloaded_keeps by (simp add: execute_tx_def [abs_def])
qed

lemma preview_tx_keeps: "keeps (space_ok nm) (preview_tx sid kind ids)"
  unfolding preview_tx_def by (rule reloaded_keeps) (simp add: keeps_def)

section \<open>The preview counts what goes\<close>

lemma count_by_keys:
  assumes "distinct (map f xs)" "distinct ys" "set ys \<subseteq> f ` set xs"
  shows "length (filter (\<lambda>x. f x \<in> set ys) xs) = length ys"
proof -
  let ?zs = "filter (\<lambda>x. f x \<in> set ys) xs"
  have "distinct (map f ?zs)" using assms(1) by (rule distinct_map_filter)
  moreover have "set (map f ?zs) = set ys" using assms(3) by auto
  ultimately have "length (map f ?zs) = length ys" using assms(2) by (metis distinct_card)
  then show ?thesis by simp
qed

lemma removed_count: "length xs = length (filter (\<lambda>x. \<not> P x) xs) + length (filter P xs)"
  using sum_length_filter_compl [of P xs] by simp

lemma plan_attr_loop_ids:
  assumes "plan_attr_loop db is (as, rs, ls) = Inr (as', rs', ls')" "rels_ok db"
    "set as \<subseteq> (at_id \<circ> snd) ` attr_rows db"
  shows "set as' \<subseteq> (at_id \<circ> snd) ` attr_rows db"
  using assms(1,3)
proof (induction "is" arbitrary: as rs ls)
  case Nil
  then show ?case by simp
next
  case (Cons i "is")
  obtain t a where f: "find_attribute db i = Some (t, a)"
    using Cons.prems(1) by (cases "find_attribute db i") auto
  have np: "\<not> at_primary a" using Cons.prems(1) f by (auto split: if_splits)
  let ?p = "(ty_id t, a)"
  have row: "?p \<in> attr_rows db" using find_attribute_row [OF f] by simp
  then have here: "at_id a \<in> (at_id \<circ> snd) ` attr_rows db" by force
  show ?case
  proof (cases "at_rel a")
    case None
    have c: "set (as @ [at_id a]) \<subseteq> (at_id \<circ> snd) ` attr_rows db" using Cons.prems(2) here by simp
    show ?thesis by (rule Cons.IH [OF _ c]) (use Cons.prems(1) f np None in simp)
  next
    case (Some ref)
    have "refers (snd ?p) (rr_id ref)" using Some by (simp add: refers_def)
    then obtain r where r: "r \<in> set (db_rels db)" "source_side r ?p \<or> target_side r ?p"
      using refers_side [OF assms(2) row] by blast
    have n: "re_source_attr r \<noteq> []" using assms(2) r(1) by (auto simp: rels_ok_def rel_fits_def)
    have "rr_inverse ref \<in> (at_id \<circ> snd) ` attr_rows db" if "rr_inverse ref \<noteq> []"
    proof -
      have "rr_inverse ref \<in> {i. carries r i}" using ref_sides(1) [OF r(2) n] Some that by auto
      then show ?thesis using carries_row [OF assms(2) r(1)] by force
    qed
    then have c: "set (as @ [at_id a] @ (if rr_inverse ref = [] then [] else [rr_inverse ref])) \<subseteq> (at_id \<circ> snd) ` attr_rows db"
      using Cons.prems(2) here by simp
    show ?thesis by (rule Cons.IH [OF _ c]) (use Cons.prems(1) f np Some in simp)
  qed
qed

text \<open>The numbers of a plan are those of the rows it takes.\<close>

definition exact_plan :: "'f space_db \<Rightarrow> delete_plan \<Rightarrow> bool" where
  "exact_plan db p \<longleftrightarrow>
     distinct (dp_types p) \<and> set (dp_types p) \<subseteq> ty_ids db \<and> length (dp_types p) = im_types (dp_impact p)
     \<and> distinct (dp_attrs p) \<and> set (dp_attrs p) \<subseteq> (at_id \<circ> snd) ` attr_rows db
     \<and> length (dp_attrs p) = im_attrs (dp_impact p)
     \<and> distinct (dp_records p) \<and> set (dp_records p) \<subseteq> fst ` rec_slots db
     \<and> count_links_for db (dp_rels p) (dp_records p) = im_links (dp_impact p)"

lemma without_counts:
  assumes ok: "db_ok db" "distinct (map rw_id (db_records db))" and f: "plan_fits db p" and e: "exact_plan db p"
  shows "length (db_types db) = length (db_types (apply_delete p db)) + im_types (dp_impact p)"
    "length (all_attrs db) = length (all_attrs (apply_delete p db)) + im_attrs (dp_impact p)"
    "length (db_links db) = length (db_links (apply_delete p db)) + im_links (dp_impact p)"
    "length (db_records db) = length (db_records (apply_delete p db)) + length (dp_records p)"
proof -
  let ?T = "set (dp_types p)" and ?A = "set (dp_attrs p)" and ?R = "set (dp_rels p)" and ?I = "set (dp_records p)"
  have c: "closed_delete ?T ?A ?R ?I db" and a: "apply_delete p db = without ?T ?A ?R ?I db"
    using f by (simp_all add: plan_fits_def)
  have "length (filter (\<lambda>t. ty_id t \<in> ?T) (db_types db)) = length (dp_types p)"
    by (rule count_by_keys) (use ok e in \<open>auto simp: db_ok_def exact_plan_def ty_ids_def\<close>)
  then show "length (db_types db) = length (db_types (apply_delete p db)) + im_types (dp_impact p)"
    using removed_count [of "db_types db" "\<lambda>t. ty_id t \<in> ?T"] e by (simp add: a without_def exact_plan_def)
  have "length (filter (\<lambda>r. rw_id r \<in> ?I) (db_records db)) = length (dp_records p)"
    by (rule count_by_keys) (use ok e in \<open>auto simp: exact_plan_def rec_slots_def rec_slot_def\<close>)
  then show "length (db_records db) = length (db_records (apply_delete p db)) + length (dp_records p)"
    using removed_count [of "db_records db" "\<lambda>r. rw_id r \<in> ?I"] by (simp add: a without_fields(6))
  have l: "filter (\<lambda>l. lk_rel l \<notin> ?R \<and> lk_source l \<notin> ?I \<and> lk_target l \<notin> ?I) (db_links db)
      = filter (\<lambda>l. \<not> (lk_rel l \<in> ?R \<or> lk_source l \<in> ?I \<or> lk_target l \<in> ?I)) (db_links db)" by simp
  show "length (db_links db) = length (db_links (apply_delete p db)) + im_links (dp_impact p)"
    using removed_count [of "db_links db" "\<lambda>l. lk_rel l \<in> ?R \<or> lk_source l \<in> ?I \<or> lk_target l \<in> ?I"] e
    unfolding a without_fields(8) l by (simp only: exact_plan_def count_links_for_def)
  have n: "length (filter (\<lambda>a. at_id a \<in> ?A) (all_attrs db)) = length (dp_attrs p)"
    by (rule count_by_keys) (use ok e in \<open>auto simp: db_ok_def exact_plan_def attr_rows_ids\<close>)
  have "concat (map (\<lambda>t. filter (\<lambda>a. at_id a \<notin> ?A) (ty_attrs t)) (filter (\<lambda>t. ty_id t \<notin> ?T) ts))
      = filter (\<lambda>a. at_id a \<notin> ?A) (concat (map ty_attrs ts))" if "set ts \<subseteq> set (db_types db)" for ts
    using that
  proof (induction ts)
    case (Cons t ts)
    have "at_id a \<in> ?A" if "a \<in> set (ty_attrs t)" "ty_id t \<in> ?T" for a
    proof -
      have "(ty_id t, a) \<in> attr_rows db" using Cons.prems that(1) by (auto simp: attr_rows_def)
      then show ?thesis using c that(2) unfolding closed_delete_def by blast
    qed
    then have "ty_id t \<in> ?T \<longrightarrow> filter (\<lambda>a. at_id a \<notin> ?A) (ty_attrs t) = []" by (simp add: filter_empty_conv)
    then show ?case using Cons by simp
  qed simp
  then have "all_attrs (apply_delete p db) = filter (\<lambda>a. at_id a \<notin> ?A) (all_attrs db)"
    by (simp add: a all_attrs_def without_def o_def)
  then show "length (all_attrs db) = length (all_attrs (apply_delete p db)) + im_attrs (dp_impact p)"
    using removed_count [of "all_attrs db" "\<lambda>a. at_id a \<in> ?A"] n e by (simp add: exact_plan_def)
qed

lemma fst_rec_slots: "fst ` rec_slots db = rw_id ` set (db_records db)"
  by (simp add: rec_slots_def rec_slot_def image_image)

lemma plan_types_exact:
  assumes ok: "links_ok db" "rels_ok db" "records_core nm db" and p: "plan_types db ids = Inr p"
  shows "exact_plan db p" "length (dp_records p) = im_records (dp_impact p)"
proof -
  note s = plan_types_sets [OF p]
  have f: "distinct (dp_types p)" "length (dp_types p) = im_types (dp_impact p)" "distinct (dp_attrs p)"
    "length (dp_attrs p) = im_attrs (dp_impact p)" "distinct (dp_records p)" "length (dp_records p) = im_records (dp_impact p)"
    "im_links (dp_impact p) = count_links_for db (dp_rels p) []"
    using p by (auto simp: plan_types_def new_plan_def Let_def split: if_splits)
  show "length (dp_records p) = im_records (dp_impact p)" by (rule f(6))
  have k: "\<not> list_ex (\<lambda>i. type_by_id db i = None) ids" using p by (auto simp: plan_types_def split: if_splits)
  have t: "set (dp_types p) \<subseteq> ty_ids db"
  proof
    fix i assume "i \<in> set (dp_types p)"
    then have "type_by_id db i \<noteq> None" using k s(1) by (auto simp: list_ex_iff)
    then show "i \<in> ty_ids db" by (auto simp: type_by_id_def ty_ids_def dest: find_SomeD)
  qed
  have sub: "set (dp_attrs p) \<subseteq> (at_id \<circ> snd) ` attr_rows db" unfolding s(3) by force
  have rec: "set (dp_records p) \<subseteq> fst ` rec_slots db" unfolding s(4) by force
  have "lk_rel l \<in> set (dp_rels p)" if l: "l \<in> set (db_links db)" "lk_source l \<in> set (dp_records p) \<or> lk_target l \<in> set (dp_records p)" for l
  proof -
    have "link_fits db l" using ok(1) l(1) by (simp add: links_ok_def)
    then obtain r where r: "r \<in> set (db_rels db)" "re_id r = lk_rel l" "(lk_source l, re_source_type r) \<in> rec_slots db"
      "(lk_target l, re_target_type r) \<in> rec_slots db" unfolding link_fits_slots by blast
    have "re_source_type r \<in> set ids \<or> re_target_type r \<in> set ids"
      using l(2) record_slot_unique [OF ok(3) r(3)] record_slot_unique [OF ok(3) r(4)] unfolding s(4) by blast
    then show ?thesis using r(1) unfolding s(2) r(2) [symmetric] by blast
  qed
  then have "count_links_for db (dp_rels p) (dp_records p) = count_links_for db (dp_rels p) []"
    unfolding count_links_for_def by (auto intro!: arg_cong [of _ _ length] filter_cong)
  then show "exact_plan db p" using f t sub rec by (simp add: exact_plan_def)
qed

lemma plan_records_exact:
  assumes "plan_records db (sorted_copy raw) = Inr p"
  shows "exact_plan db p" "length (dp_records p) = im_records (dp_impact p)"
proof -
  have k: "\<not> list_ex (\<lambda>i. record_by_id db i = None) (sorted_copy raw)"
    using assms by (auto simp: plan_records_def split: if_splits)
  have "i \<in> fst ` rec_slots db" if "i \<in> set raw" for i
  proof -
    have "record_by_id db i \<noteq> None" using k that by (auto simp: list_ex_iff)
    then show ?thesis using record_by_id_slot by force
  qed
  then show "exact_plan db p" "length (dp_records p) = im_records (dp_impact p)"
    using assms by (auto simp: plan_records_def new_plan_def exact_plan_def split: if_splits)
qed

lemma plan_records_of_type_exact:
  assumes "plan_records_of_type db ids = Inr p"
  shows "exact_plan db p" "length (dp_records p) = im_records (dp_impact p)"
  using assms
  by (auto simp: plan_records_of_type_def new_plan_def exact_plan_def Let_def record_ids_of_types_def fst_rec_slots
      split: if_splits)

lemma plan_attributes_exact:
  assumes ok: "rels_ok db" and p: "plan_attributes db ids = Inr p"
  shows "exact_plan db p"
proof -
  obtain as rs ls where l: "plan_attr_loop db ids ([], [], []) = Inr (as, rs, ls)"
    and e: "p = new_plan\<lparr>dp_attrs := sorted_copy as, dp_rels := sorted_copy rs,
                dp_impact := \<lparr>im_types = 0, im_attrs = length (sorted_copy as),
                              im_records = length (sorted_copy ls),
                              im_links = count_links_for db (sorted_copy rs) []\<rparr>\<rparr>"
    using plan_attributes_loop [OF p] by blast
  have "set as \<subseteq> (at_id \<circ> snd) ` attr_rows db" by (rule plan_attr_loop_ids [OF l ok]) simp
  then show ?thesis by (simp add: e exact_plan_def new_plan_def)
qed

lemma plan_delete_exact:
  assumes ok: "space_ok nm db" and p: "plan_delete db sid kind raw = Inr p"
  shows "exact_plan db p" "kind \<noteq> DelAttribute \<Longrightarrow> length (dp_records p) = im_records (dp_impact p)"
proof -
  have o: "rels_ok db" "links_ok db" "records_core nm db" using ok by (simp_all add: space_ok_def records_ok_core)
  have "exact_plan db p \<and> (kind \<noteq> DelAttribute \<longrightarrow> length (dp_records p) = im_records (dp_impact p))"
    using p
  proof (cases rule: plan_deleteE)
    case empty_space
    then show ?thesis by (simp add: exact_plan_def new_plan_def count_links_for_def)
  next
    case (space q)
    then show ?thesis using plan_types_exact [OF o(2,1,3) space(2)] by (simp add: exact_plan_def)
  next
    case records
    then show ?thesis using plan_records_exact by blast
  next
    case attributes
    then show ?thesis using plan_attributes_exact [OF o(1)] by blast
  next
    case types
    then show ?thesis using plan_types_exact [OF o(2,1,3)] by blast
  next
    case of_type
    then show ?thesis using plan_records_of_type_exact by blast
  qed
  then show "exact_plan db p" "kind \<noteq> DelAttribute \<Longrightarrow> length (dp_records p) = im_records (dp_impact p)" by blast+
qed

end
