(* ===== verification/SpaceProps.thy ===== *)
theory SpaceProps
  imports SpaceDeletes
begin

text \<open>
  Data spaces, last part: what holds of the store after any sequence of calls.  The locale states what is
  asked of an invariant of one database, and its lemmas carry it to every database of every reachable
  store; it is interpreted with the invariant of \<^verbatim>\<open>SpaceInv\<close>.
\<close>

section \<open>From one database to the store\<close>

locale db_invariant =
  fixes nm :: "'f numbers" and I :: "'f space_db \<Rightarrow> bool"
  assumes empty: "I empty_db"
    and draws: "I (db\<lparr>db_draws := n\<rparr>) \<longleftrightarrow> I db"
    and create_types: "keeps I (create_types_tx rnd actor stamp tinps)"
    and add_attributes: "keeps I (add_attributes_tx rnd actor tref ainps)"
    and update_type: "keeps I (reloaded (update_object_type tref tp))"
    and update_attribute: "keeps I (reloaded (update_attribute rnd tref aref ap))"
    and write_records: "keeps I (write_records_tx nm rnd actor stamp tref mref rinps)"
    and update_record: "keeps I (update_record_tx nm stamp rid vals)"
    and change_links: "keeps I (change_links_tx stamp link linps)"
    and preview: "keeps I (preview_tx sid kind ids)"
    and execute: "keeps I (execute_tx sid b)"
begin

definition holds :: "'f ds_store \<Rightarrow> bool" where
  "holds st \<longleftrightarrow> (\<forall>i. I (st_dbs st i))"

lemma in_tx_holds:
  assumes "keeps I f" "holds st" "in_tx i f st = (r, st')"
  shows "holds st'"
proof -
  let ?db = "(st_dbs st i)\<lparr>db_draws := ix_draws (st_index st)\<rparr>"
  obtain q d where q: "f ?db = (q, d)" by fastforce
  have old: "I ?db" "I (st_dbs st j)" for j using assms(2) draws by (simp_all add: holds_def)
  have "I (snd (savepoint f ?db))"
  proof (cases q)
    case (Inl e)
    then show ?thesis using q old draws by (simp add: savepoint_def)
  next
    case (Inr x)
    then show ?thesis using keepsD [OF assms(1) old(1)] q by (simp add: savepoint_def)
  qed
  then have "I (st_dbs st' j)" for j
    using assms(3) old(2) by (cases "j = i") (auto simp: in_tx_def Let_def split: prod.splits)
  then show ?thesis by (simp add: holds_def)
qed

lemma touch_space_holds: "holds (touch_space stamp sp st) = holds st"
  by (simp add: holds_def touch_space_def Let_def)

lemma write_call_holds:
  assumes "keeps I f" "holds st"
  shows "holds (snd (write_call stamp actor i fits f st))"
proof (cases "authorize (st_index st) actor i True")
  case (Inl k)
  then show ?thesis using assms by (simp add: write_call_def)
next
  case (Inr sp)
  obtain q st1 where q: "in_tx i f st = (q, st1)" by fastforce
  have "holds st1" by (rule in_tx_holds [OF assms q])
  then show ?thesis using Inr q assms(2) by (cases q) (simp_all add: write_call_def touch_space_holds)
qed

lemma preview_holds:
  assumes "holds st"
  shows "holds (snd (preview_delete rnd now actor i kind ids st))"
proof (cases "authorize (st_index st) actor i True")
  case (Inl k)
  then show ?thesis using assms by (simp add: preview_delete_def)
next
  case (Inr sp)
  obtain q st1 where q: "in_tx i (preview_tx i kind ids) st = (q, st1)" by fastforce
  have "holds st1" by (rule in_tx_holds [OF preview assms q])
  then show ?thesis using Inr q assms by (cases q) (simp_all add: preview_delete_def Let_def holds_def)
qed

lemma execute_holds:
  assumes "holds st"
  shows "holds (snd (execute_delete stamp now actor i token st))"
proof (cases "authorize (st_index st) actor i True")
  case (Inl k)
  then show ?thesis using assms by (simp add: execute_delete_def)
next
  case (Inr sp)
  show ?thesis
  proof (cases "map_of (st_tokens st) token")
    case None
    then show ?thesis using Inr assms by (simp add: execute_delete_def)
  next
    case (Some b)
    let ?st1 = "st\<lparr>st_tokens := filter (\<lambda>p. fst p \<noteq> token) (st_tokens st)\<rparr>"
    obtain q st2 where q: "in_tx i (execute_tx i b) ?st1 = (q, st2)" by fastforce
    have 1: "holds ?st1" using assms by (simp add: holds_def)
    have 2: "holds st2" by (rule in_tx_holds [OF execute 1 q])
    have 3: "holds (remove_space i st2)" using 2 empty by (simp add: holds_def remove_space_def)
    show ?thesis
      using Inr Some q assms 1 2 3 by (cases q) (simp_all add: execute_delete_def Let_def touch_space_holds)
  qed
qed

lemma on_index_holds: "holds (on_index f st) = holds st"
  by (simp add: holds_def on_index_def)

lemmas call_defs = create_object_types_def add_attributes_def change_object_type_def change_attribute_def
  create_records_def write_records_def upsert_records_def update_record_def change_links_def with_result_def

lemma run_call_holds:
  assumes "holds st" "ce_nm e = nm"
  shows "holds (run_call e c st)"
proof -
  note w = write_call_holds [OF create_types assms(1)] write_call_holds [OF add_attributes assms(1)]
    write_call_holds [OF update_type assms(1)] write_call_holds [OF update_attribute assms(1)]
    write_call_holds [OF write_records assms(1)] write_call_holds [OF update_record assms(1)]
    write_call_holds [OF change_links assms(1)]
  show ?thesis
    by (cases c) (simp_all add: run_call_def on_index_holds call_defs w assms preview_holds execute_holds)
qed

lemma reachable_holds: "ds_reachable nm st \<Longrightarrow> holds st"
proof (induction rule: ds_reachable.induct)
  case start
  then show ?case using empty by (simp add: holds_def)
next
  case (step st st')
  from step.hyps(2) obtain e c where "ce_nm e = nm" "st' = run_call e c st" by (cases rule: ds_step.cases) blast
  then show ?case using run_call_holds step.IH by simp
qed

lemma reachable_db: "ds_reachable nm st \<Longrightarrow> I (st_dbs st i)"
  using reachable_holds by (simp add: holds_def)

end

interpretation space_inv: db_invariant nm "space_ok nm" for nm
proof unfold_locales
  show "keeps (space_ok nm) (reloaded (update_object_type tref tp))" for tref tp
    by (rule reloaded_keeps [OF schema_step_keeps [OF update_object_type_step]])
  show "keeps (space_ok nm) (reloaded (update_attribute rnd tref aref ap))" for rnd tref aref ap
    by (rule reloaded_keeps [OF schema_step_keeps [OF update_attribute_step]])
qed (simp_all add: space_ok_empty create_types_tx_keeps add_attributes_tx_keeps write_records_tx_keeps
    update_record_tx_keeps change_links_tx_keeps preview_tx_keeps execute_tx_keeps)

lemma reachable_space_ok: "ds_reachable nm st \<Longrightarrow> space_ok nm (st_dbs st i)"
  by (rule space_inv.reachable_db)

section \<open>A store to look at\<close>

definition ds_env :: "int call_env" where
  "ds_env =
     \<lparr>ce_nm = whole_numbers, ce_rnd = (\<lambda>n. itoa (int n)), ce_now = 0, ce_stamp = ''t'', ce_opens = (\<lambda>_. True)\<rparr>"

definition start_store :: "'f ds_store" where
  "start_store = \<lparr>st_index = \<lparr>ix_spaces = [], ix_draws = 0\<rparr>, st_dbs = (\<lambda>_. empty_db), st_tokens = []\<rparr>"

definition run_calls :: "'f call_env \<Rightarrow> 'f ds_call list \<Rightarrow> 'f ds_store \<Rightarrow> 'f ds_store" where
  "run_calls e cs st = foldl (\<lambda>st c. run_call e c st) st cs"

lemma run_calls_reachable: "ds_reachable (ce_nm e) st \<Longrightarrow> ds_reachable (ce_nm e) (run_calls e cs st)"
proof (induction cs arbitrary: st)
  case (Cons c cs)
  have "ds_reachable (ce_nm e) (run_call e c st)" by (rule ds_reachable.step [OF Cons.prems ds_step.intros]) simp
  then show ?case using Cons.IH by (simp add: run_calls_def)
qed (simp add: run_calls_def)

lemma start_reachable: "ds_reachable nm start_store"
  unfolding start_store_def by (rule ds_reachable.start)

definition plain_input :: "string \<Rightarrow> attr_type \<Rightarrow> bool \<Rightarrow> rel_input option \<Rightarrow> attr_input" where
  "plain_input n k u r =
     \<lparr>ai_name = n, ai_type = k, ai_slug = [], ai_description = [], ai_required = False, ai_unique = u,
      ai_multi = False, ai_options = [], ai_currency = [], ai_rel = r\<rparr>"

definition type_named :: "string \<Rightarrow> attr_input list \<Rightarrow> type_input" where
  "type_named n as = \<lparr>ti_name = n, ti_plural = [], ti_icon = [], ti_description = [], ti_attrs = as\<rparr>"

definition schema_calls :: "int ds_call list" where
  "schema_calls =
     [CallCreateSpace ''human'' ''CRM'' [] \<lparr>ac_scope = ScopePrivate, ac_grants = []\<rparr>,
      CallCreateTypes ''human'' ''space_0'' [type_named ''Person'' []]]"

definition record_calls :: "int ds_call list" where
  "record_calls =
     [CallCreateTypes ''human'' ''space_0''
        [type_named ''Company''
           [plain_input ''Domain'' TText True None,
            plain_input ''Staff'' TRelationship False
              (Some \<lparr>ri_target = ''person'', ri_card = OneToMany, ri_inverse = ''Employer''\<rparr>)]],
      CallCreateRecords ''human'' ''space_0'' ''person'' [[(''name'', RStr ''Ada'')]],
      CallUpsertRecords ''human'' ''space_0'' ''company'' ''domain''
        [[(''name'', RStr ''Acme''), (''domain'', RStr ''acme.io'')],
         [(''name'', RStr ''Acme Inc''), (''domain'', RStr ''ACME.io'')]],
      CallChangeLinks ''human'' ''space_0'' True
        [\<lparr>li_record = ''rec_9'', li_attribute = ''employer'', li_target = ''rec_10'', li_replace = False\<rparr>]]"

definition schema_store :: "int ds_store" where
  "schema_store = run_calls ds_env schema_calls start_store"

definition record_store :: "int ds_store" where
  "record_store = run_calls ds_env record_calls schema_store"

lemma schema_store_reachable: "ds_reachable whole_numbers schema_store"
  using run_calls_reachable [of ds_env start_store schema_calls] start_reachable [of whole_numbers]
  by (simp add: schema_store_def ds_env_def)

lemma record_store_reachable: "ds_reachable whole_numbers record_store"
  using run_calls_reachable [of ds_env schema_store record_calls] schema_store_reachable
  by (simp add: record_store_def ds_env_def)

lemma schema_store_types: "map (\<lambda>t. (ty_id t, map at_id (ty_attrs t))) (db_types (st_dbs schema_store ''space_0'')) = [(''type_1'', [''attr_2''])]"
  by code_simp

section \<open>Properties of every reachable store\<close>

text \<open>C2. In every database of every store that calls have led to, ids are unique, the types and the attributes
  of each type have different slugs and names, flags fit the type of the attribute, each type has exactly
  one name attribute, and every relationship is carried by an attribute on each side that refers back to
  it.\<close>

theorem schema_sound:
  assumes "ds_reachable nm st"
  shows "db_ok (st_dbs st i) \<and> rels_ok (st_dbs st i)"
  using reachable_space_ok [OF assms] by (simp add: space_ok_def)

theorem schema_sound_witness:
  "(db_ok (st_dbs schema_store ''space_0'') \<and> rels_ok (st_dbs schema_store ''space_0''))
   \<and> db_types (st_dbs schema_store ''space_0'') \<noteq> []"
  using schema_sound [OF schema_store_reachable] schema_store_types by auto

text \<open>C1. In every database of every store that calls have led to, a stored value belongs to a record whose
  type has the attribute and has the type of that attribute, no two records hold the same value of a unique
  attribute, and every record has a name.\<close>

theorem records_sound:
  assumes "ds_reachable nm st"
  shows "records_ok nm (st_dbs st i)"
  using reachable_space_ok [OF assms] by (simp add: space_ok_def)

theorem records_sound_witness: "records_ok whole_numbers (st_dbs record_store ''space_0'')"
  by (rule records_sound [OF record_store_reachable])

text \<open>C3. In every database of every store that calls have led to, a link joins existing records of the two
  types its relationship relates, and where the relationship admits one partner only there is one.\<close>

theorem links_sound:
  assumes "ds_reachable nm st"
  shows "links_ok (st_dbs st i)"
  using reachable_space_ok [OF assms] by (simp add: space_ok_def)

theorem links_sound_witness: "links_ok (st_dbs record_store ''space_0'')"
  by (rule links_sound [OF record_store_reachable])

text \<open>C40. A caller who may read a space of a reachable store gets its schema: loading the rows never meets an
  attribute whose relationship is missing.\<close>

theorem schema_always_loads:
  assumes "ds_reachable nm st" and "authorize (st_index st) actor i False = Inr sp"
  shows "\<exists>v. get_schema actor i st = Inr v"
proof -
  have "db_ok (st_dbs st i)" "rels_ok (st_dbs st i)"
    using reachable_space_ok [OF assms(1)] by (simp_all add: space_ok_def)
  then obtain db1 where "load_schema (st_dbs st i) = Inr db1" by (rule load_schema_rows) blast
  then show ?thesis using assms(2) by (simp add: get_schema_def)
qed

theorem schema_always_loads_witness:
  "\<exists>v. get_schema ''human'' ''space_0'' schema_store = Inr v"
proof (rule schema_always_loads [OF schema_store_reachable])
  show "authorize (st_index schema_store) ''human'' ''space_0'' False
      = Inr (the (case_sum Map.empty Some (authorize (st_index schema_store) ''human'' ''space_0'' False)))"
    by code_simp
qed

section \<open>The cursor of a batch\<close>

text \<open>The loop that reads the cursor anew before every record, which \<open>writeRecords\<close> does only once.\<close>

fun recount_loop ::
  "'f numbers \<Rightarrow> (nat \<Rightarrow> string) \<Rightarrow> string \<Rightarrow> string \<Rightarrow> obj_type \<Rightarrow> attribute option \<Rightarrow> nat
     \<Rightarrow> (string \<times> 'f raw) list list \<Rightarrow> ds_entry list \<Rightarrow> 'f space_db
     \<Rightarrow> (ds_error + ds_entry list) \<times> 'f space_db" where
  "recount_loop nm rnd actor stamp t match k [] es db = (Inr es, db)"
| "recount_loop nm rnd actor stamp t match k (values # rest) es db =
     (case savepoint (write_one_record nm rnd actor stamp t match values (new_cursor db)) db of
        (Inl err, db1) \<Rightarrow>
          if is_fatal err then (Inl err, db1)
          else recount_loop nm rnd actor stamp t match (Suc k) rest
                 (es @ [\<lparr>de_index = k, de_identifier = identify_input nm t values, de_noop = False,
                         de_error = Some err, de_id = []\<rparr>]) db1
      | (Inr (i, _), db1) \<Rightarrow>
          recount_loop nm rnd actor stamp t match (Suc k) rest
            (es @ [\<lparr>de_index = k, de_identifier = identify_input nm t values, de_noop = False,
                    de_error = None, de_id = i\<rparr>]) db1)"

lemma write_patch_records: "write_patch nm rid items db = (r, db') \<Longrightarrow> db_records db' = db_records db"
proof (induction nm rid items db rule: write_patch.induct)
  case (3 nm rid a v items db)
  obtain q db1 where q: "write_value nm rid a v db = (q, db1)" by fastforce
  have d: "db_records db1 = db_records db"
    using q by (auto simp: write_value_def Let_def put_value_fields split: if_splits)
  show ?case
  proof (cases q)
    case (Inl k)
    then show ?thesis using "3.prems" q d by simp
  next
    case (Inr x)
    then have "write_patch nm rid items db1 = (r, db')" using "3.prems" q by simp
    then show ?thesis using "3.IH" [OF q [symmetric] Inr] d by simp
  qed
qed (simp_all add: clear_value_def)

lemma next_position_snoc: "next_position (ns @ [next_position ns]) = Suc (next_position ns)"
proof -
  have "Max (insert (next_position ns) (set ns)) = next_position ns"
    by (rule Max_eqI) (auto simp: next_position_def le_SucI)
  then show ?thesis by (simp add: next_position_def)
qed

lemma create_record_cursor:
  assumes "create_record nm rnd actor stamp t vals (new_cursor db) db = (Inr (i, cur), db')"
  shows "cur = new_cursor db'"
proof -
  let ?i = "fst (new_id rnd ''rec'' db)" and ?d = "snd (new_id rnd ''rec'' db)"
  let ?row = "\<lparr>rw_id = ?i, rw_type = ty_id t, rw_created_by = actor, rw_created_at = stamp,
                                      rw_updated_at = stamp, rw_seq = cu_seq (new_cursor db)\<rparr>"
  obtain patch where p: "build_patch nm db t vals None = Inr patch"
    using assms by (cases "build_patch nm db t vals None") (auto simp: create_record_def split: if_splits)
  obtain q1 db2 where q1: "insert_record ?row ?d = (q1, db2)" by fastforce
  then obtain x where ins: "insert_record ?row ?d = (Inr x, db2)"
    using assms p by (cases q1) (auto simp: create_record_def case_prod_beta Let_def split: if_splits)
  obtain q2 db3 where q2: "write_patch nm ?i patch db2 = (q2, db3)" by fastforce
  then obtain y where w: "write_patch nm ?i patch db2 = (Inr y, db')"
    and c: "cur = \<lparr>cu_total = Suc (cu_total (new_cursor db)), cu_seq = Suc (cu_seq (new_cursor db))\<rparr>"
    using assms p ins by (cases q2) (auto simp: create_record_def case_prod_beta Let_def split: if_splits)
  have "db_records db2 = db_records db @ [?row]" using ins by (auto simp: insert_record_def new_id_def split: if_splits)
  then have "db_records db' = db_records db @ [?row]" using write_patch_records [OF w] by simp
  then show ?thesis by (simp add: c new_cursor_def next_position_snoc)
qed

lemma update_record_cursor:
  assumes "update_record_values nm stamp t rid vals db = (Inr u, db')"
  shows "new_cursor db' = new_cursor db"
proof -
  obtain row where row: "record_by_id db rid = Some row"
    using assms by (cases "record_by_id db rid") (auto simp: update_record_values_def)
  obtain patch where p: "build_patch nm db t vals (Some (rw_id row)) = Inr patch"
    using assms row by (cases "build_patch nm db t vals (Some (rw_id row))") (auto simp: update_record_values_def)
  obtain q db1 where q: "write_patch nm rid patch db = (q, db1)" by fastforce
  then have "db' = touch_record stamp rid db1" using assms row p by (cases q) (auto simp: update_record_values_def)
  moreover have "map rw_seq (db_records (touch_record stamp rid db1)) = map rw_seq (db_records db1)"
    by (simp add: touch_record_def)
  ultimately show ?thesis using write_patch_records [OF q] by (simp add: new_cursor_def) (simp add: touch_record_def)
qed

lemma write_one_record_cursor:
  assumes r: "write_one_record nm rnd actor stamp t match vals (new_cursor db) db = (Inr (i, cur), db')"
  shows "cur = new_cursor db'"
proof (cases match)
  case None
  then show ?thesis using create_record_cursor r by (simp add: write_one_record_def)
next
  case (Some a)
  obtain raw where raw: "lookup_value t vals a = Some raw" "\<not> is_blank_raw raw"
    using r Some by (auto simp: write_one_record_def split: option.splits if_splits)
  obtain v where v: "coerce_value nm a raw = Some (Some v)"
    using r Some raw by (auto simp: write_one_record_def split: option.splits)
  show ?thesis
  proof (cases "find_by_unique_value nm db a v")
    case None
    then have "create_record nm rnd actor stamp t (without_nils vals) (new_cursor db) db = (Inr (i, cur), db')"
      using r Some raw v by (simp add: write_one_record_def)
    then show ?thesis by (rule create_record_cursor)
  next
    case (Some rid)
    obtain q db1 where q: "update_record_values nm stamp t rid (without_nils vals) db = (q, db1)" by fastforce
    then obtain x where w: "update_record_values nm stamp t rid (without_nils vals) db = (Inr x, db')"
      and c: "cur = new_cursor db"
      using r \<open>match = Some a\<close> raw v Some by (cases q) (auto simp: write_one_record_def)
    then show ?thesis using update_record_cursor [OF w] by simp
  qed
qed

lemma new_cursor_draws: "new_cursor (db\<lparr>db_draws := n\<rparr>) = new_cursor db"
  by (simp add: new_cursor_def)

lemma savepoint_cursor:
  assumes "savepoint (write_one_record nm rnd actor stamp t match vals (new_cursor db)) db = (q, db1)"
  shows "case q of Inl _ \<Rightarrow> new_cursor db1 = new_cursor db | Inr (_, cur) \<Rightarrow> cur = new_cursor db1"
proof -
  obtain p d where p: "write_one_record nm rnd actor stamp t match vals (new_cursor db) db = (p, d)" by fastforce
  show ?thesis
  proof (cases p)
    case (Inl e)
    then show ?thesis using assms p by (auto simp: savepoint_def new_cursor_draws)
  next
    case (Inr x)
    obtain i c where x: "x = (i, c)" by fastforce
    have "c = new_cursor d" using write_one_record_cursor p Inr x by blast
    then show ?thesis using assms p Inr x by (auto simp: savepoint_def)
  qed
qed

lemma write_loop_recount:
  "write_loop nm rnd actor stamp t match k inps es (new_cursor db) db
     = recount_loop nm rnd actor stamp t match k inps es db"
proof (induction inps arbitrary: k es db)
  case (Cons inp rest)
  obtain q db1 where q: "savepoint (write_one_record nm rnd actor stamp t match inp (new_cursor db)) db = (q, db1)"
    by fastforce
  note c = savepoint_cursor [OF q]
  show ?case
  proof (cases q)
    case (Inl e)
    then have "new_cursor db = new_cursor db1" using c by simp
    then show ?thesis using q Inl Cons.IH by simp
  next
    case (Inr p)
    obtain i cur where p: "p = (i, cur)" by fastforce
    then have "cur = new_cursor db1" using c Inr by simp
    then show ?thesis using q Inr p Cons.IH by simp
  qed
qed simp

text \<open>C12. Reading the cursor once is as good as counting anew: a batch that carries the number of records and
  the next position forward, over entries that fail and entries that update, leaves the same rows and
  answers the same as one that asks the database before every entry.\<close>

theorem cursor_recount:
  "write_loop nm rnd actor stamp t match k inps es (new_cursor db) db
     = recount_loop nm rnd actor stamp t match k inps es db"
  by (rule write_loop_recount)

section \<open>Deletes in two steps\<close>






definition delete_call :: "int ds_call" where
  "delete_call = CallPreview ''human'' ''space_0'' DelObjectType [''type_1'']"

definition preview_store :: "int ds_store" where
  "preview_store = run_calls ds_env [delete_call] schema_store"

lemma preview_store_reachable: "ds_reachable whole_numbers preview_store"
  using run_calls_reachable [of ds_env schema_store "[delete_call]"] schema_store_reachable
  by (simp add: preview_store_def ds_env_def)

definition ds_impact :: impact where
  "ds_impact = \<lparr>im_types = 1, im_attrs = 1, im_records = 0, im_links = 0\<rparr>"

definition ds_binding :: delete_binding where
  "ds_binding =
     \<lparr>bd_space = ''space_0'', bd_kind = DelObjectType, bd_ids = [''type_1''], bd_impact = ds_impact,
      bd_expires = 900000000000\<rparr>"

lemma preview_store_token: "st_tokens preview_store = [(''del_3'', ds_binding)]"
  by code_simp


text \<open>A delete token works once: whatever comes of an execution that got as far as looking at the token of
  this space, unless the space itself was refused to the caller the token is unknown afterwards.\<close>

theorem token_single_use:
  assumes "map_of (st_tokens st) token = Some b" and "bd_space b = i"
    and "authorize (st_index st) actor i True = Inr sp" and "bd_kind b = DelSpace \<longrightarrow> owner_only actor sp"
  shows "map_of (st_tokens (snd (execute_delete stamp now actor i token st))) token = None"
proof -
  let ?st1 = "st\<lparr>st_tokens := filter (\<lambda>p. fst p \<noteq> token) (st_tokens st)\<rparr>"
  obtain q st2 where q: "in_tx i (execute_tx i b) ?st1 = (q, st2)" by fastforce
  have t: "st_tokens st2 = st_tokens ?st1" using q by (auto simp: in_tx_def Let_def split: prod.splits)
  have n: "map_of (filter (\<lambda>p. fst p \<noteq> token) ts) token = None" for ts :: "(string \<times> delete_binding) list"
    by (auto simp: map_of_eq_None_iff)
  have k: "\<not> (bd_kind b = DelSpace \<and> \<not> owner_only actor sp)" using assms(4) by blast
  show ?thesis
    using assms(1-3) k q t n
    by (cases q) (auto simp: execute_delete_def Let_def touch_space_def remove_space_def)
qed

theorem token_single_use_witness:
  "map_of (st_tokens (snd (execute_delete ''t'' 900000000001 ''human'' ''space_0'' ''del_3'' preview_store))) ''del_3'' = None
   \<and> map_of (st_tokens preview_store) ''del_3'' \<noteq> None"
proof
  let ?a = "authorize (st_index preview_store) ''human'' ''space_0'' True"
  have a: "?a = Inr (the (case_sum Map.empty Some ?a))" by code_simp
  show "map_of (st_tokens (snd (execute_delete ''t'' 900000000001 ''human'' ''space_0'' ''del_3'' preview_store))) ''del_3'' = None"
    by (rule token_single_use [OF _ _ a, where b = ds_binding])
       (simp_all add: preview_store_token ds_binding_def)
  show "map_of (st_tokens preview_store) ''del_3'' \<noteq> None" by (simp add: preview_store_token)
qed

text \<open>The tokens on file, bounded by the pruning of every preview.\<close>

lemma prune_bound:
  assumes "distinct (map fst ts)"
  shows "int (length (prune_tokens now ts)) < max_live_tokens"
proof -
  let ?k = "filter (\<lambda>p. now \<le> bd_expires (snd p)) ts"
  show ?thesis
  proof (cases "int (length ?k) < max_live_tokens")
    case True
    then show ?thesis by (simp add: prune_tokens_def Let_def)
  next
    case False
    let ?n = "nat (int (length ?k) - max_live_tokens + 1)"
    let ?o = "take ?n (sort_key (\<lambda>p. bd_expires (snd p)) ?k)"
    have d: "distinct (map fst ?k)" using assms by (rule distinct_map_filter)
    have m: "mset (sort_key (\<lambda>p. bd_expires (snd p)) ?k) = mset ?k" by simp
    then have "distinct (map fst (sort_key (\<lambda>p. bd_expires (snd p)) ?k))"
      using d by (metis distinct_by_mset mset_map)
    then have od: "distinct (map fst ?o)" by (metis distinct_take take_map)
    have "set ?o \<subseteq> set ?k" using set_take_subset [of ?n "sort_key (\<lambda>p. bd_expires (snd p)) ?k"] by (simp only: set_sort)
    then have os: "set (map fst ?o) \<subseteq> fst ` set ?k" by (simp only: list.set_map) (rule image_mono)
    have len: "length (map fst ?o) = ?n" using False by (simp add: max_live_tokens_def)
    have "length (filter (\<lambda>p. fst p \<in> set (map fst ?o)) ?k) = ?n"
      using count_by_keys [OF d od os] len by simp
    moreover have "length ?k = length (filter (\<lambda>p. \<not> (fst p \<in> set (map fst ?o))) ?k) + length (filter (\<lambda>p. fst p \<in> set (map fst ?o)) ?k)"
      by (rule removed_count)
    ultimately have "int (length (filter (\<lambda>p. fst p \<notin> set (map fst ?o)) ?k)) < max_live_tokens" using False by linarith
    moreover have "prune_tokens now ts = filter (\<lambda>p. fst p \<notin> set (map fst ?o)) ?k"
      using False by (simp add: prune_tokens_def Let_def)
    ultimately show ?thesis by simp
  qed
qed

definition tokens_ok :: "'f ds_store \<Rightarrow> bool" where
  "tokens_ok st \<longleftrightarrow> distinct (map fst (st_tokens st)) \<and> int (length (st_tokens st)) \<le> max_live_tokens"

lemma tokens_ok_filter:
  assumes "tokens_ok st"
  shows "distinct (map fst (filter P (st_tokens st))) \<and> int (length (filter P (st_tokens st))) \<le> max_live_tokens"
proof -
  have "int (length (st_tokens st)) \<le> max_live_tokens" using assms by (simp add: tokens_ok_def)
  then have "int (length (filter P (st_tokens st))) \<le> max_live_tokens"
    using length_filter_le [of P "st_tokens st"] by linarith
  then show ?thesis using assms by (simp add: tokens_ok_def distinct_map_filter)
qed

lemma in_tx_tokens: "in_tx i f st = (q, st1) \<Longrightarrow> st_tokens st1 = st_tokens st"
  by (auto simp: in_tx_def Let_def split: prod.splits)

lemma write_call_tokens: "st_tokens (snd (write_call stamp actor i fits f st)) = st_tokens st"
proof (cases "authorize (st_index st) actor i True")
  case (Inr sp)
  obtain q st1 where q: "in_tx i f st = (q, st1)" by fastforce
  then show ?thesis using Inr in_tx_tokens [OF q] by (cases q) (simp_all add: write_call_def touch_space_def Let_def)
qed (simp add: write_call_def)

lemma preview_tokens:
  assumes "tokens_ok st"
  shows "tokens_ok (snd (preview_delete rnd now actor i kind ids st))"
proof (cases "authorize (st_index st) actor i True")
  case (Inl k)
  then show ?thesis using assms by (simp add: preview_delete_def)
next
  case (Inr sp)
  obtain q st1 where q: "in_tx i (preview_tx i kind ids) st = (q, st1)" by fastforce
  have t: "st_tokens st1 = st_tokens st" by (rule in_tx_tokens [OF q])
  have d: "distinct (map fst (st_tokens st))" using assms by (simp add: tokens_ok_def)
  have put: "distinct (map fst (put_token x b ts)) \<and> int (length (put_token x b ts)) \<le> max_live_tokens"
    if "distinct (map fst ts)" "int (length ts) < max_live_tokens" for x b ts
  proof -
    have "int (length (filter (\<lambda>p. fst p \<noteq> x) ts)) < max_live_tokens"
      using that(2) length_filter_le [of "\<lambda>p. fst p \<noteq> x" ts] by linarith
    then show ?thesis using that(1) by (auto simp: put_token_def distinct_map_filter)
  qed
  have pd: "distinct (map fst (prune_tokens now (st_tokens st)))"
    using d by (simp add: prune_tokens_def Let_def distinct_map_filter)
  show ?thesis
    using Inr q t assms put [OF pd prune_bound [OF d]]
    by (cases q) (simp_all add: preview_delete_def Let_def tokens_ok_def)
qed

lemma execute_tokens:
  assumes "tokens_ok st"
  shows "tokens_ok (snd (execute_delete stamp now actor i token st))"
proof (cases "authorize (st_index st) actor i True")
  case (Inl k)
  then show ?thesis using assms by (simp add: execute_delete_def)
next
  case (Inr sp)
  show ?thesis
  proof (cases "map_of (st_tokens st) token")
    case None
    then show ?thesis using Inr assms by (simp add: execute_delete_def)
  next
    case (Some b)
    let ?st1 = "st\<lparr>st_tokens := filter (\<lambda>p. fst p \<noteq> token) (st_tokens st)\<rparr>"
    obtain q st2 where q: "in_tx i (execute_tx i b) ?st1 = (q, st2)" by fastforce
    have t: "st_tokens st2 = filter (\<lambda>p. fst p \<noteq> token) (st_tokens st)" using in_tx_tokens [OF q] by simp
    have f: "distinct (map fst (filter (\<lambda>p. fst p \<noteq> token) (st_tokens st)))
        \<and> int (length (filter (\<lambda>p. fst p \<noteq> token) (st_tokens st))) \<le> max_live_tokens" by (rule tokens_ok_filter [OF assms])
    show ?thesis
      using Inr Some q t f assms
      by (cases q) (simp_all add: execute_delete_def Let_def tokens_ok_def touch_space_def remove_space_def)
  qed
qed

lemma run_call_tokens:
  assumes "tokens_ok st"
  shows "tokens_ok (run_call e c st)"
proof -
  have same: "st_tokens st' = st_tokens st \<Longrightarrow> tokens_ok st'" for st' using assms by (simp add: tokens_ok_def)
  show ?thesis
    by (cases c) (auto intro!: same simp: run_call_def on_index_def space_inv.call_defs write_call_tokens assms preview_tokens
        execute_tokens)
qed

text \<open>Previews do not pile up: in every reachable store at most a thousand delete tokens are live.\<close>

theorem tokens_bounded:
  assumes "ds_reachable nm st"
  shows "length (st_tokens st) \<le> 1000"
proof -
  have "tokens_ok st"
    using assms
  proof (induction rule: ds_reachable.induct)
    case start
    then show ?case by (simp add: tokens_ok_def max_live_tokens_def)
  next
    case (step st st')
    from step.hyps(2) obtain e c where "st' = run_call e c st" by (cases rule: ds_step.cases) blast
    then show ?case using run_call_tokens step.IH by simp
  qed
  then show ?thesis by (simp add: tokens_ok_def max_live_tokens_def)
qed

theorem tokens_bounded_witness: "length (st_tokens preview_store) \<le> 1000 \<and> st_tokens preview_store \<noteq> []"
  using tokens_bounded [OF preview_store_reachable] by (simp add: preview_store_token)

end
