(* ===== verification/SpaceAccess.thy ===== *)
theory SpaceAccess
  imports SpaceProps
begin

text \<open>
  Data spaces: who can change what.  A call works on one space, and only for a caller with the level to write
  it; what a batch answers; and what the preview of a delete does not bind.
\<close>

section \<open>The space and the caller of a call\<close>

definition call_space :: "'f ds_call \<Rightarrow> string option" where
  "call_space c =
     (case c of
        CallCreateSpace actor name desc acc \<Rightarrow> None
      | CallUpdateSpace actor i p \<Rightarrow> Some i
      | CallChangeApps attach actor i app \<Rightarrow> Some i
      | CallCreateTypes actor i inps \<Rightarrow> Some i
      | CallAddAttributes actor i t inps \<Rightarrow> Some i
      | CallUpdateType actor i t p \<Rightarrow> Some i
      | CallUpdateAttribute actor i t a p \<Rightarrow> Some i
      | CallCreateRecords actor i t inps \<Rightarrow> Some i
      | CallUpsertRecords actor i t m inps \<Rightarrow> Some i
      | CallUpdateRecord actor i r vs \<Rightarrow> Some i
      | CallChangeLinks actor i l inps \<Rightarrow> Some i
      | CallPreview actor i k ids \<Rightarrow> Some i
      | CallExecute actor i token \<Rightarrow> Some i)"

definition call_actor :: "'f ds_call \<Rightarrow> string" where
  "call_actor c =
     (case c of
        CallCreateSpace actor name desc acc \<Rightarrow> actor
      | CallUpdateSpace actor i p \<Rightarrow> actor
      | CallChangeApps attach actor i app \<Rightarrow> actor
      | CallCreateTypes actor i inps \<Rightarrow> actor
      | CallAddAttributes actor i t inps \<Rightarrow> actor
      | CallUpdateType actor i t p \<Rightarrow> actor
      | CallUpdateAttribute actor i t a p \<Rightarrow> actor
      | CallCreateRecords actor i t inps \<Rightarrow> actor
      | CallUpsertRecords actor i t m inps \<Rightarrow> actor
      | CallUpdateRecord actor i r vs \<Rightarrow> actor
      | CallChangeLinks actor i l inps \<Rightarrow> actor
      | CallPreview actor i k ids \<Rightarrow> actor
      | CallExecute actor i token \<Rightarrow> actor)"

text \<open>The databases that differ are that of the space alone, and only for a caller who may write it.\<close>

definition confined :: "string \<Rightarrow> string \<Rightarrow> 'f ds_store \<Rightarrow> 'f ds_store \<Rightarrow> bool" where
  "confined actor i st st' \<longleftrightarrow>
     (\<forall>j. st_dbs st' j \<noteq> st_dbs st j \<longrightarrow> j = i \<and> (\<exists>sp. authorize (st_index st) actor i True = Inr sp))"

lemma confined_refl [simp]: "confined actor i st st"
  by (simp add: confined_def)

lemma in_tx_other: "in_tx i f st = (q, st1) \<Longrightarrow> j \<noteq> i \<Longrightarrow> st_dbs st1 j = st_dbs st j"
  by (auto simp: in_tx_def Let_def split: prod.splits)

lemma touch_space_dbs [simp]: "st_dbs (touch_space stamp sp st) = st_dbs st"
  by (simp add: touch_space_def Let_def)

lemma write_call_confined: "confined actor i st (snd (write_call stamp actor i fits f st))"
proof (cases "authorize (st_index st) actor i True")
  case (Inr sp)
  obtain q st1 where q: "in_tx i f st = (q, st1)" by fastforce
  have "st_dbs (snd (write_call stamp actor i fits f st)) j = st_dbs st j" if "j \<noteq> i" for j
    using Inr q in_tx_other [OF q that] by (cases q) (simp_all add: write_call_def)
  then show ?thesis using Inr by (auto simp: confined_def)
qed (simp add: write_call_def)

lemma preview_confined: "confined actor i st (snd (preview_delete rnd now actor i kind ids st))"
proof (cases "authorize (st_index st) actor i True")
  case (Inr sp)
  obtain q st1 where q: "in_tx i (preview_tx i kind ids) st = (q, st1)" by fastforce
  have "st_dbs (snd (preview_delete rnd now actor i kind ids st)) j = st_dbs st j" if "j \<noteq> i" for j
    using Inr q in_tx_other [OF q that] by (cases q) (simp_all add: preview_delete_def Let_def)
  then show ?thesis using Inr by (auto simp: confined_def)
qed (simp add: preview_delete_def)

lemma execute_confined: "confined actor i st (snd (execute_delete stamp now actor i token st))"
proof (cases "authorize (st_index st) actor i True")
  case (Inr sp)
  show ?thesis
  proof (cases "map_of (st_tokens st) token")
    case None
    then show ?thesis using Inr by (simp add: execute_delete_def)
  next
    case (Some b)
    let ?st1 = "st\<lparr>st_tokens := filter (\<lambda>p. fst p \<noteq> token) (st_tokens st)\<rparr>"
    obtain q st2 where q: "in_tx i (execute_tx i b) ?st1 = (q, st2)" by fastforce
    have "st_dbs (snd (execute_delete stamp now actor i token st)) j = st_dbs st j" if "j \<noteq> i" for j
      using Inr Some q in_tx_other [OF q that] that
      by (cases q) (simp_all add: execute_delete_def Let_def remove_space_def)
    then show ?thesis using Inr by (auto simp: confined_def)
  qed
qed (simp add: execute_delete_def)

lemma on_index_dbs [simp]: "st_dbs (on_index f st) = st_dbs st"
  by (simp add: on_index_def)

lemma on_index_confined [simp]: "confined actor i st (on_index f st)"
  by (simp add: confined_def)

text \<open>C4. Nobody changes a space they may not write.  If any call changes the database of a space, the call
  was made on that very space, by a caller the space lets write.\<close>

theorem changes_need_write:
  assumes "st_dbs (run_call e c st) j \<noteq> st_dbs st j"
  shows "call_space c = Some j \<and> (\<exists>sp. authorize (st_index st) (call_actor c) j True = Inr sp)"
proof -
  have "confined (call_actor c) (if_given (call_space c) []) st (run_call e c st) \<and> (call_space c = None \<longrightarrow> st_dbs (run_call e c st) = st_dbs st)"
    by (cases c)
       (auto simp: run_call_def call_space_def call_actor_def if_given_def space_inv.call_defs write_call_confined
          preview_confined execute_confined)
  then show ?thesis using assms by (cases "call_space c") (auto simp: confined_def if_given_def)
qed

theorem changes_need_write_witness:
  "call_space (hd (tl schema_calls)) = Some ''space_0''
   \<and> (\<exists>sp. authorize (st_index (run_calls ds_env (take 1 schema_calls) start_store)) ''human'' ''space_0'' True = Inr sp)"
proof -
  let ?st = "run_calls ds_env (take 1 schema_calls) start_store" and ?c = "hd (tl schema_calls)"
  have s: "run_call ds_env ?c ?st = schema_store"
    by (simp add: schema_store_def run_calls_def schema_calls_def)
  have "db_types (st_dbs ?st ''space_0'') = []" by code_simp
  then have n: "st_dbs (run_call ds_env ?c ?st) ''space_0'' \<noteq> st_dbs ?st ''space_0''"
    using schema_store_types unfolding s by auto
  have a: "call_actor ?c = ''human''" by (simp add: schema_calls_def call_actor_def)
  show ?thesis using changes_need_write [OF n] unfolding a .
qed

section \<open>What a batch answers\<close>

lemma recount_entries:
  assumes "recount_loop nm rnd actor stamp t match k inps es db = (Inr es', db')"
  shows "map de_index es' = map de_index es @ [k..<k + length inps]"
  using assms
proof (induction inps arbitrary: k es db)
  case (Cons inp rest)
  let ?s = "savepoint (write_one_record nm rnd actor stamp t match inp (new_cursor db)) db"
  obtain q db1 where q: "?s = (q, db1)" by fastforce
  have u: "[k..<k + length (inp # rest)] = k # [Suc k..<Suc k + length rest]" by (simp add: upt_conv_Cons del: upt_Suc)
  show ?case
  proof (cases q)
    case (Inl e)
    have nf: "\<not> is_fatal e" using Cons.prems q Inl by (auto split: if_splits)
    then have "map de_index es' = (map de_index es @ [k]) @ [Suc k..<Suc k + length rest]"
      using Cons.IH [of "Suc k" _ db1] Cons.prems q Inl by simp
    then show ?thesis unfolding u by simp
  next
    case (Inr p)
    obtain i c where "p = (i, c)" by fastforce
    then have "map de_index es' = (map de_index es @ [k]) @ [Suc k..<Suc k + length rest]"
      using Cons.IH [of "Suc k" _ db1] Cons.prems q Inr by simp
    then show ?thesis unfolding u by simp
  qed
qed simp

lemma result_counts: "rs_succeeded (build_result noun verb es) + rs_failed (build_result noun verb es) = length es"
proof -
  have "length es = length (filter (\<lambda>e. \<not> (de_error e \<noteq> None)) es) + length (filter (\<lambda>e. de_error e \<noteq> None) es)"
    by (rule removed_count)
  moreover have "length (filter (\<lambda>e. de_error e = None) es)
      = length (filter (\<lambda>e. de_error e = None \<and> \<not> de_noop e) es) + length (filter (\<lambda>e. de_error e = None \<and> de_noop e) es)"
    using removed_count [of "filter (\<lambda>e. de_error e = None) es" de_noop] by (simp add: conj_commute)
  ultimately show ?thesis by (simp add: build_result_def Let_def)
qed

text \<open>A batch of records answers every input once.  When a call that writes records succeeds, it has at most
  1000 inputs, its answer has one entry per input, numbered in their order, and its two counts add up to
  the number of inputs.\<close>

theorem every_input_answered:
  assumes "write_records nm rnd stamp actor i tref mref inps st = (Inr res, st')"
  shows "map de_index (rs_entries res) = [0..<length inps] \<and> length inps \<le> 1000
    \<and> rs_succeeded res + rs_failed res = length inps"
proof -
  let ?f = "write_records_tx nm rnd (normalize_ds_actor actor) stamp tref mref inps"
  obtain w st1 where w: "write_call stamp actor i (int (length inps) \<le> 1000) ?f st = (w, st1)" by fastforce
  then obtain es where es: "w = Inr es" "res = build_result ''record'' (if mref = [] then ''created'' else ''written'') es"
    using assms by (cases w) (auto simp: write_records_def with_result_def)
  obtain sp where sp: "authorize (st_index st) actor i True = Inr sp" and len: "int (length inps) \<le> 1000"
    using w es(1) by (cases "authorize (st_index st) actor i True") (auto simp: write_call_def split: if_splits)
  obtain q st2 where q: "in_tx i ?f st = (q, st2)" by fastforce
  then have "q = Inr es" using w es(1) sp len by (cases q) (auto simp: write_call_def)
  then obtain db d where f: "?f db = (Inr es, d)"
    using q by (auto simp: in_tx_def Let_def savepoint_def split: prod.splits sum.splits)
  obtain db1 where l: "load_schema db = Inr db1" using f by (cases "load_schema db") (auto simp: write_records_tx_def reloaded_def)
  obtain t where t: "require_type db1 tref = Inr t"
    using f l by (cases "require_type db1 tref") (auto simp: write_records_tx_def reloaded_def)
  let ?m = "if mref = [] then Inr None else map_sum id Some (require_match_attribute t mref)"
  obtain match where m: "?m = Inr match"
    using f l t by (cases ?m) (auto simp: write_records_tx_def reloaded_def split: if_splits)
  have "write_loop nm rnd (normalize_ds_actor actor) stamp t match 0 inps [] (new_cursor db1) db1 = (Inr es, d)"
    using f l t m by (simp add: write_records_tx_def reloaded_def)
  then have "recount_loop nm rnd (normalize_ds_actor actor) stamp t match 0 inps [] db1 = (Inr es, d)"
    by (simp add: write_loop_recount)
  from recount_entries [OF this] have e: "map de_index es = [0..<length inps]" by simp
  then have "length es = length inps" by (metis length_map length_upt minus_nat.diff_0)
  moreover have "rs_entries res = es" by (simp add: es(2) build_result_def Let_def)
  ultimately show ?thesis using e len result_counts [of "''record''" _ es] by (simp add: es(2))
qed

text \<open>A store with one space and one type.\<close>

definition tiny_type :: obj_type where
  "tiny_type =
     \<lparr>ty_id = ''t'', ty_slug = ''p'', ty_name = ''P'', ty_plural = ''Ps'', ty_icon = [], ty_description = [],
      ty_created_by = [], ty_created_at = [], ty_position = 0, ty_attrs = [primary_attribute ''a'' []]\<rparr>"

definition tiny_store :: "int ds_store" where
  "tiny_store =
     \<lparr>st_index =
        \<lparr>ix_spaces =
           [\<lparr>sp_id = ''s'', sp_name = ''S'', sp_description = [], sp_owner = [],
             sp_access = \<lparr>ac_scope = ScopePrivate, ac_grants = []\<rparr>, sp_apps = [], sp_type_count = 0,
             sp_record_count = 0, sp_created = [], sp_updated = [], sp_caller = LevelNone\<rparr>],
         ix_draws = 0\<rparr>,
      st_dbs = (\<lambda>_. empty_db\<lparr>db_types := [tiny_type]\<rparr>), st_tokens = []\<rparr>"

definition tiny_result :: "(ds_error + ds_result) \<times> int ds_store" where
  "tiny_result =
     write_records whole_numbers (\<lambda>n. itoa (int n)) ''t'' ''human'' ''s'' ''t'' [] [[(''name'', RStr ''A'')], [(''x'', RNull)]] tiny_store"

theorem every_input_answered_witness:
  "case fst tiny_result of
     Inl _ \<Rightarrow> False
   | Inr res \<Rightarrow> map de_index (rs_entries res) = [0, 1] \<and> rs_succeeded res + rs_failed res = 2 \<and> rs_failed res = 1"
proof -
  have f: "case fst tiny_result of Inl _ \<Rightarrow> False | Inr res \<Rightarrow> rs_failed res = 1" by code_simp
  then obtain res where r: "fst tiny_result = Inr res" "rs_failed res = 1" by (cases "fst tiny_result") auto
  have e: "tiny_result = (Inr res, snd tiny_result)" using r(1) by (metis prod.collapse)
  show ?thesis using every_input_answered [OF e [unfolded tiny_result_def]] r by simp
qed

section \<open>What a preview binds\<close>

text \<open>The token of a preview for the records of a type carries their number, not their ids: a database in
  which the records have been replaced by as many others gives the same numbers, and the execution takes
  records that the preview has not seen.\<close>

definition one_record :: "string \<Rightarrow> int space_db" where
  "one_record i =
     empty_db\<lparr>db_types := [tiny_type],
       db_records := [\<lparr>rw_id = i, rw_type = ''t'', rw_created_by = [], rw_created_at = [], rw_updated_at = [], rw_seq = 0\<rparr>]\<rparr>"

definition seen_binding :: delete_binding where
  "seen_binding =
     \<lparr>bd_space = ''s'', bd_kind = DelRecordsOfType, bd_ids = [''t''],
      bd_impact = (case fst (preview_tx ''s'' DelRecordsOfType [''t''] (one_record ''x'')) of
                     Inr im \<Rightarrow> im | Inl _ \<Rightarrow> \<lparr>im_types = 0, im_attrs = 0, im_records = 0, im_links = 0\<rparr>),
      bd_expires = 0\<rparr>"

lemma preview_binds_numbers:
  "case fst (execute_tx ''s'' seen_binding (one_record ''y'')) of
     Inl _ \<Rightarrow> False | Inr p \<Rightarrow> dp_records p = [''y''] \<and> im_records (bd_impact seen_binding) = 1"
  by code_simp

end
