(* ===== verification/Executor.thy ===== *)
theory Executor
  imports Prelude "HOL-Library.Multiset"
begin

text \<open>
  The executor of delegated tasks: \<^verbatim>\<open>internal/orchestration/executor.go\<close> with the types of
  \<^verbatim>\<open>types.go\<close>.

  A bot checks a task out, works on it and releases it; at most \<open>oc_max_bots\<close> tasks are out at a time, and
  a timer may give a task up first.  Every method runs under the mutex of the executor, so a run is a
  sequence of operations.  The maps are association lists.  Two fields are history: \<open>ex_armed\<close> keeps every
  timer that was ever started, since a timer that has fired may be waiting for the mutex when it is
  stopped, and \<open>ex_log\<close> the events with the listeners they went to (each in its own goroutine).  A
  floating-point number is of type \<open>'f\<close> and a listener of type \<open>'h\<close>.
\<close>

section \<open>The data\<close>

record 'f skill_declaration =
  sk_name :: string
  sk_description :: string
  sk_proficiency :: 'f

record 'f budget_limit =
  bl_tokens :: int
  bl_cost :: 'f

datatype od_state = OdPending | OdLocked | OdInProgress | OdCompleted | OdFailed

record 'f task_definition =
  od_id :: string
  od_title :: string
  od_description :: string
  od_skills :: "string list"
  od_goal :: string
  od_priority :: string
  od_status :: od_state
  od_bot :: string
  od_budget :: "'f budget_limit option"
  od_created :: int
  od_completed :: int
  od_result :: string

record 'f executor_config =
  oc_max_bots :: int
  oc_budget :: "'f budget_limit"
  oc_timeout :: int
  oc_retry :: bool
  oc_retries :: int

datatype executor_event_kind = EvStart | EvComplete | EvFail | EvTimeout

record executor_event =
  ee_kind :: executor_event_kind
  ee_task :: string
  ee_bot :: string
  ee_result :: string
  ee_error :: string

record ('f, 'h) executor =
  ex_config :: "'f executor_config"
  ex_tasks :: "'f task_definition list"
  ex_locks :: "(string \<times> string) list"
  ex_active :: int
  ex_listeners :: "'h list"
  ex_timers :: "string list"
  ex_stopped :: bool
  ex_armed :: "(string \<times> string) list"
  ex_log :: "(executor_event \<times> 'h list) list"

datatype executor_error = ExStopped | ExDuplicate | ExUnknown | ExNotOut

section \<open>The operations\<close>

definition new_executor :: "'f executor_config \<Rightarrow> ('f, 'h) executor" where
  "new_executor cfg =
     \<lparr> ex_config = cfg, ex_tasks = [], ex_locks = [], ex_active = 0, ex_listeners = [], ex_timers = [],
       ex_stopped = False, ex_armed = [], ex_log = [] \<rparr>"

definition emit :: "executor_event \<Rightarrow> ('f, 'h) executor \<Rightarrow> ('f, 'h) executor" where
  "emit ev e = e\<lparr> ex_log := ex_log e @ [(ev, ex_listeners e)] \<rparr>"

text \<open>Subscribing hands out the index the unsubscribe function closes over.\<close>

definition on_event :: "'h \<Rightarrow> ('f, 'h) executor \<Rightarrow> nat \<times> ('f, 'h) executor" where
  "on_event h e = (length (ex_listeners e), e\<lparr> ex_listeners := ex_listeners e @ [h] \<rparr>)"

definition unsubscribe :: "nat \<Rightarrow> ('f, 'h) executor \<Rightarrow> ('f, 'h) executor" where
  "unsubscribe i e =
     (if i < length (ex_listeners e)
      then e\<lparr> ex_listeners := take i (ex_listeners e) @ drop (Suc i) (ex_listeners e) \<rparr>
      else e)"

definition task_of :: "string \<Rightarrow> ('f, 'h) executor \<Rightarrow> 'f task_definition option" where
  "task_of i e = find (\<lambda>t. od_id t = i) (ex_tasks e)"

definition edit_task ::
  "string \<Rightarrow> ('f task_definition \<Rightarrow> 'f task_definition) \<Rightarrow> ('f, 'h) executor \<Rightarrow> ('f, 'h) executor" where
  "edit_task i f e = e\<lparr> ex_tasks := map_first (\<lambda>t. od_id t = i) f (ex_tasks e) \<rparr>"

definition submit :: "'f task_definition \<Rightarrow> ('f, 'h) executor \<Rightarrow> (executor_error + unit) \<times> ('f, 'h) executor" where
  "submit t e =
     (if ex_stopped e then (Inl ExStopped, e)
      else if task_of (od_id t) e \<noteq> None then (Inl ExDuplicate, e)
      else (Inr (), e\<lparr> ex_tasks := ex_tasks e @ [t\<lparr> od_status := OdPending \<rparr>] \<rparr>))"

definition checkout ::
  "string \<Rightarrow> string \<Rightarrow> ('f, 'h) executor \<Rightarrow> (executor_error + bool) \<times> ('f, 'h) executor" where
  "checkout i slug e =
     (if ex_stopped e then (Inl ExStopped, e)
      else case task_of i e of
        None \<Rightarrow> (Inl ExUnknown, e)
      | Some t \<Rightarrow>
          if od_status t \<noteq> OdPending then (Inr False, e)
          else if map_of (ex_locks e) i \<noteq> None then (Inr False, e)
          else if 0 < oc_max_bots (ex_config e) \<and> oc_max_bots (ex_config e) \<le> ex_active e then (Inr False, e)
          else
            (let e1 = edit_task i (\<lambda>t. t\<lparr> od_status := OdInProgress, od_bot := slug \<rparr>) e;
                 e2 = e1\<lparr> ex_locks := (i, slug) # ex_locks e1, ex_active := ex_active e1 + 1 \<rparr>;
                 e3 = (if 0 < oc_timeout (ex_config e)
                       then e2\<lparr> ex_timers := i # ex_timers e2, ex_armed := (i, slug) # ex_armed e2 \<rparr>
                       else e2)
             in (Inr True,
                 emit \<lparr> ee_kind = EvStart, ee_task = i, ee_bot = slug, ee_result = '''', ee_error = '''' \<rparr> e3)))"

text \<open>What the three ways of giving a task back share: the lock goes and the count goes down.\<close>

definition drop_lock :: "string \<Rightarrow> ('f, 'h) executor \<Rightarrow> ('f, 'h) executor" where
  "drop_lock i e =
     e\<lparr> ex_locks := filter (\<lambda>p. fst p \<noteq> i) (ex_locks e),
        ex_active := (if 0 < ex_active e then ex_active e - 1 else ex_active e) \<rparr>"

definition release_task ::
  "int \<Rightarrow> string \<Rightarrow> string option \<Rightarrow> string option \<Rightarrow> ('f, 'h) executor
     \<Rightarrow> (executor_error + unit) \<times> ('f, 'h) executor" where
  "release_task now i result err e =
     (case task_of i e of
        None \<Rightarrow> (Inl ExUnknown, e)
      | Some t \<Rightarrow>
          (case map_of (ex_locks e) i of
             None \<Rightarrow> (Inl ExNotOut, e)
           | Some slug \<Rightarrow>
               let e1 = drop_lock i e;
                   e2 = e1\<lparr> ex_timers := filter (\<lambda>j. j \<noteq> i) (ex_timers e1) \<rparr>
               in (case err of
                     Some (c # cs) \<Rightarrow>
                       (Inr (), emit \<lparr> ee_kind = EvFail, ee_task = i, ee_bot = slug, ee_result = '''', ee_error = c # cs \<rparr>
                          (edit_task i (\<lambda>t. t\<lparr> od_completed := now, od_status := OdFailed \<rparr>) e2))
                   | _ \<Rightarrow>
                       (let r = (case result of Some r \<Rightarrow> r | None \<Rightarrow> od_result t)
                        in (Inr (), emit \<lparr> ee_kind = EvComplete, ee_task = i, ee_bot = slug, ee_result = r, ee_error = '''' \<rparr>
                             (edit_task i (\<lambda>t. t\<lparr> od_completed := now, od_status := OdCompleted, od_result := r \<rparr>) e2))))))"

definition active_tasks :: "('f, 'h) executor \<Rightarrow> 'f task_definition list" where
  "active_tasks e = filter (\<lambda>t. od_status t = OdInProgress) (ex_tasks e)"

text \<open>
  The loop over the locks runs in the order of a Go map, which the argument \<open>order\<close> gives.
\<close>

definition stop_one :: "int \<Rightarrow> string \<times> string \<Rightarrow> ('f, 'h) executor \<Rightarrow> ('f, 'h) executor" where
  "stop_one now l e =
     emit \<lparr> ee_kind = EvFail, ee_task = fst l, ee_bot = snd l, ee_result = '''', ee_error = ''executor stopped'' \<rparr>
       (drop_lock (fst l) (edit_task (fst l) (\<lambda>t. t\<lparr> od_status := OdFailed, od_completed := now \<rparr>) e))"

definition stop_all :: "int \<Rightarrow> (string \<times> string) list \<Rightarrow> ('f, 'h) executor \<Rightarrow> ('f, 'h) executor" where
  "stop_all now order e = fold (stop_one now) order (e\<lparr> ex_stopped := True, ex_timers := [] \<rparr>)"

definition handle_timeout :: "int \<Rightarrow> string \<Rightarrow> string \<Rightarrow> ('f, 'h) executor \<Rightarrow> ('f, 'h) executor" where
  "handle_timeout now i slug e =
     (case task_of i e of
        None \<Rightarrow> e
      | Some t \<Rightarrow>
          if od_status t \<noteq> OdInProgress then e
          else
            (let e1 = drop_lock i (edit_task i (\<lambda>t. t\<lparr> od_status := OdFailed, od_completed := now \<rparr>) e);
                 e2 = e1\<lparr> ex_timers := filter (\<lambda>j. j \<noteq> i) (ex_timers e1) \<rparr>
             in emit \<lparr> ee_kind = EvTimeout, ee_task = i, ee_bot = slug, ee_result = '''',
                       ee_error = ''task timed out'' \<rparr> e2))"

section \<open>Runs\<close>

text \<open>A timer fires only when it was started; the order of stopping is some order of the locks.\<close>

inductive executor_run :: "'f executor_config \<Rightarrow> ('f, 'h) executor \<Rightarrow> bool" for cfg where
  fresh_executor: "executor_run cfg (new_executor cfg)"
| run_submit: "executor_run cfg e \<Longrightarrow> executor_run cfg (snd (submit t e))"
| run_checkout: "executor_run cfg e \<Longrightarrow> executor_run cfg (snd (checkout i slug e))"
| run_release: "executor_run cfg e \<Longrightarrow> executor_run cfg (snd (release_task now i result err e))"
| run_stop: "executor_run cfg e \<Longrightarrow> mset order = mset (ex_locks e) \<Longrightarrow> executor_run cfg (stop_all now order e)"
| run_timeout: "executor_run cfg e \<Longrightarrow> (i, slug) \<in> set (ex_armed e) \<Longrightarrow> executor_run cfg (handle_timeout now i slug e)"
| run_subscribe: "executor_run cfg e \<Longrightarrow> executor_run cfg (snd (on_event h e))"
| run_unsubscribe: "executor_run cfg e \<Longrightarrow> executor_run cfg (unsubscribe n e)"

end
