(* ===== verification/TaskRouting.thy ===== *)
theory TaskRouting
  imports GoGlob Executor "HOL-Library.Multiset"
begin

text \<open>
  Which bot fits a task: \<^verbatim>\<open>internal/orchestration/router.go\<close>.

  A score is a 64-bit floating-point number, here of an abstract type; the record \<open>floats\<close> holds the
  operations of the hardware the code uses.  What the theorems need of the comparison is stated where
  they need it (\<open>less_laws\<close>).  The registry is a Go map: the list \<open>rt_bots\<close> is the order of one
  iteration over it, and the theorems hold for every list.
\<close>

record 'f floats =
  fl_int :: "int \<Rightarrow> 'f"
  fl_decimal :: "int \<Rightarrow> int \<Rightarrow> 'f"
  fl_add :: "'f \<Rightarrow> 'f \<Rightarrow> 'f"
  fl_mul :: "'f \<Rightarrow> 'f \<Rightarrow> 'f"
  fl_div :: "'f \<Rightarrow> 'f \<Rightarrow> 'f"
  fl_less :: "'f \<Rightarrow> 'f \<Rightarrow> bool"
  fl_le :: "'f \<Rightarrow> 'f \<Rightarrow> bool"
  fl_eq :: "'f \<Rightarrow> 'f \<Rightarrow> bool"

section \<open>Similarity of two texts\<close>

text \<open>The conversion to a slice of code points.\<close>

function runes :: "string \<Rightarrow> nat list" where
  "runes [] = []"
| "runes (c # cs) = fst (decode_rune (c # cs)) # runes (drop (snd (decode_rune (c # cs)) - 1) cs)"
  by pat_completeness auto
termination
  by (relation "measure length") auto

text \<open>A text of two code points is the pair of them.\<close>

definition bigrams :: "string \<Rightarrow> (nat \<times> nat) list" where
  "bigrams s = (let rs = runes s in if length rs < 2 then [] else zip rs (tl rs))"

text \<open>The inner loop: the first unused equal bigram is marked as used.\<close>

fun claim :: "'a \<Rightarrow> 'a list \<Rightarrow> bool list \<Rightarrow> bool list option" where
  "claim a (b # bs) (u # us) =
     (if \<not> u \<and> a = b then Some (True # us)
      else (case claim a bs us of Some us' \<Rightarrow> Some (u # us') | None \<Rightarrow> None))"
| "claim a bs us = None"

fun overlap :: "'a list \<Rightarrow> 'a list \<Rightarrow> bool list \<Rightarrow> nat" where
  "overlap [] bs used = 0"
| "overlap (a # as) bs used =
     (case claim a bs used of Some used' \<Rightarrow> Suc (overlap as bs used') | None \<Rightarrow> overlap as bs used)"

definition similarity :: "'f floats \<Rightarrow> string \<Rightarrow> string \<Rightarrow> 'f" where
  "similarity fl a0 b0 =
     (let a = to_lower a0; b = to_lower b0 in
      if a = b then fl_int fl 1
      else if length a < 2 \<or> length b < 2 then (if a = b then fl_int fl 1 else fl_int fl 0)
      else
        (let as = bigrams a; bs = bigrams b;
             n = overlap as bs (replicate (length bs) False)
         in fl_div fl (fl_int fl (2 * int n)) (fl_int fl (int (length as + length bs)))))"

section \<open>The router\<close>

record 'f task_router =
  rt_bots :: "(string \<times> 'f skill_declaration list) list"

definition new_task_router :: "'f task_router" where
  "new_task_router = \<lparr> rt_bots = [] \<rparr>"

definition unregister_bot :: "string \<Rightarrow> 'f task_router \<Rightarrow> 'f task_router" where
  "unregister_bot slug r = r\<lparr> rt_bots := filter (\<lambda>p. fst p \<noteq> slug) (rt_bots r) \<rparr>"

definition register_bot :: "string \<Rightarrow> 'f skill_declaration list \<Rightarrow> 'f task_router \<Rightarrow> 'f task_router" where
  "register_bot slug skills r = r\<lparr> rt_bots := filter (\<lambda>p. fst p \<noteq> slug) (rt_bots r) @ [(slug, skills)] \<rparr>"

fun best_skill :: "'f floats \<Rightarrow> string \<Rightarrow> 'f \<Rightarrow> 'f skill_declaration list \<Rightarrow> 'f" where
  "best_skill fl required best [] = best"
| "best_skill fl required best (sk # sks) =
     (let score = fl_mul fl (similarity fl required (sk_name sk)) (sk_proficiency sk)
      in best_skill fl required (if fl_less fl best score then score else best) sks)"

fun add_scores :: "'f floats \<Rightarrow> 'f skill_declaration list \<Rightarrow> 'f \<Rightarrow> string list \<Rightarrow> 'f" where
  "add_scores fl skills acc [] = acc"
| "add_scores fl skills acc (required # rest) =
     (let best = best_skill fl required (fl_int fl 0) skills
      in add_scores fl skills (if fl_le fl (fl_decimal fl 3 10) best then fl_add fl acc best else acc) rest)"

definition score_match :: "'f floats \<Rightarrow> 'f task_router \<Rightarrow> string \<Rightarrow> 'f task_definition \<Rightarrow> 'f" where
  "score_match fl r slug t =
     (case map_of (rt_bots r) slug of
        None \<Rightarrow> fl_int fl 0
      | Some skills \<Rightarrow>
          if od_skills t = [] then fl_int fl 0
          else fl_div fl (add_scores fl skills (fl_int fl 0) (od_skills t)) (fl_int fl (int (length (od_skills t)))))"

record 'f routing_result =
  ro_bot :: string
  ro_score :: 'f

text \<open>
  The two loops that sort the candidates in place: the inner one carries the greatest score to the
  front, leaving behind what it displaces.
\<close>

fun exchange_row :: "'f floats \<Rightarrow> 'f routing_result \<Rightarrow> 'f routing_result list
    \<Rightarrow> 'f routing_result \<times> 'f routing_result list" where
  "exchange_row fl x [] = (x, [])"
| "exchange_row fl x (y # ys) =
     (if fl_less fl (ro_score x) (ro_score y)
      then (let (m, r) = exchange_row fl y ys in (m, x # r))
      else (let (m, r) = exchange_row fl x ys in (m, y # r)))"

lemma exchange_row_length [simp]: "length (snd (exchange_row fl x ys)) = length ys"
  by (induction fl x ys rule: exchange_row.induct) (auto split: prod.splits)

function exchange_sort :: "'f floats \<Rightarrow> 'f routing_result list \<Rightarrow> 'f routing_result list" where
  "exchange_sort fl [] = []"
| "exchange_sort fl (x # xs) =
     fst (exchange_row fl x xs) # exchange_sort fl (snd (exchange_row fl x xs))"
  by pat_completeness auto
termination
  by (relation "measure (\<lambda>(fl, xs). length xs)") auto

definition candidates :: "'f floats \<Rightarrow> 'f task_router \<Rightarrow> 'f task_definition \<Rightarrow> 'f routing_result list" where
  "candidates fl r t =
     filter (\<lambda>x. fl_less fl (fl_int fl 0) (ro_score x))
       (map (\<lambda>p. \<lparr> ro_bot = fst p, ro_score = score_match fl r (fst p) t \<rparr>) (rt_bots r))"

definition find_capable_bots :: "'f floats \<Rightarrow> 'f task_router \<Rightarrow> 'f task_definition \<Rightarrow> 'f routing_result list" where
  "find_capable_bots fl r t = exchange_sort fl (candidates fl r t)"

fun best_result :: "'f floats \<Rightarrow> 'f routing_result \<Rightarrow> 'f routing_result list \<Rightarrow> 'f routing_result" where
  "best_result fl best [] = best"
| "best_result fl best (x # xs) = best_result fl (if fl_less fl (ro_score best) (ro_score x) then x else best) xs"

definition find_best_bot :: "'f floats \<Rightarrow> 'f task_router \<Rightarrow> 'f task_definition \<Rightarrow> 'f routing_result option" where
  "find_best_bot fl r t =
     (case find_capable_bots fl r t of [] \<Rightarrow> None | x # xs \<Rightarrow> Some (best_result fl x xs))"

section \<open>The overlap of two texts\<close>

text \<open>The bigrams that are not used up.\<close>

fun unclaimed :: "'a list \<Rightarrow> bool list \<Rightarrow> 'a multiset" where
  "unclaimed (b # bs) (u # us) = (if u then unclaimed bs us else add_mset b (unclaimed bs us))"
| "unclaimed bs us = {#}"

lemma claim_none: "claim a bs us = None \<longleftrightarrow> a \<notin># unclaimed bs us"
  by (induction a bs us rule: claim.induct) (auto split: option.splits)

lemma claim_some: "claim a bs us = Some us' \<Longrightarrow> unclaimed bs us = add_mset a (unclaimed bs us')"
  by (induction a bs us arbitrary: us' rule: claim.induct) (auto split: option.splits if_splits)

lemma overlap_inter: "overlap as bs us = size (mset as \<inter># unclaimed bs us)"
proof (induction as arbitrary: us)
  case (Cons a as)
  show ?case
  proof (cases "claim a bs us")
    case None
    then have "a \<notin># unclaimed bs us" by (simp add: claim_none)
    with None Cons.IH show ?thesis by (simp add: inter_add_left1)
  next
    case (Some us')
    with Cons.IH claim_some [OF Some] show ?thesis by simp
  qed
qed simp

lemma unclaimed_all: "unclaimed bs (replicate (length bs) False) = mset bs"
  by (induction bs) auto

text \<open>The greedy marking of the similarity loop counts exactly the common bigrams, as a multiset, so the
  similarity of two texts does not depend on their order.\<close>
theorem similarity_counts_overlap:
  "overlap as bs (replicate (length bs) False) = size (mset as \<inter># mset bs)
   \<and> similarity fl a b = similarity fl b a"
proof
  have n: "overlap xs ys (replicate (length ys) False) = size (mset xs \<inter># mset ys)" for xs ys :: "(nat \<times> nat) list"
    by (simp add: overlap_inter unclaimed_all)
  have m: "overlap xs ys (replicate (length ys) False) = overlap ys xs (replicate (length xs) False)" for xs ys :: "(nat \<times> nat) list"
    by (simp add: n subset_mset.inf_commute)
  show "similarity fl a b = similarity fl b a"
    using m [of "bigrams (to_lower a)" "bigrams (to_lower b)"]
    by (simp add: similarity_def Let_def add.commute eq_commute disj_commute)
qed (simp add: overlap_inter unclaimed_all)

section \<open>The order of the candidates\<close>

text \<open>
  The comparison of floating-point numbers: a number that is greater than zero is not the NaN, and
  compares with every pair it lies between.
\<close>

definition less_laws :: "'f floats \<Rightarrow> bool" where
  "less_laws fl \<longleftrightarrow>
     (\<forall>x. \<not> fl_less fl x x) \<and> (\<forall>x y z. fl_less fl x y \<longrightarrow> fl_less fl y z \<longrightarrow> fl_less fl x z)
     \<and> (\<forall>x y z. fl_less fl (fl_int fl 0) z \<longrightarrow> fl_less fl x y \<longrightarrow> fl_less fl x z \<or> fl_less fl z y)"

lemma exchange_row_mset: "add_mset (fst (exchange_row fl x ys)) (mset (snd (exchange_row fl x ys))) = add_mset x (mset ys)"
  by (induction fl x ys rule: exchange_row.induct) (auto simp: add_mset_commute split: prod.splits)

lemma exchange_sort_mset: "mset (exchange_sort fl xs) = mset xs"
  by (induction fl xs rule: exchange_sort.induct) (simp_all add: exchange_row_mset)

lemma exchange_row_greatest:
  assumes laws: "less_laws fl"
  shows "\<forall>z\<in>set (x # ys). fl_less fl (fl_int fl 0) (ro_score z) \<Longrightarrow>
    \<not> fl_less fl (ro_score (fst (exchange_row fl x ys))) (ro_score x)
    \<and> (\<forall>z\<in>set (snd (exchange_row fl x ys)). \<not> fl_less fl (ro_score (fst (exchange_row fl x ys))) (ro_score z))"
proof (induction ys arbitrary: x)
  case Nil
  then show ?case using laws by (simp add: less_laws_def)
next
  case (Cons y ys)
  show ?case
  proof (cases "fl_less fl (ro_score x) (ro_score y)")
    case True
    obtain m r where m: "exchange_row fl y ys = (m, r)" by fastforce
    have ih: "\<not> fl_less fl (ro_score m) (ro_score y)" "\<forall>z\<in>set r. \<not> fl_less fl (ro_score m) (ro_score z)"
      using Cons.IH [of y] Cons.prems m by auto
    have "\<not> fl_less fl (ro_score m) (ro_score x)" using laws True ih(1) unfolding less_laws_def by blast
    with True m ih show ?thesis by simp
  next
    case False
    obtain m r where m: "exchange_row fl x ys = (m, r)" by fastforce
    have ih: "\<not> fl_less fl (ro_score m) (ro_score x)" "\<forall>z\<in>set r. \<not> fl_less fl (ro_score m) (ro_score z)"
      using Cons.IH [of x] Cons.prems m by auto
    have "fl_less fl (fl_int fl 0) (ro_score x)" using Cons.prems by simp
    then have "\<not> fl_less fl (ro_score m) (ro_score y)" using laws False ih(1) unfolding less_laws_def by blast
    with False m ih show ?thesis by simp
  qed
qed

lemma exchange_sort_sorted:
  assumes laws: "less_laws fl"
  shows "\<forall>z\<in>set xs. fl_less fl (fl_int fl 0) (ro_score z) \<Longrightarrow>
    sorted_wrt (\<lambda>x y. \<not> fl_less fl (ro_score x) (ro_score y)) (exchange_sort fl xs)"
proof (induction "length xs" arbitrary: xs)
  case 0
  then show ?case by simp
next
  case (Suc n)
  then obtain x ys where xs: "xs = x # ys" by (cases xs) auto
  obtain m r where m: "exchange_row fl x ys = (m, r)" by fastforce
  have ms: "add_mset m (mset r) = add_mset x (mset ys)" using exchange_row_mset [of fl x ys] m by simp
  then have "set_mset (add_mset m (mset r)) = set_mset (add_mset x (mset ys))" by simp
  then have sub: "set (m # r) = set (x # ys)" by simp
  have "length r = n" using Suc.hyps(2) xs exchange_row_length [of fl x ys] m by simp
  moreover have "\<forall>z\<in>set r. fl_less fl (fl_int fl 0) (ro_score z)" using Suc.prems sub xs by auto
  ultimately have "sorted_wrt (\<lambda>x y. \<not> fl_less fl (ro_score x) (ro_score y)) (exchange_sort fl r)"
    using Suc.hyps(1) by simp
  moreover have "\<forall>z\<in>set r. \<not> fl_less fl (ro_score m) (ro_score z)"
    using exchange_row_greatest [OF laws, of x ys] Suc.prems xs m by simp
  moreover have "set (exchange_sort fl r) = set r" by (metis exchange_sort_mset mset_eq_setD)
  ultimately show ?case by (simp add: xs m)
qed

text \<open>The candidates for a task are exactly the registered bots with a score above zero, each once, and no
  later one scores higher than an earlier one; the two exchange loops sort.\<close>
theorem candidates_sorted:
  assumes "less_laws fl"
  shows "mset (find_capable_bots fl r t) = mset (candidates fl r t)
    \<and> sorted_wrt (\<lambda>x y. \<not> fl_less fl (ro_score x) (ro_score y)) (find_capable_bots fl r t)"
proof
  have "\<forall>z\<in>set (candidates fl r t). fl_less fl (fl_int fl 0) (ro_score z)" by (simp add: candidates_def)
  then show "sorted_wrt (\<lambda>x y. \<not> fl_less fl (ro_score x) (ro_score y)) (find_capable_bots fl r t)"
    unfolding find_capable_bots_def by (rule exchange_sort_sorted [OF assms])
qed (simp add: find_capable_bots_def exchange_sort_mset)

text \<open>Whole per mille stand for the numbers in the samples.\<close>

definition per_mille :: "int floats" where
  "per_mille =
     \<lparr> fl_int = (\<lambda>n. 1000 * n), fl_decimal = (\<lambda>n d. 1000 * n div d), fl_add = (+),
       fl_mul = (\<lambda>x y. x * y div 1000), fl_div = (\<lambda>x y. 1000 * x div y), fl_less = (<), fl_le = (\<le>), fl_eq = (=) \<rparr>"

lemma per_mille_laws: "less_laws per_mille"
  by (auto simp: less_laws_def per_mille_def)

text \<open>The comparisons of floating-point numbers; a number is what equals itself.\<close>

definition order_laws :: "'f floats \<Rightarrow> bool" where
  "order_laws fl \<longleftrightarrow>
     (\<forall>x y. fl_le fl x y \<longrightarrow> fl_eq fl y y)
     \<and> (\<forall>x y. fl_eq fl x x \<longrightarrow> fl_eq fl y y \<longrightarrow> fl_less fl x y \<or> fl_eq fl x y \<or> fl_less fl y x)
     \<and> (\<forall>x y. fl_eq fl x y \<longrightarrow> fl_eq fl y x \<and> \<not> fl_less fl x y)
     \<and> (\<forall>x y z. fl_less fl x y \<longrightarrow> fl_less fl y z \<longrightarrow> fl_less fl x z)
     \<and> (\<forall>x y z. fl_eq fl x y \<longrightarrow> fl_eq fl y z \<longrightarrow> fl_eq fl x z)
     \<and> (\<forall>x y z. fl_less fl x y \<longrightarrow> fl_eq fl y z \<longrightarrow> fl_less fl x z)
     \<and> (\<forall>x y z. fl_eq fl x y \<longrightarrow> fl_less fl y z \<longrightarrow> fl_less fl x z)
     \<and> (\<forall>x y. fl_less fl x y \<longrightarrow> \<not> fl_less fl y x)"

lemma order_lawsD:
  assumes laws: "order_laws fl"
  shows order_number: "fl_le fl x y \<Longrightarrow> fl_eq fl y y"
    and order_total: "fl_eq fl x x \<Longrightarrow> fl_eq fl y y \<Longrightarrow> fl_less fl x y \<or> fl_eq fl x y \<or> fl_less fl y x"
    and order_eq: "fl_eq fl x y \<Longrightarrow> fl_eq fl y x \<and> \<not> fl_less fl x y"
    and order_asym: "fl_less fl x y \<Longrightarrow> \<not> fl_less fl y x"
    and order_trans: "fl_less fl x y \<Longrightarrow> fl_less fl y z \<Longrightarrow> fl_less fl x z"
      "fl_eq fl x y \<Longrightarrow> fl_eq fl y z \<Longrightarrow> fl_eq fl x z"
      "fl_less fl x y \<Longrightarrow> fl_eq fl y z \<Longrightarrow> fl_less fl x z"
      "fl_eq fl x y \<Longrightarrow> fl_less fl y z \<Longrightarrow> fl_less fl x z"
  using laws unfolding order_laws_def by blast+

lemma order_chain:
  assumes laws: "order_laws fl" and n: "fl_eq fl x x" "fl_eq fl y y" "fl_eq fl z z"
    and xy: "\<not> fl_less fl y x" and yz: "\<not> fl_less fl z y"
  shows "\<not> fl_less fl z x"
proof
  assume zx: "fl_less fl z x"
  have "fl_eq fl x y \<or> fl_less fl x y" using order_total [OF laws n(1,2)] xy by blast
  moreover have "fl_eq fl y z \<or> fl_less fl y z" using order_total [OF laws n(2,3)] yz by blast
  ultimately have "fl_eq fl x z \<or> fl_less fl x z"
    using order_trans [OF laws, of x y z] by blast
  then show False using order_eq [OF laws, of x z] order_eq [OF laws, of z x] order_asym [OF laws, of x z] zx by blast
qed

lemma per_mille_order: "order_laws per_mille"
  by (auto simp: order_laws_def per_mille_def)

definition sample_router :: "int task_router" where
  "sample_router =
     register_bot ''be'' [\<lparr> sk_name = ''databases'', sk_description = [], sk_proficiency = 900 \<rparr>]
       (register_bot ''pm'' [\<lparr> sk_name = ''planning'', sk_description = [], sk_proficiency = 800 \<rparr>]
         (register_bot ''fe'' [\<lparr> sk_name = ''database'', sk_description = [], sk_proficiency = 500 \<rparr>] new_task_router))"

definition sample_definition :: "int task_definition" where
  "sample_definition =
     \<lparr> od_id = ''t'', od_title = [], od_description = [], od_skills = [''Databases''], od_goal = [], od_priority = [],
       od_status = OdPending, od_bot = [], od_budget = None, od_created = 0, od_completed = 0, od_result = [] \<rparr>"

theorem candidates_sorted_witness:
  "map ro_bot (find_capable_bots per_mille sample_router sample_definition) = [''be'', ''fe'']
   \<and> sorted_wrt (\<lambda>x y. \<not> fl_less per_mille (ro_score x) (ro_score y)) (find_capable_bots per_mille sample_router sample_definition)"
proof -
  have "map ro_bot (find_capable_bots per_mille sample_router sample_definition) = [''be'', ''fe'']" by code_simp
  with candidates_sorted [OF per_mille_laws] show ?thesis by blast
qed

lemma best_result_from: "best_result fl x xs \<in> set (x # xs)"
  by (induction fl x xs rule: best_result.induct) auto

lemma find_best_in: "find_best_bot fl r t = Some x \<Longrightarrow> x \<in> set (candidates fl r t)"
proof -
  assume a: "find_best_bot fl r t = Some x"
  then obtain y ys where y: "find_capable_bots fl r t = y # ys" "x = best_result fl y ys"
    by (auto simp: find_best_bot_def split: list.splits)
  have "mset (find_capable_bots fl r t) = mset (candidates fl r t)" by (simp add: find_capable_bots_def exchange_sort_mset)
  then have "set (candidates fl r t) = set (y # ys)" using y(1) by (metis mset_eq_setD)
  with best_result_from [of fl y ys] y(2) show ?thesis by simp
qed

end
