(* ===== verification/StableSort.thy ===== *)
theory StableSort
  imports Prelude "HOL-Library.Multiset"
begin

text \<open>
  \<^verbatim>\<open>sort.SliceStable\<close> and \<^verbatim>\<open>sort.Slice\<close> with a comparison function of the caller, and the contract the
  comparison has to meet for the result to be sorted.  The comparisons of the program meet it on the
  elements that \<open>num\<close> holds of: those whose scores or keys are numbers or texts that can be compared.
\<close>

fun place_before :: "('a \<Rightarrow> 'a \<Rightarrow> bool) \<Rightarrow> 'a \<Rightarrow> 'a list \<Rightarrow> 'a list" where
  "place_before lt x [] = [x]"
| "place_before lt x (y # ys) = (if lt y x then y # place_before lt x ys else x # y # ys)"

definition stable_sort :: "('a \<Rightarrow> 'a \<Rightarrow> bool) \<Rightarrow> 'a list \<Rightarrow> 'a list" where
  "stable_sort lt xs = foldr (place_before lt) xs []"

lemma mset_place_before [simp]: "mset (place_before lt x ys) = add_mset x (mset ys)"
  by (induction lt x ys rule: place_before.induct) auto

lemma mset_stable_sort [simp]: "mset (stable_sort lt xs) = mset xs"
  by (induction xs) (simp_all add: stable_sort_def)

lemma set_place_before [simp]: "set (place_before lt x ys) = insert x (set ys)"
  by (induction lt x ys rule: place_before.induct) auto

lemma set_stable_sort [simp]: "set (stable_sort lt xs) = set xs"
  by (metis mset_stable_sort set_mset_mset)

lemma length_stable_sort [simp]: "length (stable_sort lt xs) = length xs"
  by (metis mset_stable_sort size_mset)

locale comparison =
  fixes lt :: "'a \<Rightarrow> 'a \<Rightarrow> bool" and num :: "'a \<Rightarrow> bool"
  assumes asym: "num x \<Longrightarrow> num y \<Longrightarrow> lt x y \<Longrightarrow> \<not> lt y x"
    and chain: "num x \<Longrightarrow> num y \<Longrightarrow> num z \<Longrightarrow> \<not> lt y x \<Longrightarrow> \<not> lt z y \<Longrightarrow> \<not> lt z x"
begin

lemma place_sorted:
  "\<forall>z\<in>set (x # ys). num z \<Longrightarrow> sorted_wrt (\<lambda>a b. \<not> lt b a) ys \<Longrightarrow> sorted_wrt (\<lambda>a b. \<not> lt b a) (place_before lt x ys)"
proof (induction ys)
  case (Cons y ys)
  show ?case
  proof (cases "lt y x")
    case True
    then show ?thesis using Cons asym [of y x] by auto
  next
    case False
    have "\<not> lt z x" if "z \<in> set ys" for z
      using chain [of x y z] False Cons.prems that by auto
    then show ?thesis using False Cons.prems by auto
  qed
qed simp

lemma sort_sorted: "\<forall>z\<in>set xs. num z \<Longrightarrow> sorted_wrt (\<lambda>a b. \<not> lt b a) (stable_sort lt xs)"
proof (induction xs)
  case (Cons x xs)
  have "\<forall>z\<in>set (x # stable_sort lt xs). num z" using Cons.prems by simp
  from place_sorted [OF this] Cons show ?case by (simp add: stable_sort_def)
qed (simp add: stable_sort_def)

text \<open>The elements the comparison cannot tell apart keep their order.\<close>

definition alike :: "'a \<Rightarrow> 'a \<Rightarrow> bool" where
  "alike k x \<longleftrightarrow> \<not> lt k x \<and> \<not> lt x k"

lemma place_stable:
  "\<forall>z\<in>set (x # ys). num z \<Longrightarrow> num k \<Longrightarrow> filter (alike k) (place_before lt x ys) = filter (alike k) (x # ys)"
proof (induction ys)
  case (Cons y ys)
  have "\<not> (alike k x \<and> alike k y)" if "lt y x"
    using chain [of x k y] Cons.prems that by (auto simp: alike_def)
  then show ?case using Cons by auto
qed simp

lemma sort_stable:
  "\<forall>z\<in>set xs. num z \<Longrightarrow> num k \<Longrightarrow> filter (alike k) (stable_sort lt xs) = filter (alike k) xs"
proof (induction xs)
  case (Cons x xs)
  have "\<forall>z\<in>set (x # stable_sort lt xs). num z" using Cons.prems by simp
  from place_stable [OF this Cons.prems(2)] Cons show ?case by (simp add: stable_sort_def)
qed (simp add: stable_sort_def)

end

end
