(* ===== verification/SpaceQuery.thy ===== *)
theory SpaceQuery
  imports SpaceStore TaskRouting StableSort
begin

text \<open>
  Data spaces: queries (\<^verbatim>\<open>internal/dataspace/query.go\<close>).

  A query filters the records of one type, searches them, sorts them and cuts a page out of them.  The
  tests for an empty attribute run twice: in the statement that loads the records and again over what was
  loaded.  A read transaction leaves the database as it is.  Numbers are read and shown by \<open>numbers\<close> and
  compared by \<open>floats\<close>; case folding covers the ASCII letters.
\<close>

datatype operator =
  OpEquals | OpNotEquals | OpContains | OpGreater | OpLess | OpIsEmpty | OpIsNotEmpty | OpOther string

record ds_filter =
  fi_attr :: string
  fi_op :: operator
  fi_value :: string

record ds_sort =
  so_attr :: string
  so_desc :: bool

record ds_query =
  qu_type :: string
  qu_filters :: "ds_filter list"
  qu_sort :: "ds_sort option"
  qu_search :: string
  qu_limit :: int
  qu_offset :: int

record 'f ds_page =
  pg_records :: "'f rec_view list"
  pg_total :: nat

definition default_query_limit :: int where
  "default_query_limit = 30"

definition max_query_limit :: int where
  "max_query_limit = 1000"

definition max_filters :: nat where
  "max_filters = 20"

definition max_search_bytes :: int where
  "max_search_bytes = 256"

definition system_fields :: "string list" where
  "system_fields = [''_created_at'', ''_updated_at'', ''_created_by'']"

definition is_numeric_type :: "attr_type \<Rightarrow> bool" where
  "is_numeric_type t \<longleftrightarrow> t \<in> {TNumber, TCurrency, TRating}"

definition is_searched_type :: "attr_type \<Rightarrow> bool" where
  "is_searched_type t \<longleftrightarrow> t \<in> {TText, TEmail, TUrl, TPhone, TSelect, TStatus}"

definition is_operator :: "operator \<Rightarrow> bool" where
  "is_operator op \<longleftrightarrow> (case op of OpOther _ \<Rightarrow> False | _ \<Rightarrow> True)"

section \<open>Fields\<close>

datatype ds_field = SystemField string | AttrField attribute

definition resolve_field :: "obj_type \<Rightarrow> string \<Rightarrow> ds_error + ds_field" where
  "resolve_field t slug =
     (if slug \<in> set system_fields then Inr (SystemField slug)
      else (case resolve_attribute_ref t slug of
              Some a \<Rightarrow> Inr (AttrField a)
            | None \<Rightarrow> Inl (DsInvalid slug)))"

definition system_value :: "'f rec_view \<Rightarrow> string \<Rightarrow> string" where
  "system_value r slug =
     (if slug = ''_created_at'' then vw_created_at r
      else if slug = ''_updated_at'' then vw_updated_at r else vw_created_by r)"

definition option_name :: "attribute \<Rightarrow> string \<Rightarrow> string" where
  "option_name a i = (case find (\<lambda>x. op_id x = i) (at_options a) of Some x \<Rightarrow> op_name x | None \<Rightarrow> i)"

definition display_values :: "'f numbers \<Rightarrow> 'f rec_view \<Rightarrow> ds_field \<Rightarrow> string list" where
  "display_values nm r f =
     (case f of
        SystemField slug \<Rightarrow> [system_value r slug]
      | AttrField a \<Rightarrow>
          if at_type a = TRelationship
          then (case map_of (vw_links r) (at_slug a) of Some refs \<Rightarrow> map rf_name refs | None \<Rightarrow> [])
          else
            (case map_of (vw_values r) (at_slug a) of
               None \<Rightarrow> []
             | Some v \<Rightarrow>
                 let items = (case v of VMany xs \<Rightarrow> xs | _ \<Rightarrow> [value_string nm v]) in
                 if at_type a = TSelect \<or> at_type a = TStatus then map (option_name a) items else items))"

definition numeric_operand :: "'f numbers \<Rightarrow> ds_filter \<Rightarrow> ds_error + 'f" where
  "numeric_operand nm c =
     (let s = trim_space (fi_value c) in
      if s = [] then Inl (DsInvalid (fi_attr c))
      else case nm_parse nm s of Some x \<Rightarrow> Inr x | None \<Rightarrow> Inl (DsInvalid (fi_attr c)))"

definition parsed :: "'f numbers \<Rightarrow> string list \<Rightarrow> 'f list" where
  "parsed nm vs = List.map_filter (\<lambda>v. nm_parse nm (trim_space v)) vs"

definition numeric_field :: "ds_field \<Rightarrow> bool" where
  "numeric_field f \<longleftrightarrow> (case f of AttrField a \<Rightarrow> is_numeric_type (at_type a) | SystemField _ \<Rightarrow> False)"

definition clause_values :: "ds_field \<Rightarrow> string list \<Rightarrow> string list" where
  "clause_values f shown =
     (case f of
        AttrField a \<Rightarrow> if at_type a = TToggle \<and> shown = [] then [''false''] else shown
      | SystemField _ \<Rightarrow> shown)"

definition matches_clause :: "'f numbers \<Rightarrow> 'f floats \<Rightarrow> 'f rec_view \<Rightarrow> ds_field \<Rightarrow> ds_filter \<Rightarrow> ds_error + bool" where
  "matches_clause nm fl r f c =
     (let shown = display_values nm r f;
          wanted = to_lower (trim_space (fi_value c));
          vs = clause_values f shown;
          lowered = map (\<lambda>v. to_lower (trim_space v)) vs;
          equal =
            (if numeric_field f
             then (case numeric_operand nm c of
                     Inl k \<Rightarrow> Inl k
                   | Inr x \<Rightarrow> Inr (list_ex (\<lambda>v. fl_eq fl v x) (parsed nm vs)))
             else Inr (wanted \<in> set lowered));
          beyond = (\<lambda>num txt.
            if numeric_field f
            then (case numeric_operand nm c of
                    Inl k \<Rightarrow> Inl k
                  | Inr x \<Rightarrow> Inr (list_ex (\<lambda>v. num v x) (parsed nm vs)))
            else Inr (list_ex (\<lambda>v. txt v wanted) lowered))
      in case fi_op c of
           OpIsEmpty \<Rightarrow> Inr (shown = [])
         | OpIsNotEmpty \<Rightarrow> Inr (shown \<noteq> [])
         | OpEquals \<Rightarrow> equal
         | OpNotEquals \<Rightarrow> map_sum id Not equal
         | OpContains \<Rightarrow> Inr (list_ex (\<lambda>v. str_contains v wanted) lowered)
         | OpGreater \<Rightarrow> beyond (\<lambda>v x. fl_less fl x v) (\<lambda>v w. w < v)
         | OpLess \<Rightarrow> beyond (\<lambda>v x. fl_less fl v x) (\<lambda>v w. v < w)
         | OpOther _ \<Rightarrow> Inl (DsInvalid []))"

definition assert_clause :: "ds_filter \<Rightarrow> ds_error option" where
  "assert_clause c =
     (if \<not> is_operator (fi_op c) then Some (DsInvalid (fi_attr c))
      else if fi_op c \<noteq> OpIsEmpty \<and> fi_op c \<noteq> OpIsNotEmpty \<and> fi_value c = [] then Some (DsInvalid (fi_attr c))
      else None)"

definition matches_search :: "'f numbers \<Rightarrow> obj_type \<Rightarrow> string \<Rightarrow> 'f rec_view \<Rightarrow> bool" where
  "matches_search nm t needle r =
     list_ex (\<lambda>a. (at_primary a \<or> is_searched_type (at_type a))
                \<and> list_ex (\<lambda>v. str_contains (to_lower v) needle) (display_values nm r (AttrField a))) (ty_attrs t)"

section \<open>Sorting\<close>

datatype 'f sort_key = KeyEmpty | KeyNumber 'f | KeyText string

text \<open>The least position of the chosen options.\<close>

definition best_option :: "attribute \<Rightarrow> string list \<Rightarrow> nat option" where
  "best_option a ids =
     (case filter (\<lambda>i. op_id (at_options a ! i) \<in> set ids) [0..<length (at_options a)] of
        i # _ \<Rightarrow> Some i
      | [] \<Rightarrow> None)"

definition key_for :: "'f numbers \<Rightarrow> 'f floats \<Rightarrow> ds_field \<Rightarrow> 'f rec_view \<Rightarrow> 'f sort_key" where
  "key_for nm fl f r =
     (case f of
        SystemField slug \<Rightarrow> KeyText (to_lower (system_value r slug))
      | AttrField a \<Rightarrow>
          (case map_of (vw_values r) (at_slug a) of
             None \<Rightarrow> KeyEmpty
           | Some v \<Rightarrow>
               if at_type a = TSelect \<or> at_type a = TStatus
               then (case best_option a (case v of VMany xs \<Rightarrow> xs | _ \<Rightarrow> [value_string nm v]) of
                       None \<Rightarrow> KeyEmpty
                     | Some i \<Rightarrow> KeyNumber (fl_int fl (int i)))
               else (case v of
                       VFlag b \<Rightarrow> KeyNumber (fl_int fl (if b then 1 else 0))
                     | VMany xs \<Rightarrow> KeyText (to_lower (join '', '' xs))
                     | VText s \<Rightarrow> KeyText (to_lower s)
                     | VNum x \<Rightarrow> KeyNumber x)))"

definition by_text :: "string \<Rightarrow> string \<Rightarrow> int \<Rightarrow> int" where
  "by_text a b direction = (if a = b then 0 else if a < b then - direction else direction)"

fun compare_keys :: "'f numbers \<Rightarrow> 'f floats \<Rightarrow> 'f sort_key \<Rightarrow> 'f sort_key \<Rightarrow> int \<Rightarrow> int" where
  "compare_keys nm fl KeyEmpty KeyEmpty direction = 0"
| "compare_keys nm fl KeyEmpty b direction = 1"
| "compare_keys nm fl a KeyEmpty direction = - 1"
| "compare_keys nm fl (KeyText s) (KeyText t) direction = by_text s t direction"
| "compare_keys nm fl (KeyNumber x) (KeyText t) direction = by_text (nm_text nm x) t direction"
| "compare_keys nm fl (KeyText s) (KeyNumber y) direction = by_text s (nm_text nm y) direction"
| "compare_keys nm fl (KeyNumber x) (KeyNumber y) direction =
     (if fl_eq fl x y then 0 else if fl_less fl x y then - direction else direction)"

definition row_before :: "'f numbers \<Rightarrow> 'f floats \<Rightarrow> ds_field \<Rightarrow> bool \<Rightarrow> 'f rec_view \<Rightarrow> 'f rec_view \<Rightarrow> bool" where
  "row_before nm fl f desc x y \<longleftrightarrow>
     compare_keys nm fl (key_for nm fl f x) (key_for nm fl f y) (if desc then - 1 else 1) < 0"

section \<open>The query\<close>

fun resolve_clauses :: "obj_type \<Rightarrow> ds_filter list \<Rightarrow> ds_error + (ds_filter \<times> ds_field) list" where
  "resolve_clauses t [] = Inr []"
| "resolve_clauses t (c # cs) =
     (case assert_clause c of
        Some k \<Rightarrow> Inl k
      | None \<Rightarrow>
          (case resolve_field t (fi_attr c) of
             Inl k \<Rightarrow> Inl k
           | Inr f \<Rightarrow>
               (case resolve_clauses t cs of Inl k \<Rightarrow> Inl k | Inr fs \<Rightarrow> Inr ((c, f) # fs))))"

definition resolve_sort :: "obj_type \<Rightarrow> ds_sort option \<Rightarrow> ds_error + (ds_field \<times> bool) option" where
  "resolve_sort t so =
     (case so of
        None \<Rightarrow> Inr None
      | Some s \<Rightarrow>
          (case resolve_field t (so_attr s) of
             Inl k \<Rightarrow> Inl k
           | Inr (AttrField a) \<Rightarrow>
               if at_type a = TRelationship then Inl (DsInvalid (at_slug a)) else Inr (Some (AttrField a, so_desc s))
           | Inr (SystemField slug) \<Rightarrow> Inr (Some (SystemField slug, so_desc s))))"

text \<open>The part of a clause the statement tests: whether the record has a value of the attribute.\<close>

definition has_value :: "'f space_db \<Rightarrow> rec_row \<Rightarrow> attribute \<Rightarrow> bool" where
  "has_value db r a \<longleftrightarrow> list_ex (\<lambda>v. vr_record v = rw_id r \<and> vr_attr v = at_id a) (db_values db)"

definition pushed_down :: "'f space_db \<Rightarrow> rec_row \<Rightarrow> ds_filter \<times> ds_field \<Rightarrow> bool" where
  "pushed_down db r cf \<longleftrightarrow>
     (case snd cf of
        SystemField _ \<Rightarrow> True
      | AttrField a \<Rightarrow>
          if at_type a = TRelationship then True
          else (case fi_op (fst cf) of
                  OpIsEmpty \<Rightarrow> \<not> has_value db r a
                | OpIsNotEmpty \<Rightarrow> has_value db r a
                | _ \<Rightarrow> True))"

fun matches_all :: "'f numbers \<Rightarrow> 'f floats \<Rightarrow> 'f rec_view \<Rightarrow> (ds_filter \<times> ds_field) list \<Rightarrow> ds_error + bool" where
  "matches_all nm fl r [] = Inr True"
| "matches_all nm fl r ((c, f) # cs) =
     (case matches_clause nm fl r f c of
        Inl k \<Rightarrow> Inl k
      | Inr m \<Rightarrow> if m then matches_all nm fl r cs else Inr False)"

fun keep_rows :: "'f numbers \<Rightarrow> 'f floats \<Rightarrow> obj_type \<Rightarrow> (ds_filter \<times> ds_field) list \<Rightarrow> string \<Rightarrow> 'f rec_view list
    \<Rightarrow> ds_error + 'f rec_view list" where
  "keep_rows nm fl t cs needle [] = Inr []"
| "keep_rows nm fl t cs needle (r # rs) =
     (case matches_all nm fl r cs of
        Inl k \<Rightarrow> Inl k
      | Inr m \<Rightarrow>
          (case keep_rows nm fl t cs needle rs of
             Inl k \<Rightarrow> Inl k
           | Inr kept \<Rightarrow> Inr (if m \<and> (needle = [] \<or> matches_search nm t needle r) then r # kept else kept)))"

definition sort_rows :: "'f numbers \<Rightarrow> 'f floats \<Rightarrow> (ds_field \<times> bool) option \<Rightarrow> 'f rec_view list \<Rightarrow> 'f rec_view list" where
  "sort_rows nm fl so rs =
     (case so of None \<Rightarrow> rs | Some (f, desc) \<Rightarrow> stable_sort (row_before nm fl f desc) rs)"

definition matching_rows ::
  "'f numbers \<Rightarrow> 'f floats \<Rightarrow> 'f space_db \<Rightarrow> obj_type \<Rightarrow> (rec_row \<Rightarrow> bool) \<Rightarrow> (ds_filter \<times> ds_field) list
     \<Rightarrow> string \<Rightarrow> ds_error + 'f rec_view list" where
  "matching_rows nm fl db t extra cs needle =
     keep_rows nm fl t cs needle
       (map (view_record nm db) (stored_records db (\<lambda>r. rw_type r = ty_id t \<and> extra r)))"

text \<open>The argument \<open>push\<close> is the condition the statement adds for the clauses.\<close>

definition query_rows_with ::
  "('f space_db \<Rightarrow> (ds_filter \<times> ds_field) list \<Rightarrow> rec_row \<Rightarrow> bool) \<Rightarrow> 'f numbers \<Rightarrow> 'f floats \<Rightarrow> 'f space_db \<Rightarrow> ds_query
     \<Rightarrow> ds_error + 'f rec_view list" where
  "query_rows_with push nm fl db0 q =
     (case load_schema db0 of
        Inl k \<Rightarrow> Inl k
      | Inr db \<Rightarrow>
          (case require_type db (qu_type q) of
             Inl k \<Rightarrow> Inl k
           | Inr t \<Rightarrow>
               (case resolve_clauses t (qu_filters q) of
                  Inl k \<Rightarrow> Inl k
                | Inr cs \<Rightarrow>
                    (case resolve_sort t (qu_sort q) of
                       Inl k \<Rightarrow> Inl k
                     | Inr so \<Rightarrow>
                         (case matching_rows nm fl db t (push db cs) cs (to_lower (trim_space (qu_search q))) of
                            Inl k \<Rightarrow> Inl k
                          | Inr rs \<Rightarrow> Inr (sort_rows nm fl so rs))))))"

definition query_rows :: "'f numbers \<Rightarrow> 'f floats \<Rightarrow> 'f space_db \<Rightarrow> ds_query \<Rightarrow> ds_error + 'f rec_view list" where
  "query_rows = query_rows_with (\<lambda>db cs r. list_all (pushed_down db r) cs)"

definition effective_limit :: "ds_query \<Rightarrow> int" where
  "effective_limit q = (if qu_limit q = 0 then default_query_limit else qu_limit q)"

definition check_query :: "ds_query \<Rightarrow> ds_error option" where
  "check_query q =
     (if effective_limit q < 1 then Some (DsInvalid [])
      else if max_query_limit < effective_limit q then Some (DsInvalid [])
      else if qu_offset q < 0 then Some (DsInvalid [])
      else if max_filters < length (qu_filters q) then Some (DsInvalid [])
      else if max_search_bytes < int (length (qu_search q)) then Some (DsInvalid [])
      else None)"

definition cut_page :: "int \<Rightarrow> int \<Rightarrow> 'f rec_view list \<Rightarrow> 'f ds_page" where
  "cut_page limit offset rows =
     (let start = min (nat offset) (length rows); stop = min (start + nat limit) (length rows)
      in \<lparr> pg_records = drop start (take stop rows), pg_total = length rows \<rparr>)"

definition query_records ::
  "'f numbers \<Rightarrow> 'f floats \<Rightarrow> string \<Rightarrow> string \<Rightarrow> ds_query \<Rightarrow> 'f ds_store \<Rightarrow> ds_error + 'f ds_page" where
  "query_records nm fl actor i q st =
     (case authorize (st_index st) actor i False of
        Inl k \<Rightarrow> Inl k
      | Inr _ \<Rightarrow>
          (case check_query q of
             Some k \<Rightarrow> Inl k
           | None \<Rightarrow>
               (case query_rows nm fl (st_dbs st i) q of
                  Inl k \<Rightarrow> Inl k
                | Inr rows \<Rightarrow> Inr (cut_page (effective_limit q) (qu_offset q) rows))))"

end
