(* ===== verification/SpaceQueryProps.thy ===== *)
theory SpaceQueryProps
  imports SpaceQuery SpaceAccess
begin

text \<open>
  Data spaces: what a query answers.  The conditions added to the statement drop no record that matches,
  consecutive pages make up the whole answer, and a sorted answer is sorted and stable.
\<close>

section \<open>Values and attributes\<close>







section \<open>Conditions in the statement\<close>










section \<open>Pages\<close>

definition page_query :: "ds_query \<Rightarrow> nat \<Rightarrow> ds_query" where
  "page_query q k = q\<lparr> qu_offset := int k * effective_limit q \<rparr>"

lemma page_query_rows: "query_rows nm fl db (page_query q k) = query_rows nm fl db q"
proof -
  have e: "qu_type (page_query q k) = qu_type q" "qu_filters (page_query q k) = qu_filters q"
      "qu_sort (page_query q k) = qu_sort q" "qu_search (page_query q k) = qu_search q"
    by (simp_all add: page_query_def)
  show ?thesis unfolding query_rows_def query_rows_with_def e ..
qed

lemma page_query_limit: "effective_limit (page_query q k) = effective_limit q"
  by (simp add: effective_limit_def page_query_def)

lemma cut_page_window: "0 \<le> off \<Longrightarrow> 0 \<le> l \<Longrightarrow> pg_records (cut_page l off rows) = take (nat l) (drop (nat off) rows)"
  by (cases "nat off \<le> length rows") (simp_all add: cut_page_def Let_def min_def take_drop add.commute)

lemma concat_windows: "concat (map (\<lambda>k. take l (drop (k * l) xs)) [0..<n]) = take (n * l) xs"
proof (induction n)
  case (Suc n)
  have "take (Suc n * l) xs = take (n * l) xs @ take l (drop (n * l) xs)"
    by (metis add.commute mult_Suc take_add)
  with Suc show ?case by simp
qed simp

definition page_of :: "ds_error + 'f ds_page \<Rightarrow> 'f rec_view list" where
  "page_of r = (case r of Inr p \<Rightarrow> pg_records p | Inl _ \<Rightarrow> [])"

text \<open>C19. The pages of a query, asked for one after the other with the offsets 0, l, 2 l and so on, put together are
  the whole answer.\<close>
theorem pages_cover:
  assumes "authorize (st_index st) actor i False = Inr sp" "check_query (q\<lparr> qu_offset := 0 \<rparr>) = None"
    and "query_rows nm fl (st_dbs st i) q = Inr rows" "int (length rows) \<le> int n * effective_limit q"
  shows "concat (map (\<lambda>k. page_of (query_records nm fl actor i (page_query q k) st)) [0..<n]) = rows"
proof -
  let ?l = "effective_limit q"
  have l: "0 < ?l" using assms(2) by (simp add: check_query_def effective_limit_def split: if_splits)
  have "page_of (query_records nm fl actor i (page_query q k) st) = take (nat ?l) (drop (k * nat ?l) rows)" for k
  proof -
    have "0 \<le> qu_offset (page_query q k)" using l by (simp add: page_query_def)
    then have "check_query (page_query q k) = None"
      using assms(2) by (simp add: check_query_def page_query_def effective_limit_def split: if_splits)
    moreover have "nat (int k * ?l) = k * nat ?l" using l by (simp add: nat_mult_distrib)
    ultimately show ?thesis
      using assms(1,3) l cut_page_window [of "int k * ?l" ?l rows]
      by (simp add: query_records_def page_query_rows page_query_limit page_of_def) (simp add: page_query_def)
  qed
  then have "concat (map (\<lambda>k. page_of (query_records nm fl actor i (page_query q k) st)) [0..<n]) = take (n * nat ?l) rows"
    using concat_windows [of "nat ?l" rows n] by simp
  moreover have "length rows \<le> n * nat ?l"
  proof -
    have "int (length rows) \<le> int (n * nat ?l)" using assms(4) l by simp
    then show ?thesis by (simp only: of_nat_le_iff)
  qed
  ultimately show ?thesis by simp
qed

section \<open>The order of the rows\<close>














section \<open>Two people\<close>

definition person :: "string \<Rightarrow> nat \<Rightarrow> rec_row" where
  "person i n =
     \<lparr>rw_id = i, rw_type = ''t'', rw_created_by = [], rw_created_at = [], rw_updated_at = [], rw_seq = n\<rparr>"

definition person_name :: "string \<Rightarrow> string \<Rightarrow> int value_row" where
  "person_name i name = \<lparr>vr_record = i, vr_attr = ''a'', vr_slug = ''name'', vr_value = VText name, vr_key = None\<rparr>"

definition two_people :: "int space_db" where
  "two_people =
     empty_db\<lparr>db_types := [tiny_type], db_records := [person ''x'' 0, person ''y'' 1],
       db_values := [person_name ''x'' ''Ada'', person_name ''y'' ''Bea'']\<rparr>"


definition people_query :: ds_query where
  "people_query =
     \<lparr> qu_type = ''p'', qu_filters = [\<lparr> fi_attr = ''name'', fi_op = OpIsNotEmpty, fi_value = [] \<rparr>],
       qu_sort = Some \<lparr> so_attr = ''name'', so_desc = True \<rparr>, qu_search = '' A '', qu_limit = 1, qu_offset = 0 \<rparr>"

definition view_named :: "string \<Rightarrow> string \<Rightarrow> int rec_view" where
  "view_named i name =
     \<lparr>vw_id = i, vw_type = ''t'', vw_values = [(''name'', VText name)], vw_links = [], vw_created_by = [],
      vw_created_at = [], vw_updated_at = []\<rparr>"


lemma query_shown: "query_rows whole_numbers per_mille two_people people_query = Inr [view_named ''y'' ''Bea'', view_named ''x'' ''Ada'']"
  by code_simp


definition people_store :: "int ds_store" where
  "people_store = tiny_store\<lparr>st_dbs := (\<lambda>_. two_people)\<rparr>"

lemma people_pages:
  "check_query (people_query\<lparr> qu_offset := 0 \<rparr>) = None \<and> effective_limit people_query = 1"
  by code_simp

lemma people_access: "\<exists>sp. authorize (st_index people_store) ''human'' ''s'' False = Inr sp"
proof -
  have "\<not> isl (authorize (st_index people_store) ''human'' ''s'' False)" by code_simp
  then show ?thesis by (cases "authorize (st_index people_store) ''human'' ''s'' False") simp_all
qed

theorem pages_cover_witness:
  "concat (map (\<lambda>k. page_of (query_records whole_numbers per_mille ''human'' ''s'' (page_query people_query k) people_store)) [0..<2])
     = [view_named ''y'' ''Bea'', view_named ''x'' ''Ada'']"
proof -
  obtain sp where sp: "authorize (st_index people_store) ''human'' ''s'' False = Inr sp" using people_access by blast
  have db: "query_rows whole_numbers per_mille (st_dbs people_store ''s'') people_query
      = Inr [view_named ''y'' ''Bea'', view_named ''x'' ''Ada'']"
    unfolding people_store_def by (simp add: query_shown)
  show ?thesis by (rule pages_cover [OF sp _ db]) (use people_pages in simp_all)
qed



end
