(* ===== verification/ExecutorProps.thy ===== *)
theory ExecutorProps
  imports Executor
begin

text \<open>
  The executor hands each task to one bot at a time, never more tasks than configured, and tells the
  listeners of every task one start and one end.
\<close>

section \<open>The invariant\<close>

definition told :: "string \<Rightarrow> ('f, 'h) executor \<Rightarrow> executor_event_kind list" where
  "told i e = map (ee_kind \<circ> fst) (filter (\<lambda>p. ee_task (fst p) = i) (ex_log e))"

fun life_fits :: "od_state \<Rightarrow> executor_event_kind list \<Rightarrow> bool" where
  "life_fits OdPending ks = (ks = [])"
| "life_fits OdInProgress ks = (ks = [EvStart])"
| "life_fits OdCompleted ks = (ks = [EvStart, EvComplete])"
| "life_fits OdFailed ks = (ks = [EvStart, EvFail] \<or> ks = [EvStart, EvTimeout])"
| "life_fits OdLocked ks = False"

definition held_by :: "'f task_definition \<Rightarrow> string option" where
  "held_by t = (if od_status t = OdInProgress then Some (od_bot t) else None)"

definition slots_ok :: "'f executor_config \<Rightarrow> ('f, 'h) executor \<Rightarrow> bool" where
  "slots_ok cfg e \<longleftrightarrow>
     ex_config e = cfg \<and> distinct (map od_id (ex_tasks e)) \<and> distinct (map fst (ex_locks e))
     \<and> (\<forall>t\<in>set (ex_tasks e). map_of (ex_locks e) (od_id t) = held_by t)
     \<and> fst ` set (ex_locks e) \<subseteq> od_id ` set (ex_tasks e)
     \<and> ex_active e = int (length (ex_locks e))
     \<and> (0 < oc_max_bots cfg \<longrightarrow> ex_active e \<le> oc_max_bots cfg)
     \<and> set (ex_timers e) \<subseteq> fst ` set (ex_locks e)"

definition lives_ok :: "('f, 'h) executor \<Rightarrow> bool" where
  "lives_ok e \<longleftrightarrow>
     (\<forall>t\<in>set (ex_tasks e). life_fits (od_status t) (told (od_id t) e))
     \<and> (\<forall>p\<in>set (ex_log e). ee_task (fst p) \<in> od_id ` set (ex_tasks e))"

definition executor_ok :: "'f executor_config \<Rightarrow> ('f, 'h) executor \<Rightarrow> bool" where
  "executor_ok cfg e \<longleftrightarrow> slots_ok cfg e \<and> lives_ok e \<and> (ex_stopped e \<longrightarrow> ex_locks e = [])"

section \<open>Tasks by id\<close>

lemma task_ofD: "task_of i e = Some t \<Longrightarrow> t \<in> set (ex_tasks e) \<and> od_id t = i"
  unfolding task_of_def by (drule find_SomeD) simp

lemma task_of_None: "task_of i e = None \<longleftrightarrow> i \<notin> od_id ` set (ex_tasks e)"
  by (auto simp: task_of_def find_NoneD)

lemma map_first_distinct:
  "distinct (map g xs) \<Longrightarrow> map_first (\<lambda>x. g x = i) f xs = map (\<lambda>x. if g x = i then f x else x) xs"
proof (induction xs)
  case (Cons x xs)
  show ?case
  proof (cases "g x = i")
    case True
    moreover have "g x \<notin> g ` set xs" using Cons.prems by simp
    ultimately have "\<forall>y\<in>set xs. g y \<noteq> i" by (metis imageI)
    then have "map (\<lambda>x. if g x = i then f x else x) xs = xs" by (simp add: map_idI)
    with True show ?thesis by simp
  next
    case False
    with Cons show ?thesis by simp
  qed
qed simp

lemma length_drop_key:
  "distinct (map fst ps) \<Longrightarrow> map_of ps i \<noteq> None \<Longrightarrow> length (filter (\<lambda>p. fst p \<noteq> i) ps) = length ps - 1"
proof (induction ps)
  case (Cons p ps)
  show ?case
  proof (cases "fst p = i")
    case True
    moreover have "fst p \<notin> fst ` set ps" using Cons.prems by simp
    ultimately have "\<forall>q\<in>set ps. fst q \<noteq> i" by (metis imageI)
    then have "filter (\<lambda>p. fst p \<noteq> i) ps = ps" by (simp add: filter_id_conv)
    with True show ?thesis by simp
  next
    case False
    with Cons have "length (filter (\<lambda>p. fst p \<noteq> i) ps) = length ps - 1" "ps \<noteq> []" by auto
    with False show ?thesis by simp
  qed
qed simp

lemma map_of_drop_key: "map_of (filter (\<lambda>p. fst p \<noteq> i) ps) j = (if j = i then None else map_of ps j)"
  by (induction ps) auto

lemma lock_out:
  assumes "slots_ok cfg e" "t \<in> set (ex_tasks e)" "map_of (ex_locks e) (od_id t) \<noteq> None"
  shows "od_status t = OdInProgress"
proof -
  have "held_by t \<noteq> None" using assms by (simp add: slots_ok_def)
  then show ?thesis by (simp add: held_by_def split: if_splits)
qed

section \<open>Taking and giving back\<close>

lemma take_slot:
  assumes ok: "executor_ok cfg e" and t: "task_of i e = Some t" and pending: "od_status t = OdPending"
    and free: "map_of (ex_locks e) i = None" and room: "0 < oc_max_bots cfg \<longrightarrow> ex_active e < oc_max_bots cfg"
    and run: "\<not> ex_stopped e" "\<not> ex_stopped e'" "ex_config e' = ex_config e"
    and tasks: "ex_tasks e' = map_first (\<lambda>t. od_id t = i) (\<lambda>t. t\<lparr> od_status := OdInProgress, od_bot := slug \<rparr>) (ex_tasks e)"
    and locks: "ex_locks e' = (i, slug) # ex_locks e" and active: "ex_active e' = ex_active e + 1"
    and timers: "set (ex_timers e') \<subseteq> insert i (set (ex_timers e))"
    and log: "ex_log e' = ex_log e @ [(ev, hs)]" "ee_task ev = i" "ee_kind ev = EvStart"
  shows "executor_ok cfg e'"
proof -
  have s: "slots_ok cfg e" and l: "lives_ok e" using ok by (auto simp: executor_ok_def)
  have d: "distinct (map od_id (ex_tasks e))" using s by (simp add: slots_ok_def)
  let ?f = "\<lambda>t. if od_id t = i then t\<lparr> od_status := OdInProgress, od_bot := slug \<rparr> else t"
  have ts: "ex_tasks e' = map ?f (ex_tasks e)" using tasks map_first_distinct [OF d] by simp
  have ids: "map od_id (ex_tasks e') = map od_id (ex_tasks e)" by (simp add: ts)
  have only: "t' = t" if a: "t' \<in> set (ex_tasks e)" "od_id t' = i" for t'
    using a task_ofD [OF t] d by (auto simp: distinct_map dest: inj_onD)
  have nolock: "i \<notin> fst ` set (ex_locks e)" using free by (simp add: map_of_eq_None_iff)
  have own: "map_of (ex_locks e') (od_id (?f u)) = held_by (?f u)" if u: "u \<in> set (ex_tasks e)" for u
    using s u locks by (cases "od_id u = i") (auto simp: slots_ok_def held_by_def)
  have same: "od_id ` set (ex_tasks e') = od_id ` set (ex_tasks e)" using ids by (metis list.set_map)
  moreover have "i \<in> od_id ` set (ex_tasks e)" using task_ofD [OF t] by auto
  moreover have "\<forall>t'\<in>set (ex_tasks e'). map_of (ex_locks e') (od_id t') = held_by t'" using own unfolding ts by fastforce
  ultimately have slots: "slots_ok cfg e'"
    unfolding slots_ok_def using s run(3) d ids locks active timers room nolock by (auto simp: slots_ok_def)
  have tl: "told j e' = (if j = i then told i e @ [EvStart] else told j e)" for j
    using log by (simp add: told_def)
  have "told i e = []" using l task_ofD [OF t] pending by (force simp: lives_ok_def)
  then have "\<forall>u\<in>set (ex_tasks e). life_fits (od_status (?f u)) (told (od_id (?f u)) e')"
    using l tl by (auto simp: lives_ok_def)
  moreover have "i \<in> od_id ` set (ex_tasks e)" using task_ofD [OF t] by blast
  then have "\<forall>p\<in>set (ex_log e'). ee_task (fst p) \<in> od_id ` set (ex_tasks e)"
    using l log by (auto simp: lives_ok_def)
  ultimately have "lives_ok e'" unfolding lives_ok_def same by (auto simp only: ts set_map)
  with slots show ?thesis using run by (simp add: executor_ok_def)
qed

lemma give_back:
  assumes s: "slots_ok cfg e" and l: "lives_ok e" and t: "task_of i e = Some t"
    and out: "od_status t = OdInProgress"
    and conf: "ex_config e' = ex_config e"
    and f: "od_id (f t) = i" "life_fits (od_status (f t)) [EvStart, k]"
    and tasks: "ex_tasks e' = map_first (\<lambda>t. od_id t = i) f (ex_tasks e)"
    and locks: "ex_locks e' = filter (\<lambda>p. fst p \<noteq> i) (ex_locks e)"
    and active: "ex_active e' = (if 0 < ex_active e then ex_active e - 1 else ex_active e)"
    and timers: "ex_timers e' = filter (\<lambda>j. j \<noteq> i) (ex_timers e)"
    and log: "ex_log e' = ex_log e @ [(ev, hs)]" "ee_task ev = i" "ee_kind ev = k"
  shows "slots_ok cfg e' \<and> lives_ok e'"
proof -
  have d: "distinct (map od_id (ex_tasks e))" using s by (simp add: slots_ok_def)
  have ts: "ex_tasks e' = map (\<lambda>t. if od_id t = i then f t else t) (ex_tasks e)"
    using tasks map_first_distinct [OF d] by simp
  have ti: "t \<in> set (ex_tasks e)" "od_id t = i" using task_ofD [OF t] by simp_all
  have only: "t' = t" if a: "t' \<in> set (ex_tasks e)" "od_id t' = i" for t'
    using a ti d by (auto simp: distinct_map dest: inj_onD)
  have "map od_id (ex_tasks e') = map od_id (ex_tasks e)" using only f(1) by (auto simp: ts)
  moreover from this have ids: "od_id ` set (ex_tasks e') = od_id ` set (ex_tasks e)" by (metis list.set_map)
  ultimately have d': "distinct (map od_id (ex_tasks e'))" using d by simp
  have held: "map_of (ex_locks e) i = Some (od_bot t)" using s ti out by (auto simp: slots_ok_def held_by_def)
  have dl: "distinct (map fst (ex_locks e))" and n: "ex_active e = int (length (ex_locks e))"
    using s by (simp_all add: slots_ok_def)
  have len: "length (ex_locks e') = length (ex_locks e) - 1" using length_drop_key [OF dl] held locks by simp
  have pos: "0 < length (ex_locks e)" using held by (cases "ex_locks e") auto
  have a': "ex_active e' = int (length (ex_locks e'))" using active n len pos by (cases "length (ex_locks e)") simp_all
  have bound: "0 < oc_max_bots cfg \<longrightarrow> ex_active e' \<le> oc_max_bots cfg"
    using s a' len n by (auto simp: slots_ok_def)
  have over: "od_status (f t) \<noteq> OdInProgress" using f(2) by (cases "od_status (f t)") auto
  have own: "\<forall>t'\<in>set (ex_tasks e'). map_of (ex_locks e') (od_id t') = held_by t'"
  proof
    fix t' assume "t' \<in> set (ex_tasks e')"
    then obtain u where u: "u \<in> set (ex_tasks e)" "t' = (if od_id u = i then f u else u)" by (auto simp: ts)
    show "map_of (ex_locks e') (od_id t') = held_by t'"
    proof (cases "od_id u = i")
      case True
      with u only have "t' = f t" by auto
      with over f(1) locks show ?thesis by (simp add: map_of_drop_key held_by_def)
    next
      case False
      with u s locks show ?thesis by (auto simp: map_of_drop_key slots_ok_def)
    qed
  qed
  have tm: "set (ex_timers e') \<subseteq> fst ` set (ex_locks e')"
    using s timers locks by (force simp: slots_ok_def)
  have slots: "slots_ok cfg e'"
    unfolding slots_ok_def
    using d' dl own ids a' bound tm s locks conf by (auto simp: slots_ok_def distinct_map_filter)
  have tl: "told j e' = (if j = i then told i e @ [k] else told j e)" for j
    using log by (simp add: told_def)
  have "told i e = [EvStart]" using l ti out by (force simp: lives_ok_def)
  then have "life_fits (od_status (if od_id u = i then f u else u)) (told (od_id (if od_id u = i then f u else u)) e')"
    if "u \<in> set (ex_tasks e)" for u
    using l tl that only [OF that] f by (auto simp: lives_ok_def)
  then have "\<forall>u\<in>set (ex_tasks e'). life_fits (od_status u) (told (od_id u) e')" unfolding ts by fastforce
  moreover have "i \<in> od_id ` set (ex_tasks e)" using ti by blast
  then have "\<forall>p\<in>set (ex_log e'). ee_task (fst p) \<in> od_id ` set (ex_tasks e')"
    unfolding ids using l log by (auto simp: lives_ok_def)
  ultimately have "lives_ok e'" unfolding lives_ok_def by simp
  with slots show ?thesis by simp
qed

section \<open>Every operation keeps the invariant\<close>

lemma executor_ok_parts:
  "slots_ok cfg e \<Longrightarrow> lives_ok e \<Longrightarrow> (ex_stopped e \<Longrightarrow> ex_locks e = []) \<Longrightarrow> executor_ok cfg e"
  by (simp add: executor_ok_def)

lemma new_executor_ok: "executor_ok cfg (new_executor cfg)"
  by (simp add: executor_ok_def slots_ok_def lives_ok_def new_executor_def)

lemma submit_ok:
  assumes ok: "executor_ok cfg e"
  shows "executor_ok cfg (snd (submit t e))"
proof (cases "ex_stopped e \<or> task_of (od_id t) e \<noteq> None")
  case False
  have fresh: "od_id t \<notin> od_id ` set (ex_tasks e)" using False task_of_None by auto
  have s: "slots_ok cfg e" and l: "lives_ok e" using ok by (auto simp: executor_ok_def)
  let ?e = "e\<lparr> ex_tasks := ex_tasks e @ [t\<lparr> od_status := OdPending \<rparr>] \<rparr>"
  have e': "snd (submit t e) = ?e" using False by (simp add: submit_def)
  have "od_id t \<notin> fst ` set (ex_locks e)" using s fresh by (auto simp: slots_ok_def)
  then have "map_of (ex_locks e) (od_id t) = None" by (simp add: map_of_eq_None_iff)
  then have "slots_ok cfg ?e" using s fresh by (auto simp: slots_ok_def held_by_def)
  moreover have "told (od_id t) e = []" using l fresh by (auto simp: told_def lives_ok_def filter_empty_conv)
  then have "lives_ok ?e" using l by (auto simp: lives_ok_def told_def)
  ultimately show ?thesis using ok by (simp add: e' executor_ok_def)
qed (use ok in \<open>auto simp: submit_def\<close>)

lemma checkout_cases:
  assumes "executor_ok cfg e"
  shows "snd (checkout i slug e) = e \<and> fst (checkout i slug e) \<noteq> Inr True
    \<or> (\<exists>t. task_of i e = Some t \<and> od_status t = OdPending \<and> \<not> ex_stopped e \<and> map_of (ex_locks e) i = None
         \<and> (0 < oc_max_bots cfg \<longrightarrow> ex_active e < oc_max_bots cfg) \<and> fst (checkout i slug e) = Inr True)"
proof (cases "task_of i e")
  case (Some t)
  have "ex_config e = cfg" using assms by (simp add: executor_ok_def slots_ok_def)
  with Some show ?thesis by (cases "map_of (ex_locks e) i") (auto simp: checkout_def Let_def)
qed (simp add: checkout_def)

lemma checkout_ok:
  assumes ok: "executor_ok cfg e"
  shows "executor_ok cfg (snd (checkout i slug e))"
proof (cases "snd (checkout i slug e) = e")
  case False
  then obtain t where t: "task_of i e = Some t" "od_status t = OdPending" "\<not> ex_stopped e"
      "map_of (ex_locks e) i = None" "0 < oc_max_bots cfg \<longrightarrow> ex_active e < oc_max_bots cfg"
    using checkout_cases [OF ok, of i slug] by auto
  have cfg: "ex_config e = cfg" using ok by (simp add: executor_ok_def slots_ok_def)
  show ?thesis
    by (rule take_slot [OF ok t(1,2,4,5), where ev = "\<lparr> ee_kind = EvStart, ee_task = i, ee_bot = slug, ee_result = [], ee_error = [] \<rparr>" and slug = slug and hs = "ex_listeners e"])
      (use t cfg in \<open>auto simp: checkout_def emit_def edit_task_def Let_def\<close>)
qed (simp add: ok)

lemma release_ok:
  assumes ok: "executor_ok cfg e"
  shows "executor_ok cfg (snd (release_task now i result err e))"
proof (cases "task_of i e")
  case (Some t)
  show ?thesis
  proof (cases "map_of (ex_locks e) i")
    case None
    with Some ok show ?thesis by (simp add: release_task_def)
  next
    case slug: (Some slug)
    have s: "slots_ok cfg e" and l: "lives_ok e" using ok by (auto simp: executor_ok_def)
    have run: "\<not> ex_stopped e" using ok slug by (auto simp: executor_ok_def)
    have ti: "t \<in> set (ex_tasks e)" "od_id t = i" using task_ofD [OF Some] by simp_all
    have "map_of (ex_locks e) (od_id t) \<noteq> None" using ti slug by simp
    then have out: "od_status t = OdInProgress" by (rule lock_out [OF s ti(1)])
    show ?thesis
    proof (cases "err = None \<or> err = Some []")
      case True
      let ?r = "case result of Some r \<Rightarrow> r | None \<Rightarrow> od_result t"
      have "slots_ok cfg (snd (release_task now i result err e)) \<and> lives_ok (snd (release_task now i result err e))"
        by (rule give_back [OF s l Some out, where k = EvComplete and hs = "ex_listeners e"
              and f = "\<lambda>t. t\<lparr> od_completed := now, od_status := OdCompleted, od_result := ?r \<rparr>"
              and ev = "\<lparr> ee_kind = EvComplete, ee_task = i, ee_bot = slug, ee_result = ?r, ee_error = [] \<rparr>"])
          (use True Some slug ti in \<open>auto simp: release_task_def drop_lock_def emit_def edit_task_def Let_def split: option.splits\<close>)
      moreover have "\<not> ex_stopped (snd (release_task now i result err e))"
        using True run Some slug by (auto simp: release_task_def drop_lock_def emit_def edit_task_def Let_def)
      ultimately show ?thesis by (simp add: executor_ok_def)
    next
      case False
      then obtain c cs where err: "err = Some (c # cs)" by (metis list.exhaust not_None_eq)
      have "slots_ok cfg (snd (release_task now i result err e)) \<and> lives_ok (snd (release_task now i result err e))"
        by (rule give_back [OF s l Some out, where k = EvFail and hs = "ex_listeners e"
              and f = "\<lambda>t. t\<lparr> od_completed := now, od_status := OdFailed \<rparr>"
              and ev = "\<lparr> ee_kind = EvFail, ee_task = i, ee_bot = slug, ee_result = [], ee_error = c # cs \<rparr>"])
          (use err Some slug ti in \<open>auto simp: release_task_def drop_lock_def emit_def edit_task_def Let_def\<close>)
      moreover have "\<not> ex_stopped (snd (release_task now i result err e))"
        using err run Some slug by (auto simp: release_task_def drop_lock_def emit_def edit_task_def Let_def)
      ultimately show ?thesis by (simp add: executor_ok_def)
    qed
  qed
qed (simp add: release_task_def ok)

lemma timeout_ok:
  assumes ok: "executor_ok cfg e"
  shows "executor_ok cfg (handle_timeout now i slug e)"
proof (cases "task_of i e")
  case (Some t)
  show ?thesis
  proof (cases "od_status t = OdInProgress")
    case True
    have s: "slots_ok cfg e" and l: "lives_ok e" using ok by (auto simp: executor_ok_def)
    have ti: "t \<in> set (ex_tasks e)" "od_id t = i" using task_ofD [OF Some] by simp_all
    have "slots_ok cfg (handle_timeout now i slug e) \<and> lives_ok (handle_timeout now i slug e)"
      by (rule give_back [OF s l Some True, where k = EvTimeout and hs = "ex_listeners e"
            and f = "\<lambda>t. t\<lparr> od_status := OdFailed, od_completed := now \<rparr>"
            and ev = "\<lparr> ee_kind = EvTimeout, ee_task = i, ee_bot = slug, ee_result = [], ee_error = ''task timed out'' \<rparr>"])
        (use True Some ti in \<open>auto simp: handle_timeout_def drop_lock_def emit_def edit_task_def Let_def\<close>)
    moreover have "ex_stopped e \<Longrightarrow> ex_locks (handle_timeout now i slug e) = []"
      using ok True Some by (simp add: handle_timeout_def drop_lock_def emit_def edit_task_def Let_def executor_ok_def)
    moreover have "ex_stopped (handle_timeout now i slug e) = ex_stopped e"
      using True Some by (simp add: handle_timeout_def drop_lock_def emit_def edit_task_def Let_def)
    ultimately show ?thesis by (simp add: executor_ok_def)
  qed (use Some ok in \<open>simp add: handle_timeout_def\<close>)
qed (simp add: handle_timeout_def ok)

lemma stop_one_keeps:
  assumes s: "slots_ok cfg e" and l: "lives_ok e" and t: "ex_timers e = []" and lock: "p \<in> set (ex_locks e)"
  shows "slots_ok cfg (stop_one now p e) \<and> lives_ok (stop_one now p e)"
proof -
  have "fst p \<in> od_id ` set (ex_tasks e)" using s lock by (auto simp: slots_ok_def)
  then obtain u where u: "task_of (fst p) e = Some u" using task_of_None by (cases "task_of (fst p) e") auto
  have ui: "u \<in> set (ex_tasks e)" "od_id u = fst p" using task_ofD [OF u] by simp_all
  have "map_of (ex_locks e) (fst p) = Some (snd p)" using s lock by (simp add: slots_ok_def)
  then have "map_of (ex_locks e) (od_id u) \<noteq> None" using ui by simp
  then have out: "od_status u = OdInProgress" by (rule lock_out [OF s ui(1)])
  show ?thesis
    by (rule give_back [OF s l u out, where k = EvFail and hs = "ex_listeners e"
          and f = "\<lambda>t. t\<lparr> od_status := OdFailed, od_completed := now \<rparr>"
          and ev = "\<lparr> ee_kind = EvFail, ee_task = fst p, ee_bot = snd p, ee_result = [], ee_error = ''executor stopped'' \<rparr>"])
      (use t ui in \<open>auto simp: stop_one_def drop_lock_def emit_def edit_task_def\<close>)
qed

lemma stop_one_fields [simp]:
  "ex_locks (stop_one now p e) = filter (\<lambda>q. fst q \<noteq> fst p) (ex_locks e)"
  "ex_timers (stop_one now p e) = ex_timers e" "ex_stopped (stop_one now p e) = ex_stopped e"
  by (simp_all add: stop_one_def drop_lock_def emit_def edit_task_def)

lemma stop_loop:
  "slots_ok cfg e \<Longrightarrow> lives_ok e \<Longrightarrow> ex_timers e = [] \<Longrightarrow> distinct (map fst order) \<Longrightarrow>
     set order = set (ex_locks e) \<Longrightarrow>
   slots_ok cfg (fold (stop_one now) order e) \<and> lives_ok (fold (stop_one now) order e)
   \<and> ex_locks (fold (stop_one now) order e) = [] \<and> ex_stopped (fold (stop_one now) order e) = ex_stopped e"
proof (induction order arbitrary: e)
  case (Cons p order)
  have "p \<in> set (ex_locks e)" using Cons.prems(5) by auto
  note step = stop_one_keeps [OF Cons.prems(1-3) this, of now]
  have "set order = set (ex_locks (stop_one now p e))"
  proof (rule set_eqI)
    fix q
    have "fst q = fst p \<Longrightarrow> q \<notin> set order" using Cons.prems(4) by (auto dest: image_eqI)
    moreover have "q \<noteq> p \<Longrightarrow> q \<in> set order \<longleftrightarrow> q \<in> set (ex_locks e)" using Cons.prems(5) by auto
    moreover have "p \<notin> set order" using Cons.prems(4) by auto
    moreover have "fst q = fst p \<Longrightarrow> q \<in> set (ex_locks e) \<Longrightarrow> q = p"
      using Cons.prems(1) \<open>p \<in> set (ex_locks e)\<close> by (auto simp: slots_ok_def distinct_map dest: inj_onD)
    ultimately show "q \<in> set order \<longleftrightarrow> q \<in> set (ex_locks (stop_one now p e))" by auto
  qed
  moreover have "distinct (map fst order)" "ex_timers (stop_one now p e) = []" using Cons.prems by simp_all
  ultimately have "slots_ok cfg (fold (stop_one now) order (stop_one now p e))
    \<and> lives_ok (fold (stop_one now) order (stop_one now p e))
    \<and> ex_locks (fold (stop_one now) order (stop_one now p e)) = []
    \<and> ex_stopped (fold (stop_one now) order (stop_one now p e)) = ex_stopped (stop_one now p e)"
    using Cons.IH step by blast
  then show ?case by simp
qed simp

lemma stop_all_ok:
  assumes ok: "executor_ok cfg e" and order: "mset order = mset (ex_locks e)"
  shows "executor_ok cfg (stop_all now order e) \<and> ex_stopped (stop_all now order e)"
proof -
  let ?e = "e\<lparr> ex_stopped := True, ex_timers := [] \<rparr>"
  have "slots_ok cfg ?e" "lives_ok ?e"
    using ok by (auto simp: executor_ok_def slots_ok_def lives_ok_def told_def)
  moreover have "distinct (map fst order)"
  proof -
    have "mset (map fst order) = mset (map fst (ex_locks e))" using order by simp
    moreover have "distinct (map fst (ex_locks e))" using ok by (simp add: executor_ok_def slots_ok_def)
    ultimately show ?thesis by (metis mset_eq_imp_distinct_iff)
  qed
  moreover have "set order = set (ex_locks ?e)" using mset_eq_setD [OF order] by simp
  ultimately have "slots_ok cfg (stop_all now order e) \<and> lives_ok (stop_all now order e)
      \<and> ex_locks (stop_all now order e) = [] \<and> ex_stopped (stop_all now order e) = ex_stopped ?e"
    unfolding stop_all_def using stop_loop [of cfg ?e order now] by simp
  then show ?thesis by (simp add: executor_ok_def)
qed

lemma listener_change_ok:
  "executor_ok cfg e \<Longrightarrow> executor_ok cfg (e\<lparr> ex_listeners := hs \<rparr>)"
  unfolding executor_ok_def slots_ok_def lives_ok_def told_def by force

lemma executor_run_ok: "executor_run cfg e \<Longrightarrow> executor_ok cfg e"
proof (induction rule: executor_run.induct)
  case (run_stop e order now)
  then show ?case using stop_all_ok by blast
next
  case (run_unsubscribe e n)
  then show ?case by (simp add: unsubscribe_def listener_change_ok)
qed (simp_all add: new_executor_ok submit_ok checkout_ok release_ok timeout_ok on_event_def listener_change_ok)

section \<open>Properties\<close>

lemma locks_of_active:
  assumes ok: "slots_ok cfg e"
  shows "length (active_tasks e) = length (ex_locks e)"
proof -
  let ?ids = "map od_id (active_tasks e)"
  have d: "distinct (map od_id (ex_tasks e))" "distinct (map fst (ex_locks e))" using ok by (simp_all add: slots_ok_def)
  have "distinct ?ids" unfolding active_tasks_def by (rule distinct_map_filter [OF d(1)])
  moreover have "set ?ids = set (map fst (ex_locks e))"
  proof (rule set_eqI, rule iffI)
    fix i assume "i \<in> set ?ids"
    then obtain t where t: "t \<in> set (ex_tasks e)" "od_status t = OdInProgress" "od_id t = i"
      by (auto simp: active_tasks_def)
    then have "map_of (ex_locks e) i = Some (od_bot t)" using ok by (auto simp: slots_ok_def held_by_def)
    then have "(i, od_bot t) \<in> set (ex_locks e)" by (rule map_of_SomeD)
    then show "i \<in> set (map fst (ex_locks e))" by force
  next
    fix i assume i: "i \<in> set (map fst (ex_locks e))"
    then obtain t where t: "t \<in> set (ex_tasks e)" "od_id t = i" using ok by (auto simp: slots_ok_def)
    have "map_of (ex_locks e) i \<noteq> None" using i by (simp add: map_of_eq_None_iff)
    then have "od_status t = OdInProgress" using lock_out [OF ok t(1)] t(2) by simp
    with t show "i \<in> set ?ids" by (auto simp: active_tasks_def)
  qed
  ultimately have "card (set (map fst (ex_locks e))) = length ?ids" by (metis distinct_card)
  with d(2) show ?thesis by (simp add: distinct_card flip: set_map)
qed

text \<open>C8. The executor counts the tasks that are out correctly, in every run, and never hands out more of
  them than the configuration allows.\<close>
theorem never_more_tasks_than_slots:
  assumes "executor_run cfg e"
  shows "ex_active e = int (length (active_tasks e)) \<and> (0 < oc_max_bots cfg \<longrightarrow> ex_active e \<le> oc_max_bots cfg)"
proof -
  have s: "slots_ok cfg e" using executor_run_ok [OF assms] by (simp add: executor_ok_def)
  then show ?thesis using locks_of_active [OF s] by (auto simp: slots_ok_def)
qed

definition two_slots :: "int executor_config" where
  "two_slots = \<lparr> oc_max_bots = 2, oc_budget = \<lparr> bl_tokens = 0, bl_cost = 0 \<rparr>, oc_timeout = 60, oc_retry = False, oc_retries = 0 \<rparr>"

definition small_task :: "string \<Rightarrow> int task_definition" where
  "small_task i =
     \<lparr> od_id = i, od_title = ''t'', od_description = [], od_skills = [], od_goal = [], od_priority = ''low'',
       od_status = OdCompleted, od_bot = [], od_budget = None, od_created = 1, od_completed = 0, od_result = [] \<rparr>"

definition busy_executor :: "(int, nat) executor" where
  "busy_executor =
     snd (checkout ''c'' ''eng'' (snd (checkout ''b'' ''pm'' (snd (checkout ''a'' ''eng''
       (snd (submit (small_task ''c'') (snd (submit (small_task ''b'') (snd (submit (small_task ''a'') (new_executor two_slots))))))))))))"

lemma busy_run: "executor_run two_slots busy_executor"
  unfolding busy_executor_def
  by (intro run_checkout run_submit fresh_executor)

theorem never_more_tasks_than_slots_witness:
  "ex_active busy_executor = int (length (active_tasks busy_executor))
   \<and> map od_id (active_tasks busy_executor) = [''a'', ''b''] \<and> ex_active busy_executor \<le> 2"
proof -
  have "oc_max_bots two_slots = 2" "map od_id (active_tasks busy_executor) = [''a'', ''b'']" by code_simp+
  with never_more_tasks_than_slots [OF busy_run] show ?thesis by simp
qed

text \<open>C9. What the listeners are told of a task fits its state: nothing while it waits, one start while it is
  out, and one start and one end when it is over, also when a timer fires after the task was given back.\<close>
theorem one_start_one_end:
  assumes "executor_run cfg e" "task_of i e = Some t"
  shows "life_fits (od_status t) (told i e)"
  using executor_run_ok [OF assms(1)] task_ofD [OF assms(2)] by (auto simp: executor_ok_def lives_ok_def)

definition late_timer :: "(int, nat) executor" where
  "late_timer = handle_timeout 9 ''a'' ''eng'' (snd (release_task 7 ''a'' (Some ''ok'') None busy_executor))"

theorem one_start_one_end_witness:
  "\<exists>t. task_of ''a'' late_timer = Some t \<and> od_status t = OdCompleted \<and> life_fits (od_status t) (told ''a'' late_timer)
     \<and> told ''a'' late_timer = [EvStart, EvComplete]"
proof -
  have run: "executor_run two_slots late_timer"
    unfolding late_timer_def by (intro run_timeout run_release busy_run) code_simp
  have "(case task_of ''a'' late_timer of Some t \<Rightarrow> od_status t = OdCompleted | None \<Rightarrow> False)" by code_simp
  then obtain t where t: "task_of ''a'' late_timer = Some t" "od_status t = OdCompleted" by (auto split: option.splits)
  have "told ''a'' late_timer = [EvStart, EvComplete]" by code_simp
  with t one_start_one_end [OF run t(1)] show ?thesis by auto
qed

text \<open>A check-out succeeds exactly when the executor runs, the task waits and a slot is free.\<close>
theorem checkout_when_free:
  assumes "executor_run cfg e"
  shows "fst (checkout i slug e) = Inr True \<longleftrightarrow>
    \<not> ex_stopped e \<and> map_option od_status (task_of i e) = Some OdPending
    \<and> (oc_max_bots cfg \<le> 0 \<or> int (length (active_tasks e)) < oc_max_bots cfg)"
proof (cases "task_of i e")
  case (Some t)
  have s: "slots_ok cfg e" using executor_run_ok [OF assms] by (simp add: executor_ok_def)
  have n: "ex_active e = int (length (active_tasks e))" "ex_config e = cfg"
    using s locks_of_active [OF s] by (simp_all add: slots_ok_def)
  have "map_of (ex_locks e) i = held_by t" using s task_ofD [OF Some] by (auto simp: slots_ok_def)
  with Some n show ?thesis by (auto simp: checkout_def held_by_def Let_def)
qed (simp add: checkout_def)

theorem checkout_when_free_witness:
  "fst (checkout ''c'' ''pm'' busy_executor) \<noteq> Inr True
   \<and> fst (checkout ''c'' ''pm'' late_timer) = (Inr True :: executor_error + bool)"
proof -
  have run: "executor_run two_slots late_timer"
    unfolding late_timer_def by (intro run_timeout run_release busy_run) code_simp
  have "\<not> int (length (active_tasks busy_executor)) < oc_max_bots two_slots" "\<not> oc_max_bots two_slots \<le> 0" by code_simp+
  moreover have "\<not> ex_stopped late_timer \<and> map_option od_status (task_of ''c'' late_timer) = Some OdPending
      \<and> int (length (active_tasks late_timer)) < oc_max_bots two_slots" by code_simp
  ultimately show ?thesis
    using checkout_when_free [OF busy_run, of "''c''" "''pm''"] checkout_when_free [OF run, of "''c''" "''pm''"] by blast
qed

text \<open>
  The index an unsubscribe function closes over goes stale when an earlier listener leaves: of three
  listeners the first leaves, then the second asks to leave, and the third is gone instead.
\<close>

lemma unsubscribe_drops_another:
  "ex_listeners e = [] \<Longrightarrow>
   (let (i, e1) = on_event a e; (j, e2) = on_event b e1; (k, e3) = on_event c e2
    in ex_listeners (unsubscribe j (unsubscribe i e3))) = [b]"
  by (simp add: on_event_def unsubscribe_def Let_def)

end
