(* ===== verification/Delegation.thy ===== *)
theory Delegation
  imports Prelude
begin

text \<open>
  What the team lead delegates: \<^verbatim>\<open>internal/orchestration/delegator.go\<close>.

  The expression \<^verbatim>\<open>@([a-z][a-z0-9-]*)\<close> is searched from left to right; a match takes the longest slug,
  and the search goes on behind it.  A match is the offset of its at-sign with the slug.
\<close>

record delegation =
  dg_bot :: string
  dg_task :: string

text \<open>\<^verbatim>\<open>NewDelegator\<close> keeps the limit alone; the expression is a constant.\<close>

definition new_delegator :: "int \<Rightarrow> nat" where
  "new_delegator limit = (if limit \<le> 0 then 3 else nat limit)"

definition low_letter :: "char \<Rightarrow> bool" where
  "low_letter c \<longleftrightarrow> 97 \<le> (of_char c :: nat) \<and> (of_char c :: nat) \<le> 122"

definition low_digit :: "char \<Rightarrow> bool" where
  "low_digit c \<longleftrightarrow> 48 \<le> (of_char c :: nat) \<and> (of_char c :: nat) \<le> 57"

definition mention_char :: "char \<Rightarrow> bool" where
  "mention_char c \<longleftrightarrow> low_letter c \<or> low_digit c \<or> c = CHR ''-''"

function mentions :: "nat \<Rightarrow> string \<Rightarrow> (nat \<times> string) list" where
  "mentions p [] = []"
| "mentions p (c # cs) =
     (if c = CHR ''@'' \<and> cs \<noteq> [] \<and> low_letter (hd cs)
      then (p, takeWhile mention_char cs)
             # mentions (p + 1 + length (takeWhile mention_char cs)) (dropWhile mention_char cs)
      else mentions (p + 1) cs)"
  by pat_completeness auto
termination
  by (relation "measure (\<lambda>(p, s). length s)") (auto simp: le_imp_less_Suc length_dropWhile_le)

definition ends_sentence :: "char \<Rightarrow> bool" where
  "ends_sentence c \<longleftrightarrow> c = CHR ''.'' \<or> c = CHR 0x0A"

text \<open>The two loops of \<^verbatim>\<open>extractSentence\<close>, backwards and forwards from a position.\<close>

fun sentence_start :: "string \<Rightarrow> nat \<Rightarrow> nat" where
  "sentence_start s 0 = 0"
| "sentence_start s (Suc i) = (if ends_sentence (s ! i) then Suc i else sentence_start s i)"

function sentence_end :: "string \<Rightarrow> nat \<Rightarrow> nat" where
  "sentence_end s i =
     (if i < length s then (if ends_sentence (s ! i) then i + 1 else sentence_end s (i + 1))
      else length s)"
  by auto
termination
  by (relation "measure (\<lambda>(s, i). length s - i)") auto

declare sentence_end.simps [simp del]

definition extract_sentence :: "string \<Rightarrow> nat \<Rightarrow> string" where
  "extract_sentence s pos = drop (sentence_start s pos) (take (sentence_end s pos) s)"

fun collect_delegations :: "string \<Rightarrow> string list \<Rightarrow> string list \<Rightarrow> (nat \<times> string) list \<Rightarrow> delegation list" where
  "collect_delegations response known seen [] = []"
| "collect_delegations response known seen ((pos, slug) # ms) =
     (if slug \<notin> set known \<or> slug \<in> set seen then collect_delegations response known seen ms
      else \<lparr> dg_bot = slug, dg_task = trim_space (extract_sentence response pos) \<rparr>
             # collect_delegations response known (slug # seen) ms)"

definition extract_delegations :: "string \<Rightarrow> string list \<Rightarrow> delegation list" where
  "extract_delegations response known = collect_delegations response known [] (mentions 0 response)"

definition apply_limit :: "nat \<Rightarrow> delegation list \<Rightarrow> delegation list \<times> delegation list" where
  "apply_limit n ds = (if length ds \<le> n then (ds, []) else (take n ds, drop n ds))"

definition format_steer_message :: "delegation \<Rightarrow> string" where
  "format_steer_message d = ''[TEAM-LEAD DELEGATION] '' @ dg_task d"

section \<open>Mentions\<close>

lemma mention_sound:
  "(q, w) \<in> set (mentions p s) \<Longrightarrow>
   p \<le> q \<and> prefix (CHR ''@'' # w) (drop (q - p) s) \<and> w \<noteq> [] \<and> low_letter (hd w) \<and> (\<forall>c\<in>set w. mention_char c)"
proof (induction p s rule: mentions.induct)
  case (2 p c cs)
  show ?case
  proof (cases "c = CHR ''@'' \<and> cs \<noteq> [] \<and> low_letter (hd cs)")
    case True
    let ?w = "takeWhile mention_char cs" and ?r = "dropWhile mention_char cs"
    have cs: "cs = ?w @ ?r" by simp
    have head: "?w \<noteq> []" "hd ?w = hd cs" using True by (cases cs; simp add: mention_char_def)+
    from 2(3) True consider "(q, w) = (p, ?w)" | "(q, w) \<in> set (mentions (p + 1 + length ?w) ?r)" by auto
    then show ?thesis
    proof cases
      case 1
      then show ?thesis using True head by (auto dest: set_takeWhileD simp: takeWhile_is_prefix)
    next
      case 2
      note ih = "2.IH"(1) [OF True 2]
      then have "p + 1 + length ?w \<le> q" by blast
      then have q: "q - p = Suc (length ?w + (q - (p + 1 + length ?w)))" by simp
      have "drop (q - p) (c # cs) = drop (q - (p + 1 + length ?w)) (drop (length ?w) (?w @ ?r))"
        unfolding q by (simp add: add.commute)
      also have "drop (length ?w) (?w @ ?r) = ?r" by (rule append_eq_conv_conj [THEN iffD1, THEN conjunct2, OF refl, symmetric])
      finally show ?thesis using ih by simp
    qed
  next
    case False
    then have "(q, w) \<in> set (mentions (p + 1) cs)" using 2(3) by auto
    note ih = "2.IH"(2) [OF False this]
    then have "p + 1 \<le> q" by blast
    then have "q - p = Suc (q - (p + 1))" by simp
    then have "drop (q - p) (c # cs) = drop (q - (p + 1)) cs" by simp
    with ih show ?thesis by simp
  qed
qed simp

text \<open>The same search without the skip behind a match.\<close>

fun every_mention :: "nat \<Rightarrow> string \<Rightarrow> (nat \<times> string) list" where
  "every_mention p [] = []"
| "every_mention p (c # cs) =
     (if c = CHR ''@'' \<and> cs \<noteq> [] \<and> low_letter (hd cs) then [(p, takeWhile mention_char cs)] else [])
       @ every_mention (p + 1) cs"

lemma every_mention_skip: "CHR ''@'' \<notin> set w \<Longrightarrow> every_mention p (w @ r) = every_mention (p + length w) r"
  by (induction w arbitrary: p) auto

lemma at_sign_no_slug: "CHR ''@'' \<notin> set (takeWhile mention_char cs)"
  by (auto dest!: set_takeWhileD simp: mention_char_def low_letter_def low_digit_def)

lemma mentions_every: "mentions p s = every_mention p s"
proof (induction p s rule: mentions.induct)
  case (2 p c cs)
  show ?case
  proof (cases "c = CHR ''@'' \<and> cs \<noteq> [] \<and> low_letter (hd cs)")
    case True
    let ?w = "takeWhile mention_char cs" and ?r = "dropWhile mention_char cs"
    have "every_mention (p + 1) (?w @ ?r) = every_mention (p + 1 + length ?w) ?r"
      by (rule every_mention_skip [OF at_sign_no_slug])
    then show ?thesis using True "2.IH"(1) [OF True] by simp
  next
    case False
    then show ?thesis using "2.IH"(2) [OF False] by auto
  qed
qed simp

section \<open>Sentences\<close>

lemma sentence_start_le: "sentence_start s i \<le> i"
  by (induction s i rule: sentence_start.induct) auto

lemma sentence_start_clear: "sentence_start s i \<le> k \<Longrightarrow> k < i \<Longrightarrow> \<not> ends_sentence (s ! k)"
  by (induction s i rule: sentence_start.induct) (auto simp: less_Suc_eq split: if_splits)

lemma sentence_end_bounds: "i \<le> length s \<Longrightarrow> i \<le> sentence_end s i \<and> sentence_end s i \<le> length s"
proof (induction s i rule: sentence_end.induct)
  case (1 s i)
  show ?case
  proof (cases "i < length s \<and> \<not> ends_sentence (s ! i)")
    case True
    then have "sentence_end s i = sentence_end s (i + 1)" by (subst sentence_end.simps) simp
    with True 1 show ?thesis by auto
  next
    case False
    then show ?thesis using 1(2) by (subst (1 2) sentence_end.simps) auto
  qed
qed

lemma sentence_end_clear:
  "i \<le> k \<Longrightarrow> k + 1 < sentence_end s i \<Longrightarrow> i \<le> length s \<Longrightarrow> \<not> ends_sentence (s ! k)"
proof (induction s i rule: sentence_end.induct)
  case (1 s i)
  show ?case
  proof (cases "i < length s \<and> \<not> ends_sentence (s ! i)")
    case True
    then have "sentence_end s i = sentence_end s (i + 1)" by (subst sentence_end.simps) simp
    with True 1 show ?thesis by (cases "k = i") auto
  next
    case False
    then have "sentence_end s i \<le> i + 1" using 1(4) by (subst sentence_end.simps) auto
    with 1 show ?thesis by simp
  qed
qed

lemma sentence_end_reaches:
  "\<forall>k. i \<le> k \<and> k < j \<longrightarrow> \<not> ends_sentence (s ! k) \<Longrightarrow> i \<le> j \<Longrightarrow> j \<le> length s \<Longrightarrow> j \<le> sentence_end s i"
proof (induction s i rule: sentence_end.induct)
  case (1 s i)
  show ?case
  proof (cases "i = j")
    case True
    then show ?thesis using sentence_end_bounds 1 by blast
  next
    case False
    then have i: "i < length s" "\<not> ends_sentence (s ! i)" using 1 by auto
    then have "sentence_end s i = sentence_end s (i + 1)" by (subst sentence_end.simps) simp
    with False i 1 show ?thesis by auto
  qed
qed

lemma sentence_unbroken:
  assumes "pos \<le> length s"
  shows "\<forall>c\<in>set (butlast (extract_sentence s pos)). \<not> ends_sentence c"
proof
  let ?a = "sentence_start s pos" and ?b = "sentence_end s pos"
  fix c assume "c \<in> set (butlast (extract_sentence s pos))"
  then obtain k where k: "k < length (extract_sentence s pos) - 1" "c = extract_sentence s pos ! k"
    by (metis in_set_conv_nth length_butlast nth_butlast)
  have b: "pos \<le> ?b" "?b \<le> length s" using sentence_end_bounds [OF assms] by simp_all
  have a: "?a \<le> pos" by (rule sentence_start_le)
  have len: "length (extract_sentence s pos) = ?b - ?a" using b by (simp add: extract_sentence_def)
  with k a b have c: "c = s ! (?a + k)" by (simp add: extract_sentence_def)
  show "\<not> ends_sentence c"
  proof (cases "?a + k < pos")
    case True
    then show ?thesis using sentence_start_clear [of s pos "?a + k"] c by simp
  next
    case False
    then show ?thesis using sentence_end_clear [of pos "?a + k" s] c k len assms by simp
  qed
qed

lemma sentence_holds:
  assumes m: "prefix u (drop pos s)" and clear: "\<forall>c\<in>set u. \<not> ends_sentence c" and pos: "pos \<le> length s"
  shows "sublist u (extract_sentence s pos)"
proof -
  let ?a = "sentence_start s pos" and ?b = "sentence_end s pos"
  obtain r where r: "drop pos s = u @ r" using m by (auto elim: prefixE)
  have len: "pos + length u \<le> length s" using r pos by (metis add_le_mono1 length_append length_drop le_add1 le_add_diff_inverse nat_add_left_cancel_le)
  have "s ! k = u ! (k - pos)" if "pos \<le> k" "k < pos + length u" for k
    using r that by (metis le_add_diff_inverse less_diff_conv2 nth_append nth_drop add.commute pos)
  then have "\<forall>k. pos \<le> k \<and> k < pos + length u \<longrightarrow> \<not> ends_sentence (s ! k)" using clear by force
  then have b: "pos + length u \<le> ?b" using sentence_end_reaches [of pos "pos + length u" s] len by simp
  have "take (?b - pos) (drop pos s) = u @ take (?b - pos - length u) r" using b by (simp add: r)
  moreover have "extract_sentence s pos = drop ?a (take pos s) @ take (?b - pos) (drop pos s)"
  proof -
    have "take ?b s = take pos s @ take (?b - pos) (drop pos s)"
      using b by (metis add_leD1 le_add_diff_inverse take_add)
    then show ?thesis using sentence_start_le [of s pos] pos by (simp add: extract_sentence_def)
  qed
  ultimately show ?thesis by (metis sublist_appendI append.assoc)
qed

section \<open>Properties\<close>

lemma collect_bots:
  "map dg_bot (collect_delegations response known seen ms)
     = dedup_acc seen (filter (\<lambda>w. w \<in> set known) (map snd ms))"
  by (induction response known seen ms rule: collect_delegations.induct) auto

text \<open>C35. The bots a reply delegates to are the known ones among all its mentions, each once and in the order
  of their first mention; that the search goes on behind a match loses no mention.\<close>
theorem delegations_exact:
  "map dg_bot (extract_delegations response known)
     = dedup (filter (\<lambda>w. w \<in> set known) (map snd (every_mention 0 response)))"
  by (simp add: extract_delegations_def collect_bots dedup_def mentions_every)

lemma collect_from:
  "d \<in> set (collect_delegations response known seen ms) \<Longrightarrow>
   \<exists>pos. (pos, dg_bot d) \<in> set ms \<and> dg_task d = trim_space (extract_sentence response pos)"
  by (induction response known seen ms rule: collect_delegations.induct) (auto split: if_splits)

text \<open>What a bot is given as its task is the sentence that holds its mention: a part of the reply with the
  mention in it and no full stop or line break before its last byte.\<close>
theorem delegation_sentence:
  assumes "d \<in> set (extract_delegations response known)"
  shows "\<exists>sentence. dg_task d = trim_space sentence \<and> sublist sentence response
    \<and> sublist (CHR ''@'' # dg_bot d) sentence \<and> (\<forall>c\<in>set (butlast sentence). \<not> ends_sentence c)"
proof -
  obtain pos where pos: "(pos, dg_bot d) \<in> set (mentions 0 response)"
      "dg_task d = trim_space (extract_sentence response pos)"
    using collect_from [OF assms [unfolded extract_delegations_def]] by blast
  have m: "prefix (CHR ''@'' # dg_bot d) (drop pos response)" "\<forall>c\<in>set (dg_bot d). mention_char c"
    using mention_sound [OF pos(1)] by simp_all
  then have le: "pos \<le> length response" by (cases "pos \<le> length response") auto
  have "\<not> ends_sentence c" if "c \<in> set (CHR ''@'' # dg_bot d)" for c
    using m(2) that by (auto simp: ends_sentence_def mention_char_def low_letter_def low_digit_def)
  then have "sublist (CHR ''@'' # dg_bot d) (extract_sentence response pos)"
    using sentence_holds [OF m(1) _ le] by blast
  moreover have "sublist (extract_sentence response pos) response"
    by (simp add: extract_sentence_def sublist_order.order_trans [OF sublist_drop sublist_take])
  ultimately show ?thesis using pos(2) sentence_unbroken [OF le] by blast
qed

theorem delegation_sentence_witness:
  "\<exists>sentence. ''ask @pm-2 about it.'' = trim_space sentence \<and> sublist sentence ''Done. ask @pm-2 about it. @eng codes.''
     \<and> sublist ''@pm-2'' sentence \<and> (\<forall>c\<in>set (butlast sentence). \<not> ends_sentence c)"
proof -
  let ?d = "\<lparr> dg_bot = ''pm-2'', dg_task = ''ask @pm-2 about it.'' \<rparr>"
  have "?d \<in> set (extract_delegations ''Done. ask @pm-2 about it. @eng codes.'' [''eng'', ''pm-2''])" by code_simp
  from delegation_sentence [OF this] show ?thesis by simp
qed

text \<open>The split into immediate and queued delegations.\<close>

lemma limit_splits:
  "apply_limit n ds = (now, later) \<Longrightarrow> now @ later = ds \<and> length now \<le> n \<and> (later \<noteq> [] \<longrightarrow> length now = n)"
  by (auto simp: apply_limit_def split: if_splits)

end
