(* ===== verification/MessageRouting.thy ===== *)
theory MessageRouting
  imports TaskRouting Delegation StableSort
begin

text \<open>
  Who a message of the human goes to: \<^verbatim>\<open>internal/orchestration/message_router.go\<close>.

  An explicit mention wins, then a follow-up to a recent thread, then the team lead, with the bots whose
  terms resemble the words of the message as collaborators.  The list of threads is the order of one
  iteration over the Go map.  The expressions of the code are scanners over bytes: \<^verbatim>\<open>@(\S+)\<close> is
  \<open>at_mentions\<close>, \<^verbatim>\<open>[a-z0-9]+\<close> is \<open>word_runs\<close>.
\<close>

section \<open>Words and terms\<close>

definition word_char :: "char \<Rightarrow> bool" where
  "word_char c \<longleftrightarrow> low_letter c \<or> low_digit c"

function word_runs :: "string \<Rightarrow> string list" where
  "word_runs [] = []"
| "word_runs (c # cs) =
     (if word_char c then (c # takeWhile word_char cs) # word_runs (dropWhile word_char cs) else word_runs cs)"
  by pat_completeness auto
termination
  by (relation "measure length") (auto simp: le_imp_less_Suc length_dropWhile_le)

definition stop_words :: "string list" where
  "stop_words =
     [''a'', ''an'', ''and'', ''are'', ''as'', ''at'', ''be'', ''but'', ''by'',
      ''can'', ''could'', ''do'', ''for'', ''from'', ''have'', ''help'', ''i'',
      ''in'', ''is'', ''it'', ''just'', ''make'', ''me'', ''need'', ''new'',
      ''of'', ''on'', ''or'', ''our'', ''please'', ''set'', ''should'', ''that'',
      ''the'', ''their'', ''then'', ''there'', ''this'', ''to'', ''up'', ''us'', ''want'',
      ''hello'', ''hi'', ''hey'', ''thanks'', ''thank'',
      ''we'', ''with'', ''you'', ''your'']"

definition normalize_routing_term :: "string \<Rightarrow> string" where
  "normalize_routing_term s =
     (let parts = word_runs (to_lower s) in
      if parts = [] then []
      else
        (let kept = filter (\<lambda>w. w \<notin> set stop_words) parts in
         if kept = [] then [] else join '' '' kept))"

definition normalize_routing_terms :: "string list \<Rightarrow> string list" where
  "normalize_routing_terms ts = filter (\<lambda>w. w \<noteq> []) (map normalize_routing_term ts)"

text \<open>The phrases of one length, from left to right.\<close>

definition phrases :: "nat \<Rightarrow> string list \<Rightarrow> string list" where
  "phrases n ws = map (\<lambda>i. join '' '' (take n (drop i ws))) [0..<length ws + 1 - n]"

fun phrases_upto :: "nat list \<Rightarrow> string list \<Rightarrow> string list" where
  "phrases_upto [] ws = []"
| "phrases_upto (n # ns) ws = (if length ws < n then [] else phrases n ws @ phrases_upto ns ws)"

definition message_words :: "string \<Rightarrow> string list" where
  "message_words message =
     filter (\<lambda>w. w \<notin> set stop_words) (normalize_routing_terms (word_runs (to_lower message)))"

definition extract_routing_terms :: "string \<Rightarrow> string list" where
  "extract_routing_terms message =
     (let ws = message_words message in if ws = [] then [] else dedup (phrases_upto [1, 2, 3] ws))"

definition routing_terms :: "string \<Rightarrow> string list \<Rightarrow> string list \<Rightarrow> string list \<Rightarrow> string list" where
  "routing_terms slug expertise roles extra =
     dedup (normalize_routing_terms (slug # expertise @ roles @ extra))"

section \<open>Scores\<close>

fun best_similarity :: "'f floats \<Rightarrow> string \<Rightarrow> 'f \<Rightarrow> string list \<Rightarrow> 'f" where
  "best_similarity fl w best [] = best"
| "best_similarity fl w best (t # ts) =
     (let score = similarity fl w t in best_similarity fl w (if fl_less fl best score then score else best) ts)"

text \<open>\<^verbatim>\<open>sort.Float64s\<close>, on numbers.\<close>

fun place_score :: "'f floats \<Rightarrow> 'f \<Rightarrow> 'f list \<Rightarrow> 'f list" where
  "place_score fl x [] = [x]"
| "place_score fl x (y # ys) = (if fl_less fl x y then x # y # ys else y # place_score fl x ys)"

definition sort_scores :: "'f floats \<Rightarrow> 'f list \<Rightarrow> 'f list" where
  "sort_scores fl xs = foldr (place_score fl) xs []"

definition score_bot_against_message :: "'f floats \<Rightarrow> string list \<Rightarrow> string list \<Rightarrow> 'f" where
  "score_bot_against_message fl words terms =
     (if words = [] \<or> terms = [] then fl_int fl 0
      else
        (let best = filter (fl_le fl (fl_decimal fl 3 10)) (map (\<lambda>w. best_similarity fl w (fl_int fl 0) terms) words) in
         if best = [] then fl_int fl 0
         else
           (let top = min 2 (length best);
                kept = drop (length best - top) (sort_scores fl best)
            in fl_div fl (foldl (fl_add fl) (fl_int fl 0) kept) (fl_int fl (int top)))))"

definition score_message_against_terms :: "'f floats \<Rightarrow> string \<Rightarrow> string list \<Rightarrow> 'f" where
  "score_message_against_terms fl message terms =
     score_bot_against_message fl (extract_routing_terms message) (dedup (normalize_routing_terms terms))"

section \<open>The router\<close>

record bot_info =
  bi_slug :: string
  bi_expertise :: "string list"
  bi_roles :: "string list"

record message_routing =
  mr_primary :: string
  mr_collaborators :: "string list"
  mr_follow_up :: bool
  mr_lead_aware :: bool

record thread_context =
  tc_bot :: string
  tc_last :: int

record 'f message_router =
  mo_router :: "'f task_router"
  mo_threads :: "thread_context list"
  mo_window :: int
  mo_lead :: string

definition new_message_router :: "'f message_router" where
  "new_message_router =
     \<lparr> mo_router = new_task_router, mo_threads = [], mo_window = 30 * nanos_per_second, mo_lead = [] \<rparr>"

definition set_team_lead :: "string \<Rightarrow> 'f message_router \<Rightarrow> 'f message_router" where
  "set_team_lead slug m = m\<lparr> mo_lead := slug \<rparr>"

definition team_lead :: "'f message_router \<Rightarrow> string" where
  "team_lead m = (if mo_lead m \<noteq> [] then mo_lead m else ''team-lead'')"

definition register_expert :: "'f floats \<Rightarrow> string \<Rightarrow> string list \<Rightarrow> 'f message_router \<Rightarrow> 'f message_router" where
  "register_expert fl slug expertise m =
     m\<lparr> mo_router := register_bot slug
          (map (\<lambda>x. \<lparr> sk_name = x, sk_description = x, sk_proficiency = fl_int fl 1 \<rparr>) expertise) (mo_router m) \<rparr>"

definition unregister_expert :: "string \<Rightarrow> 'f message_router \<Rightarrow> 'f message_router" where
  "unregister_expert slug m =
     m\<lparr> mo_router := unregister_bot slug (mo_router m),
        mo_threads := filter (\<lambda>tc. tc_bot tc \<noteq> slug) (mo_threads m) \<rparr>"

definition record_bot_activity :: "int \<Rightarrow> string \<Rightarrow> 'f message_router \<Rightarrow> 'f message_router" where
  "record_bot_activity now slug m =
     m\<lparr> mo_threads :=
          (if \<exists>tc\<in>set (mo_threads m). tc_bot tc = slug
           then map_first (\<lambda>tc. tc_bot tc = slug) (\<lambda>tc. tc\<lparr> tc_last := now \<rparr>) (mo_threads m)
           else mo_threads m @ [\<lparr> tc_bot = slug, tc_last = now \<rparr>]) \<rparr>"

text \<open>The class \<^verbatim>\<open>\S\<close> excludes tab, newline, form feed, carriage return and space.\<close>

definition plain_space :: "char \<Rightarrow> bool" where
  "plain_space c \<longleftrightarrow> c = CHR '' '' \<or> c = CHR 0x09 \<or> c = CHR 0x0A \<or> c = CHR 0x0C \<or> c = CHR 0x0D"

function at_mentions :: "string \<Rightarrow> string list" where
  "at_mentions [] = []"
| "at_mentions (c # cs) =
     (if c = CHR ''@'' \<and> cs \<noteq> [] \<and> \<not> plain_space (hd cs)
      then takeWhile (\<lambda>x. \<not> plain_space x) cs # at_mentions (dropWhile (\<lambda>x. \<not> plain_space x) cs)
      else at_mentions cs)"
  by pat_completeness auto
termination
  by (relation "measure length") (auto simp: le_imp_less_Suc length_dropWhile_le)

definition detect_at_mention :: "string \<Rightarrow> bot_info list \<Rightarrow> string option" where
  "detect_at_mention message bots = find (\<lambda>w. w \<in> set (map bi_slug bots)) (at_mentions message)"

definition follow_up_openings :: "string list" where
  "follow_up_openings =
     [''also'', ''and '', ''too '', ''that '', ''it '', ''the results'', ''those '', ''these '', ''this '',
      ''what about'', ''how about'', ''can you also'']"

fun latest_thread :: "int \<Rightarrow> int \<Rightarrow> thread_context option \<Rightarrow> thread_context list \<Rightarrow> thread_context option" where
  "latest_thread now window best [] = best"
| "latest_thread now window best (tc # tcs) =
     latest_thread now window
       (if now - tc_last tc \<le> window
           \<and> (case best of None \<Rightarrow> True | Some b \<Rightarrow> tc_last b < tc_last tc)
        then Some tc else best) tcs"

definition detect_follow_up :: "int \<Rightarrow> 'f message_router \<Rightarrow> string \<Rightarrow> string option" where
  "detect_follow_up now m message =
     (if \<not> list_ex (\<lambda>w. prefix w (to_lower (trim_space message))) follow_up_openings then None
      else map_option tc_bot (latest_thread now (mo_window m) None (mo_threads m)))"

text \<open>The comparison \<^verbatim>\<open>sort.Slice\<close> is called with; equal elements are equal in score and slug.\<close>

definition scored_before :: "'f floats \<Rightarrow> 'f routing_result \<Rightarrow> 'f routing_result \<Rightarrow> bool" where
  "scored_before fl x y =
     (if fl_eq fl (ro_score x) (ro_score y) then ro_bot x < ro_bot y else fl_less fl (ro_score y) (ro_score x))"

definition scored_bots :: "'f floats \<Rightarrow> string list \<Rightarrow> bot_info list \<Rightarrow> string \<Rightarrow> 'f routing_result list" where
  "scored_bots fl words bots lead =
     filter (\<lambda>x. fl_le fl (fl_decimal fl 28 100) (ro_score x))
       (map (\<lambda>a. \<lparr> ro_bot = bi_slug a,
                   ro_score = score_bot_against_message fl words
                     (routing_terms (bi_slug a) (bi_expertise a) (bi_roles a) []) \<rparr>)
         (filter (\<lambda>a. bi_slug a \<noteq> lead) bots))"

definition infer_collaborators :: "'f floats \<Rightarrow> string \<Rightarrow> bot_info list \<Rightarrow> string \<Rightarrow> string list" where
  "infer_collaborators fl message bots lead =
     (let words = extract_routing_terms message in
      if words = [] then [] else map ro_bot (stable_sort (scored_before fl) (scored_bots fl words bots lead)))"

text \<open>An empty text is what the code tests the two detections for.\<close>

definition route_message :: "'f floats \<Rightarrow> int \<Rightarrow> 'f message_router \<Rightarrow> string \<Rightarrow> bot_info list \<Rightarrow> message_routing" where
  "route_message fl now m message bots =
     (let lead = team_lead m;
          mention = (case detect_at_mention message bots of Some s \<Rightarrow> s | None \<Rightarrow> []);
          follow = (case detect_follow_up now m message of Some s \<Rightarrow> s | None \<Rightarrow> [])
      in if mention \<noteq> []
         then \<lparr> mr_primary = mention, mr_collaborators = [], mr_follow_up = False, mr_lead_aware = (mention = lead) \<rparr>
         else if follow \<noteq> []
         then \<lparr> mr_primary = follow, mr_collaborators = [], mr_follow_up = True, mr_lead_aware = True \<rparr>
         else \<lparr> mr_primary = lead, mr_collaborators = infer_collaborators fl message bots lead,
                mr_follow_up = False, mr_lead_aware = True \<rparr>)"

section \<open>Terms are phrases of plain words\<close>

definition plain_word :: "string \<Rightarrow> bool" where
  "plain_word w \<longleftrightarrow> w \<noteq> [] \<and> (\<forall>c\<in>set w. word_char c)"

lemma word_runs_plain: "w \<in> set (word_runs s) \<Longrightarrow> plain_word w"
proof (induction s rule: word_runs.induct)
  case (2 c cs)
  show ?case
  proof (cases "word_char c")
    case True
    then have "w = c # takeWhile word_char cs \<or> w \<in> set (word_runs (dropWhile word_char cs))" using 2(3) by simp
    moreover have "plain_word (c # takeWhile word_char cs)"
    proof -
      have "\<forall>x\<in>set (takeWhile word_char cs). word_char x" by (meson set_takeWhileD)
      with True show ?thesis by (simp add: plain_word_def)
    qed
    ultimately show ?thesis using "2.IH"(1) [OF True] by blast
  next
    case False
    with 2 show ?thesis by simp
  qed
qed simp

lemma lower_word_char: "word_char c \<Longrightarrow> lower_char c = c"
  by (auto simp: word_char_def low_letter_def low_digit_def lower_char_def Let_def)

lemma lower_blank: "lower_char CHR '' '' = CHR '' ''"
  by (simp add: lower_char_def)

lemma word_runs_blank: "plain_word w \<Longrightarrow> word_runs (w @ CHR '' '' # r) = w # word_runs r"
proof -
  assume w: "plain_word w"
  then obtain c cs where cs: "w = c # cs" "word_char c" "\<forall>x\<in>set cs. word_char x" by (cases w) (auto simp: plain_word_def)
  have blank: "\<not> word_char CHR '' ''" by (simp add: word_char_def low_letter_def low_digit_def)
  have "takeWhile word_char (cs @ CHR '' '' # r) = cs" "dropWhile word_char (cs @ CHR '' '' # r) = CHR '' '' # r"
    using cs(3) blank by (simp_all add: takeWhile_append dropWhile_append)
  with cs blank show ?thesis by simp
qed

lemma word_runs_word: "plain_word w \<Longrightarrow> word_runs w = [w]"
proof -
  assume w: "plain_word w"
  then obtain c cs where cs: "w = c # cs" "word_char c" "\<forall>x\<in>set cs. word_char x" by (cases w) (auto simp: plain_word_def)
  have "takeWhile word_char cs = cs" using cs(3) by simp
  moreover have "word_runs (dropWhile word_char cs) = word_runs []"
    by (rule arg_cong [where f = word_runs]) (use cs(3) in simp)
  ultimately show ?thesis using cs by simp
qed

lemma word_runs_join: "\<forall>w\<in>set ws. plain_word w \<Longrightarrow> word_runs (join '' '' ws) = ws"
proof (induction "'' ''" ws rule: join.induct)
  case (2 w)
  then show ?case using word_runs_word by simp
next
  case (3 w v ws)
  then show ?case using word_runs_blank by simp
qed simp

lemma to_lower_join: "\<forall>w\<in>set ws. plain_word w \<Longrightarrow> to_lower (join '' '' ws) = join '' '' ws"
proof (induction "'' ''" ws rule: join.induct)
  case (2 w)
  then show ?case by (simp add: to_lower_def plain_word_def map_idI lower_word_char)
next
  case (3 w v ws)
  then have "map lower_char w = w" by (auto simp: plain_word_def map_idI lower_word_char)
  with 3 show ?case by (simp add: to_lower_def lower_blank)
qed simp

lemma normalize_term_join:
  "normalize_routing_term s = join '' '' (filter (\<lambda>w. w \<notin> set stop_words) (word_runs (to_lower s)))"
  by (simp add: normalize_routing_term_def Let_def)

text \<open>Normalising a term twice changes nothing: what is left are the plain words without the stop words, with
  one blank between them.\<close>
theorem normalize_term_stable: "normalize_routing_term (normalize_routing_term s) = normalize_routing_term s"
proof -
  let ?ws = "filter (\<lambda>w. w \<notin> set stop_words) (word_runs (to_lower s))"
  have "\<forall>w\<in>set ?ws. plain_word w" using word_runs_plain by auto
  then have "word_runs (to_lower (join '' '' ?ws)) = ?ws" by (simp only: to_lower_join word_runs_join)
  then show ?thesis by (simp add: normalize_term_join)
qed

lemma plain_not_Nil [simp]: "\<not> plain_word []"
  by (simp add: plain_word_def)

lemma normalize_plain_word:
  "plain_word w \<Longrightarrow> normalize_routing_term w = (if w \<in> set stop_words then [] else w)"
  using to_lower_join [of "[w]"] word_runs_word [of w] by (simp add: normalize_term_join)

lemma normalize_plain_words:
  "\<forall>w\<in>set ws. plain_word w \<Longrightarrow> normalize_routing_terms ws = filter (\<lambda>w. w \<notin> set stop_words) ws"
proof (induction ws)
  case (Cons w ws)
  then have "w \<noteq> []" "normalize_routing_term w = (if w \<in> set stop_words then [] else w)"
    by (auto simp: normalize_plain_word)
  with Cons show ?case by (simp add: normalize_routing_terms_def)
qed (simp add: normalize_routing_terms_def)

text \<open>The words of a message: the code filters the stop words three times, once is enough.\<close>

lemma message_words_once: "message_words message = filter (\<lambda>w. w \<notin> set stop_words) (word_runs (to_lower message))"
proof -
  have "normalize_routing_terms (word_runs (to_lower message)) = filter (\<lambda>w. w \<notin> set stop_words) (word_runs (to_lower message))"
    using word_runs_plain by (intro normalize_plain_words) auto
  then show ?thesis by (simp add: message_words_def)
qed

lemma set_phrases: "set (phrases n ws) = {join '' '' (take n (drop i ws)) | i. i + n \<le> length ws}"
proof -
  have "{0..<length ws + 1 - n} = {i. i + n \<le> length ws}" by auto
  then show ?thesis by (auto simp: phrases_def image_iff simp del: upt_Suc)
qed

lemma phrases_none: "length ws < n \<Longrightarrow> set (phrases n ws) = {}"
  by (simp add: phrases_def)

text \<open>The terms of a message are its phrases of one to three words, stop words left out, each once.\<close>
theorem routing_terms_exact:
  "distinct (extract_routing_terms message)
   \<and> set (extract_routing_terms message)
     = {join '' '' (take n (drop i (message_words message))) | n i. n \<in> {1, 2, 3} \<and> i + n \<le> length (message_words message)}"
proof
  let ?ws = "message_words message"
  have upto: "set (phrases_upto [1, 2, 3] ?ws) = set (phrases 1 ?ws) \<union> set (phrases 2 ?ws) \<union> set (phrases 3 ?ws)"
    using phrases_none [of ?ws 1] phrases_none [of ?ws 2] phrases_none [of ?ws 3] by auto
  have none: "?ws = [] \<Longrightarrow> set (phrases_upto [1, 2, 3] ?ws) = {}" by (simp add: phrases_def)
  have "set (extract_routing_terms message) = set (phrases_upto [1, 2, 3] ?ws)"
    using none by (simp add: extract_routing_terms_def Let_def)
  also have "\<dots> = {join '' '' (take n (drop i ?ws)) | n i. n \<in> {1, 2, 3} \<and> i + n \<le> length ?ws}"
    unfolding upto set_phrases by blast
  finally show "set (extract_routing_terms message)
      = {join '' '' (take n (drop i ?ws)) | n i. n \<in> {1, 2, 3} \<and> i + n \<le> length ?ws}" .
qed (simp add: extract_routing_terms_def Let_def)

section \<open>The order of the collaborators\<close>

lemma scored_before_asym: "order_laws fl \<Longrightarrow> scored_before fl x y \<Longrightarrow> \<not> scored_before fl y x"
  unfolding scored_before_def order_laws_def by (metis order_less_asym)

text \<open>What comes not later than something comes not later than what follows it.\<close>

lemma scored_before_chain:
  assumes laws: "order_laws fl" and n: "fl_eq fl (ro_score x) (ro_score x)" "fl_eq fl (ro_score z) (ro_score z)"
      "fl_eq fl (ro_score y) (ro_score y)"
    and xy: "\<not> scored_before fl y x" and yz: "\<not> scored_before fl z y"
  shows "\<not> scored_before fl z x"
proof
  assume zx: "scored_before fl z x"
  note tri = order_total [OF laws] and sym = order_eq [OF laws] and tr = order_trans [OF laws] and as = order_asym [OF laws]
  let ?x = "ro_score x" and ?y = "ro_score y" and ?z = "ro_score z"
  have 1: "fl_eq fl ?y ?x \<and> ro_bot x \<le> ro_bot y \<or> fl_less fl ?y ?x"
    using xy tri [OF n(3,1)] unfolding scored_before_def by (auto split: if_splits simp: not_less)
  have 2: "fl_eq fl ?z ?y \<and> ro_bot y \<le> ro_bot z \<or> fl_less fl ?z ?y"
    using yz tri [OF n(2,3)] unfolding scored_before_def by (auto split: if_splits simp: not_less)
  have "(fl_eq fl ?z ?x \<and> ro_bot x \<le> ro_bot z) \<or> fl_less fl ?z ?x"
    using 1
  proof
    assume l: "fl_eq fl ?y ?x \<and> ro_bot x \<le> ro_bot y"
    from 2 show ?thesis
    proof
      assume "fl_eq fl ?z ?y \<and> ro_bot y \<le> ro_bot z"
      then show ?thesis using tr(2) [of ?z ?y ?x] l order.trans [of "ro_bot x" "ro_bot y" "ro_bot z"] by simp
    next
      assume "fl_less fl ?z ?y"
      then show ?thesis using tr(3) [of ?z ?y ?x] l by simp
    qed
  next
    assume l: "fl_less fl ?y ?x"
    from 2 show ?thesis
    proof
      assume "fl_eq fl ?z ?y \<and> ro_bot y \<le> ro_bot z"
      then show ?thesis using tr(4) [of ?z ?y ?x] l by simp
    next
      assume "fl_less fl ?z ?y"
      then show ?thesis using tr(1) [of ?z ?y ?x] l by simp
    qed
  qed
  then consider "fl_eq fl ?z ?x" "ro_bot x \<le> ro_bot z" | "fl_less fl ?z ?x" by blast
  then show False
  proof cases
    case 1
    then show False using zx by (simp add: scored_before_def)
  next
    case 2
    then have "\<not> fl_eq fl ?z ?x" "\<not> fl_less fl ?x ?z" using sym as by blast+
    then show False using zx by (simp add: scored_before_def)
  qed
qed

lemma scored_comparison:
  assumes "order_laws fl"
  shows "comparison (scored_before fl) (\<lambda>z. fl_eq fl (ro_score z) (ro_score z))"
  by unfold_locales (use scored_before_asym [OF assms] scored_before_chain [OF assms] in blast)+

text \<open>The collaborators of a message are the available bots other than the lead whose score reaches the
  threshold, in the order of falling scores, by name where scores are equal.\<close>
theorem collaborators_sorted:
  assumes "order_laws fl" "extract_routing_terms message \<noteq> []"
  shows "\<exists>scored. infer_collaborators fl message bots lead = map ro_bot scored
    \<and> mset scored = mset (scored_bots fl (extract_routing_terms message) bots lead)
    \<and> sorted_wrt (\<lambda>a b. \<not> scored_before fl b a) scored"
proof -
  let ?xs = "scored_bots fl (extract_routing_terms message) bots lead"
  have "\<forall>z\<in>set ?xs. fl_eq fl (ro_score z) (ro_score z)"
  proof
    fix z assume "z \<in> set ?xs"
    then have "fl_le fl (fl_decimal fl 28 100) (ro_score z)" by (simp add: scored_bots_def)
    moreover have "\<forall>x y. fl_le fl x y \<longrightarrow> fl_eq fl y y" using assms(1) unfolding order_laws_def by (rule conjunct1)
    ultimately show "fl_eq fl (ro_score z) (ro_score z)" by blast
  qed
  then have "sorted_wrt (\<lambda>a b. \<not> scored_before fl b a) (stable_sort (scored_before fl) ?xs)"
    by (rule comparison.sort_sorted [OF scored_comparison [OF assms(1)]])
  then show ?thesis using assms(2)
    by (intro exI [of _ "stable_sort (scored_before fl) ?xs"]) (simp add: infer_collaborators_def Let_def)
qed

definition sample_bots :: "bot_info list" where
  "sample_bots =
     [\<lparr> bi_slug = ''cos'', bi_expertise = [''billing''], bi_roles = [] \<rparr>,
      \<lparr> bi_slug = ''ops'', bi_expertise = [''billing'', ''handoff''], bi_roles = [] \<rparr>,
      \<lparr> bi_slug = ''fe'', bi_expertise = [''react''], bi_roles = [] \<rparr>,
      \<lparr> bi_slug = ''am'', bi_expertise = [''billing''], bi_roles = [''handoff''] \<rparr>]"

theorem collaborators_sorted_witness:
  "infer_collaborators per_mille ''Need a billing handoff'' sample_bots ''cos'' = [''am'', ''ops'']
   \<and> (\<exists>scored. infer_collaborators per_mille ''Need a billing handoff'' sample_bots ''cos'' = map ro_bot scored
        \<and> sorted_wrt (\<lambda>a b. \<not> scored_before per_mille b a) scored)"
proof -
  have a: "infer_collaborators per_mille ''Need a billing handoff'' sample_bots ''cos'' = [''am'', ''ops'']" by code_simp
  have b: "extract_routing_terms ''Need a billing handoff'' \<noteq> []" by code_simp
  from collaborators_sorted [OF per_mille_order b, of sample_bots "''cos''"] a show ?thesis by blast
qed

end
