(* ===== verification/OfficeTargets.thy ===== *)
theory OfficeTargets
  imports TeamChannels MessageRouting
begin

text \<open>
  Who can be reached in the office: \<^verbatim>\<open>internal/team/office_targets.go\<close>, the defaults of a member
  (\<^verbatim>\<open>broker_member_construction.go\<close>) and the cap on wake-ups in a conversation between two bots
  (\<^verbatim>\<open>broker_bot_dm.go\<close>).

  The record \<open>office\<close> holds the fields of the targeter with what its callbacks return; \<open>of_panes\<close> is None
  for the nil pointer.  A map of targets is the list of its entries in the order of one iteration, with
  distinct keys.  The text of a pane is kept, since an empty one means a bot without a pane.
\<close>

record office_member =
  om_slug :: string
  om_name :: string
  om_role :: string
  om_expertise :: "string list"
  om_built_in :: bool

record pack_bot =
  pb_slug :: string
  pb_name :: string
  pb_expertise :: "string list"

record pack =
  pk_lead :: string
  pk_bots :: "pack_bot list"

record office =
  of_session :: string
  of_pack :: "pack option"
  of_provider :: string
  of_panes :: "bool option"
  of_failed :: "string \<Rightarrow> bool"
  of_solo :: "string option"
  of_members :: "office_member list"
  of_kind :: "string \<Rightarrow> string"

record target =
  tg_pane :: string
  tg_slug :: string

section \<open>Members\<close>

definition member_by_slug :: "office \<Rightarrow> string \<Rightarrow> office_member" where
  "member_by_slug o1 slug =
     (case find (\<lambda>m. om_slug m = slug) (of_members o1) of
        Some m \<Rightarrow> m
      | None \<Rightarrow> \<lparr> om_slug = slug, om_name = slug, om_role = slug, om_expertise = [], om_built_in = False \<rparr>)"

text \<open>The first byte in upper case; a byte that is no code point by itself becomes the replacement character.\<close>

definition upper_first :: "string \<Rightarrow> string" where
  "upper_first w =
     (case w of [] \<Rightarrow> []
      | c # cs \<Rightarrow>
          (let n = (of_char c :: nat) in
           if 128 \<le> n then [CHR 0xEF, CHR 0xBF, CHR 0xBD] @ cs
           else (if 97 \<le> n \<and> n \<le> 122 then char_of (n - 32) else c) # cs))"

definition humanize_slug :: "string \<Rightarrow> string" where
  "humanize_slug slug =
     join '' '' (map upper_first (split_on CHR '' '' (replace_char CHR ''-'' '' '' (trim_space slug))))"

text \<open>The cases of \<^verbatim>\<open>inferOfficeExpertise\<close>, first match.\<close>

definition expertise_cases :: "(string list \<times> string list) list" where
  "expertise_cases =
     [([''app build'', ''app-build''], [''internal tools'', ''React'', ''TypeScript'', ''Vite'', ''app generation'']),
      ([''front'', ''ui'', ''design eng''], [''frontend'', ''UI'', ''interaction design'', ''components'', ''accessibility'']),
      ([''back'', ''api'', ''infra''], [''backend'', ''APIs'', ''systems'', ''infrastructure'', ''databases'']),
      ([''ai'', ''ml'', ''llm''], [''AI'', ''LLMs'', ''agents'', ''retrieval'', ''evaluations'']),
      ([''market'', ''brand'', ''growth''], [''marketing'', ''growth'', ''positioning'', ''campaigns'', ''brand'']),
      ([''revenue'', ''sales'', ''cro''], [''sales'', ''revenue'', ''pipeline'', ''partnerships'', ''closing'']),
      ([''product'', ''pm''], [''product'', ''roadmap'', ''requirements'', ''prioritization'', ''scope'']),
      ([''design''], [''design'', ''UX'', ''visual systems'', ''prototyping'', ''brand''])]"

definition infer_expertise :: "string \<Rightarrow> string \<Rightarrow> string list" where
  "infer_expertise slug role =
     (let s = to_lower (trim_space (slug @ '' '' @ role)) in
      case find (\<lambda>c. list_ex (str_contains s) (fst c)) expertise_cases of
        Some c \<Rightarrow> snd c
      | None \<Rightarrow> [to_lower (trim_space role)])"

definition apply_member_defaults :: "office_member \<Rightarrow> office_member" where
  "apply_member_defaults m =
     (let m1 = (if om_name m = [] then m\<lparr> om_name := humanize_slug (om_slug m) \<rparr> else m);
          m2 = (if om_role m1 = [] then m1\<lparr> om_role := om_name m1 \<rparr> else m1)
      in if om_expertise m2 = [] then m2\<lparr> om_expertise := infer_expertise (om_slug m2) (om_role m2) \<rparr> else m2)"

definition pack_member :: "pack \<Rightarrow> office_member list \<Rightarrow> pack_bot \<Rightarrow> office_member" where
  "pack_member pk ms c =
     (case find (\<lambda>m. om_slug m = pb_slug c) (rev ms) of
        Some m \<Rightarrow> m
      | None \<Rightarrow>
          apply_member_defaults
            \<lparr> om_slug = pb_slug c, om_name = pb_name c, om_role = pb_name c, om_expertise = pb_expertise c,
              om_built_in = (pb_slug c = pk_lead pk \<or> pb_slug c = ''cos'') \<rparr>)"

definition active_session_members :: "office \<Rightarrow> office_member list" where
  "active_session_members o1 =
     (case of_pack o1 of
        None \<Rightarrow> of_members o1
      | Some pk \<Rightarrow>
          if pk_bots pk = [] then of_members o1
          else
            (let packed = map (pack_member pk (of_members o1)) (pk_bots pk);
                 kept = packed @ filter (\<lambda>m. om_slug m \<notin> set (map pb_slug (pk_bots pk))) (of_members o1)
             in if kept \<noteq> [] then kept else of_members o1))"

text \<open>
  \<^verbatim>\<open>sort.Slice\<close> by slug; members with equal slugs keep an order the code leaves open, and the answer is
  a slug.
\<close>

definition slug_before :: "office_member \<Rightarrow> office_member \<Rightarrow> bool" where
  "slug_before a b \<longleftrightarrow> om_slug a < om_slug b"

interpretation slugs: comparison slug_before "\<lambda>_. True"
  by unfold_locales (auto simp: slug_before_def)

definition office_lead_slug_from :: "office_member list \<Rightarrow> string" where
  "office_lead_slug_from ms =
     (let sorted = stable_sort slug_before ms in
      if list_ex (\<lambda>m. om_slug m = ''cos'') sorted then ''cos''
      else (case find om_built_in sorted of
              Some m \<Rightarrow> om_slug m
            | None \<Rightarrow> (case sorted of m # _ \<Rightarrow> om_slug m | [] \<Rightarrow> [])))"

definition office_lead :: "office \<Rightarrow> string" where
  "office_lead o1 =
     (case of_pack o1 of
        Some pk \<Rightarrow> if trim_space (pk_lead pk) \<noteq> [] then pk_lead pk else office_lead_slug_from (active_session_members o1)
      | None \<Rightarrow> office_lead_slug_from (active_session_members o1))"

definition name_for :: "office \<Rightarrow> string \<Rightarrow> string" where
  "name_for o1 slug = (if om_name (member_by_slug o1 slug) \<noteq> [] then om_name (member_by_slug o1 slug) else slug)"

definition bot_order :: "office \<Rightarrow> office_member list" where
  "bot_order o1 =
     rev (filter (\<lambda>m. om_slug m = office_lead o1) (active_session_members o1))
     @ filter (\<lambda>m. om_slug m \<noteq> office_lead o1) (active_session_members o1)"

definition pane_slugs :: "office \<Rightarrow> string list" where
  "pane_slugs o1 =
     (case of_solo o1 of
        Some slug \<Rightarrow> [slug]
      | None \<Rightarrow>
          (if office_lead o1 \<noteq> [] then [office_lead o1] else [])
          @ filter (\<lambda>s. s \<noteq> office_lead o1) (map om_slug (active_session_members o1)))"

section \<open>Runtimes\<close>

definition normalize_provider_kind :: "string \<Rightarrow> string" where
  "normalize_provider_kind raw =
     (let k = to_lower (trim_space raw) in if k = ''claude'' \<or> k = [] then ''claude-code'' else k)"

text \<open>The only registered provider whose bots run in a pane.\<close>

definition pane_eligible :: "string \<Rightarrow> bool" where
  "pane_eligible kind \<longleftrightarrow> kind = ''claude-code''"

definition uses_pane_runtime :: "office \<Rightarrow> bool" where
  "uses_pane_runtime o1 = pane_eligible (normalize_provider_kind (of_provider o1))"

definition effective_kind :: "office \<Rightarrow> string \<Rightarrow> string" where
  "effective_kind o1 slug =
     (if of_kind o1 slug \<noteq> [] then normalize_provider_kind (of_kind o1 slug) else normalize_provider_kind (of_provider o1))"

definition uses_one_shot :: "office \<Rightarrow> string \<Rightarrow> bool" where
  "uses_one_shot o1 slug \<longleftrightarrow> \<not> pane_eligible (effective_kind o1 slug)"

definition should_use_headless :: "office \<Rightarrow> bool" where
  "should_use_headless o1 \<longleftrightarrow>
     (if \<not> uses_pane_runtime o1 then True else (case of_panes o1 of None \<Rightarrow> True | Some on \<Rightarrow> \<not> on))"

definition headless_for :: "office \<Rightarrow> string \<Rightarrow> bool" where
  "headless_for o1 slug \<longleftrightarrow>
     trim_space slug \<noteq> [] \<and> (should_use_headless o1 \<or> uses_one_shot o1 slug \<or> of_failed o1 (trim_space slug))"

definition headless_for_target :: "office \<Rightarrow> target \<Rightarrow> bool" where
  "headless_for_target o1 t \<longleftrightarrow> headless_for o1 (tg_slug t) \<or> trim_space (tg_pane t) = []"

definition skip_pane :: "office \<Rightarrow> string \<Rightarrow> bool" where
  "skip_pane o1 slug0 \<longleftrightarrow>
     (let slug = trim_space slug0 in slug = [] \<or> of_failed o1 slug \<or> uses_one_shot o1 slug)"

definition pane_eligible_members :: "office \<Rightarrow> office_member list" where
  "pane_eligible_members o1 = filter (\<lambda>m. \<not> uses_one_shot o1 (om_slug m)) (bot_order o1)"

definition max_visible :: nat where
  "max_visible = 5"

definition visible_members :: "office \<Rightarrow> office_member list" where
  "visible_members o1 =
     (case of_solo o1 of
        Some slug \<Rightarrow> [member_by_slug o1 slug]
      | None \<Rightarrow>
          if length (pane_eligible_members o1) \<le> max_visible then pane_eligible_members o1
          else take max_visible (pane_eligible_members o1))"

definition overflow_members :: "office \<Rightarrow> office_member list" where
  "overflow_members o1 =
     (case of_solo o1 of
        Some slug \<Rightarrow> []
      | None \<Rightarrow>
          if length (pane_eligible_members o1) \<le> max_visible then []
          else drop max_visible (pane_eligible_members o1))"

section \<open>Targets\<close>

text \<open>A later write of a Go map replaces the value of the key.\<close>

definition put_target :: "string \<Rightarrow> target \<Rightarrow> (string \<times> target) list \<Rightarrow> (string \<times> target) list" where
  "put_target k t m = filter (\<lambda>p. fst p \<noteq> k) m @ [(k, t)]"

definition overflow_window :: "string \<Rightarrow> string" where
  "overflow_window slug = ''agent-'' @ trim_space slug"

fun put_visible :: "office \<Rightarrow> nat \<Rightarrow> office_member list \<Rightarrow> (string \<times> target) list \<Rightarrow> (string \<times> target) list" where
  "put_visible o1 i [] ts = ts"
| "put_visible o1 i (m # ms) ts =
     put_visible o1 (i + 1) ms
       (if skip_pane o1 (om_slug m) then ts
        else put_target (om_slug m)
               \<lparr> tg_pane = of_session o1 @ '':team.'' @ nat_digits (i + 1), tg_slug = om_slug m \<rparr> ts)"

fun put_overflow :: "office \<Rightarrow> office_member list \<Rightarrow> (string \<times> target) list \<Rightarrow> (string \<times> target) list" where
  "put_overflow o1 [] ts = ts"
| "put_overflow o1 (m # ms) ts =
     put_overflow o1 ms
       (if skip_pane o1 (om_slug m) then ts
        else put_target (om_slug m)
               \<lparr> tg_pane = of_session o1 @ '':'' @ overflow_window (om_slug m) @ ''.0'', tg_slug = om_slug m \<rparr> ts)"

definition pane_targets :: "office \<Rightarrow> (string \<times> target) list" where
  "pane_targets o1 =
     (if of_panes o1 \<noteq> Some True then []
      else case of_solo o1 of
        Some slug \<Rightarrow>
          if slug \<noteq> [] \<and> \<not> skip_pane o1 slug
          then [(slug, \<lparr> tg_pane = of_session o1 @ '':team.1'', tg_slug = slug \<rparr>)] else []
      | None \<Rightarrow> put_overflow o1 (overflow_members o1) (put_visible o1 0 (visible_members o1) []))"

definition add_headless :: "office \<Rightarrow> string \<Rightarrow> (string \<times> target) list \<Rightarrow> (string \<times> target) list" where
  "add_headless o1 slug0 ts =
     (let slug = trim_space slug0 in
      if slug = [] then ts
      else if map_of ts slug \<noteq> None then ts
      else if headless_for o1 slug then put_target slug \<lparr> tg_pane = [], tg_slug = slug \<rparr> ts
      else ts)"

definition notification_targets :: "office \<Rightarrow> (string \<times> target) list" where
  "notification_targets o1 =
     (case of_solo o1 of
        Some slug \<Rightarrow> add_headless o1 slug (pane_targets o1)
      | None \<Rightarrow>
          fold (\<lambda>m ts. add_headless o1 (om_slug m) ts) (active_session_members o1)
            (add_headless o1 (office_lead o1) (pane_targets o1)))"

definition resolve_pane_target :: "office \<Rightarrow> string \<Rightarrow> string option" where
  "resolve_pane_target o1 slug =
     (if trim_space slug = [] then None else map_option tg_pane (map_of (pane_targets o1) slug))"

section \<open>Wake-ups between two bots\<close>

definition bot_dm_window :: int where
  "bot_dm_window = 1800 * nanos_per_second"

definition bot_dm_cap :: nat where
  "bot_dm_cap = 6"

datatype dm_refusal = DmHumanObserves | DmTwoMembers

definition guard_bot_dm_post :: "string \<Rightarrow> string \<Rightarrow> dm_refusal option" where
  "guard_bot_dm_post channel from =
     (case bot_to_bot_dm channel of
        None \<Rightarrow> None
      | Some (x, y) \<Rightarrow>
          (let sender = normalize_actor_slug from in
           if is_human_sender sender then Some DmHumanObserves
           else if sender \<noteq> normalize_actor_slug x \<and> sender \<noteq> normalize_actor_slug y then Some DmTwoMembers
           else None))"

definition bot_dm_wake_allowed ::
  "int \<Rightarrow> string \<Rightarrow> (string \<Rightarrow> int list) \<Rightarrow> bool \<times> (string \<Rightarrow> int list)" where
  "bot_dm_wake_allowed now channel wakes =
     (if bot_to_bot_dm channel = None then (True, wakes)
      else
        (let slug = normalize_channel_slug channel;
             recent = filter (\<lambda>at. now - at \<le> bot_dm_window) (wakes slug)
         in if bot_dm_cap \<le> length recent then (False, wakes(slug := recent))
            else (True, wakes(slug := recent @ [now]))))"

end
