(* ===== verification/WakeTargets.thy ===== *)
theory WakeTargets
  imports OfficeTargets
begin

text \<open>
  Which bots a message or a change of a task wakes: \<^verbatim>\<open>internal/team/notifier_targets.go\<close>, with the
  scoring of \<^verbatim>\<open>routing.go\<close>.

  The record \<open>desk\<close> is what the launcher reads: the broker, the targeter, the tasks the broker keeps for
  itself, the focus switch and the log of wake-ups between bots.  A launcher without a broker is left
  out.  The text of a notification is left out too.
\<close>

record desk =
  dk_broker :: broker
  dk_office :: office
  dk_system :: "string \<Rightarrow> bool"
  dk_focus :: bool
  dk_wakes :: "string \<Rightarrow> int list"

definition all_tasks :: "desk \<Rightarrow> task list" where
  "all_tasks d = filter (\<lambda>t. \<not> dk_system d (t_id t)) (b_tasks (dk_broker d))"

definition channel_enabled :: "broker \<Rightarrow> string \<Rightarrow> string list" where
  "channel_enabled b channel =
     (case b_one_on_one b of
        Some slug \<Rightarrow> [slug]
      | None \<Rightarrow>
          (case find_channel b (normalize_channel_slug channel) of
             Some ch \<Rightarrow> enabled_members b (normalize_channel_slug channel) (tc_members ch)
           | None \<Rightarrow> []))"

definition channel_disabled :: "broker \<Rightarrow> string \<Rightarrow> string list" where
  "channel_disabled b channel =
     (case find_channel b (normalize_channel_slug channel) of Some ch \<Rightarrow> tc_disabled ch | None \<Rightarrow> [])"

definition solo_bot :: "string \<Rightarrow> string" where
  "solo_bot slug =
     (let s = replace_char CHR ''_'' ''-'' (replace_char CHR '' '' ''-'' (to_lower (trim_space slug)))
      in if s = [] then ''cos'' else s)"

section \<open>The owner a message belongs to\<close>

definition message_routing_text :: "message \<Rightarrow> string" where
  "message_routing_text msg = trim_space (msg_title msg @ '' '' @ msg_content msg)"

definition member_role_terms :: "office_member \<Rightarrow> string list" where
  "member_role_terms m =
     (if trim_space (om_role m) \<noteq> [] then [trim_space (om_role m)] else [])
     @ (if trim_space (om_name m) \<noteq> [] then [trim_space (om_name m)] else [])"

definition member_routing_terms :: "office_member \<Rightarrow> string list" where
  "member_routing_terms m = routing_terms (om_slug m) (om_expertise m) (member_role_terms m) []"

definition score_message_for_bot :: "'f floats \<Rightarrow> desk \<Rightarrow> message \<Rightarrow> string \<Rightarrow> 'f" where
  "score_message_for_bot fl d msg slug =
     (let m = member_by_slug (dk_office d) slug in
      if trim_space (om_slug m) = [] then fl_int fl 0
      else score_message_against_terms fl (message_routing_text msg) (member_routing_terms m))"

definition message_targets_bot :: "'f floats \<Rightarrow> desk \<Rightarrow> message \<Rightarrow> string \<Rightarrow> bool" where
  "message_targets_bot fl d msg slug \<longleftrightarrow> fl_le fl (fl_decimal fl 28 100) (score_message_for_bot fl d msg slug)"

definition task_routing_terms :: "task \<Rightarrow> string list" where
  "task_routing_terms t = routing_terms (t_owner t) [] [] [t_title t, t_details t, t_channel t]"

definition score_message_for_candidate :: "'f floats \<Rightarrow> desk \<Rightarrow> message \<Rightarrow> task \<Rightarrow> 'f" where
  "score_message_for_candidate fl d msg t =
     (let score = score_message_against_terms fl (message_routing_text msg) (task_routing_terms t);
          owner_score = score_message_for_bot fl d msg (trim_space (t_owner t))
      in if fl_less fl score owner_score then owner_score else score)"

text \<open>The loop over the tasks of the channel: the owner found so far and whether there are two.\<close>

fun channel_owner :: "string \<Rightarrow> string \<Rightarrow> bool \<Rightarrow> task list \<Rightarrow> string \<times> bool" where
  "channel_owner ch found ambiguous [] = (found, ambiguous)"
| "channel_owner ch found ambiguous (t # ts) =
     (let st = norm_field (t_status t); owner = trim_space (t_owner t) in
      if st = ''done'' \<or> st = ''archived'' \<or> owner = [] then channel_owner ch found ambiguous ts
      else if trim_space (t_channel t) \<noteq> [] \<and> normalize_channel_slug (trim_space (t_channel t)) = ch
      then (if found = [] then channel_owner ch owner ambiguous ts
            else if found \<noteq> owner then channel_owner ch found True ts
            else channel_owner ch found ambiguous ts)
      else channel_owner ch found ambiguous ts)"

fun best_owner :: "'f floats \<Rightarrow> desk \<Rightarrow> message \<Rightarrow> string \<Rightarrow> 'f \<Rightarrow> task list \<Rightarrow> string" where
  "best_owner fl d msg owner best [] = owner"
| "best_owner fl d msg owner best (t # ts) =
     (if equal_fold (trim_space (t_status t)) ''done'' \<or> trim_space (t_owner t) = [] then best_owner fl d msg owner best ts
      else
        (let score = score_message_for_candidate fl d msg t in
         if fl_less fl score (fl_decimal fl 28 100) then best_owner fl d msg owner best ts
         else if owner = [] \<or> fl_less fl best score then best_owner fl d msg (trim_space (t_owner t)) score ts
         else best_owner fl d msg owner best ts))"

definition task_owner_for_message :: "'f floats \<Rightarrow> desk \<Rightarrow> message \<Rightarrow> string" where
  "task_owner_for_message fl d msg =
     (let raw = trim_space (msg_channel msg);
          (matched, ambiguous) =
            (if raw \<noteq> [] then channel_owner (normalize_channel_slug raw) [] False (all_tasks d) else ([], False))
      in if matched \<noteq> [] \<and> \<not> ambiguous then matched
         else best_owner fl d msg [] (fl_int fl 0) (all_tasks d))"

section \<open>Messages\<close>

definition is_channel_dm :: "broker \<Rightarrow> string \<Rightarrow> bool \<times> string" where
  "is_channel_dm b slug =
     (if is_dm_slug slug then (True, dm_target_bot slug)
      else case b_store b of
        None \<Rightarrow> (False, [])
      | Some st \<Rightarrow>
          if is_direct_by_slug slug st
          then (case get_slug st slug of
                  None \<Rightarrow> (False, [])
                | Some ch \<Rightarrow>
                    (case find (\<lambda>m. \<not> is_human_sender (cm_slug m)) (members_of (c_id ch) st) of
                       Some m \<Rightarrow> (True, cm_slug m)
                     | None \<Rightarrow> (False, [])))
          else (False, []))"

text \<open>The targets left and the ones chosen: a bot is taken out of the map when it is chosen.\<close>

type_synonym choice = "(string \<times> target) list \<times> target list"

definition pick :: "(string \<Rightarrow> bool) \<Rightarrow> string \<Rightarrow> choice \<Rightarrow> choice" where
  "pick ok slug c =
     (if \<not> ok slug then c
      else case map_of (fst c) slug of
        Some t \<Rightarrow> (filter (\<lambda>p. fst p \<noteq> slug) (fst c), snd c @ [t])
      | None \<Rightarrow> c)"

definition pick_all :: "(string \<Rightarrow> bool) \<Rightarrow> string list \<Rightarrow> choice \<Rightarrow> choice" where
  "pick_all ok slugs c = fold (pick ok) slugs c"

definition may_wake :: "desk \<Rightarrow> message \<Rightarrow> string \<Rightarrow> bool" where
  "may_wake d msg slug \<longleftrightarrow>
     slug \<noteq> [] \<and> slug \<noteq> msg_from msg \<and> slug \<notin> set (channel_disabled (dk_broker d) (msg_channel msg))
     \<and> (slug \<in> set (msg_tagged msg) \<or> channel_enabled (dk_broker d) (msg_channel msg) = []
        \<or> slug \<in> set (channel_enabled (dk_broker d) (msg_channel msg)))"

definition allow_target :: "'f floats \<Rightarrow> desk \<Rightarrow> message \<Rightarrow> string \<Rightarrow> bool" where
  "allow_target fl d msg slug \<longleftrightarrow>
     (if \<not> may_wake d msg slug then False
      else if slug = office_lead (dk_office d) then True
      else if slug \<in> set (msg_tagged msg) then True
      else
        (let owner = task_owner_for_message fl d msg in
         if owner \<noteq> [] then slug = owner
         else if trim_space (msg_content msg) = [] \<and> trim_space (msg_title msg) = [] then False
         else message_targets_bot fl d msg slug))"

definition from_the_outside :: "message \<Rightarrow> bool" where
  "from_the_outside msg \<longleftrightarrow> is_human_sender (msg_from msg) \<or> msg_kind msg = ''automation'' \<or> msg_from msg = ''nex''"

text \<open>A specialist the human tags in focus mode is woken without the membership check.\<close>

definition tagged_specialist :: "desk \<Rightarrow> message \<Rightarrow> string \<Rightarrow> bool" where
  "tagged_specialist d msg slug \<longleftrightarrow>
     slug \<noteq> [] \<and> slug \<noteq> msg_from msg \<and> slug \<noteq> office_lead (dk_office d)
     \<and> slug \<notin> set (channel_disabled (dk_broker d) (msg_channel msg))"

definition focus_targets :: "'f floats \<Rightarrow> desk \<Rightarrow> message \<Rightarrow> choice \<Rightarrow> choice" where
  "focus_targets fl d msg c =
     (let lead = office_lead (dk_office d) in
      if from_the_outside msg then
        (let c1 = pick_all (tagged_specialist d msg) (msg_tagged msg) c;
             specialists = (snd c1 \<noteq> snd c)
         in if \<not> specialists \<or> lead \<in> set (msg_tagged msg) then pick (may_wake d msg) lead c1 else c1)
      else if msg_from msg = lead
      then pick_all (\<lambda>s. s \<noteq> lead \<and> allow_target fl d msg s) (msg_tagged msg) c
      else pick_all (\<lambda>s. s \<noteq> msg_from msg \<and> allow_target fl d msg s) (msg_tagged msg) c)"

definition collab_targets :: "'f floats \<Rightarrow> desk \<Rightarrow> message \<Rightarrow> choice \<Rightarrow> choice" where
  "collab_targets fl d msg c =
     (let lead = office_lead (dk_office d);
          owner = task_owner_for_message fl d msg;
          wake_owner = (\<lambda>c. if owner \<noteq> [] \<and> owner \<noteq> lead \<and> allow_target fl d msg owner
                            then pick (may_wake d msg) owner c else c);
          wake_tagged = pick_all (allow_target fl d msg) (msg_tagged msg)
      in if from_the_outside msg then
           (let c1 = pick (may_wake d msg) lead c in
            if ''all'' \<in> set (msg_tagged msg) then pick_all (may_wake d msg) (map fst (fst c1)) c1
            else wake_tagged (wake_owner c1))
         else if msg_from msg = lead then wake_tagged c
         else if lead \<in> set (msg_tagged msg)
         then wake_tagged (wake_owner (pick (may_wake d msg) lead c))
         else wake_tagged (wake_owner c))"

text \<open>The targets of a message, all of them immediate, and the log of wake-ups between bots.\<close>

definition message_targets ::
  "'f floats \<Rightarrow> int \<Rightarrow> desk \<Rightarrow> message \<Rightarrow> target list \<times> (string \<Rightarrow> int list)" where
  "message_targets fl now d msg =
     (let b = dk_broker d; targets = notification_targets (dk_office d); ch = normalize_channel_slug (msg_channel msg);
          one = (\<lambda>slug. case map_of targets slug of Some t \<Rightarrow> [t] | None \<Rightarrow> []) in
      if targets = [] then ([], dk_wakes d)
      else if is_dm_slug ch then
        (let other = dm_other_participant ch (msg_from msg);
             recipient = (if other = [] then dm_target_bot ch else other)
         in if recipient = [] \<or> is_human_sender recipient \<or> recipient = msg_from msg then ([], dk_wakes d)
            else
              (let (allowed, wakes) = bot_dm_wake_allowed now ch (dk_wakes d)
               in (if allowed then one recipient else [], wakes)))
      else if fst (is_channel_dm b ch) then
        (let slug = snd (is_channel_dm b ch) in
         if \<not> is_human_sender (msg_from msg) \<and> slug = msg_from msg then ([], dk_wakes d)
         else (one slug, dk_wakes d))
      else
        (case b_one_on_one b of
           Some slug0 \<Rightarrow>
             (let slug = solo_bot slug0 in
              if slug = [] \<or> slug = msg_from msg then ([], dk_wakes d) else (one slug, dk_wakes d))
         | None \<Rightarrow>
             (snd (if dk_focus d then focus_targets fl d msg (targets, []) else collab_targets fl d msg (targets, [])),
              dk_wakes d)))"

section \<open>Changes of tasks\<close>

definition task_follow_up_kind :: string where
  "task_follow_up_kind = ''task_followup''"

definition should_wake_lead :: "action_log \<Rightarrow> task \<Rightarrow> bool" where
  "should_wake_lead a t \<longleftrightarrow>
     (if equal_fold (trim_space (trim_space (t_owner t))) ''app-builder'' then False
      else if normalize_actor_slug (t_owner t) \<noteq> [] \<and> normalize_actor_slug (t_owner t) = normalize_actor_slug (t_created_by t)
              \<and> \<not> is_human_sender (normalize_actor_slug (t_owner t)) then False
      else if trim_space (a_kind a) \<noteq> ''task_updated'' then True
      else if trim_space (a_actor a) = [] \<or> trim_space (t_owner t) = [] \<or> trim_space (a_actor a) \<noteq> trim_space (t_owner t)
      then True
      else if t_blocked t then True
      else norm_field (t_status t) \<in> {''review'', ''done'', ''blocked''}
           \<or> norm_field (t_review_state t) \<in> {''ready_for_review'', ''approved''})"

definition may_notify :: "desk \<Rightarrow> action_log \<Rightarrow> task \<Rightarrow> string \<Rightarrow> bool" where
  "may_notify d a t slug \<longleftrightarrow>
     slug \<noteq> [] \<and> slug \<notin> set (channel_disabled (dk_broker d) (t_channel t))
     \<and> (slug = trim_space (t_owner t) \<or> slug = trim_space (a_actor a)
        \<or> channel_enabled (dk_broker d) (t_channel t) = [] \<or> slug \<in> set (channel_enabled (dk_broker d) (t_channel t)))"

text \<open>The immediate and the delayed targets, and the map they are taken out of.\<close>

definition tell_now :: "(string \<Rightarrow> bool) \<Rightarrow> string \<Rightarrow> (string \<times> target) list \<times> target list \<times> target list
    \<Rightarrow> (string \<times> target) list \<times> target list \<times> target list" where
  "tell_now ok slug s =
     (case s of (m, now, later) \<Rightarrow> (let (m', now') = pick ok slug (m, now) in (m', now', later)))"

definition tell_later :: "(string \<Rightarrow> bool) \<Rightarrow> string \<Rightarrow> (string \<times> target) list \<times> target list \<times> target list
    \<Rightarrow> (string \<times> target) list \<times> target list \<times> target list" where
  "tell_later ok slug s =
     (case s of (m, now, later) \<Rightarrow> (let (m', later') = pick ok slug (m, later) in (m', now, later')))"

definition task_targets :: "desk \<Rightarrow> action_log \<Rightarrow> task \<Rightarrow> target list \<times> target list" where
  "task_targets d a t =
     (let targets = notification_targets (dk_office d); lead = office_lead (dk_office d);
          actor = trim_space (a_actor a); owner = trim_space (t_owner t);
          now1 = tell_now (may_notify d a t); later = tell_later (may_notify d a t);
          start = (targets, [], [])
      in if targets = [] then ([], [])
         else snd
           (if a_kind a = task_follow_up_kind
            then (if owner \<noteq> [] \<and> owner \<noteq> actor then now1 owner start
                  else if lead \<noteq> [] \<and> lead \<noteq> actor then now1 lead start else start)
            else if owner = [] \<or> owner = lead
            then (if lead \<noteq> [] \<and> lead \<noteq> actor then now1 lead start else start)
            else
              (let s1 = (if a_kind a \<in> {''task_created'', ''watchdog_alert'', ''task_unblocked''} \<and> owner \<noteq> actor \<and> \<not> t_blocked t
                         then now1 owner start
                         else if owner \<noteq> actor \<and> a_kind a \<noteq> ''task_created'' then later owner start
                         else start)
               in if lead \<noteq> [] \<and> lead \<noteq> owner \<and> lead \<noteq> actor \<and> \<not> (a_kind a = ''task_created'' \<and> actor = lead)
                     \<and> should_wake_lead a t
                  then now1 lead s1 else s1)))"

definition task_for_action :: "desk \<Rightarrow> action_log \<Rightarrow> task option" where
  "task_for_action d a =
     (if trim_space (a_related_id a) = [] then None
      else find (\<lambda>t. t_id t = trim_space (a_related_id a)) (all_tasks d))"

definition deliver_delayed :: "desk \<Rightarrow> string \<Rightarrow> action_log \<Rightarrow> task \<Rightarrow> bool" where
  "deliver_delayed d slug a t \<longleftrightarrow>
     (if equal_fold (trim_space (t_status t)) ''done'' then False
      else case task_for_action d a of
        None \<Rightarrow> False
      | Some cur \<Rightarrow>
          if equal_fold (trim_space (t_status cur)) ''done'' then False
          else if trim_space (t_owner cur) \<noteq> [] \<and> trim_space (t_owner cur) \<noteq> slug \<and> slug \<noteq> office_lead (dk_office d) then False
          else if trim_space (t_owner cur) = [] \<and> slug \<noteq> office_lead (dk_office d) then False
          else True)"

definition should_backfill :: "string \<Rightarrow> string \<Rightarrow> task \<Rightarrow> bool" where
  "should_backfill kind slug t \<longleftrightarrow>
     (if norm_field (t_status t) \<in> {''done'', ''canceled'', ''cancelled'', ''review''} then False
      else if t_blocked t then False
      else if kind = ''member_created'' then normalize_actor_slug (t_owner t) = normalize_actor_slug slug
      else if kind = ''channel_created'' \<or> kind = ''channel_updated''
      then normalize_channel_slug (t_channel t) = normalize_channel_slug slug
      else False)"

fun backfill_loop :: "env \<Rightarrow> desk \<Rightarrow> (string \<times> target) list \<Rightarrow> string \<Rightarrow> string \<Rightarrow> string list \<Rightarrow> task list
    \<Rightarrow> (target \<times> action_log \<times> task) list" where
  "backfill_loop e d targets kind slug seen [] = []"
| "backfill_loop e d targets kind slug seen (t # ts) =
     (let owner = trim_space (t_owner t); key = owner @ '':'' @ t_id t in
      if owner = [] \<or> \<not> should_backfill kind slug t \<or> owner \<notin> set (channel_enabled (dk_broker d) (t_channel t))
      then backfill_loop e d targets kind slug seen ts
      else case map_of targets owner of
        None \<Rightarrow> backfill_loop e d targets kind slug seen ts
      | Some tg \<Rightarrow>
          if key \<in> set seen then backfill_loop e d targets kind slug seen ts
          else (tg, \<lparr> a_id = [], a_kind = ''task_updated'', a_source = ''office'',
                      a_channel = normalize_channel_slug (t_channel t), a_actor = ''system'', a_summary = [],
                      a_related_id = t_id t, a_created_at = now_stamp e \<rparr>, t)
                 # backfill_loop e d targets kind slug (key # seen) ts)"

definition office_change_notifications :: "env \<Rightarrow> desk \<Rightarrow> string \<Rightarrow> string \<Rightarrow> (target \<times> action_log \<times> task) list" where
  "office_change_notifications e d kind0 slug0 =
     (let kind = trim_space kind0; slug = trim_space slug0; targets = pane_targets (dk_office d) in
      if kind \<notin> {''member_created'', ''channel_created'', ''channel_updated''} then []
      else if slug = [] \<or> targets = [] then []
      else backfill_loop e d targets kind slug [] (all_tasks d))"

end
