(* ===== verification/WakeProps.thy ===== *)
theory WakeProps
  imports WakeTargets Samples
begin

text \<open>
  Who is woken: every active member can be reached, nobody is woken twice or by his own message, a muted
  bot sleeps, and a message reaches nobody but the lead, the owner and the bots it names.
\<close>

section \<open>Reaching the members\<close>

definition targets_ok :: "(string \<times> target) list \<Rightarrow> bool" where
  "targets_ok ts \<longleftrightarrow> distinct (map fst ts) \<and> (\<forall>p\<in>set ts. tg_slug (snd p) = fst p)"

lemma put_target_ok: "targets_ok ts \<Longrightarrow> tg_slug t = k \<Longrightarrow> targets_ok (put_target k t ts)"
  by (auto simp: targets_ok_def put_target_def distinct_map_filter)

lemma put_target_keys: "fst ` set (put_target k t ts) = insert k (fst ` set ts)"
  by (force simp: put_target_def)

lemma put_visible_ok: "targets_ok ts \<Longrightarrow> targets_ok (put_visible o1 i ms ts)"
  by (induction o1 i ms ts rule: put_visible.induct) (simp_all add: put_target_ok)

lemma put_overflow_ok: "targets_ok ts \<Longrightarrow> targets_ok (put_overflow o1 ms ts)"
  by (induction o1 ms ts rule: put_overflow.induct) (simp_all add: put_target_ok)

lemma put_visible_keys:
  "fst ` set (put_visible o1 i ms ts) = fst ` set ts \<union> om_slug ` {m \<in> set ms. \<not> skip_pane o1 (om_slug m)}"
  by (induction o1 i ms ts rule: put_visible.induct) (auto simp: put_target_keys)

lemma put_overflow_keys:
  "fst ` set (put_overflow o1 ms ts) = fst ` set ts \<union> om_slug ` {m \<in> set ms. \<not> skip_pane o1 (om_slug m)}"
  by (induction o1 ms ts rule: put_overflow.induct) (auto simp: put_target_keys)

lemma pane_targets_ok: "targets_ok (pane_targets o1)"
proof -
  have e: "targets_ok []" by (simp add: targets_ok_def)
  show ?thesis
  proof (cases "of_solo o1")
    case None
    then show ?thesis using put_overflow_ok [OF put_visible_ok [OF e]] e by (simp add: pane_targets_def)
  next
    case (Some slug)
    then show ?thesis using e by (simp add: pane_targets_def) (simp add: targets_ok_def)
  qed
qed

lemma add_headless_ok: "targets_ok ts \<Longrightarrow> targets_ok (add_headless o1 slug ts)"
  by (simp add: add_headless_def Let_def put_target_ok)

lemma add_headless_keys: "fst ` set ts \<subseteq> fst ` set (add_headless o1 slug ts)"
  by (auto simp: add_headless_def Let_def put_target_keys)

lemma fold_headless:
  "targets_ok ts \<Longrightarrow> targets_ok (fold (\<lambda>m ts. add_headless o1 (om_slug m) ts) ms ts)
   \<and> fst ` set ts \<subseteq> fst ` set (fold (\<lambda>m ts. add_headless o1 (om_slug m) ts) ms ts)"
proof (induction ms arbitrary: ts)
  case (Cons m ms)
  from Cons.IH [OF add_headless_ok [OF Cons.prems]] add_headless_keys [of ts o1 "om_slug m"]
  show ?case by (simp add: subset_trans)
qed simp

lemma notification_targets_ok: "targets_ok (notification_targets o1)"
  by (auto simp: notification_targets_def pane_targets_ok add_headless_ok fold_headless split: option.splits)

lemma add_headless_adds:
  "headless_for o1 slug \<Longrightarrow> trim_space slug = slug \<Longrightarrow> slug \<in> fst ` set (add_headless o1 slug ts)"
proof -
  assume h: "headless_for o1 slug" "trim_space slug = slug"
  then have "slug \<noteq> []" by (auto simp: headless_for_def)
  then show ?thesis using h map_of_eq_None_iff [of ts slug]
    by (auto simp: add_headless_def put_target_keys)
qed

lemma fold_headless_adds:
  "targets_ok ts \<Longrightarrow> m \<in> set ms \<Longrightarrow> headless_for o1 (om_slug m) \<Longrightarrow> trim_space (om_slug m) = om_slug m \<Longrightarrow>
   om_slug m \<in> fst ` set (fold (\<lambda>m ts. add_headless o1 (om_slug m) ts) ms ts)"
proof (induction ms arbitrary: ts)
  case (Cons x ms)
  show ?case
  proof (cases "m = x")
    case True
    have "om_slug m \<in> fst ` set (add_headless o1 (om_slug m) ts)" using Cons.prems by (intro add_headless_adds) simp_all
    then show ?thesis using fold_headless [OF add_headless_ok [OF Cons.prems(1), of o1 "om_slug m"], of o1 ms] True by auto
  next
    case False
    then show ?thesis using Cons add_headless_ok by simp
  qed
qed simp

text \<open>C31. In the office every active member whose slug has no blanks around it can be notified: in its pane, or
  by a headless turn when it has none.\<close>
theorem every_member_reachable:
  assumes "of_solo o1 = None" "m \<in> set (active_session_members o1)" "om_slug m \<noteq> []" "trim_space (om_slug m) = om_slug m"
  shows "om_slug m \<in> fst ` set (notification_targets o1)"
proof -
  let ?base = "add_headless o1 (office_lead o1) (pane_targets o1)"
  have ok: "targets_ok ?base" by (simp add: pane_targets_ok add_headless_ok)
  have n: "notification_targets o1 = fold (\<lambda>m ts. add_headless o1 (om_slug m) ts) (active_session_members o1) ?base"
    using assms(1) by (simp add: notification_targets_def)
  show ?thesis
  proof (cases "headless_for o1 (om_slug m)")
    case True
    then show ?thesis unfolding n by (rule fold_headless_adds [OF ok assms(2) _ assms(4)])
  next
    case False
    then have panes: "of_panes o1 = Some True" "\<not> uses_one_shot o1 (om_slug m)" "\<not> skip_pane o1 (om_slug m)"
      using assms(3,4) by (auto simp: headless_for_def should_use_headless_def skip_pane_def split: option.splits if_splits)
    have "m \<in> set (pane_eligible_members o1)"
      using panes(2) assms(2) by (auto simp: pane_eligible_members_def bot_order_def)
    then have "m \<in> set (visible_members o1) \<union> set (overflow_members o1)"
      using assms(1) by (auto simp: visible_members_def overflow_members_def set_append [symmetric] simp del: set_append)
    then have "om_slug m \<in> fst ` set (pane_targets o1)"
      using panes assms(1) by (auto simp: pane_targets_def put_overflow_keys put_visible_keys)
    then show ?thesis unfolding n using add_headless_keys [of "pane_targets o1" o1 "office_lead o1"] fold_headless [OF ok, of o1 "active_session_members o1"]
      by blast
  qed
qed

section \<open>Wake-ups between two bots\<close>

text \<open>The times at which a series of messages was allowed to wake the partner.\<close>

fun allowed_wakes :: "string \<Rightarrow> int list \<Rightarrow> (string \<Rightarrow> int list) \<Rightarrow> int list" where
  "allowed_wakes ch [] wakes = []"
| "allowed_wakes ch (t # ts) wakes =
     (let (ok, wakes') = bot_dm_wake_allowed t ch wakes
      in (if ok then [t] else []) @ allowed_wakes ch ts wakes')"

definition in_window :: "int \<Rightarrow> int list \<Rightarrow> int list" where
  "in_window t ts = filter (\<lambda>a. t - bot_dm_window \<le> a \<and> a \<le> t) ts"

text \<open>Before a list of allowed times \<open>past\<close>, the log holds those of them that can still matter.\<close>

definition log_of :: "string \<Rightarrow> int list \<Rightarrow> int \<Rightarrow> (string \<Rightarrow> int list) \<Rightarrow> bool" where
  "log_of ch past t wakes \<longleftrightarrow>
     sorted past \<and> (\<forall>a\<in>set past. a \<le> t)
     \<and> (\<forall>u\<ge>t. filter (\<lambda>a. u - a \<le> bot_dm_window) (wakes (normalize_channel_slug ch))
              = filter (\<lambda>a. u - a \<le> bot_dm_window) past)
     \<and> (\<forall>u. length (in_window u past) \<le> bot_dm_cap)"

lemma window_positive: "0 < bot_dm_window"
  by (simp add: bot_dm_window_def nanos_per_second_def)

lemma wake_step:
  assumes log: "log_of ch past t wakes" and t': "t \<le> t'" and dm: "bot_to_bot_dm ch \<noteq> None"
  shows "log_of ch (past @ (if fst (bot_dm_wake_allowed t' ch wakes) then [t'] else [])) t' (snd (bot_dm_wake_allowed t' ch wakes))"
proof -
  let ?s = "normalize_channel_slug ch"
  let ?recent = "filter (\<lambda>a. t' - a \<le> bot_dm_window) (wakes ?s)"
  have r: "?recent = filter (\<lambda>a. t' - a \<le> bot_dm_window) past" using log t' by (simp add: log_of_def)
  have keep: "filter (\<lambda>a. u - a \<le> bot_dm_window) ?recent = filter (\<lambda>a. u - a \<le> bot_dm_window) past" if "t' \<le> u" for u
    unfolding r filter_filter by (rule filter_cong [OF refl]) (use that in auto)
  have le: "\<forall>a\<in>set past. a \<le> t'" using log t' by (auto simp: log_of_def)
  show ?thesis
  proof (cases "bot_dm_cap \<le> length ?recent")
    case True
    with log dm keep le show ?thesis by (auto simp: bot_dm_wake_allowed_def Let_def log_of_def)
  next
    case False
    have cap: "length (in_window u (past @ [t'])) \<le> bot_dm_cap" for u
    proof (cases "u - bot_dm_window \<le> t' \<and> t' \<le> u")
      case True
      have "in_window u past = filter (\<lambda>a. u - bot_dm_window \<le> a) past"
        unfolding in_window_def by (rule filter_cong [OF refl]) (use le True in auto)
      also have "length \<dots> \<le> length (filter (\<lambda>a. t' - a \<le> bot_dm_window) past)"
      proof -
        have "filter (\<lambda>a. u - bot_dm_window \<le> a) past
            = filter (\<lambda>a. u - bot_dm_window \<le> a) (filter (\<lambda>a. t' - a \<le> bot_dm_window) past)"
          unfolding filter_filter by (rule filter_cong [OF refl]) (use True in auto)
        then show ?thesis by (metis length_filter_le)
      qed
      finally have "length (in_window u past) < bot_dm_cap" using False r by simp
      then show ?thesis by (simp add: in_window_def)
    next
      case False
      then have "in_window u (past @ [t']) = in_window u past" by (auto simp: in_window_def)
      then show ?thesis using log by (simp add: log_of_def)
    qed
    have "sorted (past @ [t'])" using log le by (auto simp: log_of_def sorted_append)
    moreover have "filter (\<lambda>a. u - a \<le> bot_dm_window) (?recent @ [t']) = filter (\<lambda>a. u - a \<le> bot_dm_window) (past @ [t'])"
      if "t' \<le> u" for u using keep [OF that] by simp
    ultimately show ?thesis using False dm cap le by (auto simp: bot_dm_wake_allowed_def Let_def log_of_def)
  qed
qed

lemma allowed_wakes_capped:
  "log_of ch past t wakes \<Longrightarrow> sorted (t # ts) \<Longrightarrow> bot_to_bot_dm ch \<noteq> None \<Longrightarrow>
   length (in_window u (past @ allowed_wakes ch ts wakes)) \<le> bot_dm_cap"
proof (induction ts arbitrary: past t wakes)
  case Nil
  then show ?case by (simp add: log_of_def)
next
  case (Cons t' ts)
  obtain ok w where ow: "bot_dm_wake_allowed t' ch wakes = (ok, w)" by fastforce
  have "log_of ch (past @ (if ok then [t'] else [])) t' w"
    using wake_step [OF Cons.prems(1) _ Cons.prems(3), of t'] Cons.prems(2) ow by simp
  from Cons.IH [OF this _ Cons.prems(3)] Cons.prems(2) ow show ?case by simp
qed

text \<open>C14. In a conversation between two bots at most six messages wake the partner in any half hour.\<close>
theorem bot_dm_wakes_capped:
  assumes "bot_to_bot_dm ch \<noteq> None" "sorted ats"
  shows "length (in_window u (allowed_wakes ch ats (\<lambda>_. []))) \<le> bot_dm_cap"
proof (cases ats)
  case (Cons t ts)
  have "log_of ch [] t (\<lambda>_. [])" by (simp add: log_of_def in_window_def)
  from allowed_wakes_capped [OF this, of ats u] assms Cons show ?thesis by simp
qed (simp add: in_window_def)

section \<open>Choosing targets\<close>

definition choice_ok :: "choice \<Rightarrow> bool" where
  "choice_ok c \<longleftrightarrow> targets_ok (fst c) \<and> distinct (map tg_slug (snd c)) \<and> fst ` set (fst c) \<inter> tg_slug ` set (snd c) = {}"

lemma pick_ok: "choice_ok c \<Longrightarrow> choice_ok (pick ok slug c)"
proof (cases "ok slug \<and> map_of (fst c) slug \<noteq> None")
  case True
  assume c: "choice_ok c"
  from True obtain t where t: "map_of (fst c) slug = Some t" by auto
  then have m: "(slug, t) \<in> set (fst c)" by (rule map_of_SomeD)
  then have s: "tg_slug t = slug" using c by (auto simp: choice_ok_def targets_ok_def)
  have "slug \<notin> tg_slug ` set (snd c)" using c m by (force simp: choice_ok_def)
  then show ?thesis using True t s c
    by (auto simp: pick_def choice_ok_def targets_ok_def distinct_map_filter)
qed (auto simp: pick_def)

lemma pick_new:
  "choice_ok c \<Longrightarrow> x \<in> tg_slug ` set (snd (pick ok slug c)) \<Longrightarrow> x \<in> tg_slug ` set (snd c) \<or> x = slug \<and> ok slug"
proof -
  assume c: "choice_ok c" and x: "x \<in> tg_slug ` set (snd (pick ok slug c))"
  have "tg_slug t = slug" if "map_of (fst c) slug = Some t" for t
    using map_of_SomeD [OF that] c by (auto simp: choice_ok_def targets_ok_def)
  then show ?thesis using x by (auto simp: pick_def split: if_splits option.splits)
qed

lemma pick_keeps: "set (snd c) \<subseteq> set (snd (pick ok slug c))"
  by (auto simp: pick_def split: option.splits)

lemma pick_all_ok: "choice_ok c \<Longrightarrow> choice_ok (pick_all ok slugs c)"
  unfolding pick_all_def by (induction slugs arbitrary: c) (simp_all add: pick_ok)

lemma pick_all_new:
  "choice_ok c \<Longrightarrow> x \<in> tg_slug ` set (snd (pick_all ok slugs c)) \<Longrightarrow>
   x \<in> tg_slug ` set (snd c) \<or> x \<in> set slugs \<and> ok x"
proof (induction slugs arbitrary: c)
  case (Cons s slugs)
  have "x \<in> tg_slug ` set (snd (pick_all ok slugs (pick ok s c)))" using Cons.prems(2) by (simp add: pick_all_def)
  from Cons.IH [OF pick_ok [OF Cons.prems(1)] this] pick_new [OF Cons.prems(1), of x ok s]
  show ?case by auto
qed (simp add: pick_all_def)

lemma pick_all_keeps: "set (snd c) \<subseteq> set (snd (pick_all ok slugs c))"
proof (induction slugs arbitrary: c)
  case (Cons s slugs)
  have "set (snd c) \<subseteq> set (snd (pick ok s c))" by (rule pick_keeps)
  also have "\<dots> \<subseteq> set (snd (pick_all ok slugs (pick ok s c)))" by (rule Cons.IH)
  finally show ?case by (simp add: pick_all_def)
qed (simp add: pick_all_def)


section \<open>Messages\<close>

definition ordinary :: "desk \<Rightarrow> message \<Rightarrow> bool" where
  "ordinary d msg \<longleftrightarrow>
     (let ch = normalize_channel_slug (msg_channel msg) in
      \<not> is_dm_slug ch \<and> \<not> fst (is_channel_dm (dk_broker d) ch) \<and> b_one_on_one (dk_broker d) = None)"

text \<open>Whom a message in a channel of the office may wake.\<close>

definition called :: "'f floats \<Rightarrow> desk \<Rightarrow> message \<Rightarrow> string \<Rightarrow> bool" where
  "called fl d msg slug \<longleftrightarrow>
     slug \<noteq> [] \<and> slug \<noteq> msg_from msg \<and> slug \<notin> set (channel_disabled (dk_broker d) (msg_channel msg))
     \<and> (slug = office_lead (dk_office d) \<or> slug = task_owner_for_message fl d msg \<or> slug \<in> set (msg_tagged msg)
        \<or> from_the_outside msg \<and> ''all'' \<in> set (msg_tagged msg))"

lemma may_wake_awake:
  "may_wake d msg slug \<Longrightarrow> slug \<noteq> [] \<and> slug \<noteq> msg_from msg \<and> slug \<notin> set (channel_disabled (dk_broker d) (msg_channel msg))"
  by (simp add: may_wake_def)

lemma allow_target_may: "allow_target fl d msg slug \<Longrightarrow> may_wake d msg slug"
  by (simp add: allow_target_def split: if_splits)

lemma called_if:
  "may_wake d msg slug \<Longrightarrow>
   slug = office_lead (dk_office d) \<or> slug = task_owner_for_message fl d msg \<or> slug \<in> set (msg_tagged msg)
     \<or> from_the_outside msg \<and> ''all'' \<in> set (msg_tagged msg) \<Longrightarrow> called fl d msg slug"
  by (auto simp: called_def may_wake_def)

lemma focus_called:
  assumes c: "choice_ok c" and x: "x \<in> tg_slug ` set (snd (focus_targets fl d msg c))"
  shows "x \<in> tg_slug ` set (snd c) \<or> called fl d msg x"
proof -
  let ?lead = "office_lead (dk_office d)"
  consider "from_the_outside msg" | "\<not> from_the_outside msg" by blast
  then show ?thesis
  proof cases
    case 1
    let ?c1 = "pick_all (tagged_specialist d msg) (msg_tagged msg) c"
    have "x \<in> tg_slug ` set (snd ?c1) \<or> x = ?lead \<and> may_wake d msg ?lead"
      using x 1 pick_new [OF pick_all_ok [OF c], of x "may_wake d msg" ?lead "tagged_specialist d msg" "msg_tagged msg"]
      by (auto simp: focus_targets_def Let_def split: if_splits)
    then show ?thesis
    proof
      assume "x \<in> tg_slug ` set (snd ?c1)"
      then have "x \<in> tg_slug ` set (snd c) \<or> x \<in> set (msg_tagged msg) \<and> tagged_specialist d msg x" by (rule pick_all_new [OF c])
      then show ?thesis by (auto simp: called_def tagged_specialist_def)
    next
      assume "x = ?lead \<and> may_wake d msg ?lead"
      then show ?thesis using called_if [of d msg x fl] by blast
    qed
  next
    case 2
    let ?ok = "if msg_from msg = ?lead then (\<lambda>s. s \<noteq> ?lead \<and> allow_target fl d msg s)
               else (\<lambda>s. s \<noteq> msg_from msg \<and> allow_target fl d msg s)"
    have "x \<in> tg_slug ` set (snd (pick_all ?ok (msg_tagged msg) c))" using x 2 by (simp add: focus_targets_def Let_def split: if_splits)
    then have "x \<in> tg_slug ` set (snd c) \<or> x \<in> set (msg_tagged msg) \<and> ?ok x" by (rule pick_all_new [OF c])
    then show ?thesis using allow_target_may [of fl d msg x] called_if [of d msg x fl] by (auto split: if_splits)
  qed
qed

lemma focus_ok: "choice_ok c \<Longrightarrow> choice_ok (focus_targets fl d msg c)"
  by (simp add: focus_targets_def Let_def pick_all_ok pick_ok)

text \<open>The steps the collaborative mode is made of: each wakes only who is called.\<close>

definition calls_only :: "'f floats \<Rightarrow> desk \<Rightarrow> message \<Rightarrow> (choice \<Rightarrow> choice) \<Rightarrow> bool" where
  "calls_only fl d msg f \<longleftrightarrow>
     (\<forall>c. choice_ok c \<longrightarrow> choice_ok (f c) \<and> set (snd c) \<subseteq> set (snd (f c))
        \<and> tg_slug ` set (snd (f c)) \<subseteq> tg_slug ` set (snd c) \<union> {s. called fl d msg s})"

lemma calls_onlyI:
  assumes "\<And>c. choice_ok c \<Longrightarrow> choice_ok (f c)" "\<And>c. choice_ok c \<Longrightarrow> set (snd c) \<subseteq> set (snd (f c))"
    and "\<And>c s. choice_ok c \<Longrightarrow> s \<in> tg_slug ` set (snd (f c)) \<Longrightarrow> s \<in> tg_slug ` set (snd c) \<or> called fl d msg s"
  shows "calls_only fl d msg f"
  unfolding calls_only_def using assms by (intro allI impI conjI subsetI UnCI) blast+

lemma calls_onlyD:
  assumes "calls_only fl d msg f" "choice_ok c"
  shows "choice_ok (f c)" "set (snd c) \<subseteq> set (snd (f c))"
    "s \<in> tg_slug ` set (snd (f c)) \<Longrightarrow> s \<in> tg_slug ` set (snd c) \<or> called fl d msg s"
  using assms unfolding calls_only_def by blast+

lemma calls_only_id: "calls_only fl d msg (\<lambda>c. c)"
  by (simp add: calls_only_def)

lemma calls_only_comp: "calls_only fl d msg f \<Longrightarrow> calls_only fl d msg g \<Longrightarrow> calls_only fl d msg (\<lambda>c. g (f c))"
proof (rule calls_onlyI)
  assume f: "calls_only fl d msg f" and g: "calls_only fl d msg g"
  fix c assume c: "choice_ok c"
  note fc = calls_onlyD [OF f c]
  note gc = calls_onlyD [OF g fc(1)]
  show "choice_ok (g (f c))" by (rule gc(1))
  show "set (snd c) \<subseteq> set (snd (g (f c)))" using fc(2) gc(2) by (rule subset_trans)
  fix s assume "s \<in> tg_slug ` set (snd (g (f c)))"
  then show "s \<in> tg_slug ` set (snd c) \<or> called fl d msg s" using gc(3) [of s] fc(3) [of s] by blast
qed

lemma calls_only_pick: "(\<And>s. s = slug \<Longrightarrow> ok s \<Longrightarrow> called fl d msg s) \<Longrightarrow> calls_only fl d msg (pick ok slug)"
  by (rule calls_onlyI) (auto intro: pick_ok dest: subsetD [OF pick_keeps] pick_new)

lemma calls_only_pick_all: "(\<And>s. s \<in> set slugs \<Longrightarrow> ok s \<Longrightarrow> called fl d msg s) \<Longrightarrow> calls_only fl d msg (pick_all ok slugs)"
  by (rule calls_onlyI) (auto intro: pick_all_ok dest: subsetD [OF pick_all_keeps] pick_all_new)

lemma collab_calls: "calls_only fl d msg (collab_targets fl d msg)"
proof -
  let ?lead = "office_lead (dk_office d)" and ?owner = "task_owner_for_message fl d msg"
  let ?own = "\<lambda>c. if ?owner \<noteq> [] \<and> ?owner \<noteq> ?lead \<and> allow_target fl d msg ?owner then pick (may_wake d msg) ?owner c else c"
  let ?tag = "pick_all (allow_target fl d msg) (msg_tagged msg)"
  let ?top = "pick (may_wake d msg) ?lead"
  have top: "calls_only fl d msg ?top" by (rule calls_only_pick) (simp add: called_if)
  have own: "calls_only fl d msg ?own"
  proof (cases "?owner \<noteq> [] \<and> ?owner \<noteq> ?lead \<and> allow_target fl d msg ?owner")
    case True
    have "calls_only fl d msg (pick (may_wake d msg) ?owner)" by (rule calls_only_pick) (simp add: called_if)
    with True show ?thesis by simp
  next
    case False
    then have "?own = (\<lambda>c. c)" by (intro ext) auto
    then show ?thesis using calls_only_id [of fl d msg] by simp
  qed
  have tag: "calls_only fl d msg ?tag" by (rule calls_only_pick_all) (simp add: called_if allow_target_may)
  show ?thesis
  proof (cases "from_the_outside msg")
    case out: True
    show ?thesis
    proof (cases "''all'' \<in> set (msg_tagged msg)")
      case True
      have every: "calls_only fl d msg (\<lambda>c. pick_all (may_wake d msg) (map fst (fst c)) c)"
      proof (rule calls_onlyI)
        fix c s assume c: "choice_ok c" and "s \<in> tg_slug ` set (snd (pick_all (may_wake d msg) (map fst (fst c)) c))"
        then have "s \<in> tg_slug ` set (snd c) \<or> may_wake d msg s" using pick_all_new by blast
        then show "s \<in> tg_slug ` set (snd c) \<or> called fl d msg s" using called_if [of d msg s fl] out True by blast
      qed (simp_all add: pick_all_ok pick_all_keeps)
      have "collab_targets fl d msg = (\<lambda>c. pick_all (may_wake d msg) (map fst (fst (?top c))) (?top c))"
        using out True by (intro ext) (simp add: collab_targets_def Let_def)
      then show ?thesis using calls_only_comp [OF top every] by simp
    next
      case False
      have "collab_targets fl d msg = (\<lambda>c. ?tag (?own (?top c)))"
        using out False by (intro ext) (simp add: collab_targets_def Let_def)
      then show ?thesis using calls_only_comp [OF calls_only_comp [OF top own] tag] by simp
    qed
  next
    case False
    then have "collab_targets fl d msg =
        (if msg_from msg = ?lead then ?tag
         else if ?lead \<in> set (msg_tagged msg) then (\<lambda>c. ?tag (?own (?top c))) else (\<lambda>c. ?tag (?own c)))"
      by (intro ext) (simp add: collab_targets_def Let_def)
    then show ?thesis
      using tag calls_only_comp [OF own tag] calls_only_comp [OF calls_only_comp [OF top own] tag] by simp
  qed
qed

lemma start_ok: "choice_ok (notification_targets o1, [])"
  by (simp add: choice_ok_def notification_targets_ok)

lemma message_targets_ordinary:
  assumes "ordinary d msg"
  shows "fst (message_targets fl now d msg) =
    snd (if dk_focus d then focus_targets fl d msg (notification_targets (dk_office d), [])
         else collab_targets fl d msg (notification_targets (dk_office d), []))
   \<or> fst (message_targets fl now d msg) = [] \<and> notification_targets (dk_office d) = []"
  using assms by (simp add: message_targets_def ordinary_def Let_def)

lemma woken_called:
  assumes "ordinary d msg" "t \<in> set (fst (message_targets fl now d msg))"
  shows "called fl d msg (tg_slug t)"
proof -
  let ?c = "(notification_targets (dk_office d), []) :: choice"
  have t: "tg_slug t \<in> tg_slug ` set (snd (if dk_focus d then focus_targets fl d msg ?c else collab_targets fl d msg ?c))"
    using message_targets_ordinary [OF assms(1), of fl now] assms(2) by auto
  show ?thesis
  proof (cases "dk_focus d")
    case True
    with t focus_called [OF start_ok, of "tg_slug t" fl d msg] show ?thesis by simp
  next
    case False
    then have "tg_slug t \<in> tg_slug ` set (snd (collab_targets fl d msg ?c))" using t by simp
    then show ?thesis using calls_onlyD(3) [OF collab_calls start_ok, of "tg_slug t" fl d msg] by simp
  qed
qed

text \<open>C7. A message in a channel of the office wakes nobody but the lead, the owner of the task it belongs to and the
  bots it tags (everybody when the human tags all), never its sender and never a muted bot.\<close>
theorem only_the_called_wake:
  assumes "ordinary d msg" "t \<in> set (fst (message_targets fl now d msg))"
  shows "called fl d msg (tg_slug t)"
  by (rule woken_called [OF assms])

text \<open>C30. No message wakes its own sender, in a channel, in a direct message or in a session with one bot.\<close>
theorem sender_never_woken: "msg_from msg \<notin> tg_slug ` set (fst (message_targets fl now d msg))"
proof (cases "ordinary d msg")
  case True
  show ?thesis
  proof
    assume "msg_from msg \<in> tg_slug ` set (fst (message_targets fl now d msg))"
    then obtain t where t: "t \<in> set (fst (message_targets fl now d msg))" "tg_slug t = msg_from msg" by auto
    have "called fl d msg (tg_slug t)" by (rule woken_called [OF True t(1)])
    with t(2) show False by (simp add: called_def)
  qed
next
  case False
  let ?ch = "normalize_channel_slug (msg_channel msg)" and ?ts = "notification_targets (dk_office d)"
  have one: "msg_from msg \<notin> tg_slug ` set (case map_of ?ts slug of Some t \<Rightarrow> [t] | None \<Rightarrow> [])"
    if "slug \<noteq> msg_from msg" for slug
    using that notification_targets_ok [of "dk_office d"]
    by (cases "map_of ?ts slug") (auto simp: targets_ok_def dest!: map_of_SomeD)
  show ?thesis
  proof (cases "?ts = []")
    case True
    then show ?thesis by (simp add: message_targets_def Let_def)
  next
    case some: False
    show ?thesis
    proof (cases "is_dm_slug ?ch")
      case True
      let ?r = "if dm_other_participant ?ch (msg_from msg) = [] then dm_target_bot ?ch else dm_other_participant ?ch (msg_from msg)"
      obtain al w where w: "bot_dm_wake_allowed now ?ch (dk_wakes d) = (al, w)" by fastforce
      have "fst (message_targets fl now d msg)
          = (if ?r = [] \<or> is_human_sender ?r \<or> ?r = msg_from msg \<or> \<not> al then []
             else case map_of ?ts ?r of Some t \<Rightarrow> [t] | None \<Rightarrow> [])"
        using some True w unfolding message_targets_def Let_def by (simp split del: if_split) simp
      then show ?thesis using one [of ?r] by (simp split del: if_split) simp
    next
      case no_dm: False
      show ?thesis
      proof (cases "fst (is_channel_dm (dk_broker d) ?ch)")
        case True
        let ?s = "snd (is_channel_dm (dk_broker d) ?ch)"
        have "\<not> is_human_sender ?s"
          using no_dm True by (auto simp: is_channel_dm_def dest: find_SomeD split: option.splits if_splits)
        moreover have "fst (message_targets fl now d msg)
            = (if \<not> is_human_sender (msg_from msg) \<and> ?s = msg_from msg then []
               else case map_of ?ts ?s of Some t \<Rightarrow> [t] | None \<Rightarrow> [])"
          using some True no_dm unfolding message_targets_def Let_def by simp
        ultimately show ?thesis using one [of ?s] by (cases "?s = msg_from msg") simp_all
      next
        case False
        with \<open>\<not> ordinary d msg\<close> no_dm obtain slug where "b_one_on_one (dk_broker d) = Some slug"
          by (auto simp: ordinary_def Let_def)
        then have "fst (message_targets fl now d msg)
            = (if solo_bot slug = [] \<or> solo_bot slug = msg_from msg then []
               else case map_of ?ts (solo_bot slug) of Some t \<Rightarrow> [t] | None \<Rightarrow> [])"
          using some False no_dm unfolding message_targets_def Let_def by simp
        then show ?thesis using one [of "solo_bot slug"] by simp
      qed
    qed
  qed
qed


section \<open>Changes of tasks\<close>




section \<open>A small office\<close>

definition named_member :: "string \<Rightarrow> bool \<Rightarrow> office_member" where
  "named_member slug lead = \<lparr> om_slug = slug, om_name = slug, om_role = [], om_expertise = [], om_built_in = lead \<rparr>"

definition small_office :: office where
  "small_office =
     \<lparr> of_session = ''wuphf'', of_pack = None, of_provider = ''codex'', of_panes = Some False, of_failed = (\<lambda>_. False),
       of_solo = None, of_members = [named_member ''cos'' True, named_member ''eng'' False, named_member ''pm'' False],
       of_kind = (\<lambda>_. []) \<rparr>"

definition small_desk :: "bool \<Rightarrow> desk" where
  "small_desk focus =
     \<lparr> dk_broker = (sample_broker [(sample_task ''t1'' LsRunning)\<lparr> t_owner := ''eng'' \<rparr>])
         \<lparr> b_channels := [\<lparr> tc_slug = ''dev'', tc_name = ''dev'', tc_type = ''channel'', tc_description = [],
                            tc_members = [''cos'', ''eng'', ''pm''], tc_disabled = [''pm''], tc_created_by = ''human'',
                            tc_created_at = NoStamp, tc_updated_at = NoStamp, tc_task_id = [] \<rparr>] \<rparr>,
       dk_office = small_office, dk_system = (\<lambda>_. False), dk_focus = focus, dk_wakes = (\<lambda>_. []) \<rparr>"

definition small_message :: "string \<Rightarrow> string list \<Rightarrow> message" where
  "small_message from tagged =
     \<lparr> msg_id = ''m'', msg_from = from, msg_channel = ''dev'', msg_kind = [], msg_title = [], msg_content = ''hello'',
       msg_tagged = tagged, msg_timestamp = NoStamp, msg_reply_to = [], msg_source_task = [], msg_payload = [] \<rparr>"

theorem every_member_reachable_witness: "''pm'' \<in> fst ` set (notification_targets small_office)"
proof -
  let ?m = "named_member ''pm'' False"
  have m: "?m \<in> set (active_session_members small_office)" and s: "of_solo small_office = None"
    by (simp_all add: small_office_def active_session_members_def)
  have t: "om_slug ?m = ''pm''" by (simp add: named_member_def)
  have "trim_space ''pm'' = ''pm''" by code_simp
  then show ?thesis using every_member_reachable [OF s m] by (simp add: t)
qed

theorem bot_dm_wakes_capped_witness:
  "length (in_window 8 (allowed_wakes ''eng__pm'' [0, 1, 2, 3, 4, 5, 6, 7, 8] (\<lambda>_. []))) \<le> bot_dm_cap
   \<and> allowed_wakes ''eng__pm'' [0, 1, 2, 3, 4, 5, 6, 7, 8] (\<lambda>_. []) = [0, 1, 2, 3, 4, 5]"
proof -
  have dm: "bot_to_bot_dm ''eng__pm'' \<noteq> None" by code_simp
  have w: "bot_dm_window = 1800000000000" by (simp add: bot_dm_window_def nanos_per_second_def)
  have "allowed_wakes ''eng__pm'' [0, 1, 2, 3, 4, 5, 6, 7, 8] (\<lambda>_. []) = [0, 1, 2, 3, 4, 5]"
    using dm by (simp add: bot_dm_wake_allowed_def Let_def w bot_dm_cap_def)
  with bot_dm_wakes_capped [OF dm, of "[0, 1, 2, 3, 4, 5, 6, 7, 8]" 8] show ?thesis by simp
qed

lemma small_ordinary: "ordinary (small_desk f) (small_message from tagged)"
proof -
  have "normalize_channel_slug ''dev'' = ''dev''" "\<not> is_dm_slug ''dev''" by code_simp+
  then show ?thesis
    by (simp add: ordinary_def Let_def small_message_def is_channel_dm_def small_desk_def sample_broker_def)
qed

lemma small_called:
  "map tg_slug (fst (message_targets per_mille 0 (small_desk False) (small_message ''human'' [''pm'']))) = [''cos'', ''eng'']"
  by code_simp

theorem only_the_called_wake_witness:
  "called per_mille (small_desk False) (small_message ''human'' [''pm'']) ''eng''"
proof -
  have "''eng'' \<in> set (map tg_slug (fst (message_targets per_mille 0 (small_desk False) (small_message ''human'' [''pm'']))))"
    unfolding small_called by simp
  then obtain t where t: "t \<in> set (fst (message_targets per_mille 0 (small_desk False) (small_message ''human'' [''pm''])))"
      "tg_slug t = ''eng''" by auto
  show ?thesis using only_the_called_wake [OF small_ordinary t(1)] t(2) by simp
qed


end
