(* ===== verification/BotQueues.thy ===== *)
theory BotQueues
  imports Prelude
begin

text \<open>
  The message queues of the bot loop: \<^verbatim>\<open>internal/bot/queues.go\<close>.

  Each bot has a queue for steering messages, one for the human and one for follow-ups.  Every method
  runs under the mutex.  A missing key of a map is an empty slice, so a map is a function.  The contract of
  a family of first-in first-out queues is a locale; the three lanes of all bots interpret it.
\<close>

section \<open>First in, first out\<close>

datatype ('k, 'm) queue_op = Post 'k 'm | Drain 'k

locale fifo =
  fixes post :: "'k \<Rightarrow> 'm \<Rightarrow> 's \<Rightarrow> 's" and drain :: "'k \<Rightarrow> 's \<Rightarrow> 'm option \<times> 's" and waiting :: "'k \<Rightarrow> 's \<Rightarrow> 'm list"
  assumes waiting_post: "waiting j (post k m s) = (if j = k then waiting k s @ [m] else waiting j s)"
    and drain_empty: "waiting k s = [] \<Longrightarrow> drain k s = (None, s)"
    and drain_first: "waiting k s = m # ms \<Longrightarrow> fst (drain k s) = Some m"
    and drain_rest: "waiting k s = m # ms \<Longrightarrow> waiting j (snd (drain k s)) = (if j = k then ms else waiting j s)"
begin

fun run :: "('k, 'm) queue_op list \<Rightarrow> 's \<Rightarrow> ('k \<times> 'm) list \<times> 's" where
  "run [] s = ([], s)"
| "run (Post k m # ops) s = run ops (post k m s)"
| "run (Drain k # ops) s =
     (let (got, s1) = drain k s; (rest, s2) = run ops s1
      in ((case got of Some m \<Rightarrow> [(k, m)] | None \<Rightarrow> []) @ rest, s2))"

fun posted :: "'k \<Rightarrow> ('k, 'm) queue_op list \<Rightarrow> 'm list" where
  "posted k [] = []"
| "posted k (Post j m # ops) = (if j = k then [m] else []) @ posted k ops"
| "posted k (Drain j # ops) = posted k ops"

definition of_key :: "'k \<Rightarrow> ('k \<times> 'm) list \<Rightarrow> 'm list" where
  "of_key k xs = map snd (filter (\<lambda>x. fst x = k) xs)"

text \<open>What was drained from a queue and what is left in it is what was in it and what was posted, in order.\<close>

lemma in_order: "of_key k (fst (run ops s)) @ waiting k (snd (run ops s)) = waiting k s @ posted k ops"
proof (induction ops arbitrary: s)
  case Nil
  then show ?case by (simp add: of_key_def)
next
  case (Cons a ops)
  show ?case
  proof (cases a)
    case (Post j m)
    then show ?thesis using Cons.IH [of "post j m s"] by (simp add: waiting_post)
  next
    case (Drain j)
    obtain rest s2 where r: "run ops (snd (drain j s)) = (rest, s2)" by fastforce
    have ih: "of_key k rest @ waiting k s2 = waiting k (snd (drain j s)) @ posted k ops"
      using Cons.IH [of "snd (drain j s)"] r by simp
    show ?thesis
    proof (cases "waiting j s")
      case Nil
      have d: "drain j s = (None, s)" by (rule drain_empty [OF Nil])
      then show ?thesis using Drain r ih by simp
    next
      case (Cons m ms)
      obtain got s1 where d: "drain j s = (got, s1)" by fastforce
      have "got = Some m" using drain_first [OF Cons] d by simp
      moreover have "waiting k s1 = (if k = j then ms else waiting k s)" using drain_rest [OF Cons, of k] d by simp
      ultimately show ?thesis using Drain r ih d Cons by (auto simp: of_key_def)
    qed
  qed
qed

end

section \<open>The queues of the code\<close>

record message_queues =
  mq_steer :: "string \<Rightarrow> string list"
  mq_human :: "string \<Rightarrow> string list"
  mq_follow :: "string \<Rightarrow> string list"

definition new_message_queues :: message_queues where
  "new_message_queues = \<lparr> mq_steer = (\<lambda>_. []), mq_human = (\<lambda>_. []), mq_follow = (\<lambda>_. []) \<rparr>"

definition post_steer :: "string \<Rightarrow> string \<Rightarrow> message_queues \<Rightarrow> message_queues" where
  "post_steer slug m q = q\<lparr> mq_steer := (mq_steer q)(slug := mq_steer q slug @ [m]) \<rparr>"

definition post_human :: "string \<Rightarrow> string \<Rightarrow> message_queues \<Rightarrow> message_queues" where
  "post_human slug m q = q\<lparr> mq_human := (mq_human q)(slug := mq_human q slug @ [m]) \<rparr>"

definition post_follow_up :: "string \<Rightarrow> string \<Rightarrow> message_queues \<Rightarrow> message_queues" where
  "post_follow_up slug m q = q\<lparr> mq_follow := (mq_follow q)(slug := mq_follow q slug @ [m]) \<rparr>"

definition drain_steer :: "string \<Rightarrow> message_queues \<Rightarrow> string option \<times> message_queues" where
  "drain_steer slug q =
     (case mq_steer q slug of
        [] \<Rightarrow> (None, q)
      | m # ms \<Rightarrow> (Some m, q\<lparr> mq_steer := (mq_steer q)(slug := ms) \<rparr>))"

definition drain_human :: "string \<Rightarrow> message_queues \<Rightarrow> string option \<times> message_queues" where
  "drain_human slug q =
     (case mq_human q slug of
        [] \<Rightarrow> (None, q)
      | m # ms \<Rightarrow> (Some m, q\<lparr> mq_human := (mq_human q)(slug := ms) \<rparr>))"

definition drain_follow_up :: "string \<Rightarrow> message_queues \<Rightarrow> string option \<times> message_queues" where
  "drain_follow_up slug q =
     (case mq_follow q slug of
        [] \<Rightarrow> (None, q)
      | m # ms \<Rightarrow> (Some m, q\<lparr> mq_follow := (mq_follow q)(slug := ms) \<rparr>))"

definition has_steer :: "string \<Rightarrow> message_queues \<Rightarrow> bool" where
  "has_steer slug q \<longleftrightarrow> 0 < length (mq_steer q slug)"

definition has_human :: "string \<Rightarrow> message_queues \<Rightarrow> bool" where
  "has_human slug q \<longleftrightarrow> 0 < length (mq_human q slug)"

definition has_follow_up :: "string \<Rightarrow> message_queues \<Rightarrow> bool" where
  "has_follow_up slug q \<longleftrightarrow> 0 < length (mq_follow q slug)"

definition has_messages :: "string \<Rightarrow> message_queues \<Rightarrow> bool" where
  "has_messages slug q \<longleftrightarrow> has_steer slug q \<or> has_human slug q \<or> has_follow_up slug q"

section \<open>The lanes are queues\<close>

datatype lane = Steer | Human | FollowUp

definition post_to :: "lane \<times> string \<Rightarrow> string \<Rightarrow> message_queues \<Rightarrow> message_queues" where
  "post_to k m q =
     (case fst k of Steer \<Rightarrow> post_steer (snd k) m q | Human \<Rightarrow> post_human (snd k) m q
      | FollowUp \<Rightarrow> post_follow_up (snd k) m q)"

definition drain_from :: "lane \<times> string \<Rightarrow> message_queues \<Rightarrow> string option \<times> message_queues" where
  "drain_from k q =
     (case fst k of Steer \<Rightarrow> drain_steer (snd k) q | Human \<Rightarrow> drain_human (snd k) q
      | FollowUp \<Rightarrow> drain_follow_up (snd k) q)"

definition in_lane :: "lane \<times> string \<Rightarrow> message_queues \<Rightarrow> string list" where
  "in_lane k q =
     (case fst k of Steer \<Rightarrow> mq_steer q (snd k) | Human \<Rightarrow> mq_human q (snd k) | FollowUp \<Rightarrow> mq_follow q (snd k))"

lemmas lane_defs = post_to_def drain_from_def in_lane_def post_steer_def post_human_def post_follow_up_def
  drain_steer_def drain_human_def drain_follow_up_def

interpretation lanes: fifo post_to drain_from in_lane
proof
  fix j k :: "lane \<times> string" and m :: string and ms :: "string list" and q :: message_queues
  show "in_lane j (post_to k m q) = (if j = k then in_lane k q @ [m] else in_lane j q)"
    by (cases j; cases k; cases "fst j"; cases "fst k") (simp_all add: lane_defs)
  show "in_lane k q = [] \<Longrightarrow> drain_from k q = (None, q)"
    by (cases "fst k") (simp_all add: lane_defs)
  show "in_lane k q = m # ms \<Longrightarrow> fst (drain_from k q) = Some m"
    by (cases "fst k") (simp_all add: lane_defs)
  show "in_lane k q = m # ms \<Longrightarrow> in_lane j (snd (drain_from k q)) = (if j = k then ms else in_lane j q)"
    by (cases j; cases k; cases "fst j"; cases "fst k") (simp_all add: lane_defs)
qed

text \<open>C34. Whatever is posted and drained, the messages of one bot on one lane come out in the order they were
  posted, none twice and none lost, whatever happens on the other lanes and to the other bots.\<close>
theorem queues_in_order:
  "lanes.of_key (lane, slug) (fst (lanes.run ops new_message_queues)) @ in_lane (lane, slug) (snd (lanes.run ops new_message_queues))
     = lanes.posted (lane, slug) ops"
  using lanes.in_order [of "(lane, slug)" ops new_message_queues]
  by (cases lane) (simp_all add: in_lane_def new_message_queues_def)

text \<open>A bot has messages exactly when one of its lanes is not empty.\<close>

lemma has_messages_lanes: "has_messages slug q \<longleftrightarrow> (\<exists>lane. in_lane (lane, slug) q \<noteq> [])"
proof
  assume "has_messages slug q"
  then show "\<exists>lane. in_lane (lane, slug) q \<noteq> []"
    unfolding has_messages_def has_steer_def has_human_def has_follow_up_def
    by (elim disjE) (rule exI [of _ Steer], simp add: in_lane_def, rule exI [of _ Human], simp add: in_lane_def,
      rule exI [of _ FollowUp], simp add: in_lane_def)
next
  assume "\<exists>lane. in_lane (lane, slug) q \<noteq> []"
  then obtain l where "in_lane (l, slug) q \<noteq> []" ..
  then show "has_messages slug q"
    by (cases l) (simp_all add: in_lane_def has_messages_def has_steer_def has_human_def has_follow_up_def)
qed

end
