(* ===== verification/OfficeRules.thy ===== *)
theory OfficeRules
  imports TeamChannels Lifecycle Integers
begin

text \<open>
  The standing rules of the office: policies (\<^verbatim>\<open>policy.go\<close>, \<^verbatim>\<open>broker_policies.go\<close>) and the grants that
  let a bot use an integration without asking (\<^verbatim>\<open>broker_action_grants.go\<close>).

  A handler is the function of its decoded request; an error is its kind.  The record \<open>rulebook\<close> is the
  part of the broker with the rules, and \<open>write\<close> tells whether the state file can be written.
\<close>

record office_policy =
  po_id :: string
  po_source :: string
  po_rule :: string
  po_active :: bool
  po_created :: stamp
  po_bots :: "string list"

record action_grant =
  gr_id :: string
  gr_bot :: string
  gr_platform :: string
  gr_scope :: string
  gr_channel :: string
  gr_issue :: string
  gr_by :: string
  gr_at :: stamp
  gr_expires :: stamp
  gr_revoked :: stamp

record rulebook =
  ru_broker :: broker
  ru_policies :: "office_policy list"
  ru_grants :: "action_grant list"

datatype rule_error =
    RuleEmpty | RuleUnsaved | RuleIdRequired | RuleBotRequired | RuleUnknown | RuleNotInRoster | RuleLastBot
  | GrantFieldsRequired | GrantWildcard | GrantIdRequired | GrantUnknown | GrantUnknownAction

definition save_rules :: "env \<Rightarrow> (rulebook \<Rightarrow> bool) \<Rightarrow> rulebook \<Rightarrow> bool \<times> rulebook" where
  "save_rules e write rb =
     (let rb1 = rb\<lparr> ru_broker := snd (prune_completed e (ru_broker rb)) \<rparr> in (write rb1, rb1))"

section \<open>Policies\<close>

definition policy_key :: "string \<Rightarrow> string" where
  "policy_key s = to_lower (trim_space s)"

definition normalize_policy_bots :: "string list \<Rightarrow> string list" where
  "normalize_policy_bots bots = sort (dedup (filter (\<lambda>s. s \<noteq> []) (map policy_key bots)))"

definition policy_applies :: "office_policy \<Rightarrow> string \<Rightarrow> bool" where
  "policy_applies p slug \<longleftrightarrow> po_bots p = [] \<or> policy_key slug \<in> set (po_bots p)"

definition normalize_rule :: "string \<Rightarrow> string" where
  "normalize_rule rule = to_lower (join '' '' (str_fields rule))"

definition new_policy :: "env \<Rightarrow> string \<Rightarrow> string \<Rightarrow> office_policy" where
  "new_policy e source rule =
     \<lparr> po_id = ''policy-'' @ itoa (e_now e),
       po_source = (if trim_space source = [] then ''human_directed'' else trim_space source),
       po_rule = trim_space rule, po_active = True, po_created = now_stamp e, po_bots = [] \<rparr>"

definition merge_policy_bots :: "string list \<Rightarrow> string list \<Rightarrow> string list" where
  "merge_policy_bots xs ys = (if xs = [] \<or> ys = [] then [] else normalize_policy_bots (xs @ ys))"

definition edit_policy :: "(office_policy \<Rightarrow> bool) \<Rightarrow> (office_policy \<Rightarrow> office_policy) \<Rightarrow> rulebook \<Rightarrow> rulebook" where
  "edit_policy p f rb = rb\<lparr> ru_policies := map_first p f (ru_policies rb) \<rparr>"

definition record_policy ::
  "env \<Rightarrow> (rulebook \<Rightarrow> bool) \<Rightarrow> string \<Rightarrow> string \<Rightarrow> string list \<Rightarrow> rulebook \<Rightarrow> (rule_error + office_policy) \<times> rulebook" where
  "record_policy e write source rule0 bots0 rb =
     (let rule = trim_space rule0; bots = normalize_policy_bots bots0;
          same = (\<lambda>p. normalize_rule (po_rule p) = normalize_rule rule) in
      if rule = [] then (Inl RuleEmpty, rb)
      else case find same (ru_policies rb) of
        Some p \<Rightarrow>
          (let p1 = p\<lparr> po_active := True, po_bots := merge_policy_bots (po_bots p) bots \<rparr>;
               (ok, rb1) = save_rules e write (edit_policy same (\<lambda>_. p1) rb)
           in if ok then (Inr p1, rb1)
              else (Inl RuleUnsaved, edit_policy same (\<lambda>q. q\<lparr> po_active := po_active p, po_bots := po_bots p \<rparr>) rb1))
      | None \<Rightarrow>
          (let p = (new_policy e source rule)\<lparr> po_bots := bots \<rparr>;
               (ok, rb1) = save_rules e write (rb\<lparr> ru_policies := ru_policies rb @ [p] \<rparr>)
           in if ok then (Inr p, rb1) else (Inl RuleUnsaved, rb1\<lparr> ru_policies := butlast (ru_policies rb1) \<rparr>)))"

definition list_policies :: "rulebook \<Rightarrow> office_policy list" where
  "list_policies rb = filter po_active (ru_policies rb)"

text \<open>The DELETE branch; an id without a policy is answered like a deletion.\<close>

definition delete_policy :: "env \<Rightarrow> (rulebook \<Rightarrow> bool) \<Rightarrow> string \<Rightarrow> rulebook \<Rightarrow> (rule_error + unit) \<times> rulebook" where
  "delete_policy e write id0 rb =
     (let i = trim_space id0 in
      if i = [] then (Inl RuleIdRequired, rb)
      else if find (\<lambda>p. po_id p = i) (ru_policies rb) = None then (Inr (), rb)
      else
        (let (ok, rb1) = save_rules e write (edit_policy (\<lambda>p. po_id p = i) (\<lambda>p. p\<lparr> po_active := False \<rparr>) rb)
         in if ok then (Inr (), rb1) else (Inl RuleUnsaved, rb1)))"

definition all_member_slugs :: "broker \<Rightarrow> string list" where
  "all_member_slugs b = sort (filter (\<lambda>s. s \<noteq> []) (map (\<lambda>m. trim_space (m_slug m)) (b_members b)))"

text \<open>What both verbs do with the new scope.\<close>

definition rescope_policy ::
  "env \<Rightarrow> (rulebook \<Rightarrow> bool) \<Rightarrow> office_policy \<Rightarrow> string list \<Rightarrow> rulebook \<Rightarrow> (rule_error + office_policy) \<times> rulebook" where
  "rescope_policy e write p bots rb =
     (if bots = po_bots p then (Inr p, rb)
      else
        (let (ok, rb1) = save_rules e write (edit_policy (\<lambda>q. po_id q = po_id p) (\<lambda>q. q\<lparr> po_bots := bots \<rparr>) rb)
         in if ok then (Inr (p\<lparr> po_bots := bots \<rparr>), rb1)
            else (Inl RuleUnsaved, edit_policy (\<lambda>q. po_id q = po_id p) (\<lambda>q. q\<lparr> po_bots := po_bots p \<rparr>) rb1)))"

definition assign_policy ::
  "env \<Rightarrow> (rulebook \<Rightarrow> bool) \<Rightarrow> string \<Rightarrow> string \<Rightarrow> rulebook \<Rightarrow> (rule_error + office_policy) \<times> rulebook" where
  "assign_policy e write i bot0 rb =
     (let slug = policy_key bot0 in
      if slug = [] then (Inl RuleBotRequired, rb)
      else case find (\<lambda>p. po_id p = i) (ru_policies rb) of
        None \<Rightarrow> (Inl RuleUnknown, rb)
      | Some p \<Rightarrow>
          if find_member (ru_broker rb) slug = None then (Inl RuleNotInRoster, rb)
          else rescope_policy e write p
                 (if po_bots p \<noteq> [] then normalize_policy_bots (po_bots p @ [slug]) else po_bots p) rb)"

definition unassign_policy ::
  "env \<Rightarrow> (rulebook \<Rightarrow> bool) \<Rightarrow> string \<Rightarrow> string \<Rightarrow> rulebook \<Rightarrow> (rule_error + office_policy) \<times> rulebook" where
  "unassign_policy e write i bot0 rb =
     (let slug = policy_key bot0 in
      if slug = [] then (Inl RuleBotRequired, rb)
      else case find (\<lambda>p. po_id p = i) (ru_policies rb) of
        None \<Rightarrow> (Inl RuleUnknown, rb)
      | Some p \<Rightarrow>
          (let scope = (if po_bots p = [] then all_member_slugs (ru_broker rb) else po_bots p);
               kept = filter (\<lambda>s. s \<noteq> slug) scope
           in if kept = [] then (Inl RuleLastBot, rb)
              else rescope_policy e write p (normalize_policy_bots kept) rb))"

section \<open>Grants\<close>

definition max_grant_ttl :: int where
  "max_grant_ttl = 30 * 24 * 3600 * nanos_per_second"

definition grant_active :: "action_grant \<Rightarrow> int \<Rightarrow> bool" where
  "grant_active g now \<longleftrightarrow>
     (if gr_revoked g \<noteq> NoStamp then False
      else if gr_expires g \<noteq> NoStamp
      then (case parse_stamp (gr_expires g) of Some u \<Rightarrow> now < u | None \<Rightarrow> False)
      else True)"

definition same_grant :: "string \<Rightarrow> string \<Rightarrow> string \<Rightarrow> action_grant \<Rightarrow> bool" where
  "same_grant a p s g \<longleftrightarrow> policy_key (gr_bot g) = a \<and> policy_key (gr_platform g) = p \<and> policy_key (gr_scope g) = s"

definition has_active_grant :: "string \<Rightarrow> string \<Rightarrow> string \<Rightarrow> int \<Rightarrow> rulebook \<Rightarrow> bool" where
  "has_active_grant bot1 platform action now rb \<longleftrightarrow>
     (let a = policy_key bot1; p = policy_key platform; s = policy_key action in
      if a = [] \<or> p = [] \<or> s = [] then False
      else list_ex (\<lambda>g. same_grant a p s g \<and> grant_active g now) (ru_grants rb))"

definition middle_dot :: string where
  "middle_dot = '' '' @ [CHR 0xC2, CHR 0xB7] @ '' ''"

definition capped_expiry :: "env \<Rightarrow> stamp \<Rightarrow> stamp" where
  "capped_expiry e x =
     (let ceiling = e_now e + max_grant_ttl in
      case parse_stamp x of Some u \<Rightarrow> if ceiling < u then rfc3339 ceiling else x | None \<Rightarrow> rfc3339 ceiling)"

definition add_action_grant :: "env \<Rightarrow> (rulebook \<Rightarrow> bool) \<Rightarrow> action_grant \<Rightarrow> rulebook \<Rightarrow> action_grant \<times> rulebook" where
  "add_action_grant e write g0 rb =
     (let now = e_now e;
          g = g0\<lparr> gr_bot := trim_space (gr_bot g0), gr_platform := trim_space (gr_platform g0), gr_scope := trim_space (gr_scope g0) \<rparr>
      in case find (\<lambda>x. same_grant (policy_key (gr_bot g)) (policy_key (gr_platform g)) (policy_key (gr_scope g)) x
                        \<and> grant_active x now) (ru_grants rb) of
           Some x \<Rightarrow> (x, rb)
         | None \<Rightarrow>
             (let n = b_counter (ru_broker rb) + 1;
                  g1 = g\<lparr> gr_id := ''grant-'' @ itoa n, gr_at := rfc3339 now,
                         gr_by := (if trim_space (gr_by g) = [] then ''human'' else gr_by g), gr_expires := capped_expiry e (gr_expires g) \<rparr>;
                  b1 = append_action e ''integration_grant_created'' ''office'' (normalize_channel_slug (gr_channel g1)) (gr_by g1)
                         (truncate_summary (''Always allow '' @ gr_bot g1 @ middle_dot @ gr_scope g1 @ '' on '' @ gr_platform g1) 140)
                         (gr_id g1) ((ru_broker rb)\<lparr> b_counter := n \<rparr>)
              in (g1, snd (save_rules e write (rb\<lparr> ru_broker := b1, ru_grants := ru_grants rb @ [g1] \<rparr>)))))"

definition revoke_action_grant :: "env \<Rightarrow> (rulebook \<Rightarrow> bool) \<Rightarrow> string \<Rightarrow> string \<Rightarrow> rulebook \<Rightarrow> action_grant option \<times> rulebook" where
  "revoke_action_grant e write id0 actor rb =
     (let i = trim_space id0 in
      case find (\<lambda>g. gr_id g = i) (ru_grants rb) of
        None \<Rightarrow> (None, rb)
      | Some g \<Rightarrow>
          if gr_revoked g \<noteq> NoStamp then (Some g, rb)
          else
            (let g1 = g\<lparr> gr_revoked := now_stamp e \<rparr>;
                 b1 = append_action e ''integration_grant_revoked'' ''office'' (normalize_channel_slug (gr_channel g)) actor
                        (truncate_summary (''Revoked grant '' @ i) 140) i (ru_broker rb)
             in (Some g1,
                 snd (save_rules e write
                   (rb\<lparr> ru_broker := b1, ru_grants := map_first (\<lambda>g. gr_id g = i) (\<lambda>_. g1) (ru_grants rb) \<rparr>)))))"

definition list_grants :: "bool \<Rightarrow> int \<Rightarrow> rulebook \<Rightarrow> action_grant list" where
  "list_grants every now rb = filter (\<lambda>g. every \<or> grant_active g now) (ru_grants rb)"

record grant_request =
  gq_action :: string
  gq_id :: string
  gq_bot :: string
  gq_platform :: string
  gq_scope :: string
  gq_action_id :: string
  gq_channel :: string
  gq_issue :: string
  gq_expires :: stamp

definition mutate_grant ::
  "env \<Rightarrow> (rulebook \<Rightarrow> bool) \<Rightarrow> string \<Rightarrow> grant_request \<Rightarrow> rulebook \<Rightarrow> (rule_error + action_grant) \<times> rulebook" where
  "mutate_grant e write actor q rb =
     (let action = policy_key (gq_action q) in
      if action \<in> {'''', ''grant'', ''create''} then
        (let scope = (if trim_space (gq_scope q) = [] then trim_space (gq_action_id q) else trim_space (gq_scope q)) in
         if scope = [] \<or> trim_space (gq_bot q) = [] \<or> trim_space (gq_platform q) = [] then (Inl GrantFieldsRequired, rb)
         else if str_contains scope ''*'' then (Inl GrantWildcard, rb)
         else
           (let (g, rb1) = add_action_grant e write
                  \<lparr> gr_id = [], gr_bot = trim_space (gq_bot q), gr_platform = trim_space (gq_platform q), gr_scope = scope,
                    gr_channel = trim_space (gq_channel q), gr_issue = trim_space (gq_issue q), gr_by = actor,
                    gr_at = NoStamp, gr_expires = gq_expires q, gr_revoked = NoStamp \<rparr> rb
            in (Inr g, rb1)))
      else if action = ''revoke'' then
        (if trim_space (gq_id q) = [] then (Inl GrantIdRequired, rb)
         else (case revoke_action_grant e write (gq_id q) actor rb of
                 (Some g, rb1) \<Rightarrow> (Inr g, rb1)
               | (None, rb1) \<Rightarrow> (Inl GrantUnknown, rb1)))
      else (Inl GrantUnknownAction, rb))"

end
