(* ===== verification/OfficeRulesProps.thy ===== *)
theory OfficeRulesProps
  imports OfficeRules Samples
begin

text \<open>
  What the standing rules keep.  A step is one request with any clock and any outcome of the save, so a
  run covers every order in which policies and grants are made, edited and withdrawn, failed saves
  included.
\<close>

section \<open>Keys and scopes\<close>

lemma lower_char_cases: "lower_char c = c \<or> (97 \<le> (of_char (lower_char c) :: nat) \<and> (of_char (lower_char c) :: nat) \<le> 122)"
  by (auto simp: lower_char_def Let_def of_char_of)

lemma no_letter_in_ws: "list_all (list_all (\<lambda>b. \<not> (97 \<le> (of_char b :: nat) \<and> (of_char b :: nat) \<le> 122))) ws_units"
  by code_simp

lemma prefix_lower_unit:
  assumes "\<forall>b\<in>set u. \<not> (97 \<le> (of_char b :: nat) \<and> (of_char b :: nat) \<le> 122)" "prefix u (to_lower s)"
  shows "prefix u s"
  using assms
proof (induction u arbitrary: s)
  case Nil
  then show ?case by simp
next
  case (Cons b u)
  then obtain c r where s: "s = c # r" "b = lower_char c" by (cases s) (auto simp: to_lower_def)
  then have "b = c" using Cons.prems(1) lower_char_cases [of c] by auto
  then show ?case using Cons s by (auto simp: to_lower_def)
qed

lemma head_unit_lower:
  assumes "list_all (list_all (\<lambda>b. \<not> (97 \<le> (of_char b :: nat) \<and> (of_char b :: nat) \<le> 122))) us" "head_unit us s = None"
  shows "head_unit us (to_lower s) = None"
  using assms prefix_lower_unit by (auto simp: head_unit_def find_NoneD list_all_iff)

lemma trim_space_units:
  "trim_space s = s \<longleftrightarrow> head_unit ws_units s = None \<and> head_unit (map rev ws_units) (rev s) = None"
proof
  assume "trim_space s = s"
  then have l: "trim_right (trim_left s) = s" by (simp add: trim_space_def)
  have "length (trim_left s) \<le> length s" by (simp add: trim_left_def suffix_length_le strip_units_suffix)
  moreover have "length s \<le> length (trim_left s)" using prefix_length_le [OF trim_right_prefix [of "trim_left s"]] l by simp
  ultimately have len: "length (trim_left s) = length s" by simp
  obtain zs where z: "s = zs @ trim_left s"
    using strip_units_suffix [of ws_units s] by (auto simp: trim_left_def suffix_def)
  then have "length s = length zs + length (trim_left s)" by (metis length_append)
  with z len have "trim_left s = s" by simp
  then show "head_unit ws_units s = None \<and> head_unit (map rev ws_units) (rev s) = None"
    using trim_left_head [of s] l head_unit_strip [of "map rev ws_units" "rev s"] by (simp add: trim_right_def rev_swap)
next
  assume "head_unit ws_units s = None \<and> head_unit (map rev ws_units) (rev s) = None"
  then show "trim_space s = s" by (simp add: trim_space_def trim_left_def trim_right_def strip_units_id)
qed

lemma trim_lower: "trim_space s = s \<Longrightarrow> trim_space (to_lower s) = to_lower s"
proof -
  have "list_all (list_all (\<lambda>b. \<not> (97 \<le> (of_char b :: nat) \<and> (of_char b :: nat) \<le> 122))) (map rev ws_units)"
    using no_letter_in_ws by (simp add: list_all_iff)
  from head_unit_lower [OF no_letter_in_ws] head_unit_lower [OF this]
  show "trim_space s = s \<Longrightarrow> trim_space (to_lower s) = to_lower s"
    by (auto simp: trim_space_units to_lower_def rev_map)
qed

lemma policy_key_idem [simp]: "policy_key (policy_key s) = policy_key s"
  by (simp add: policy_key_def trim_lower)

text \<open>A scope is a sorted set of keys.\<close>

definition scope_ok :: "string list \<Rightarrow> bool" where
  "scope_ok xs \<longleftrightarrow> sorted xs \<and> distinct xs \<and> (\<forall>x\<in>set xs. x \<noteq> [] \<and> policy_key x = x)"

lemma scope_ok_Nil [simp]: "scope_ok []"
  by (simp add: scope_ok_def)

lemma scope_ok_normalize [simp]: "scope_ok (normalize_policy_bots xs)"
  by (auto simp: scope_ok_def normalize_policy_bots_def)

lemma set_normalize: "set (normalize_policy_bots xs) = policy_key ` set xs - {[]}"
  by (auto simp: normalize_policy_bots_def)

lemma scope_ok_merge [simp]: "scope_ok (merge_policy_bots xs ys)"
  by (simp add: merge_policy_bots_def)

section \<open>Runs\<close>

datatype rule_op =
    RecordRule string string "string list"
  | DeleteRule string
  | AssignRule string string
  | UnassignRule string string
  | MutateGrant string grant_request

fun rule_step :: "env \<Rightarrow> (rulebook \<Rightarrow> bool) \<Rightarrow> rule_op \<Rightarrow> rulebook \<Rightarrow> rulebook" where
  "rule_step e write (RecordRule s r bs) rb = snd (record_policy e write s r bs rb)"
| "rule_step e write (DeleteRule i) rb = snd (delete_policy e write i rb)"
| "rule_step e write (AssignRule i a) rb = snd (assign_policy e write i a rb)"
| "rule_step e write (UnassignRule i a) rb = snd (unassign_policy e write i a rb)"
| "rule_step e write (MutateGrant a q) rb = snd (mutate_grant e write a q rb)"

inductive rule_run :: "rulebook \<Rightarrow> rulebook \<Rightarrow> bool" where
  refl: "rule_run rb rb"
| step: "rule_run rb rb1 \<Longrightarrow> rule_run rb (rule_step e write op rb1)"

definition policy_ok :: "office_policy \<Rightarrow> bool" where
  "policy_ok p \<longleftrightarrow> po_rule p \<noteq> [] \<and> trim_space (po_rule p) = po_rule p \<and> scope_ok (po_bots p)"

definition policies_ok :: "office_policy list \<Rightarrow> bool" where
  "policies_ok ps \<longleftrightarrow> distinct (map (\<lambda>p. normalize_rule (po_rule p)) ps) \<and> (\<forall>p\<in>set ps. policy_ok p)"

definition grant_ok :: "action_grant \<Rightarrow> bool" where
  "grant_ok g \<longleftrightarrow> (\<exists>t u. gr_at g = rfc3339 t \<and> parse_stamp (gr_expires g) = Some u \<and> u \<le> t + max_grant_ttl)
     \<and> \<not> str_contains (gr_scope g) ''*'' \<and> gr_bot g \<noteq> [] \<and> gr_platform g \<noteq> [] \<and> gr_scope g \<noteq> []"

lemma save_rules_keeps [simp]:
  "ru_policies (snd (save_rules e write rb)) = ru_policies rb" "ru_grants (snd (save_rules e write rb)) = ru_grants rb"
  by (simp_all add: save_rules_def Let_def)

lemma save_rules_eq: "save_rules e write rb = (ok, rb1) \<Longrightarrow> ru_policies rb1 = ru_policies rb \<and> ru_grants rb1 = ru_grants rb"
  by (auto simp: save_rules_def Let_def)

lemma edit_policy_keeps [simp]:
  "ru_policies (edit_policy p f rb) = map_first p f (ru_policies rb)" "ru_grants (edit_policy p f rb) = ru_grants rb"
  by (simp_all add: edit_policy_def)

lemma policies_ok_map_first:
  assumes "policies_ok ps" "\<And>x. x \<in> set ps \<Longrightarrow> p x \<Longrightarrow> policy_ok (f x)"
    and "\<And>x. p x \<Longrightarrow> normalize_rule (po_rule (f x)) = normalize_rule (po_rule x)"
  shows "policies_ok (map_first p f ps)"
proof -
  have "policy_ok x" if "x \<in> set (map_first p f ps)" for x
    using that set_map_first_subset [of p f ps] assms(1,2) by (auto simp: policies_ok_def)
  moreover have "map (\<lambda>p. normalize_rule (po_rule p)) (map_first p f ps) = map (\<lambda>p. normalize_rule (po_rule p)) ps"
    by (rule map_map_first) (rule assms(3))
  ultimately show ?thesis using assms(1) by (simp add: policies_ok_def)
qed


lemma record_policies:
  assumes "policies_ok (ru_policies rb)"
  shows "policies_ok (ru_policies (snd (record_policy e write source rule0 bots0 rb)))"
proof -
  define rule where "rule = trim_space rule0"
  define same where "same = (\<lambda>p :: office_policy. normalize_rule (po_rule p) = normalize_rule rule)"
  show ?thesis
  proof (cases "rule = []")
    case True
    then show ?thesis using assms by (simp add: record_policy_def rule_def)
  next
    case False
    show ?thesis
    proof (cases "find same (ru_policies rb)")
      case None
      then have fresh: "normalize_rule rule \<notin> (\<lambda>p. normalize_rule (po_rule p)) ` set (ru_policies rb)"
        by (auto simp: find_NoneD same_def)
      define p where "p = (new_policy e source rule)\<lparr> po_bots := normalize_policy_bots bots0 \<rparr>"
      have rule_p: "po_rule p = rule" by (simp add: p_def new_policy_def rule_def)
      then have "policy_ok p" using False by (simp add: policy_ok_def rule_def) (simp add: p_def)
      then have "policies_ok (ru_policies rb @ [p])"
        using assms fresh rule_p by (auto simp: policies_ok_def)
      then show ?thesis
        using None False assms
        by (auto simp: record_policy_def Let_def save_rules_def split: option.splits
            simp flip: rule_def same_def p_def)
    next
      case (Some p)
      define p1 where "p1 = p\<lparr> po_active := True, po_bots := merge_policy_bots (po_bots p) (normalize_policy_bots bots0) \<rparr>"
      have p: "policy_ok p" "same p" using assms find_SomeD [OF Some] by (auto simp: policies_ok_def)
      then have new: "policies_ok (map_first same (\<lambda>_. p1) (ru_policies rb))"
        by (intro policies_ok_map_first [OF assms]) (auto simp: policy_ok_def p1_def same_def)
      then have "policies_ok (map_first same (\<lambda>q. q\<lparr> po_active := po_active p, po_bots := po_bots p \<rparr>)
          (map_first same (\<lambda>_. p1) (ru_policies rb)))"
        by (rule policies_ok_map_first) (use new p in \<open>auto simp: policies_ok_def policy_ok_def\<close>)
      then show ?thesis
        using new Some False
        by (auto simp: record_policy_def Let_def save_rules_def edit_policy_def simp flip: rule_def same_def p1_def)
    qed
  qed
qed

lemma rescope_policies:
  assumes "policies_ok (ru_policies rb)" "scope_ok bots" "scope_ok (po_bots p)"
  shows "policies_ok (ru_policies (snd (rescope_policy e write p bots rb)))"
proof -
  have new: "policies_ok (map_first (\<lambda>q. po_id q = po_id p) (\<lambda>q. q\<lparr> po_bots := bots \<rparr>) (ru_policies rb))"
    by (rule policies_ok_map_first [OF assms(1)]) (use assms in \<open>auto simp: policies_ok_def policy_ok_def\<close>)
  have "policies_ok (map_first (\<lambda>q. po_id q = po_id p) (\<lambda>q. q\<lparr> po_bots := po_bots p \<rparr>)
      (map_first (\<lambda>q. po_id q = po_id p) (\<lambda>q. q\<lparr> po_bots := bots \<rparr>) (ru_policies rb)))"
    by (rule policies_ok_map_first [OF new]) (use new assms in \<open>auto simp: policies_ok_def policy_ok_def\<close>)
  then show ?thesis
    using new assms(1) by (auto simp: rescope_policy_def save_rules_def Let_def edit_policy_def)
qed

lemma policy_found_ok:
  "policies_ok ps \<Longrightarrow> find q ps = Some p \<Longrightarrow> policy_ok p"
  using find_SomeD [of q ps p] by (auto simp: policies_ok_def)

lemma assign_policies:
  assumes "policies_ok (ru_policies rb)"
  shows "policies_ok (ru_policies (snd (assign_policy e write i a rb)))"
  using assms policy_found_ok [OF assms]
  by (auto simp: assign_policy_def Let_def policy_ok_def rescope_policies split: option.split)

lemma unassign_policies:
  assumes "policies_ok (ru_policies rb)"
  shows "policies_ok (ru_policies (snd (unassign_policy e write i a rb)))"
  using assms policy_found_ok [OF assms]
  by (auto simp: unassign_policy_def Let_def policy_ok_def rescope_policies split: option.split)

lemma delete_policies:
  assumes "policies_ok (ru_policies rb)"
  shows "policies_ok (ru_policies (snd (delete_policy e write i rb)))"
proof -
  have "policies_ok (map_first (\<lambda>p. po_id p = trim_space i) (\<lambda>p. p\<lparr> po_active := False \<rparr>) (ru_policies rb))"
    by (rule policies_ok_map_first [OF assms]) (use assms in \<open>auto simp: policies_ok_def policy_ok_def\<close>)
  then show ?thesis using assms by (auto simp: delete_policy_def Let_def save_rules_def edit_policy_def)
qed

lemma mutate_grant_policies [simp]: "ru_policies (snd (mutate_grant e write actor q rb)) = ru_policies rb"
  by (auto simp: mutate_grant_def add_action_grant_def revoke_action_grant_def save_rules_def Let_def
      split: option.splits prod.splits)


lemma rule_step_policies:
  "policies_ok (ru_policies rb) \<Longrightarrow> policies_ok (ru_policies (rule_step e write op rb))"
  by (cases op) (simp_all add: record_policies delete_policies assign_policies unassign_policies)

lemma policy_ops_grants [simp]:
  "ru_grants (snd (record_policy e write s r bs rb)) = ru_grants rb"
  "ru_grants (snd (delete_policy e write i rb)) = ru_grants rb"
  "ru_grants (snd (rescope_policy e write p bots rb)) = ru_grants rb"
  by (auto simp: record_policy_def delete_policy_def rescope_policy_def save_rules_def edit_policy_def Let_def
      split: option.splits)

lemma assign_ops_grants [simp]:
  "ru_grants (snd (assign_policy e write i a rb)) = ru_grants rb"
  "ru_grants (snd (unassign_policy e write i a rb)) = ru_grants rb"
  by (auto simp: assign_policy_def unassign_policy_def Let_def split: option.splits)

lemma capped_expiry: "\<exists>u. parse_stamp (capped_expiry e x) = Some u \<and> u \<le> e_now e + max_grant_ttl"
  by (cases x) (auto simp: capped_expiry_def Let_def nanos_per_second_def)

lemma add_grant_ok:
  assumes "\<forall>g\<in>set (ru_grants rb). grant_ok g" "trim_space (gr_bot g0) \<noteq> []" "trim_space (gr_platform g0) \<noteq> []"
    "trim_space (gr_scope g0) \<noteq> []" "\<not> str_contains (trim_space (gr_scope g0)) ''*''"
  shows "\<forall>g\<in>set (ru_grants (snd (add_action_grant e write g0 rb))). grant_ok g"
proof -
  define g where "g = g0\<lparr> gr_bot := trim_space (gr_bot g0), gr_platform := trim_space (gr_platform g0), gr_scope := trim_space (gr_scope g0) \<rparr>"
  show ?thesis
  proof (cases "find (\<lambda>x. same_grant (policy_key (gr_bot g)) (policy_key (gr_platform g)) (policy_key (gr_scope g)) x
                        \<and> grant_active x (e_now e)) (ru_grants rb)")
    case (Some x)
    then show ?thesis using assms(1) by (simp add: add_action_grant_def Let_def flip: g_def)
  next
    case None
    have "\<exists>u. parse_stamp (capped_expiry e (gr_expires g)) = Some u \<and> u \<le> e_now e + max_grant_ttl"
      by (rule capped_expiry)
    then show ?thesis
      using None assms by (auto simp: add_action_grant_def Let_def grant_ok_def g_def)
  qed
qed

lemma revoke_grant_ok:
  "\<forall>g\<in>set (ru_grants rb). grant_ok g \<Longrightarrow> \<forall>g\<in>set (ru_grants (snd (revoke_action_grant e write i actor rb))). grant_ok g"
  by (auto simp: revoke_action_grant_def Let_def grant_ok_def split: option.splits
      dest!: find_SomeD dest: subsetD [OF set_map_first_subset])

lemma mutate_grants_ok:
  assumes "\<forall>g\<in>set (ru_grants rb). grant_ok g"
  shows "\<forall>g\<in>set (ru_grants (snd (mutate_grant e write actor q rb))). grant_ok g"
proof -
  let ?scope = "if trim_space (gq_scope q) = [] then trim_space (gq_action_id q) else trim_space (gq_scope q)"
  let ?g = "\<lparr> gr_id = [], gr_bot = trim_space (gq_bot q), gr_platform = trim_space (gq_platform q), gr_scope = ?scope,
    gr_channel = trim_space (gq_channel q), gr_issue = trim_space (gq_issue q), gr_by = actor,
    gr_at = NoStamp, gr_expires = gq_expires q, gr_revoked = NoStamp \<rparr>"
  have added: "\<forall>g\<in>set (ru_grants (snd (add_action_grant e write ?g rb))). grant_ok g"
    if "?scope \<noteq> []" "trim_space (gq_bot q) \<noteq> []" "trim_space (gq_platform q) \<noteq> []" "\<not> str_contains ?scope ''*''"
    by (rule add_grant_ok [OF assms]) (use that in auto)
  consider "policy_key (gq_action q) \<in> {'''', ''grant'', ''create''}" | "policy_key (gq_action q) = ''revoke''"
    | "policy_key (gq_action q) \<notin> {'''', ''grant'', ''create'', ''revoke''}" by blast
  then show ?thesis
  proof cases
    case 1
    then show ?thesis using assms added unfolding mutate_grant_def Let_def
      by (simp split: prod.splits)
  next
    case 2
    then show ?thesis using assms revoke_grant_ok [OF assms, of e "write" "gq_id q" actor] unfolding mutate_grant_def Let_def
      by (simp split: prod.splits option.splits)
  next
    case 3
    then show ?thesis using assms by (simp add: mutate_grant_def Let_def)
  qed
qed

lemma rule_step_grants:
  "\<forall>g\<in>set (ru_grants rb). grant_ok g \<Longrightarrow> \<forall>g\<in>set (ru_grants (rule_step e write op rb)). grant_ok g"
  by (cases op) (simp_all add: mutate_grants_ok)

text \<open>C15. Whatever is recorded, withdrawn, assigned and unassigned, and whichever saves fail: no two
  policies have the same rule up to case and spacing, every rule is trimmed and not empty, and the scope
  of every policy is a sorted list of distinct, non-empty keys.\<close>

theorem policies_kept:
  assumes "rule_run rb rb1" "ru_policies rb = []"
  shows "policies_ok (ru_policies rb1)"
  using assms
proof (induction rule: rule_run.induct)
  case (refl rb)
  then show ?case by (simp add: policies_ok_def)
next
  case (step rb rb1 e w act)
  then show ?case by (simp add: rule_step_policies)
qed

text \<open>C17. A bot that may use an action without asking has a grant for it that was not revoked, that names
  one action and no wildcard, and that was given less than thirty days before.\<close>

theorem grants_run_out:
  assumes "rule_run rb rb1" "ru_grants rb = []" "has_active_grant a p s now rb1"
  shows "\<exists>g\<in>set (ru_grants rb1). same_grant (policy_key a) (policy_key p) (policy_key s) g \<and> gr_revoked g = NoStamp
     \<and> \<not> str_contains (gr_scope g) ''*'' \<and> (\<exists>t. gr_at g = rfc3339 t \<and> now < t + max_grant_ttl)"
proof -
  have "\<forall>g\<in>set (ru_grants rb1). grant_ok g"
    using assms(1,2)
  proof (induction rule: rule_run.induct)
    case (refl rb)
    then show ?case by simp
  next
    case (step rb rb1 e w act)
    then show ?case by (simp add: rule_step_grants)
  qed
  moreover obtain g where g: "g \<in> set (ru_grants rb1)" "same_grant (policy_key a) (policy_key p) (policy_key s) g"
      "grant_active g now"
    using assms(3) by (auto simp: has_active_grant_def Let_def list_ex_iff split: if_splits)
  ultimately obtain t u where u: "gr_at g = rfc3339 t" "parse_stamp (gr_expires g) = Some u" "u \<le> t + max_grant_ttl"
      "\<not> str_contains (gr_scope g) ''*''"
    by (auto simp: grant_ok_def)
  have "gr_expires g \<noteq> NoStamp" using u(2) by auto
  then have "gr_revoked g = NoStamp" "now < u" using g(3) u(2) by (auto simp: grant_active_def split: if_splits)
  then show ?thesis using g u by (intro bexI [of _ g]) auto
qed

section \<open>Taking a policy from one bot\<close>

lemma rescope_result:
  assumes "rescope_policy e write p bots rb = (Inr q, rb1)" "find (\<lambda>q. po_id q = po_id p) (ru_policies rb) = Some p"
  shows "po_bots q = bots \<and> find (\<lambda>q. po_id q = po_id p) (ru_policies rb1) = Some q"
proof (cases "bots = po_bots p")
  case True
  then show ?thesis using assms by (simp add: rescope_policy_def)
next
  case False
  then have q: "q = p\<lparr> po_bots := bots \<rparr>"
    "ru_policies rb1 = map_first (\<lambda>q. po_id q = po_id p) (\<lambda>q. q\<lparr> po_bots := bots \<rparr>) (ru_policies rb)"
    using assms(1) by (auto simp: rescope_policy_def save_rules_def Let_def edit_policy_def split: if_splits)
  then show ?thesis using find_map_first [OF assms(2), of "\<lambda>q. q\<lparr> po_bots := bots \<rparr>"] by simp
qed

lemma normalize_kept_member:
  assumes "\<forall>x\<in>set xs. policy_key x = x" "policy_key s \<noteq> []"
  shows "policy_key s \<in> set (normalize_policy_bots xs) \<longleftrightarrow> policy_key s \<in> set xs"
  using assms by (auto simp: set_normalize image_iff)

text \<open>C16. After a successful unassign the policy on file is the one answered: it no longer applies to the
  bot, it applies to every other bot exactly as before, and it has not turned into a rule for everybody;
  a rule for everybody becomes one for the other members of the office.\<close>

theorem unassign_exact:
  assumes "unassign_policy e write i a rb = (Inr q, rb1)" "policies_ok (ru_policies rb)"
    and "\<forall>m\<in>set (b_members (ru_broker rb)). policy_key (m_slug m) = m_slug m"
  shows "\<exists>p. find (\<lambda>p. po_id p = i) (ru_policies rb) = Some p \<and> find (\<lambda>p. po_id p = i) (ru_policies rb1) = Some q
     \<and> \<not> policy_applies q a \<and> po_bots q \<noteq> []
     \<and> (\<forall>s. policy_key s \<noteq> policy_key a \<and> policy_key s \<noteq> [] \<longrightarrow>
          policy_applies q s = (policy_applies p s \<and> (po_bots p = [] \<longrightarrow> policy_key s \<in> m_slug ` set (b_members (ru_broker rb)))))"
proof -
  obtain p where p: "find (\<lambda>p. po_id p = i) (ru_policies rb) = Some p"
    using assms(1) by (cases "find (\<lambda>p. po_id p = i) (ru_policies rb)") (auto simp: unassign_policy_def Let_def split: if_splits)
  define scope where "scope = (if po_bots p = [] then all_member_slugs (ru_broker rb) else po_bots p)"
  define kept where "kept = filter (\<lambda>s. s \<noteq> policy_key a) scope"
  have id: "po_id p = i" using find_SomeD [OF p] by simp
  have a: "policy_key a \<noteq> []" using assms(1) by (auto simp: unassign_policy_def Let_def split: if_splits)
  have kept: "kept \<noteq> []" and res: "rescope_policy e write p (normalize_policy_bots kept) rb = (Inr q, rb1)"
    using assms(1) p a by (auto simp: unassign_policy_def Let_def kept_def scope_def split: if_splits)
  have trimmed: "trim_space (m_slug m) = m_slug m" if "m \<in> set (b_members (ru_broker rb))" for m
  proof -
    have "m_slug m = policy_key (m_slug m)" using assms(3) that by simp
    then have "m_slug m = to_lower (trim_space (m_slug m))" by (simp add: policy_key_def)
    then show ?thesis by (metis trim_lower trim_space_idem)
  qed
  have members: "set (all_member_slugs (ru_broker rb)) = m_slug ` set (b_members (ru_broker rb)) - {[]}"
    using trimmed by (auto simp: all_member_slugs_def image_iff)
  have keyed: "\<forall>x\<in>set scope. policy_key x = x \<and> x \<noteq> []"
    using policy_found_ok [OF assms(2) p] assms(3) members
    by (auto simp: scope_def policy_ok_def scope_ok_def)
  have q: "po_bots q = normalize_policy_bots kept" "find (\<lambda>p. po_id p = i) (ru_policies rb1) = Some q"
    using rescope_result [OF res] p id by auto
  have mem: "policy_key s \<in> set (po_bots q) \<longleftrightarrow> policy_key s \<in> set scope \<and> policy_key s \<noteq> policy_key a"
    if "policy_key s \<noteq> []" for s
    using normalize_kept_member [of kept s] keyed that by (auto simp: q kept_def)
  have "set (po_bots q) = set kept"
    using keyed by (force simp: q set_normalize kept_def image_iff)
  then have nonempty: "po_bots q \<noteq> []" using kept by auto
  have "\<not> policy_applies q a" using mem [OF a] nonempty by (simp add: policy_applies_def)
  moreover have "policy_applies q s = (policy_applies p s \<and> (po_bots p = [] \<longrightarrow> policy_key s \<in> m_slug ` set (b_members (ru_broker rb))))"
    if "policy_key s \<noteq> policy_key a" "policy_key s \<noteq> []" for s
    using mem [OF that(2)] nonempty that members by (simp add: policy_applies_def scope_def)
  ultimately show ?thesis using p q nonempty by auto
qed


section \<open>Samples\<close>

text \<open>Code equations that look at the word before they go on, so the evaluation ends.\<close>

definition fields_of :: "string \<Rightarrow> string list" where
  [code del]: "fields_of w = (if w = [] then [] else fst (take_word w) # str_fields (snd (take_word w)))"

lemma fields_of_code [code]:
  "fields_of [] = []" "fields_of (c # r) = fst (take_word (c # r)) # str_fields (snd (take_word (c # r)))"
  by (simp_all add: fields_of_def)

lemma str_fields_code [code]: "str_fields s = fields_of (trim_left s)"
  by (subst str_fields.simps) (auto simp: fields_of_def split: list.split)

definition sample_rules :: rulebook where
  "sample_rules = \<lparr> ru_broker = sample_broker [], ru_policies = [], ru_grants = [] \<rparr>"

definition sample_policy_id :: string where
  "sample_policy_id = ''policy-'' @ itoa sample_now"

text \<open>The same rule told twice, each time for another bot; then a grant.\<close>

definition two_rules :: rulebook where
  "two_rules = rule_step sample_env (\<lambda>_. True) (RecordRule [] ''no spam '' ['' PM ''])
     (rule_step sample_env (\<lambda>_. True) (RecordRule [] '' No  spam'' [''eng'']) sample_rules)"

definition mail_grant :: grant_request where
  "mail_grant = \<lparr> gq_action = [], gq_id = [], gq_bot = ''eng'', gq_platform = ''gmail'', gq_scope = ''send'',
     gq_action_id = [], gq_channel = [], gq_issue = [], gq_expires = NoStamp \<rparr>"

definition granted_rules :: rulebook where
  "granted_rules = rule_step sample_env (\<lambda>_. True) (MutateGrant ''human'' mail_grant) sample_rules"

lemma two_rules_run: "rule_run sample_rules two_rules"
  unfolding two_rules_def by (intro rule_run.intros)

lemma granted_rules_run: "rule_run sample_rules granted_rules"
  unfolding granted_rules_def by (intro rule_run.intros)

lemma sample_texts:
  "trim_space '' No  spam'' = ''No  spam''" "trim_space ''no spam '' = ''no spam''" "trim_space ''No  spam'' = ''No  spam''"
  "normalize_rule ''No  spam'' = ''no spam''" "normalize_rule ''no spam'' = ''no spam''"
  "normalize_policy_bots [''eng''] = [''eng'']" "normalize_policy_bots ['' PM ''] = [''pm'']"
  "normalize_policy_bots [''eng'', ''pm''] = [''eng'', ''pm'']"
  by code_simp+

lemma sample_save: "b_tasks (ru_broker rb) = [] \<Longrightarrow> save_rules e (\<lambda>_. True) rb = (True, rb)"
  by (simp add: save_rules_def prune_completed_def)

lemma two_rules_file:
  "map po_bots (ru_policies two_rules) = [[''eng'', ''pm'']] \<and> map po_id (ru_policies two_rules) = [sample_policy_id]"
  "ru_broker two_rules = sample_broker []"
  by (simp_all add: Let_def sample_policy_id_def two_rules_def record_policy_def sample_rules_def sample_broker_def sample_texts sample_save
      new_policy_def merge_policy_bots_def edit_policy_def sample_env_def)

theorem policies_kept_witness:
  "policies_ok (ru_policies two_rules) \<and> map po_bots (ru_policies two_rules) = [[''eng'', ''pm'']]"
  using policies_kept [OF two_rules_run] two_rules_file by (simp add: sample_rules_def)

lemma granted_sample: "has_active_grant '' ENG'' ''gmail'' ''Send'' sample_now granted_rules"
  by code_simp

theorem grants_run_out_witness:
  "\<exists>g\<in>set (ru_grants granted_rules). same_grant ''eng'' ''gmail'' ''send'' g \<and> gr_revoked g = NoStamp"
proof -
  have keys: "policy_key '' ENG'' = ''eng''" "policy_key ''gmail'' = ''gmail''" "policy_key ''Send'' = ''send''"
    by code_simp+
  have "ru_grants sample_rules = []" by (simp add: sample_rules_def)
  from grants_run_out [OF granted_rules_run this granted_sample] show ?thesis
    unfolding keys by (elim bexE) (intro bexI, auto)
qed

definition after_unassign :: "rulebook" where
  "after_unassign = snd (unassign_policy sample_env (\<lambda>_. True) sample_policy_id ''PM'' two_rules)"

lemma unassign_sample:
  "case unassign_policy sample_env (\<lambda>_. True) sample_policy_id ''PM'' two_rules of
     (Inr q, rb) \<Rightarrow> po_bots q = [''eng''] | _ \<Rightarrow> False"
proof -
  obtain p where p: "ru_policies two_rules = [p]" "po_bots p = [''eng'', ''pm'']" "po_id p = sample_policy_id"
    using two_rules_file(1) by (cases "ru_policies two_rules") auto
  have "policy_key ''PM'' = ''pm''" by code_simp
  then show ?thesis
    using p two_rules_file(2)
    by (simp add: Let_def unassign_policy_def rescope_policy_def sample_texts sample_save edit_policy_def sample_broker_def)
qed

theorem unassign_exact_witness:
  "\<exists>q. find (\<lambda>p. po_id p = sample_policy_id) (ru_policies after_unassign) = Some q
     \<and> \<not> policy_applies q ''PM'' \<and> po_bots q = [''eng'']"
proof -
  obtain q where q: "unassign_policy sample_env (\<lambda>_. True) sample_policy_id ''PM'' two_rules = (Inr q, after_unassign)"
      "po_bots q = [''eng'']"
    using unassign_sample unfolding after_unassign_def
    by (cases "unassign_policy sample_env (\<lambda>_. True) sample_policy_id ''PM'' two_rules")
      (auto split: sum.splits)
  have "policies_ok (ru_policies sample_rules)" by (simp add: sample_rules_def policies_ok_def)
  then have "policies_ok (ru_policies two_rules)" unfolding two_rules_def by (intro rule_step_policies)
  moreover have "b_members (ru_broker two_rules) = []" by (simp add: two_rules_file sample_broker_def)
  ultimately have "\<exists>p. find (\<lambda>p. po_id p = sample_policy_id) (ru_policies two_rules) = Some p
     \<and> find (\<lambda>p. po_id p = sample_policy_id) (ru_policies after_unassign) = Some q \<and> \<not> policy_applies q ''PM''"
    using unassign_exact [OF q(1)] by auto
  then show ?thesis using q(2) by auto
qed

text \<open>A delete whose save fails answers an error and has withdrawn the rule all the same: the flag is not
  put back, unlike what the other requests do.\<close>

lemma delete_not_rolled_back:
  "find (\<lambda>p. po_id p = trim_space i) (ru_policies rb) = Some p \<Longrightarrow> trim_space i \<noteq> [] \<Longrightarrow>
   fst (delete_policy e (\<lambda>_. False) i rb) = Inl RuleUnsaved \<and>
   find (\<lambda>p. po_id p = trim_space i) (ru_policies (snd (delete_policy e (\<lambda>_. False) i rb))) = Some (p\<lparr> po_active := False \<rparr>)"
  using find_SomeD [of "\<lambda>p. po_id p = trim_space i" "ru_policies rb" p]
  by (auto simp: delete_policy_def Let_def save_rules_def edit_policy_def intro!: find_map_first)

text \<open>Taking a rule for everybody from a slug nobody has ends it being for everybody.\<close>

lemma unassign_stranger_freezes:
  assumes "find (\<lambda>p. po_id p = i) (ru_policies rb) = Some p" "po_bots p = []"
    and "policy_key a \<noteq> []" "policy_key a \<notin> set (all_member_slugs (ru_broker rb))" "all_member_slugs (ru_broker rb) \<noteq> []"
  shows "unassign_policy e write i a rb =
    rescope_policy e write p (normalize_policy_bots (all_member_slugs (ru_broker rb))) rb"
proof -
  have "filter (\<lambda>s. s \<noteq> policy_key a) (all_member_slugs (ru_broker rb)) = all_member_slugs (ru_broker rb)"
    using assms(4) by (auto simp: filter_id_conv)
  then show ?thesis using assms by (simp add: unassign_policy_def Let_def)
qed

end
