(* ===== verification/Spec2Isabelle.thy ===== *)
theory Spec2Isabelle
  imports LifecycleProps SchedulerProps ChannelProps BlockingProps TeamChannelProps TaskActionProps Calendar SpaceAccess
    SpaceQueryProps ExecutorProps WakeProps BotQueues OfficeRulesProps
begin

text \<open>
  A verification library for the office broker of this repository: the Go program that keeps a team of
  agents, their tasks, conversations, schedules and typed data.

  \<^bold>\<open>The program.\<close>  One process, the broker (\<^verbatim>\<open>src/internal/team\<close>), holds the state of the office under one
  mutex: members, channels, messages, tasks, requests, scheduler jobs, decision packets, logs.  A task
  moves through the life cycle of \<^verbatim>\<open>broker_lifecycle_transition.go\<close>; every move goes through one function
  that rewrites the legacy fields of the task, the inverse index, the chat card, the decision packet and
  the jobs.  Finishing a task releases the tasks that wait for it.  Beside the broker stand libraries it
  calls or serves: the channel store (\<^verbatim>\<open>src/internal/channel\<close>), the calendar of the agents
  (\<^verbatim>\<open>src/internal/calendar\<close>), the orchestration of the agents (\<^verbatim>\<open>src/internal/orchestration\<close>:
  an executor with slots, delegation by mention, routing by word similarity), the message queues of their loop
  (\<^verbatim>\<open>src/internal/bot/queues.go\<close>), and the data spaces (\<^verbatim>\<open>src/internal/dataspace\<close>), a typed
  record store over SQLite with access control.  The launcher decides which agents a message or a change of
  a task wakes (\<^verbatim>\<open>notifier_targets.go\<close>, \<^verbatim>\<open>office_targets.go\<close>).

  \<^bold>\<open>How the model corresponds to the code.\<close>  A struct is a record with the fields the modelled operations
  use, an enumeration a datatype (a text outside of it is a constructor with that text), a Go string the
  list of its bytes, a map an association list or a function, a pointer into a slice the id of the element.
  An operation under a lock is a function of the state.  An error is a value of a sum type; it keeps its
  kind, not its message.  What an operation takes from outside (clock, random ids, git, the disk, JSON
  decoding, floating-point numbers, the time zone) is an argument or a field of an environment record.
  SQL statements are operations on the lists of rows, with the \<open>PRIMARY KEY\<close>, \<open>UNIQUE\<close> and
  \<open>ON DELETE CASCADE\<close> clauses of the DDL.

  \<^bold>\<open>Shared vocabulary.\<close>
  \<^item> \<open>Prelude\<close>: the functions of the package \<^verbatim>\<open>strings\<close>, lists updated in place, time stamps.
  \<^item> \<open>Integers\<close>: 64-bit integers and \<^verbatim>\<open>strconv.Atoi\<close>; \<open>GoGlob\<close>: \<^verbatim>\<open>filepath.Match\<close>.
  \<^item> \<open>InverseIndex\<close>, \<open>LookupTable\<close>: the contracts of an inverse index and of a lookup table as locales; the
    life-cycle index, the tables of the channel store and the task lookup interpret them.
  \<^item> \<open>StableSort\<close>: insertion as the model of \<^verbatim>\<open>sort.SliceStable\<close>, with the locale \<open>comparison\<close> of the orders it
    sorts by, interpreted on the slugs of the members, the scores of the collaborators and the keys of a query.
  \<^item> \<open>Slugs\<close>: slugs and the lead-slug migration (\<^verbatim>\<open>broker_defaults.go\<close>, \<^verbatim>\<open>lead_slug_migration.go\<close>).

  \<^bold>\<open>The broker.\<close>
  \<^item> \<open>BrokerState\<close>: the records of \<^verbatim>\<open>broker_types.go\<close> and the bounded logs; \<open>Samples\<close>: states for witnesses.
  \<^item> \<open>LifecycleTable\<close>, \<open>Lifecycle\<close>, \<open>LifecycleProps\<close>: the states, the two maps between states and legacy
    fields, transition, index, card, packet, reindexing and migration.  A transition sets the legacy row of
    its state and moves the id between exactly two buckets; the packet and the task agree after each write.
  \<^item> \<open>Reviewers\<close>: who reviews a task, grades, convergence and its sweep, with the backing array the sweep
    ranges over while the bucket shrinks.
  \<^item> \<open>TaskPipeline\<close>, \<open>SchedulerJobs\<close>, \<open>SchedulerProps\<close>: plan normalisation and the jobs that shadow a task.
  \<^item> \<open>TeamChannels\<close>, \<open>TeamChannelProps\<close>: direct-message slugs, who may read a channel.
  \<^item> \<open>TaskDeps\<close>, \<open>TaskDepsProps\<close>, \<open>BlockingProps\<close>: blocking, resuming, the unblock cascade, worktrees, owner
    lanes, retention.  The cascade releases exactly the dependents whose other blockers are gone.
  \<^item> \<open>TaskActions\<close>, \<open>TaskActionProps\<close>: the actions of a request on an existing task: authority, gates, the
    action, completion gates, save and roll-back.

  \<^bold>\<open>Libraries beside the broker.\<close>
  \<^item> \<open>ChannelStore\<close>, \<open>ChannelProps\<close>: channels, members, messages, cursors, migration; the tables agree with
    the lists in every reachable state.
  \<^item> \<open>Cron\<close>, \<open>CronProps\<close>, \<open>Calendar\<close>: cron expressions, the search for the next minute, the schedules.
    The range loop of the parser is a partial function, since its counter may wrap; it is shown to end.
    The search stops at the two-year horizon the code sets.
  \<^item> \<open>Spaces\<close>, \<open>SpaceValues\<close>, \<open>SpaceSchema\<close>, \<open>SpaceRecords\<close>, \<open>SpaceStore\<close>: the data spaces from names and
    access to values, object types, relationships, records, links, two-step deletes, and the calls of the
    store.  \<open>SpaceSchemaProps\<close>, \<open>SpaceKeeps\<close>, \<open>SpaceWrites\<close>, \<open>SpaceDeletes\<close> show what every operation keeps of the
    database invariant of \<open>SpaceInv\<close>; \<open>SpaceProps\<close>, whose locale \<open>db_invariant\<close> carries it over the calls of a
    run, and \<open>SpaceAccess\<close>: the reachable stores, deletes and their tokens, who may change what.
  \<^item> \<open>SpaceQuery\<close>, \<open>SpaceQueryProps\<close>: filters, search, sort and pages; the conditions pushed into the SQL
    statement change no result, the pages cover the rows, the order is the one of the keys.
  \<^item> \<open>Executor\<close>, \<open>ExecutorProps\<close>: the tasks that are handed out and given back; slots, time-outs, what the
    listeners are told.  \<open>Delegation\<close>, \<open>TaskRouting\<close>, \<open>MessageRouting\<close>: mentions, similarity of words by common
    bigrams, the agents a message is for.  Floating-point numbers are a parameter with the laws of their order.
  \<^item> \<open>BotQueues\<close>: the three lanes of an agent; the locale \<open>fifo\<close> is the contract of a queue.

  \<^bold>\<open>The launcher and the rules.\<close>
  \<^item> \<open>OfficeTargets\<close>, \<open>WakeTargets\<close>, \<open>WakeProps\<close>: the members and how each is reached, the targets of a message and
    of a change of a task; nobody but the called wakes, the lead hears what comes from outside, a sender never
    wakes itself, and two agents cannot keep each other awake.
  \<^item> \<open>OfficeRules\<close>, \<open>OfficeRulesProps\<close>: policies with their scopes and the grants to use an integration.

  \<^bold>\<open>Bounds.\<close>  Timestamps and counters that the code keeps in 64 bits are unbounded here except in \<open>Cron\<close>, where
  the wrap-around can be reached from the input.  Case folding covers the ASCII letters.  One reading of the
  clock stands for the readings within one operation.  A log keeps the last entries up to the constant of the
  code.  No definition takes fuel: loops are structural, or terminate by a measure, or are partial functions.

  \<^bold>\<open>Not modelled.\<close>  HTTP handlers and decoding of requests; publishing to subscribers, the texts of notifications
  and the chat notifications other than the life-cycle card; the auto-notebook; worktree contents and git; the
  wiki and its index (text generation over files and git); processes of external agents, provider clients and
  chat bridges (network I/O); terminal, web, desktop and mobile clients; onboarding and assets.  Of the data
  spaces, the opening, caching and repair of database files.  Of the broker, requests and interviews, and the
  creation of tasks.  Of the orchestration, budgets.
\<close>

end
